(* ===== verification/Prelude.thy ===== *)
theory Prelude
  imports
    Complex_Main
    "HOL-Library.AList"
    "HOL-Library.Char_ord"
    "HOL-Library.List_Lexorder"
    "HOL-Library.Product_Lexorder"
    "HOL-Library.Sublist"
    "HOL-Library.Multiset"
begin

text \<open>
  Shared vocabulary of the development: the error monad used for every operation of the
  program that can raise, insertion-ordered dictionaries (Python's \<open>dict\<close>) as
  association lists, and the list operations of the Python library that the code uses
  with a fixed tie-breaking order (\<open>max\<close>, \<open>min\<close> with a key, slices).
\<close>

named_theorems res_simps \<open>rewrite rules of the error monad\<close>
named_theorems dict_simps \<open>rewrite rules of insertion-ordered dictionaries\<close>

section \<open>The error monad\<close>

text \<open>A computation that may raise: \<open>Inl\<close> carries the exception, \<open>Inr\<close> the value.\<close>

definition bindr :: "'e + 'a \<Rightarrow> ('a \<Rightarrow> 'e + 'b) \<Rightarrow> 'e + 'b" where
  "bindr m f = (case m of Inl e \<Rightarrow> Inl e | Inr x \<Rightarrow> f x)"

lemma bindr_simps [simp, res_simps]:
  "bindr (Inl e) f = Inl e"
  "bindr (Inr x) f = f x"
  by (simp_all add: bindr_def)

lemma bindr_cong [fundef_cong]:
  "m = m' \<Longrightarrow> (\<And>x. m' = Inr x \<Longrightarrow> f x = f' x) \<Longrightarrow> bindr m f = bindr m' f'"
  by (cases m') auto

lemma bindr_split:
  "P (bindr m f) \<longleftrightarrow> (\<forall>e. m = Inl e \<longrightarrow> P (Inl e)) \<and> (\<forall>x. m = Inr x \<longrightarrow> P (f x))"
  by (cases m) auto

lemma bindr_eq_Inr [res_simps]: "bindr m f = Inr y \<longleftrightarrow> (\<exists>x. m = Inr x \<and> f x = Inr y)"
  by (cases m) auto

lemma bindr_eq_Inl [res_simps]:
  "bindr m f = Inl e \<longleftrightarrow> m = Inl e \<or> (\<exists>x. m = Inr x \<and> f x = Inl e)"
  by (cases m) auto

lemma bindr_assoc: "bindr (bindr m f) g = bindr m (\<lambda>x. bindr (f x) g)"
  by (cases m) auto

text \<open>A loop that builds a list: it stops at the first element that raises.\<close>

fun mapr :: "('a \<Rightarrow> 'e + 'b) \<Rightarrow> 'a list \<Rightarrow> 'e + 'b list" where
  "mapr f [] = Inr []"
| "mapr f (x # xs) = bindr (f x) (\<lambda>y. bindr (mapr f xs) (\<lambda>ys. Inr (y # ys)))"

lemma mapr_cong [fundef_cong]:
  "xs = ys \<Longrightarrow> (\<And>x. x \<in> set ys \<Longrightarrow> f x = g x) \<Longrightarrow> mapr f xs = mapr g ys"
  by (induction xs arbitrary: ys) (auto intro: bindr_cong)

lemma mapr_Inr_map [simp]: "mapr (\<lambda>x. Inr (f x)) xs = Inr (map f xs)"
  by (induction xs) auto

lemma mapr_all_Inr: "(\<And>x. x \<in> set xs \<Longrightarrow> f x = Inr (g x)) \<Longrightarrow> mapr f xs = Inr (map g xs)"
  by (induction xs) auto

lemma mapr_length: "mapr f xs = Inr ys \<Longrightarrow> length ys = length xs"
  by (induction xs arbitrary: ys) (auto simp: bindr_eq_Inr)

lemma mapr_append:
  "mapr f (xs @ ys) = bindr (mapr f xs) (\<lambda>as. bindr (mapr f ys) (\<lambda>bs. Inr (as @ bs)))"
  by (induction xs) (auto split: sum.splits simp: bindr_def)

lemma mapr_Inr_nth: "mapr f xs = Inr ys \<Longrightarrow> i < length xs \<Longrightarrow> f (xs ! i) = Inr (ys ! i)"
proof (induction xs arbitrary: ys i)
  case (Cons x xs)
  then show ?case by (cases i) (auto simp: bindr_eq_Inr)
qed simp

lemma mapr_Inl_mem: "mapr f xs = Inl e \<Longrightarrow> \<exists>x \<in> set xs. f x = Inl e"
  by (induction xs) (auto simp: bindr_eq_Inl)

text \<open>A loop that threads a state: it stops at the first step that raises.\<close>

fun foldr_res :: "('a \<Rightarrow> 's \<Rightarrow> 'e + 's) \<Rightarrow> 'a list \<Rightarrow> 's \<Rightarrow> 'e + 's" where
  "foldr_res f [] s = Inr s"
| "foldr_res f (x # xs) s = bindr (f x s) (foldr_res f xs)"

lemma foldr_res_append:
  "foldr_res f (xs @ ys) s = bindr (foldr_res f xs s) (foldr_res f ys)"
  by (induction xs arbitrary: s) (auto simp: bindr_def split: sum.splits)

lemma foldr_res_invariant:
  assumes "foldr_res f xs s = Inr s'" and "P s"
    and "\<And>x s s'. x \<in> set xs \<Longrightarrow> P s \<Longrightarrow> f x s = Inr s' \<Longrightarrow> P s'"
  shows "P s'"
  using assms
proof (induction xs arbitrary: s)
  case (Cons x xs)
  then obtain t where t: "f x s = Inr t" and rest: "foldr_res f xs t = Inr s'"
    by (auto simp: bindr_eq_Inr)
  have "P t" using Cons.prems t by auto
  with Cons rest show ?case by auto
qed simp

definition the_res :: "'e + 'a \<Rightarrow> 'a option" where
  "the_res m = (case m of Inl _ \<Rightarrow> None | Inr x \<Rightarrow> Some x)"

definition is_ok :: "'e + 'a \<Rightarrow> bool" where
  "is_ok m = (case m of Inl _ \<Rightarrow> False | Inr _ \<Rightarrow> True)"

lemma is_ok_simps [simp]: "is_ok (Inr x)" "\<not> is_ok (Inl e)"
  by (simp_all add: is_ok_def)

lemma is_ok_iff: "is_ok m \<longleftrightarrow> (\<exists>x. m = Inr x)"
  by (cases m) auto

section \<open>Insertion-ordered dictionaries\<close>

text \<open>
  A Python \<open>dict\<close> keeps its keys in the order of their first insertion; assigning to
  a key that is present keeps its place. \<open>AList.update\<close> is that assignment, \<open>map_of\<close>
  the lookup. The keys of a dictionary are distinct (\<open>dict_ok\<close>).
\<close>

definition dict_ok :: "('k \<times> 'v) list \<Rightarrow> bool" where
  "dict_ok d = distinct (map fst d)"

definition dict_in :: "'k \<Rightarrow> ('k \<times> 'v) list \<Rightarrow> bool" where
  "dict_in k d = (map_of d k \<noteq> None)"

abbreviation dict_set :: "'k \<Rightarrow> 'v \<Rightarrow> ('k \<times> 'v) list \<Rightarrow> ('k \<times> 'v) list" where
  "dict_set \<equiv> AList.update"

definition dict_get :: "('k \<times> 'v) list \<Rightarrow> 'k \<Rightarrow> 'v \<Rightarrow> 'v" where
  "dict_get d k dflt = (case map_of d k of None \<Rightarrow> dflt | Some v \<Rightarrow> v)"

definition dict_setdefault :: "'k \<Rightarrow> 'v \<Rightarrow> ('k \<times> 'v) list \<Rightarrow> ('k \<times> 'v) list" where
  "dict_setdefault k v d = (if dict_in k d then d else d @ [(k, v)])"

fun dict_update :: "('k \<times> 'v) list \<Rightarrow> ('k \<times> 'v) list \<Rightarrow> ('k \<times> 'v) list" where
  "dict_update d [] = d"
| "dict_update d ((k, v) # e) = dict_update (dict_set k v d) e"

lemma map_of_dict_set [simp, dict_simps]: "map_of (dict_set k v d) = (map_of d)(k \<mapsto> v)"
  by (simp add: update_conv')

lemma dict_in_fst: "dict_in k d \<longleftrightarrow> k \<in> fst ` set d"
  by (simp add: dict_in_def map_of_eq_None_iff)

lemma dict_in_set [simp, dict_simps]: "dict_in k (dict_set k' v d) \<longleftrightarrow> k = k' \<or> dict_in k d"
  by (auto simp: dict_in_def)

lemma keys_dict_set: "fst ` set (dict_set k v d) = insert k (fst ` set d)"
  using dom_update [of k v d] by simp

lemma dict_ok_Nil [simp]: "dict_ok []"
  by (simp add: dict_ok_def)

lemma dict_ok_set [simp]: "dict_ok d \<Longrightarrow> dict_ok (dict_set k v d)"
  by (simp add: dict_ok_def distinct_update)

lemma map_of_setdefault [dict_simps]:
  "map_of (dict_setdefault k v d) k' = (if k' = k \<and> \<not> dict_in k d then Some v else map_of d k')"
  by (auto simp: dict_setdefault_def dict_in_def map_add_def split: option.splits)

lemma dict_ok_setdefault [simp]: "dict_ok d \<Longrightarrow> dict_ok (dict_setdefault k v d)"
  by (auto simp: dict_ok_def dict_setdefault_def dict_in_fst)

lemma dict_ok_update [simp]: "dict_ok d \<Longrightarrow> dict_ok (dict_update d e)"
  by (induction d e rule: dict_update.induct) auto

text \<open>Updating with a second dictionary: the second one wins on its own keys.\<close>

lemma map_of_dict_update:
  "dict_ok e \<Longrightarrow> map_of (dict_update d e) k =
     (case map_of e k of None \<Rightarrow> map_of d k | Some v \<Rightarrow> Some v)"
proof (induction d e rule: dict_update.induct)
  case (2 d k' v e)
  then have "dict_ok e" and "map_of e k' = None" by (auto simp: dict_ok_def map_of_eq_None_iff)
  with 2 show ?case by (auto split: option.splits)
qed simp

lemma dict_get_simps [dict_simps]:
  "dict_get [] k v = v"
  "dict_get ((k', w) # d) k v = (if k' = k then w else dict_get d k v)"
  by (auto simp: dict_get_def)

lemma dict_get_set [dict_simps]:
  "dict_get (dict_set k w d) k' v = (if k' = k then w else dict_get d k' v)"
  by (simp add: dict_get_def)

text \<open>
  A counter dictionary (\<open>d[k] = d.get(k, 0) + 1\<close>): the sum of its values grows by one.
\<close>

definition dict_bump :: "'k \<Rightarrow> ('k \<times> int) list \<Rightarrow> ('k \<times> int) list" where
  "dict_bump k d = dict_set k (dict_get d k 0 + 1) d"

lemma sum_dict_set:
  "sum_list (map snd (dict_set k (v::int) d)) = sum_list (map snd d) - dict_get d k 0 + v"
  by (induction d) (auto simp: dict_get_simps split: prod.splits)

lemma sum_dict_bump [simp]: "sum_list (map snd (dict_bump k d)) = sum_list (map snd d) + 1"
  by (simp add: dict_bump_def sum_dict_set)

lemma dict_bump_get [simp]:
  "dict_get (dict_bump k d) k' 0 = dict_get d k' 0 + (if k' = k then 1 else 0)"
  by (simp add: dict_bump_def dict_get_set)

lemma dict_ok_bump [simp]: "dict_ok d \<Longrightarrow> dict_ok (dict_bump k d)"
  by (simp add: dict_bump_def)

text \<open>\<open>d.setdefault(k, []).append(x)\<close>: a dictionary of histories.\<close>

definition dict_append :: "'k \<Rightarrow> 'v \<Rightarrow> ('k \<times> 'v list) list \<Rightarrow> ('k \<times> 'v list) list" where
  "dict_append k x d = dict_set k (dict_get d k [] @ [x]) d"

lemma dict_append_get [simp]:
  "dict_get (dict_append k x d) k' [] = dict_get d k' [] @ (if k' = k then [x] else [])"
  by (simp add: dict_append_def dict_get_set)

lemma dict_ok_append [simp]: "dict_ok d \<Longrightarrow> dict_ok (dict_append k x d)"
  by (simp add: dict_append_def)

section \<open>List operations with Python's tie-breaking\<close>

text \<open>
  \<open>max(xs, key=f)\<close> keeps the first element of greatest key, \<open>min(xs, key=f)\<close> the
  first of least key; the first element of the list is passed apart (both raise on an
  empty list, which the callers exclude).
\<close>

fun max_by :: "('a \<Rightarrow> 'k::linorder) \<Rightarrow> 'a \<Rightarrow> 'a list \<Rightarrow> 'a" where
  "max_by f x [] = x"
| "max_by f x (y # ys) = max_by f (if f x < f y then y else x) ys"

fun min_by :: "('a \<Rightarrow> 'k::linorder) \<Rightarrow> 'a \<Rightarrow> 'a list \<Rightarrow> 'a" where
  "min_by f x [] = x"
| "min_by f x (y # ys) = min_by f (if f y < f x then y else x) ys"

lemma max_by_in: "max_by f x ys \<in> set (x # ys)"
proof (induction ys arbitrary: x)
  case (Cons y ys)
  show ?case using Cons [of "if f x < f y then y else x"] by auto
qed simp

lemma max_by_ge_first: "f x \<le> f (max_by f x ys)"
proof (induction ys arbitrary: x)
  case (Cons y ys)
  show ?case using Cons [of "if f x < f y then y else x"] by (auto split: if_splits)
qed simp

lemma max_by_ge: "y \<in> set (x # ys) \<Longrightarrow> f y \<le> f (max_by f x ys)"
proof (induction ys arbitrary: x)
  case (Cons z zs)
  show ?case
  proof (cases "y \<in> set zs")
    case True
    with Cons.IH [of "if f x < f z then z else x"] show ?thesis by simp
  next
    case False
    with Cons.prems have "y = x \<or> y = z" by auto
    then have "f y \<le> f (if f x < f z then z else x)" by auto
    also have "\<dots> \<le> f (max_by f (if f x < f z then z else x) zs)" by (rule max_by_ge_first)
    finally show ?thesis by simp
  qed
qed simp

lemma max_by_map: "max_by f (g x) (map g ys) = g (max_by (f \<circ> g) x ys)"
  by (induction ys arbitrary: x) auto

lemma min_by_in: "min_by f x ys \<in> set (x # ys)"
proof (induction ys arbitrary: x)
  case (Cons y ys)
  show ?case using Cons [of "if f y < f x then y else x"] by auto
qed simp

lemma min_by_le_first: "f (min_by f x ys) \<le> f x"
proof (induction ys arbitrary: x)
  case (Cons y ys)
  show ?case using Cons [of "if f y < f x then y else x"] by (auto split: if_splits)
qed simp

lemma min_by_le: "y \<in> set (x # ys) \<Longrightarrow> f (min_by f x ys) \<le> f y"
proof (induction ys arbitrary: x)
  case (Cons z zs)
  show ?case
  proof (cases "y \<in> set zs")
    case True
    with Cons.IH [of "if f z < f x then z else x"] show ?thesis by simp
  next
    case False
    with Cons.prems have "y = x \<or> y = z" by auto
    then have "f (if f z < f x then z else x) \<le> f y" by auto
    with min_by_le_first [of f "if f z < f x then z else x" zs] show ?thesis
      by (auto intro: order.trans)
  qed
qed simp

text \<open>\<open>xs[offset: offset + limit]\<close> for non-negative bounds.\<close>

definition page :: "nat \<Rightarrow> nat \<Rightarrow> 'a list \<Rightarrow> 'a list" where
  "page offset limit xs = take limit (drop offset xs)"

lemma page_subset: "set (page offset limit xs) \<subseteq> set xs"
  by (auto simp: page_def dest: in_set_takeD in_set_dropD)

lemma page_length: "length (page offset limit xs) \<le> limit"
  by (simp add: page_def)

lemma filter_sort_key: "filter P (sort_key f xs) = sort_key f (filter P xs)"
  by (rule filter_sort)

lemma sorted_wrt_sort_key: "sorted_wrt (\<lambda>x y. f x \<le> f y) (sort_key f xs)"
  using sorted_sort_key [of f xs] by (simp add: sorted_wrt_map)

end
