(* ===== verification/Py_Value.thy ===== *)
theory Py_Value
  imports Prelude
begin

text \<open>
  The dynamic values the program computes with: decoded JSON documents (rule conditions,
  actions, incident payloads) as Python represents them, with Python's equality, ordering,
  truth value, membership, subscription, iteration and multiplication, each with the
  exceptions it raises. Integers are unbounded; a \<open>float\<close> is an IEEE 754 double,
  kept as the rational it denotes and rounded to 53 bits after every operation (the sign
  of a zero is not kept). Text is ASCII text. A \<open>NaN\<close> inside a list or dictionary is
  compared by value, where CPython compares object identity first.
\<close>

named_theorems val_simps \<open>rewrite rules of the operations on dynamic values\<close>

section \<open>Doubles\<close>

datatype fl = Fin rat | PosInf | NegInf | NaN

text \<open>Round half to even, to the nearest integer.\<close>

definition round_half_even :: "rat \<Rightarrow> int" where
  "round_half_even r =
     (let f = \<lfloor>r\<rfloor>; d = r - of_int f
      in if d < 1 / 2 then f else if 1 / 2 < d then f + 1 else if even f then f else f + 1)"

function bit_length :: "int \<Rightarrow> int" where
  "bit_length n = (if n \<le> 0 then 0 else 1 + bit_length (n div 2))"
  by pat_completeness auto
termination
  by (relation "measure nat") auto

declare bit_length.simps [simp del]

definition pow2 :: "int \<Rightarrow> rat" where
  "pow2 e = (if 0 \<le> e then of_int (2 ^ nat e) else 1 / of_int (2 ^ nat (- e)))"

text \<open>The binary exponent of a positive rational: \<open>2^e \<le> a < 2^(e+1)\<close>.\<close>

definition ilog2 :: "rat \<Rightarrow> int" where
  "ilog2 a =
     (case quotient_of a of (p, q) \<Rightarrow>
        let e = bit_length p - bit_length q
        in if pow2 e \<le> a then e else e - 1)"

text \<open>
  Rounding to the nearest double, ties to even: 53 bits of precision, the least exponent
  being that of the subnormal numbers, and infinity from \<open>2^1024\<close> on.
\<close>

definition rnd :: "rat \<Rightarrow> fl" where
  "rnd x =
     (if x = 0 then Fin 0
      else let a = \<bar>x\<bar>; u = pow2 (max (ilog2 a) (-1022) - 52);
               y = of_int (round_half_even (a / u)) * u
           in if pow2 1024 \<le> y then (if 0 < x then PosInf else NegInf)
              else Fin (if 0 < x then y else - y))"

fun fl_less :: "fl \<Rightarrow> fl \<Rightarrow> bool" where
  "fl_less (Fin x) (Fin y) = (x < y)"
| "fl_less (Fin x) PosInf = True"
| "fl_less NegInf (Fin y) = True"
| "fl_less NegInf PosInf = True"
| "fl_less _ _ = False"

fun fl_eq :: "fl \<Rightarrow> fl \<Rightarrow> bool" where
  "fl_eq (Fin x) (Fin y) = (x = y)"
| "fl_eq PosInf PosInf = True"
| "fl_eq NegInf NegInf = True"
| "fl_eq _ _ = False"

fun fl_sign :: "fl \<Rightarrow> rat" where
  "fl_sign (Fin x) = sgn x"
| "fl_sign PosInf = 1"
| "fl_sign NegInf = -1"
| "fl_sign NaN = 0"

definition fl_mul :: "fl \<Rightarrow> fl \<Rightarrow> fl" where
  "fl_mul x y =
     (case (x, y) of
        (Fin a, Fin b) \<Rightarrow> rnd (a * b)
      | _ \<Rightarrow> if x = NaN \<or> y = NaN \<or> fl_sign x * fl_sign y = 0 then NaN
             else if 0 < fl_sign x * fl_sign y then PosInf else NegInf)"

definition fl_div :: "fl \<Rightarrow> rat \<Rightarrow> fl" where
  \<comment> \<open>division of a double by a finite, positive double\<close>
  "fl_div x d = (case x of Fin a \<Rightarrow> rnd (a / d) | _ \<Rightarrow> x)"

definition fl_add :: "fl \<Rightarrow> fl \<Rightarrow> fl" where
  "fl_add x y =
     (case (x, y) of
        (Fin a, Fin b) \<Rightarrow> rnd (a + b)
      | (Fin a, _) \<Rightarrow> y
      | (_, Fin b) \<Rightarrow> x
      | _ \<Rightarrow> if x = y then x else NaN)"

lemma fl_eq_sym: "fl_eq x y = fl_eq y x"
  by (cases x; cases y) auto

lemma fl_eq_iff: "fl_eq x y \<longleftrightarrow> x = y \<and> x \<noteq> NaN"
  by (cases x; cases y) auto

lemma fl_less_irrefl [simp]: "\<not> fl_less x x"
  by (cases x) auto

lemma fl_less_trans: "fl_less x y \<Longrightarrow> fl_less y z \<Longrightarrow> fl_less x z"
  by (cases x; cases y; cases z) auto

section \<open>Values\<close>

datatype val =
    PNone
  | PBool bool
  | PInt int
  | PFloat fl
  | PStr string
  | PList "val list"
  | PDict "(string \<times> val) list"

type_synonym dict = "(string \<times> val) list"

text \<open>The exceptions the program raises or lets through.\<close>

datatype exn =
    ValueError string
  | TypeError
  | KeyError string
  | IndexError
  | AttributeError
  | OverflowError
  | LookupError string
  | RuntimeError string
  | AIProviderError string
  | DatabaseError string
  | ConcurrentModificationError string
  | JWTError string
  | HTTPException nat string

type_synonym 'a res = "exn + 'a"

fun is_value_error :: "exn \<Rightarrow> bool" where
  "is_value_error (ValueError _) = True"
| "is_value_error _ = False"

text \<open>The number of nodes of a value: the measure of the recursions over it.\<close>

fun nodes :: "val \<Rightarrow> nat" where
  "nodes (PList xs) = Suc (sum_list (map nodes xs))"
| "nodes (PDict d) = Suc (sum_list (map (\<lambda>(k, v). nodes v) d))"
| "nodes _ = 1"

lemma nodes_pos [simp]: "0 < nodes v"
  by (cases v) auto

lemma nodes_ge_1 [simp]: "Suc 0 \<le> nodes v"
  by (simp add: Suc_le_eq)

lemma nodes_mem_list: "x \<in> set xs \<Longrightarrow> nodes x \<le> sum_list (map nodes xs)"
  by (induction xs) auto

lemma nodes_mem_dict: "(k, v) \<in> set d \<Longrightarrow> nodes v \<le> sum_list (map (\<lambda>(k, v). nodes v) d)"
  by (induction d) auto

subsection \<open>Numbers, truth value, equality\<close>

fun num_of :: "val \<Rightarrow> fl option" where
  "num_of (PBool b) = Some (Fin (if b then 1 else 0))"
| "num_of (PInt i) = Some (Fin (of_int i))"
| "num_of (PFloat x) = Some x"
| "num_of _ = None"

fun int_of :: "val \<Rightarrow> int option" where
  "int_of (PBool b) = Some (if b then 1 else 0)"
| "int_of (PInt i) = Some i"
| "int_of _ = None"

fun py_bool :: "val \<Rightarrow> bool" where
  "py_bool PNone = False"
| "py_bool (PBool b) = b"
| "py_bool (PInt i) = (i \<noteq> 0)"
| "py_bool (PFloat x) = (x \<noteq> Fin 0)"
| "py_bool (PStr s) = (s \<noteq> [])"
| "py_bool (PList xs) = (xs \<noteq> [])"
| "py_bool (PDict d) = (d \<noteq> [])"

text \<open>\<open>isinstance(v, bool)\<close>\<close>

fun is_bool :: "val \<Rightarrow> bool" where
  "is_bool (PBool b) = True"
| "is_bool _ = False"

definition num_eq :: "fl option \<Rightarrow> fl option \<Rightarrow> bool" where
  "num_eq a b = (case (a, b) of (Some x, Some y) \<Rightarrow> fl_eq x y | _ \<Rightarrow> False)"

text \<open>
  \<open>==\<close>: numbers by value across \<open>bool\<close>, \<open>int\<close> and \<open>float\<close>, dictionaries
  without regard to the order of their keys.
\<close>

function py_eq :: "val \<Rightarrow> val \<Rightarrow> bool"
  and py_eqs :: "val list \<Rightarrow> val list \<Rightarrow> bool" where
  "py_eq PNone w = (w = PNone)"
| "py_eq (PBool b) w = num_eq (num_of (PBool b)) (num_of w)"
| "py_eq (PInt i) w = num_eq (num_of (PInt i)) (num_of w)"
| "py_eq (PFloat x) w = num_eq (num_of (PFloat x)) (num_of w)"
| "py_eq (PStr s) w = (w = PStr s)"
| "py_eq (PList xs) w = (case w of PList ys \<Rightarrow> py_eqs xs ys | _ \<Rightarrow> False)"
| "py_eq (PDict d) w =
     (case w of
        PDict e \<Rightarrow> length d = length e \<and>
          list_all (\<lambda>(k, v). case map_of e k of None \<Rightarrow> False | Some u \<Rightarrow> py_eq v u) d
      | _ \<Rightarrow> False)"
| "py_eqs [] ys = (ys = [])"
| "py_eqs (x # xs) ys = (case ys of [] \<Rightarrow> False | y # ys' \<Rightarrow> py_eq x y \<and> py_eqs xs ys')"
  by pat_completeness auto
termination
  by (relation "measure (\<lambda>a. case a of Inl (v, w) \<Rightarrow> 2 * nodes v
                             | Inr (xs, ys) \<Rightarrow> Suc (2 * sum_list (map nodes xs)))")
    (auto dest: nodes_mem_dict simp: less_Suc_eq_le)

subsection \<open>Ordering\<close>

datatype cmp = Lt | Le | Gt | Ge

fun cmp_fl :: "cmp \<Rightarrow> fl \<Rightarrow> fl \<Rightarrow> bool" where
  "cmp_fl Lt x y = fl_less x y"
| "cmp_fl Le x y = (fl_less x y \<or> fl_eq x y)"
| "cmp_fl Gt x y = fl_less y x"
| "cmp_fl Ge x y = (fl_less y x \<or> fl_eq x y)"

fun cmp_ord :: "cmp \<Rightarrow> 'a::linorder \<Rightarrow> 'a \<Rightarrow> bool" where
  "cmp_ord Lt x y = (x < y)"
| "cmp_ord Le x y = (x \<le> y)"
| "cmp_ord Gt x y = (y < x)"
| "cmp_ord Ge x y = (y \<le> x)"

definition cmp_num :: "cmp \<Rightarrow> fl option \<Rightarrow> fl option \<Rightarrow> bool res" where
  "cmp_num c a b = (case (a, b) of (Some x, Some y) \<Rightarrow> Inr (cmp_fl c x y) | _ \<Rightarrow> Inl TypeError)"

function py_cmp :: "cmp \<Rightarrow> val \<Rightarrow> val \<Rightarrow> bool res"
  and cmp_lists :: "cmp \<Rightarrow> val list \<Rightarrow> val list \<Rightarrow> bool res" where
  "py_cmp c PNone w = Inl TypeError"
| "py_cmp c (PBool b) w = cmp_num c (num_of (PBool b)) (num_of w)"
| "py_cmp c (PInt i) w = cmp_num c (num_of (PInt i)) (num_of w)"
| "py_cmp c (PFloat x) w = cmp_num c (num_of (PFloat x)) (num_of w)"
| "py_cmp c (PStr s) w = (case w of PStr t \<Rightarrow> Inr (cmp_ord c s t) | _ \<Rightarrow> Inl TypeError)"
| "py_cmp c (PList xs) w = (case w of PList ys \<Rightarrow> cmp_lists c xs ys | _ \<Rightarrow> Inl TypeError)"
| "py_cmp c (PDict d) w = Inl TypeError"
| "cmp_lists c [] ys = Inr (cmp_ord c 0 (length ys))"
| "cmp_lists c (x # xs) ys =
     (case ys of
        [] \<Rightarrow> Inr (cmp_ord c (length (x # xs)) 0)
      | y # ys' \<Rightarrow> if py_eq x y then cmp_lists c xs ys' else py_cmp c x y)"
  by pat_completeness auto
termination
  by (relation "measure (\<lambda>a. case a of Inl (c, v, w) \<Rightarrow> 2 * nodes v
                             | Inr (c, xs, ys) \<Rightarrow> Suc (2 * sum_list (map nodes xs)))")
    (auto simp: less_Suc_eq_le)

subsection \<open>Subscription, iteration, membership, multiplication\<close>

definition py_index :: "val \<Rightarrow> nat \<Rightarrow> val res" where
  "py_index v i =
     (case v of
        PList xs \<Rightarrow> if i < length xs then Inr (xs ! i) else Inl IndexError
      | PStr s \<Rightarrow> if i < length s then Inr (PStr [s ! i]) else Inl IndexError
      | PDict d \<Rightarrow> Inl (KeyError (if i = 0 then ''0'' else ''1''))
      | _ \<Rightarrow> Inl TypeError)"

definition py_iter :: "val \<Rightarrow> val list res" where
  "py_iter v =
     (case v of
        PList xs \<Rightarrow> Inr xs
      | PStr s \<Rightarrow> Inr (map (\<lambda>c. PStr [c]) s)
      | PDict d \<Rightarrow> Inr (map (\<lambda>(k, _). PStr k) d)
      | _ \<Rightarrow> Inl TypeError)"

fun str_in :: "string \<Rightarrow> string \<Rightarrow> bool" where
  "str_in s [] = (s = [])"
| "str_in s (c # t) = (prefix s (c # t) \<or> str_in s t)"

definition py_in :: "val \<Rightarrow> val \<Rightarrow> bool res" where
  "py_in needle haystack =
     (case haystack of
        PList xs \<Rightarrow> Inr (list_ex (py_eq needle) xs)
      | PStr t \<Rightarrow> (case needle of PStr s \<Rightarrow> Inr (str_in s t) | _ \<Rightarrow> Inl TypeError)
      | PDict d \<Rightarrow>
          (case needle of
             PStr s \<Rightarrow> Inr (dict_in s d)
           | PList _ \<Rightarrow> Inl TypeError
           | PDict _ \<Rightarrow> Inl TypeError
           | _ \<Rightarrow> Inr False)
      | _ \<Rightarrow> Inl TypeError)"

definition int_to_fl :: "int \<Rightarrow> fl res" where
  "int_to_fl i = (case rnd (of_int i) of Fin x \<Rightarrow> Inr (Fin x) | _ \<Rightarrow> Inl OverflowError)"

definition to_fl :: "val \<Rightarrow> fl res" where
  "to_fl v =
     (case v of
        PFloat x \<Rightarrow> Inr x
      | _ \<Rightarrow> (case int_of v of Some i \<Rightarrow> int_to_fl i | None \<Rightarrow> Inl TypeError))"

definition repeat_seq :: "int \<Rightarrow> 'a list \<Rightarrow> 'a list" where
  "repeat_seq n xs = concat (replicate (nat n) xs)"

definition py_mul :: "val \<Rightarrow> val \<Rightarrow> val res" where
  "py_mul a b =
     (case (int_of a, int_of b) of
        (Some i, Some j) \<Rightarrow> Inr (PInt (i * j))
      | (Some i, None) \<Rightarrow>
          (case b of
             PFloat y \<Rightarrow> bindr (int_to_fl i) (\<lambda>x. Inr (PFloat (fl_mul x y)))
           | PStr s \<Rightarrow> Inr (PStr (repeat_seq i s))
           | PList xs \<Rightarrow> Inr (PList (repeat_seq i xs))
           | _ \<Rightarrow> Inl TypeError)
      | (None, Some j) \<Rightarrow>
          (case a of
             PFloat x \<Rightarrow> bindr (int_to_fl j) (\<lambda>y. Inr (PFloat (fl_mul x y)))
           | PStr s \<Rightarrow> Inr (PStr (repeat_seq j s))
           | PList xs \<Rightarrow> Inr (PList (repeat_seq j xs))
           | _ \<Rightarrow> Inl TypeError)
      | (None, None) \<Rightarrow>
          (case (a, b) of (PFloat x, PFloat y) \<Rightarrow> Inr (PFloat (fl_mul x y)) | _ \<Rightarrow> Inl TypeError))"

text \<open>\<open>d.get(k)\<close>: \<open>None\<close> when the key is absent; \<open>d[k]\<close> raises \<open>KeyError\<close>.\<close>

definition get_none :: "dict \<Rightarrow> string \<Rightarrow> val" where
  "get_none d k = dict_get d k PNone"

definition get_item :: "(string \<times> 'v) list \<Rightarrow> string \<Rightarrow> 'v res" where
  "get_item d k = (case map_of d k of None \<Rightarrow> Inl (KeyError k) | Some v \<Rightarrow> Inr v)"

end
