(* ===== verification/Py_Text.thy ===== *)
theory Py_Text
  imports Py_Value
begin

text \<open>
  Text operations of the Python library used by the program (\<open>lower\<close>, \<open>upper\<close>,
  \<open>strip\<close>, \<open>split\<close>, \<open>int(text)\<close>) and the rendering of values by
  \<open>str\<close> and \<open>repr\<close>, which the program interpolates into messages and into the
  \<open>targetSLA\<close> action. Text is ASCII text.
\<close>

section \<open>Characters and words\<close>

definition code_of :: "char \<Rightarrow> nat" where
  "code_of c = of_char c"

definition char_at :: "nat \<Rightarrow> char" where
  "char_at n = char_of n"

definition lower_char :: "char \<Rightarrow> char" where
  "lower_char c = (if 65 \<le> code_of c \<and> code_of c \<le> 90 then char_at (code_of c + 32) else c)"

definition upper_char :: "char \<Rightarrow> char" where
  "upper_char c = (if 97 \<le> code_of c \<and> code_of c \<le> 122 then char_at (code_of c - 32) else c)"

definition py_lower :: "string \<Rightarrow> string" where
  "py_lower s = map lower_char s"

definition py_upper :: "string \<Rightarrow> string" where
  "py_upper s = map upper_char s"

definition is_space :: "char \<Rightarrow> bool" where
  "is_space c = (code_of c = 32 \<or> (9 \<le> code_of c \<and> code_of c \<le> 13) \<or>
                 (28 \<le> code_of c \<and> code_of c \<le> 31))"

definition py_strip :: "string \<Rightarrow> string" where
  "py_strip s = rev (dropWhile is_space (rev (dropWhile is_space s)))"

text \<open>\<open>s.split()\<close>: the maximal runs of non-space characters.\<close>

function split_ws :: "string \<Rightarrow> string list" where
  "split_ws s =
     (let t = dropWhile is_space s
      in if t = [] then []
         else takeWhile (\<lambda>c. \<not> is_space c) t # split_ws (dropWhile (\<lambda>c. \<not> is_space c) t))"
  by pat_completeness auto

lemma split_ws_decreases:
  assumes "dropWhile is_space s \<noteq> []"
  shows "length (dropWhile (\<lambda>c. \<not> is_space c) (dropWhile is_space s)) < length s"
proof -
  let ?t = "dropWhile is_space s"
  obtain c t where t: "?t = c # t" using assms by (cases ?t) auto
  have "\<not> is_space c" using hd_dropWhile [of is_space s] t by auto
  then have "length (dropWhile (\<lambda>c. \<not> is_space c) ?t) \<le> length t"
    using t by (simp add: length_dropWhile_le)
  also have "\<dots> < length ?t" using t by simp
  also have "\<dots> \<le> length s" by (rule length_dropWhile_le)
  finally show ?thesis .
qed

termination split_ws
  by (relation "measure length") (auto intro: split_ws_decreases)

declare split_ws.simps [simp del]

text \<open>\<open>s.split(c)\<close> for a separator of one character.\<close>

fun split_on :: "char \<Rightarrow> string \<Rightarrow> string list" where
  "split_on c [] = [[]]"
| "split_on c (x # xs) =
     (if x = c then [] # split_on c xs
      else (case split_on c xs of [] \<Rightarrow> [[x]] | p # ps \<Rightarrow> (x # p) # ps))"

lemma split_on_nonempty [simp]: "split_on c s \<noteq> []"
  by (induction s) (auto split: list.splits)

lemma split_on_append:
  "c \<notin> set p \<Longrightarrow> split_on c (p @ c # s) = p # split_on c s"
  by (induction p) auto

lemma split_on_plain: "c \<notin> set p \<Longrightarrow> split_on c p = [p]"
  by (induction p) auto

section \<open>Decimal numerals\<close>

definition digit_char :: "nat \<Rightarrow> char" where
  "digit_char d = char_at (48 + d)"

definition is_digit :: "char \<Rightarrow> bool" where
  "is_digit c = (48 \<le> code_of c \<and> code_of c \<le> 57)"

definition digit_val :: "char \<Rightarrow> nat" where
  "digit_val c = code_of c - 48"

function str_of_pos :: "int \<Rightarrow> string" where
  "str_of_pos n =
     (if n < 10 then [digit_char (nat n)]
      else str_of_pos (n div 10) @ [digit_char (nat (n mod 10))])"
  by pat_completeness auto
termination
  by (relation "measure nat") auto

declare str_of_pos.simps [simp del]

definition str_of_int :: "int \<Rightarrow> string" where
  "str_of_int i = (if i < 0 then CHR ''-'' # str_of_pos (- i) else str_of_pos i)"

text \<open>
  \<open>int(text)\<close> on text without surrounding white space: an optional sign, then digits
  with single underscores allowed between them.
\<close>

definition int_of_digits :: "string \<Rightarrow> int" where
  "int_of_digits s = foldl (\<lambda>n c. 10 * n + int (digit_val c)) 0 s"

definition py_int :: "string \<Rightarrow> int res" where
  "py_int s =
     (let (neg, body) =
        (case s of
           c # t \<Rightarrow> if c = CHR ''-'' then (True, t) else if c = CHR ''+'' then (False, t) else (False, s)
         | [] \<Rightarrow> (False, s));
        groups = split_on CHR ''_'' body
      in if list_all (\<lambda>g. g \<noteq> [] \<and> list_all is_digit g) groups
         then Inr (let n = int_of_digits (concat groups) in if neg then - n else n)
         else Inl (ValueError ''invalid literal for int()''))"

lemma code_of_digit_char: "d < 10 \<Longrightarrow> code_of (digit_char d) = 48 + d"
  by (simp add: code_of_def digit_char_def char_at_def)

lemma digit_char_props:
  assumes "d < 10"
  shows "is_digit (digit_char d)" "digit_val (digit_char d) = d"
    "digit_char d \<noteq> CHR ''_''" "\<not> is_space (digit_char d)"
    "digit_char d \<noteq> CHR ''-''" "digit_char d \<noteq> CHR ''+''"
  using code_of_digit_char [OF assms] assms
  by (auto simp: is_digit_def digit_val_def is_space_def code_of_def)

lemma str_of_pos_digits: "0 \<le> n \<Longrightarrow> c \<in> set (str_of_pos n) \<Longrightarrow> \<exists>d < 10. c = digit_char d"
proof (induction n rule: str_of_pos.induct)
  case (1 n)
  show ?case
  proof (cases "n < 10")
    case True
    with "1.prems" show ?thesis by (auto simp: str_of_pos.simps [of n] intro!: exI [of _ "nat n"])
  next
    case False
    with "1.prems" have "c \<in> set (str_of_pos (n div 10)) \<or> c = digit_char (nat (n mod 10))"
      by (auto simp: str_of_pos.simps [of n])
    then show ?thesis
    proof
      assume "c \<in> set (str_of_pos (n div 10))"
      with "1.IH" "1.prems" False show ?thesis by simp
    next
      assume "c = digit_char (nat (n mod 10))"
      then show ?thesis by (intro exI [of _ "nat (n mod 10)"]) auto
    qed
  qed
qed

lemma str_of_pos_nonempty [simp]: "str_of_pos n \<noteq> []"
  by (subst str_of_pos.simps) simp

lemma int_of_digits_str_of_pos [simp]: "0 \<le> n \<Longrightarrow> int_of_digits (str_of_pos n) = n"
proof (induction n rule: str_of_pos.induct)
  case (1 n)
  show ?case
  proof (cases "n < 10")
    case True
    with "1.prems" have "digit_val (digit_char (nat n)) = nat n" by (intro digit_char_props) auto
    with True "1.prems" show ?thesis by (subst str_of_pos.simps) (simp add: int_of_digits_def)
  next
    case False
    have "digit_val (digit_char (nat (n mod 10))) = nat (n mod 10)" by (intro digit_char_props) auto
    moreover have "int_of_digits (str_of_pos (n div 10)) = n div 10"
      using "1.IH" False "1.prems" by simp
    ultimately show ?thesis
      using False by (subst str_of_pos.simps) (simp add: int_of_digits_def)
  qed
qed

lemma str_of_pos_plain:
  assumes "0 \<le> n"
  shows "list_all is_digit (str_of_pos n)" "CHR ''_'' \<notin> set (str_of_pos n)"
    "list_all (\<lambda>c. \<not> is_space c) (str_of_pos n)"
    "\<exists>c t. str_of_pos n = c # t \<and> c \<noteq> CHR ''-'' \<and> c \<noteq> CHR ''+''"
proof -
  have D: "is_digit c \<and> c \<noteq> CHR ''_'' \<and> \<not> is_space c \<and> c \<noteq> CHR ''-'' \<and> c \<noteq> CHR ''+''"
    if c: "c \<in> set (str_of_pos n)" for c
  proof -
    obtain d where "d < 10" "c = digit_char d" using str_of_pos_digits [OF assms c] by auto
    then show ?thesis using digit_char_props [of d] by simp
  qed
  then show "list_all is_digit (str_of_pos n)" "CHR ''_'' \<notin> set (str_of_pos n)"
    "list_all (\<lambda>c. \<not> is_space c) (str_of_pos n)" by (auto simp: list_all_iff)
  show "\<exists>c t. str_of_pos n = c # t \<and> c \<noteq> CHR ''-'' \<and> c \<noteq> CHR ''+''"
    using D by (cases "str_of_pos n") auto
qed

text \<open>Reading a printed integer gives it back.\<close>

lemma py_int_str_of_int: "py_int (str_of_int i) = Inr i"
proof (cases "i < 0")
  case True
  then have "0 \<le> - i" by simp
  from str_of_pos_plain(1,2) [OF this]
  have "split_on CHR ''_'' (str_of_pos (- i)) = [str_of_pos (- i)]"
    and "list_all is_digit (str_of_pos (- i))" by (simp_all add: split_on_plain)
  with True show ?thesis by (simp add: py_int_def str_of_int_def Let_def)
next
  case False
  then obtain c t where ct: "str_of_pos i = c # t" "c \<noteq> CHR ''-''" "c \<noteq> CHR ''+''"
    using str_of_pos_plain(4) [of i] by auto
  then have "split_on CHR ''_'' (c # t) = [c # t]" "list_all is_digit (c # t)"
    using str_of_pos_plain(1,2) [of i] False by (auto simp: split_on_plain)
  moreover have "int_of_digits (c # t) = i"
    using ct(1) False int_of_digits_str_of_pos [of i] by simp
  ultimately show ?thesis
    using False ct by (simp add: py_int_def str_of_int_def Let_def)
qed

section \<open>str and repr\<close>

text \<open>The decimal exponent of a positive rational: \<open>10^e \<le> a < 10^(e+1)\<close>.\<close>

definition pow10 :: "int \<Rightarrow> rat" where
  "pow10 e = (if 0 \<le> e then of_int (10 ^ nat e) else 1 / of_int (10 ^ nat (- e)))"

definition ilog10 :: "rat \<Rightarrow> int" where
  "ilog10 a =
     (case quotient_of a of (p, q) \<Rightarrow>
        let e = int (length (str_of_pos p)) - int (length (str_of_pos q))
        in if pow10 e \<le> a then e else e - 1)"

text \<open>
  The decimal of \<open>n\<close> significant digits that reads back as the double \<open>a\<close>, the nearest
  one where both neighbours do; \<open>None\<close> when \<open>n\<close> digits are not enough.
\<close>

definition digits_of :: "nat \<Rightarrow> rat \<Rightarrow> int option" where
  "digits_of n a =
     (let u = pow10 (ilog10 a - int n + 1);
          lo = \<lfloor>a / u\<rfloor>; hi = \<lceil>a / u\<rceil>;
          ok = (\<lambda>m. rnd (of_int m * u) = Fin a)
      in if ok lo \<and> ok hi then Some (round_half_even (a / u))
         else if ok lo then Some lo else if ok hi then Some hi else None)"

text \<open>The shortest decimal that reads back as the double: at most 17 digits are needed.\<close>

fun shortest :: "nat list \<Rightarrow> rat \<Rightarrow> nat \<times> int" where
  "shortest [] a = (17, round_half_even (a / pow10 (ilog10 a - 16)))"
| "shortest (n # ns) a = (case digits_of n a of Some m \<Rightarrow> (n, m) | None \<Rightarrow> shortest ns a)"

definition strip_zeros :: "string \<Rightarrow> string" where
  "strip_zeros s = rev (dropWhile (\<lambda>c. c = CHR ''0'') (rev s))"

definition fl_repr_pos :: "rat \<Rightarrow> string" where
  "fl_repr_pos a =
     (case shortest [1..<17] a of (n, m) \<Rightarrow>
        let e = (if 10 ^ n \<le> m then ilog10 a + 1 else ilog10 a);
            ds = strip_zeros (str_of_pos m)
        in if -4 \<le> e \<and> e < 16 then
             (if e < 0 then ''0.'' @ replicate (nat (- e) - 1) CHR ''0'' @ ds
              else let w = nat e + 1
                   in if length ds \<le> w then ds @ replicate (w - length ds) CHR ''0'' @ ''.0''
                      else take w ds @ ''.'' @ drop w ds)
           else
             (take 1 ds @ (if length ds = 1 then [] else CHR ''.'' # drop 1 ds) @ ''e'' @
              (if e < 0 then ''-'' else ''+'') @
              (let x = str_of_pos \<bar>e\<bar> in if length x < 2 then CHR ''0'' # x else x)))"

fun fl_repr :: "fl \<Rightarrow> string" where
  "fl_repr (Fin x) =
     (if x = 0 then ''0.0'' else if x < 0 then CHR ''-'' # fl_repr_pos (- x) else fl_repr_pos x)"
| "fl_repr PosInf = ''inf''"
| "fl_repr NegInf = ''-inf''"
| "fl_repr NaN = ''nan''"

definition hex_digit :: "nat \<Rightarrow> char" where
  "hex_digit d = (if d < 10 then char_at (48 + d) else char_at (87 + d))"

definition escape_char :: "char \<Rightarrow> char \<Rightarrow> string" where
  "escape_char quote c =
     (if c = quote \<or> code_of c = 92 then [char_at 92, c]
      else if code_of c = 10 then [char_at 92, CHR ''n'']
      else if code_of c = 13 then [char_at 92, CHR ''r'']
      else if code_of c = 9 then [char_at 92, CHR ''t'']
      else if code_of c < 32 \<or> code_of c = 127
        then [char_at 92, CHR ''x'', hex_digit (code_of c div 16), hex_digit (code_of c mod 16)]
      else [c])"

definition str_repr :: "string \<Rightarrow> string" where
  "str_repr s =
     (let quote = (if char_at 39 \<in> set s \<and> char_at 34 \<notin> set s then char_at 34 else char_at 39)
      in quote # concat (map (escape_char quote) s) @ [quote])"

text \<open>An f-string that puts single quotes around a text.\<close>

definition quoted :: "string \<Rightarrow> string" where
  "quoted s = char_at 39 # s @ [char_at 39]"

definition join_with :: "string \<Rightarrow> string list \<Rightarrow> string" where
  "join_with sep parts = concat (case parts of [] \<Rightarrow> [] | p # ps \<Rightarrow> p # map (\<lambda>q. sep @ q) ps)"

fun py_repr :: "val \<Rightarrow> string" where
  "py_repr PNone = ''None''"
| "py_repr (PBool b) = (if b then ''True'' else ''False'')"
| "py_repr (PInt i) = str_of_int i"
| "py_repr (PFloat x) = fl_repr x"
| "py_repr (PStr s) = str_repr s"
| "py_repr (PList xs) = ''['' @ join_with '', '' (map py_repr xs) @ '']''"
| "py_repr (PDict d) =
     ''{'' @ join_with '', '' (map (\<lambda>(k, v). str_repr k @ '': '' @ py_repr v) d) @ ''}''"

fun py_str :: "val \<Rightarrow> string" where
  "py_str (PStr s) = s"
| "py_str v = py_repr v"

definition opt_repr :: "string option \<Rightarrow> string" where
  "opt_repr x = (case x of None \<Rightarrow> ''None'' | Some s \<Rightarrow> str_repr s)"

definition val_of_opt :: "string option \<Rightarrow> val" where
  "val_of_opt x = (case x of None \<Rightarrow> PNone | Some s \<Rightarrow> PStr s)"

end
