(* ===== verification/Engine.thy ===== *)
theory Engine
  imports Py_Text
begin

text \<open>
  The domain-agnostic rule engine (\<open>app/engine\<close>): the operator registry, one
  evaluation function per operator, the dispatcher \<open>RuleEngine.evaluate\<close> and the
  value object \<open>RuleCondition\<close> that wraps a condition tree. A condition is a JSON
  document; a node that is an object with one key is an operator application, any other
  non-object is a literal.
\<close>

section \<open>Operators\<close>

datatype evaluator =
    VarEvaluator
  | AndEvaluator
  | OrEvaluator
  | GreaterThanEvaluator
  | LessThanEvaluator
  | GreaterOrEqualEvaluator
  | LessOrEqualEvaluator
  | EqualsEvaluator
  | NotEqualsEvaluator
  | InEvaluator
  | MultiplyEvaluator
  | ContainsEvaluator
  | InHolidayPeriodEvaluator

fun operator_of :: "evaluator \<Rightarrow> string" where
  "operator_of VarEvaluator = ''var''"
| "operator_of AndEvaluator = ''and''"
| "operator_of OrEvaluator = ''or''"
| "operator_of GreaterThanEvaluator = ''>''"
| "operator_of LessThanEvaluator = ''<''"
| "operator_of GreaterOrEqualEvaluator = ''>=''"
| "operator_of LessOrEqualEvaluator = ''<=''"
| "operator_of EqualsEvaluator = ''==''"
| "operator_of NotEqualsEvaluator = ''!=''"
| "operator_of InEvaluator = ''in''"
| "operator_of MultiplyEvaluator = ''*''"
| "operator_of ContainsEvaluator = ''contains''"
| "operator_of InHolidayPeriodEvaluator = ''in_holiday_period''"

type_synonym registry = "(string \<times> evaluator) list"

definition register :: "registry \<Rightarrow> evaluator \<Rightarrow> registry" where
  "register r e = dict_set (operator_of e) e r"

definition registry_get :: "registry \<Rightarrow> string \<Rightarrow> evaluator res" where
  "registry_get r operator =
     (case map_of r operator of
        None \<Rightarrow> Inl (ValueError (''No evaluator registered for operator '' @ quoted operator))
      | Some e \<Rightarrow> Inr e)"

definition default_registry :: registry where
  "default_registry = foldl register []
     [VarEvaluator, AndEvaluator, OrEvaluator,
      GreaterThanEvaluator, LessThanEvaluator, GreaterOrEqualEvaluator, LessOrEqualEvaluator,
      EqualsEvaluator, NotEqualsEvaluator, InEvaluator, MultiplyEvaluator,
      ContainsEvaluator, InHolidayPeriodEvaluator]"

subsection \<open>The evaluation functions\<close>

text \<open>
  Each takes the engine as a function \<open>ev\<close> from nodes to values (the incident data
  is fixed during one evaluation) and the operator's argument document.
\<close>

fun walk :: "string list \<Rightarrow> val \<Rightarrow> val" where
  "walk [] current = current"
| "walk (part # parts) current =
     (case current of
        PDict d \<Rightarrow> (case map_of d part of None \<Rightarrow> PNone | Some v \<Rightarrow> walk parts v)
      | _ \<Rightarrow> PNone)"

definition var_evaluate :: "val \<Rightarrow> val \<Rightarrow> val res" where
  "var_evaluate args data =
     bindr (case args of PList _ \<Rightarrow> py_index args 0 | _ \<Rightarrow> Inr args)
       (\<lambda>path. if path = PNone \<or> path = PStr [] then Inr data
               else Inr (walk (split_on CHR ''.'' (py_str path)) data))"

fun all_true :: "(val \<Rightarrow> val res) \<Rightarrow> val list \<Rightarrow> val res" where
  "all_true ev [] = Inr (PBool True)"
| "all_true ev (node # ns) =
     bindr (ev node) (\<lambda>v. if py_bool v then all_true ev ns else Inr (PBool False))"

fun any_true :: "(val \<Rightarrow> val res) \<Rightarrow> val list \<Rightarrow> val res" where
  "any_true ev [] = Inr (PBool False)"
| "any_true ev (node # ns) =
     bindr (ev node) (\<lambda>v. if py_bool v then Inr (PBool True) else any_true ev ns)"

definition operands :: "(val \<Rightarrow> val res) \<Rightarrow> val \<Rightarrow> (val \<times> val) res" where
  "operands ev args =
     bindr (bindr (py_index args 0) ev)
       (\<lambda>left. bindr (bindr (py_index args 1) ev) (\<lambda>right. Inr (left, right)))"

text \<open>\<open>try: return ... except TypeError: return False\<close>\<close>

definition or_false :: "bool res \<Rightarrow> val res" where
  "or_false r = (case r of Inr b \<Rightarrow> Inr (PBool b)
                 | Inl e \<Rightarrow> if e = TypeError then Inr (PBool False) else Inl e)"

definition compare_evaluate :: "cmp \<Rightarrow> (val \<Rightarrow> val res) \<Rightarrow> val \<Rightarrow> val res" where
  "compare_evaluate c ev args =
     bindr (operands ev args)
       (\<lambda>(left, right). if left = PNone \<or> right = PNone then Inr (PBool False)
                        else or_false (py_cmp c left right))"

definition equals_evaluate :: "bool \<Rightarrow> (val \<Rightarrow> val res) \<Rightarrow> val \<Rightarrow> val res" where
  "equals_evaluate positive ev args =
     bindr (operands ev args) (\<lambda>(left, right). Inr (PBool (py_eq left right = positive)))"

definition in_evaluate :: "(val \<Rightarrow> val res) \<Rightarrow> val \<Rightarrow> val res" where
  "in_evaluate ev args =
     bindr (operands ev args)
       (\<lambda>(needle, haystack). if needle = PNone \<or> haystack = PNone then Inr (PBool False)
                             else or_false (py_in needle haystack))"

definition contains_evaluate :: "(val \<Rightarrow> val res) \<Rightarrow> val \<Rightarrow> val res" where
  "contains_evaluate ev args =
     bindr (operands ev args)
       (\<lambda>(haystack, needle). if haystack = PNone \<or> needle = PNone then Inr (PBool False)
                             else or_false (py_in needle haystack))"

definition multiply_evaluate :: "(val \<Rightarrow> val res) \<Rightarrow> val \<Rightarrow> val res" where
  "multiply_evaluate ev args =
     bindr (operands ev args)
       (\<lambda>(left, right). if left = PNone \<or> right = PNone then Inr PNone else py_mul left right)"

definition holiday_evaluate :: "(val \<Rightarrow> val res) \<Rightarrow> val \<Rightarrow> val res" where
  "holiday_evaluate ev args =
     bindr (bindr (py_index args 0) ev) (\<lambda>value. Inr (PBool (py_bool value)))"

fun run_evaluator :: "evaluator \<Rightarrow> (val \<Rightarrow> val res) \<Rightarrow> val \<Rightarrow> val \<Rightarrow> val res" where
  "run_evaluator VarEvaluator ev args data = var_evaluate args data"
| "run_evaluator AndEvaluator ev args data = bindr (py_iter args) (all_true ev)"
| "run_evaluator OrEvaluator ev args data = bindr (py_iter args) (any_true ev)"
| "run_evaluator GreaterThanEvaluator ev args data = compare_evaluate Gt ev args"
| "run_evaluator LessThanEvaluator ev args data = compare_evaluate Lt ev args"
| "run_evaluator GreaterOrEqualEvaluator ev args data = compare_evaluate Ge ev args"
| "run_evaluator LessOrEqualEvaluator ev args data = compare_evaluate Le ev args"
| "run_evaluator EqualsEvaluator ev args data = equals_evaluate True ev args"
| "run_evaluator NotEqualsEvaluator ev args data = equals_evaluate False ev args"
| "run_evaluator InEvaluator ev args data = in_evaluate ev args"
| "run_evaluator MultiplyEvaluator ev args data = multiply_evaluate ev args"
| "run_evaluator ContainsEvaluator ev args data = contains_evaluate ev args"
| "run_evaluator InHolidayPeriodEvaluator ev args data = holiday_evaluate ev args"

subsection \<open>Termination of the nested recursion\<close>

text \<open>An evaluator applies the engine to elements of its argument only.\<close>

definition sub_node :: "val \<Rightarrow> val \<Rightarrow> bool" where
  "sub_node x args \<longleftrightarrow>
     py_index args 0 = Inr x \<or> py_index args 1 = Inr x \<or>
     (\<exists>xs. py_iter args = Inr xs \<and> x \<in> set xs)"

lemma sub_node_nodes: "sub_node x args \<Longrightarrow> nodes x \<le> nodes args"
  by (auto simp: sub_node_def py_index_def py_iter_def nodes_mem_list le_SucI
      split: val.splits if_splits)

lemma py_iter_nodes: "py_iter args = Inr xs \<Longrightarrow> x \<in> set xs \<Longrightarrow> nodes x \<le> nodes args"
  by (rule sub_node_nodes) (auto simp: sub_node_def)

lemma all_true_cong: "(\<And>x. x \<in> set xs \<Longrightarrow> ev x = ev' x) \<Longrightarrow> all_true ev xs = all_true ev' xs"
  by (induction xs) (auto intro!: bindr_cong)

lemma any_true_cong: "(\<And>x. x \<in> set xs \<Longrightarrow> ev x = ev' x) \<Longrightarrow> any_true ev xs = any_true ev' xs"
  by (induction xs) (auto intro!: bindr_cong)

lemma operands_cong:
  assumes "\<And>x. sub_node x args \<Longrightarrow> ev x = ev' x"
  shows "operands ev args = operands ev' args"
proof -
  have "bindr (py_index args i) ev = bindr (py_index args i) ev'" if "i = 0 \<or> i = 1" for i
    using that by (intro bindr_cong refl assms) (auto simp: sub_node_def)
  then show ?thesis by (simp add: operands_def)
qed

lemma run_evaluator_cong [fundef_cong]:
  assumes "e = e'" and "args = args'" and "data = data'"
    and "\<And>x. sub_node x args' \<Longrightarrow> ev x = ev' x"
  shows "run_evaluator e ev args data = run_evaluator e' ev' args' data'"
proof -
  have ops: "operands ev args' = operands ev' args'" using assms(4) by (rule operands_cong)
  have iter: "bindr (py_iter args') (all_true ev) = bindr (py_iter args') (all_true ev')"
    "bindr (py_iter args') (any_true ev) = bindr (py_iter args') (any_true ev')"
    using assms(4) by (auto intro!: bindr_cong all_true_cong any_true_cong simp: sub_node_def)
  have first: "bindr (py_index args' 0) ev = bindr (py_index args' 0) ev'"
    using assms(4) by (auto intro!: bindr_cong simp: sub_node_def)
  show ?thesis
    using assms(1-3) ops iter first
    by (cases e') (simp_all add: compare_evaluate_def equals_evaluate_def in_evaluate_def
        contains_evaluate_def multiply_evaluate_def holiday_evaluate_def)
qed

section \<open>The engine\<close>

function evaluate :: "registry \<Rightarrow> val \<Rightarrow> val \<Rightarrow> val res" where
  "evaluate r data (PDict d) =
     (case d of
        [(operator, args)] \<Rightarrow>
          bindr (registry_get r operator) (\<lambda>e. run_evaluator e (evaluate r data) args data)
      | _ \<Rightarrow> Inl (ValueError (''Malformed condition node: '' @ py_repr (PDict d))))"
| "evaluate r data PNone = Inr PNone"
| "evaluate r data (PBool b) = Inr (PBool b)"
| "evaluate r data (PInt i) = Inr (PInt i)"
| "evaluate r data (PFloat x) = Inr (PFloat x)"
| "evaluate r data (PStr s) = Inr (PStr s)"
| "evaluate r data (PList xs) = Inr (PList xs)"
  by pat_completeness auto
termination
  by (relation "measure (\<lambda>(r, data, node). nodes node)") (auto dest: sub_node_nodes simp: less_Suc_eq_le)

definition engine_evaluate :: "val \<Rightarrow> val \<Rightarrow> val res" where
  "engine_evaluate node data = evaluate default_registry data node"

section \<open>Conditions\<close>

text \<open>\<open>RuleCondition.is_satisfied_by\<close>: only \<open>ValueError\<close> is caught.\<close>

definition is_satisfied_by :: "val \<Rightarrow> dict \<Rightarrow> bool res" where
  "is_satisfied_by tree data =
     (case engine_evaluate tree (PDict data) of
        Inr v \<Rightarrow> Inr (py_bool v)
      | Inl e \<Rightarrow> if is_value_error e then Inr False else Inl e)"

function count_leaves :: "val \<Rightarrow> int res" where
  "count_leaves (PDict d) =
     (case d of
        [(operator, args)] \<Rightarrow>
          if operator = ''and'' \<or> operator = ''or''
          then bindr (py_iter args) (\<lambda>children.
                 bindr (mapr count_leaves children) (\<lambda>ns. Inr (sum_list ns)))
          else Inr 1
      | _ \<Rightarrow> Inr 0)"
| "count_leaves PNone = Inr 0"
| "count_leaves (PBool b) = Inr 0"
| "count_leaves (PInt i) = Inr 0"
| "count_leaves (PFloat x) = Inr 0"
| "count_leaves (PStr s) = Inr 0"
| "count_leaves (PList xs) = Inr 0"
  by pat_completeness auto
termination
  by (relation "measure nodes") (auto dest: py_iter_nodes simp: less_Suc_eq_le)

definition specificity :: "val \<Rightarrow> int res" where
  "specificity tree = count_leaves tree"

section \<open>Properties of the engine\<close>

lemma map_of_default_registry:
  "map_of default_registry = map_of
     [(''var'', VarEvaluator), (''and'', AndEvaluator), (''or'', OrEvaluator),
      (''>'', GreaterThanEvaluator), (''<'', LessThanEvaluator),
      (''>='', GreaterOrEqualEvaluator), (''<='', LessOrEqualEvaluator),
      (''=='', EqualsEvaluator), (''!='', NotEqualsEvaluator), (''in'', InEvaluator),
      (''*'', MultiplyEvaluator), (''contains'', ContainsEvaluator),
      (''in_holiday_period'', InHolidayPeriodEvaluator)]"
  by (simp add: default_registry_def register_def)

lemma default_registry_get:
  "registry_get default_registry op =
     (if op = ''var'' then Inr VarEvaluator else if op = ''and'' then Inr AndEvaluator
      else if op = ''or'' then Inr OrEvaluator else if op = ''>'' then Inr GreaterThanEvaluator
      else if op = ''<'' then Inr LessThanEvaluator else if op = ''>='' then Inr GreaterOrEqualEvaluator
      else if op = ''<='' then Inr LessOrEqualEvaluator else if op = ''=='' then Inr EqualsEvaluator
      else if op = ''!='' then Inr NotEqualsEvaluator else if op = ''in'' then Inr InEvaluator
      else if op = ''*'' then Inr MultiplyEvaluator else if op = ''contains'' then Inr ContainsEvaluator
      else if op = ''in_holiday_period'' then Inr InHolidayPeriodEvaluator
      else Inl (ValueError (''No evaluator registered for operator '' @ quoted op)))"
  by (simp add: registry_get_def map_of_default_registry)

text \<open>Every operator of the default registry is found under its own name.\<close>

lemma default_registry_complete: "registry_get default_registry (operator_of e) = Inr e"
  by (cases e) (simp_all add: default_registry_get)

lemma engine_literal: "(\<nexists>d. node = PDict d) \<Longrightarrow> engine_evaluate node data = Inr node"
  by (cases node) (auto simp: engine_evaluate_def)

lemma engine_apply:
  "engine_evaluate (PDict [(op, args)]) data =
     bindr (registry_get default_registry op)
       (\<lambda>e. run_evaluator e (\<lambda>n. engine_evaluate n data) args data)"
  by (simp add: engine_evaluate_def)

lemma engine_operator:
  "engine_evaluate (PDict [(operator_of e, args)]) data =
     run_evaluator e (\<lambda>n. engine_evaluate n data) args data"
  by (simp add: engine_apply default_registry_complete)

lemma engine_var:
  "engine_evaluate (PDict [(''var'', args)]) data = var_evaluate args data"
  using engine_operator [of VarEvaluator] by simp

lemma operands_pair [simp]:
  "operands ev (PList (a # b # rest)) = bindr (ev a) (\<lambda>x. bindr (ev b) (\<lambda>y. Inr (x, y)))"
  by (simp add: operands_def py_index_def)

lemma var_evaluate_path:
  "p \<noteq> [] \<Longrightarrow> var_evaluate (PStr p) data = Inr (walk (split_on CHR ''.'' p) data)"
  by (simp add: var_evaluate_def)

lemma py_cmp_only_type_error:
  "py_cmp c v w = Inl e \<Longrightarrow> e = TypeError"
  "cmp_lists c xs ys = Inl e \<Longrightarrow> e = TypeError"
  by (induction c v w and c xs ys rule: py_cmp_cmp_lists.induct)
    (auto simp: cmp_num_def split: val.splits option.splits list.splits if_splits)

lemma py_in_only_type_error: "py_in v w = Inl e \<Longrightarrow> e = TypeError"
  by (auto simp: py_in_def split: val.splits)

lemma or_false_ok: "(\<And>e. r = Inl e \<Longrightarrow> e = TypeError) \<Longrightarrow> \<exists>b. or_false r = Inr (PBool b)"
  by (cases r) (auto simp: or_false_def)

lemma or_false_cmp: "\<exists>b. or_false (py_cmp c v w) = Inr (PBool b)"
  by (rule or_false_ok) (rule py_cmp_only_type_error)

lemma or_false_in: "\<exists>b. or_false (py_in v w) = Inr (PBool b)"
  by (rule or_false_ok) (rule py_in_only_type_error)

subsection \<open>Evaluation reads the incident only through its variables\<close>

text \<open>The argument documents of all the \<open>var\<close> keys of a tree.\<close>

fun var_args :: "val \<Rightarrow> val list" where
  "var_args (PDict d) =
     concat (map (\<lambda>(k, v). (if k = ''var'' then [v] else []) @ var_args v) d)"
| "var_args (PList xs) = concat (map var_args xs)"
| "var_args _ = []"

lemma var_args_sub_node: "sub_node x args \<Longrightarrow> set (var_args x) \<subseteq> set (var_args args)"
  by (fastforce simp: sub_node_def py_index_def py_iter_def split: val.splits if_splits)

lemma evaluate_frame:
  assumes "\<And>a. a \<in> set (var_args node) \<Longrightarrow> var_evaluate a d1 = var_evaluate a d2"
  shows "evaluate default_registry d1 node = evaluate default_registry d2 node"
  using assms
proof (induction "nodes node" arbitrary: node rule: less_induct)
  case less
  show ?case
  proof (cases node)
    case (PDict d)
    show ?thesis
    proof (cases "\<exists>op args. d = [(op, args)]")
      case True
      then obtain op args where d: "d = [(op, args)]" by blast
      have sub: "evaluate default_registry d1 x = evaluate default_registry d2 x"
        if "sub_node x args" for x
        using sub_node_nodes [OF that] var_args_sub_node [OF that] less.prems PDict d
        by (intro less.hyps) auto
      have "run_evaluator e (evaluate default_registry d1) args d1 =
            run_evaluator e (evaluate default_registry d2) args d2"
        if e: "registry_get default_registry op = Inr e" for e
      proof (cases "e = VarEvaluator")
        case True
        with e have "op = ''var''" by (auto simp: default_registry_get split: if_splits)
        with less.prems PDict d have "var_evaluate args d1 = var_evaluate args d2" by simp
        with True show ?thesis by simp
      next
        case False
        have "run_evaluator e (evaluate default_registry d1) args d1 =
              run_evaluator e (evaluate default_registry d2) args d1"
          using sub by (rule run_evaluator_cong [OF refl refl refl])
        with False show ?thesis by (cases e) simp_all
      qed
      then show ?thesis
        using PDict d by (auto intro!: bindr_cong)
    next
      case False
      then show ?thesis using PDict by (auto split: list.splits prod.splits)
    qed
  qed simp_all
qed

text \<open>
  A condition's outcome, raised exceptions included, depends on the incident
  only through the values its variables look up: two incidents that agree on every
  variable of the tree are judged alike.
\<close>
theorem condition_reads_only_its_variables:
  assumes "\<And>a. a \<in> set (var_args tree) \<Longrightarrow> var_evaluate a (PDict d1) = var_evaluate a (PDict d2)"
  shows "is_satisfied_by tree d1 = is_satisfied_by tree d2"
  using evaluate_frame [OF assms] by (simp add: is_satisfied_by_def engine_evaluate_def)

theorem condition_reads_only_its_variables_witness:
  "is_satisfied_by (PDict [(''=='', PList [PDict [(''var'', PStr ''a'')], PInt 1])])
     [(''a'', PInt 1), (''b'', PInt 2)] =
   is_satisfied_by (PDict [(''=='', PList [PDict [(''var'', PStr ''a'')], PInt 1])])
     [(''b'', PInt 7), (''a'', PInt 1)]"
  by (rule condition_reads_only_its_variables) (auto simp: var_evaluate_def)

subsection \<open>Well-formed conditions never raise\<close>

text \<open>
  A well-formed tree: known operators with enough operands. Multiplication is apart: it is
  the one operator whose type errors the engine lets through.
\<close>

fun min_args :: "evaluator \<Rightarrow> nat" where
  "min_args AndEvaluator = 0"
| "min_args OrEvaluator = 0"
| "min_args InHolidayPeriodEvaluator = 1"
| "min_args _ = 2"

fun wf_condition :: "val \<Rightarrow> bool" where
  "wf_condition (PDict d) =
     (case d of
        [(op, args)] \<Rightarrow>
          (case registry_get default_registry op of
             Inl _ \<Rightarrow> False
           | Inr e \<Rightarrow>
               if e = VarEvaluator then args \<noteq> PList []
               else e \<noteq> MultiplyEvaluator \<and>
                 (case args of PList xs \<Rightarrow> min_args e \<le> length xs \<and> list_all wf_condition xs
                  | _ \<Rightarrow> False))
      | _ \<Rightarrow> False)"
| "wf_condition _ = True"

lemma all_true_ok:
  "(\<And>x. x \<in> set xs \<Longrightarrow> \<exists>v. ev x = Inr v) \<Longrightarrow> \<exists>b. all_true ev xs = Inr (PBool b)"
  by (induction xs) (fastforce split: if_splits)+

lemma any_true_ok:
  "(\<And>x. x \<in> set xs \<Longrightarrow> \<exists>v. ev x = Inr v) \<Longrightarrow> \<exists>b. any_true ev xs = Inr (PBool b)"
  by (induction xs) (fastforce split: if_splits)+

lemma run_evaluator_ok:
  assumes "e \<noteq> MultiplyEvaluator" and "e \<noteq> VarEvaluator" and len: "min_args e \<le> length xs"
    and ok: "\<And>x. x \<in> set xs \<Longrightarrow> \<exists>v. ev x = Inr v"
  shows "\<exists>b. run_evaluator e ev (PList xs) data = Inr (PBool b)"
proof (cases "min_args e \<le> 1")
  case True
  then show ?thesis
    using assms all_true_ok [of xs ev, OF ok] any_true_ok [of xs ev, OF ok]
    by (cases e; cases xs) (fastforce simp: py_iter_def holiday_evaluate_def py_index_def)+
next
  case False
  then have "min_args e = 2" by (cases e) auto
  with len obtain a b rest where xs: "xs = a # b # rest"
    by (cases xs; cases "tl xs") auto
  obtain v w where "ev a = Inr v" "ev b = Inr w" using ok [of a] ok [of b] xs by auto
  then have ops: "operands ev (PList xs) = Inr (v, w)" using xs by simp
  have cmp: "\<exists>b. compare_evaluate c ev (PList xs) = Inr (PBool b)" for c
    using ops or_false_cmp [of c v w] by (auto simp: compare_evaluate_def)
  have mem: "\<exists>b. in_evaluate ev (PList xs) = Inr (PBool b)"
    "\<exists>b. contains_evaluate ev (PList xs) = Inr (PBool b)"
    using ops or_false_in [of v w] or_false_in [of w v]
    by (auto simp: in_evaluate_def contains_evaluate_def)
  show ?thesis
    using \<open>min_args e = 2\<close> assms(1,2) cmp mem ops
    by (cases e) (simp_all add: equals_evaluate_def)
qed

lemma wf_evaluate_ok: "wf_condition node \<Longrightarrow> \<exists>v. evaluate default_registry data node = Inr v"
proof (induction "nodes node" arbitrary: node rule: less_induct)
  case less
  show ?case
  proof (cases node)
    case (PDict d)
    with less.prems obtain op args where d: "d = [(op, args)]"
      by (cases d; cases "tl d") (auto split: list.splits)
    with less.prems PDict obtain e where e: "registry_get default_registry op = Inr e"
      by (cases "registry_get default_registry op") auto
    show ?thesis
    proof (cases "e = VarEvaluator")
      case True
      with less.prems PDict d e show ?thesis
        by (auto simp: var_evaluate_def py_index_def split: val.splits)
    next
      case False
      with less.prems PDict d e obtain xs where xs: "args = PList xs" "list_all wf_condition xs"
        and e': "e \<noteq> MultiplyEvaluator" "min_args e \<le> length xs"
        by (auto split: val.splits)
      have "\<exists>v. evaluate default_registry data x = Inr v" if "x \<in> set xs" for x
        using that xs nodes_mem_list [OF that] PDict d
        by (intro less.hyps) (auto simp: list_all_iff)
      then have "\<exists>b. run_evaluator e (evaluate default_registry data) (PList xs) data = Inr (PBool b)"
        by (rule run_evaluator_ok [OF e'(1) False e'(2)])
      then show ?thesis using PDict d e xs by auto
    qed
  qed simp_all
qed

text \<open>
  Property C35: a well-formed condition is always judged, whatever the incident holds:
  missing fields and values of the wrong type make it unsatisfied, never an exception.
\<close>
theorem wf_condition_never_raises:
  assumes "wf_condition tree"
  shows "\<exists>b. is_satisfied_by tree data = Inr b"
  using wf_evaluate_ok [OF assms, of "PDict data"]
  by (auto simp: is_satisfied_by_def engine_evaluate_def)

theorem wf_condition_never_raises_witness:
  "\<exists>b. is_satisfied_by (PDict [(''and'', PList
     [PDict [(''>'', PList [PDict [(''var'', PStr ''networkLoad'')], PInt 90])],
      PDict [(''in'', PList [PDict [(''var'', PStr ''assetTier'')], PList [PStr ''Core Router'']])]])])
     [(''networkLoad'', PStr ''high'')] = Inr b"
  by (rule wf_condition_never_raises) (simp add: default_registry_get)

text \<open>
  Outside the well-formed trees an exception does leave the engine: a comparison
  with a missing operand counts as one leaf, so structural validation accepts it, and it
  raises \<open>IndexError\<close> on every incident; a product of a text and a fraction raises
  \<open>TypeError\<close> where every comparison would be false.
\<close>
theorem accepted_condition_that_raises:
  "count_leaves (PDict [(''=='', PList [PInt n])]) = Inr 1 \<and>
   is_satisfied_by (PDict [(''=='', PList [PInt n])]) data = Inl IndexError \<and>
   is_satisfied_by (PDict [(''>='', PList
       [PInt n, PDict [(''*'', PList [PDict [(''var'', PStr ''sla'')], PFloat x])]])])
     [(''sla'', PStr s)] = Inl TypeError"
  by (simp add: is_satisfied_by_def engine_apply default_registry_get equals_evaluate_def
      operands_def py_index_def engine_literal compare_evaluate_def multiply_evaluate_def
      var_evaluate_def py_mul_def)

text \<open>A field that the incident does not carry.\<close>

definition missing :: "string \<Rightarrow> dict \<Rightarrow> bool" where
  "missing path data = (path \<noteq> [] \<and> walk (split_on CHR ''.'' path) (PDict data) = PNone)"

text \<open>
  With the field missing, every ordering, membership and containment test on it
  is false, on either side; equality with a literal is false and, unlike all of them,
  inequality with a literal holds.
\<close>
theorem missing_field_outcomes:
  assumes "missing path data" and lit: "\<nexists>d. lit = PDict d" "lit \<noteq> PNone"
  shows "list_all (\<lambda>op. is_satisfied_by (PDict [(op, PList [PDict [(''var'', PStr path)], lit])]) data = Inr False
             \<and> is_satisfied_by (PDict [(op, PList [lit, PDict [(''var'', PStr path)]])]) data = Inr False)
           [''>'', ''<'', ''>='', ''<='', ''in'', ''contains'', ''=='']
    \<and> is_satisfied_by (PDict [(''!='', PList [PDict [(''var'', PStr path)], lit])]) data = Inr True"
proof -
  have var: "engine_evaluate (PDict [(''var'', PStr path)]) (PDict data) = Inr PNone"
    using assms(1) by (simp add: engine_var missing_def var_evaluate_path)
  have l: "engine_evaluate lit (PDict data) = Inr lit" using lit(1) by (rule engine_literal)
  have eq: "\<not> py_eq lit PNone" "\<not> py_eq PNone lit"
    using lit by (cases lit; simp add: num_eq_def)+
  show ?thesis
    using var l lit(2) eq
    by (simp add: is_satisfied_by_def engine_apply [of _ "PList _"] default_registry_get
        compare_evaluate_def in_evaluate_def contains_evaluate_def equals_evaluate_def)
qed

theorem missing_field_outcomes_witness:
  "missing ''customer.tier'' [(''customer'', PDict [(''name'', PStr ''x'')])] \<and>
   is_satisfied_by (PDict [(''!='', PList [PDict [(''var'', PStr ''customer.tier'')], PStr ''Platinum''])])
     [(''customer'', PDict [(''name'', PStr ''x'')])] = Inr True"
proof -
  have m: "missing ''customer.tier'' [(''customer'', PDict [(''name'', PStr ''x'')])]"
    by (simp add: missing_def)
  show ?thesis using m missing_field_outcomes [OF m, of "PStr ''Platinum''"] by simp
qed

end
