(* ===== verification/Rule_Model.thy ===== *)
theory Rule_Model
  imports Engine
begin

text \<open>
  The domain entities (\<open>app/domain/entities\<close>): rules, rule packs with their lifecycle
  vocabulary, incidents and decisions. Fields have the types of the dataclass annotations;
  instants are whole microseconds since the epoch, in UTC.
\<close>

type_synonym instant = int

section \<open>Rules\<close>

text \<open>\<open>conditions\<close> and \<open>exceptions\<close> are the trees of the \<open>RuleCondition\<close> objects.\<close>

record rule =
  rule_code :: string
  rule_name :: string
  rule_description :: string
  family :: string
  family_order :: int
  priority_weight :: int
  severity_band :: "string option"
  contribution_score :: "int option"
  conditions :: val
  exceptions :: "val option"
  conflict_group :: "string option"
  conflicts_with :: "string list"
  is_suppressor :: bool
  non_suppressible :: bool
  cooldown_minutes :: int
  actions :: dict
  mitigations :: dict
  sequencing :: "dict option"
  sla_target :: "string option"
  rule_status :: string
  enabled :: bool
  rule_id :: "string option"

definition is_active :: "rule \<Rightarrow> bool" where
  "is_active r = (enabled r \<and> rule_status r = ''ACTIVE'')"

text \<open>A plain rule for the examples: no exceptions, always active, weight and actions given.\<close>

definition w_rule :: "string \<Rightarrow> int \<Rightarrow> dict \<Rightarrow> rule" where
  "w_rule c w acts =
     \<lparr>rule_code = c, rule_name = c, rule_description = [], family = ''PRIORITY'', family_order = 0,
      priority_weight = w, severity_band = None, contribution_score = None, conditions = PDict [],
      exceptions = None, conflict_group = Some ''G'', conflicts_with = [], is_suppressor = False,
      non_suppressible = False, cooldown_minutes = 0, actions = acts, mitigations = [],
      sequencing = None, sla_target = None, rule_status = ''ACTIVE'', enabled = True, rule_id = None\<rparr>"

section \<open>Rule packs\<close>

definition DRAFT :: string where "DRAFT = ''draft''"
definition PUBLISHED :: string where "PUBLISHED = ''published''"
definition ACTIVE :: string where "ACTIVE = ''active''"
definition DEPRECATED :: string where "DEPRECATED = ''deprecated''"
definition ARCHIVED :: string where "ARCHIVED = ''archived''"

lemmas status_defs = DRAFT_def PUBLISHED_def ACTIVE_def DEPRECATED_def ARCHIVED_def

definition allowed_transitions :: "(string \<times> string list) list" where
  "allowed_transitions =
     [(DRAFT, [PUBLISHED, ARCHIVED]),
      (PUBLISHED, [ACTIVE, ARCHIVED, DRAFT]),
      (ACTIVE, [DEPRECATED, ARCHIVED]),
      (DEPRECATED, [ACTIVE, ARCHIVED]),
      (ARCHIVED, [])]"

definition can_transition :: "string \<Rightarrow> string \<Rightarrow> bool" where
  "can_transition current target = (target \<in> set (dict_get allowed_transitions current []))"

record rule_pack =
  pack_name :: string
  version :: int
  status :: string
  region :: "string option"
  rules :: "rule list"
  parent_version :: "int option"
  pack_id :: "string option"
  tenant_id :: "string option"
  created_by :: string
  created_at :: "instant option"
  activated_at :: "instant option"
  deleted_at :: "instant option"
  lock_version :: int

definition new_pack :: "string \<Rightarrow> int \<Rightarrow> string \<Rightarrow> string option \<Rightarrow> rule list \<Rightarrow> rule_pack" where
  \<comment> \<open>the constructor with every optional field at its default\<close>
  "new_pack n v st reg rs =
     \<lparr>pack_name = n, version = v, status = st, region = reg, rules = rs, parent_version = None,
      pack_id = None, tenant_id = None, created_by = ''system'', created_at = None,
      activated_at = None, deleted_at = None, lock_version = 1\<rparr>"

definition evaluation_key :: "rule \<Rightarrow> int \<times> int" where
  "evaluation_key r = (family_order r, - priority_weight r)"

definition active_rules :: "rule_pack \<Rightarrow> string option \<Rightarrow> rule list" where
  "active_rules p fam =
     (let rs = filter is_active (rules p);
          rs = (case fam of None \<Rightarrow> rs | Some f \<Rightarrow> filter (\<lambda>r. family r = f) rs)
      in sort_key evaluation_key rs)"

section \<open>Incidents and decisions\<close>

record incident =
  incident_id :: string
  payload :: dict
  enriched_context :: dict
  degraded_context :: bool
  context_sources_total :: int
  context_sources_degraded :: int
  inc_status :: string
  inc_region :: "string option"
  inc_tenant :: "string option"
  inc_created_at :: "instant option"

definition new_incident :: "string \<Rightarrow> dict \<Rightarrow> dict \<Rightarrow> bool \<Rightarrow> incident" where
  "new_incident i p c deg =
     \<lparr>incident_id = i, payload = p, enriched_context = c, degraded_context = deg,
      context_sources_total = 0, context_sources_degraded = 0, inc_status = ''received'',
      inc_region = None, inc_tenant = None, inc_created_at = None\<rparr>"

definition as_evaluation_data :: "incident \<Rightarrow> dict" where
  "as_evaluation_data i = dict_set ''context'' (PDict (enriched_context i)) (payload i)"

record matched_rule_trace =
  mt_rule_code :: string
  mt_name :: string
  mt_family :: string
  mt_priority_weight :: int
  mt_severity_band :: "string option"
  mt_contribution_score :: "int option"

record rejected_rule_trace =
  rj_rule_code :: string
  rj_name :: string
  rj_reason :: string

text \<open>The dictionaries that a decision carries, as records of their keys.\<close>

record suppression =
  s_rule_code :: string
  s_field :: string
  s_reason :: string

record constraint =
  c_rule_code :: string
  c_name :: string
  c_applied :: dict

record plan_step =
  ps_order :: int
  ps_action :: val
  ps_type :: val
  ps_condition :: "string option"
  ps_source :: "string option"

record decision =
  d_incident_id :: string
  d_priority :: val
  d_risk_score :: int
  d_risk_band :: string
  d_actions :: dict
  d_mitigations :: dict
  d_execution_plan :: "plan_step list"
  d_matched_rules :: "matched_rule_trace list"
  d_rejected_rules :: "rejected_rule_trace list"
  d_suppressed_rules :: "suppression list"
  d_compliance_constraints :: "constraint list"
  d_confidence_score :: fl
  d_degraded_context :: bool
  d_explanation :: string
  d_engine_version :: string
  d_created_at :: instant
  d_resolved :: bool

section \<open>Properties of the entities\<close>

lemma can_transition_cases:
  "can_transition a b \<longleftrightarrow>
     (a, b) \<in> {(''draft'', ''published''), (''draft'', ''archived''), (''published'', ''active''),
       (''published'', ''archived''), (''published'', ''draft''), (''active'', ''deprecated''),
       (''active'', ''archived''), (''deprecated'', ''active''), (''deprecated'', ''archived'')}"
  by (auto simp: can_transition_def allowed_transitions_def status_defs dict_get_simps split: if_splits)

lemma archived_is_terminal: "\<not> can_transition ARCHIVED s"
  by (auto simp: can_transition_cases status_defs)

lemma draft_not_activated_directly: "\<not> can_transition DRAFT ACTIVE"
  by (auto simp: can_transition_cases status_defs)

text \<open>
  The active rules of a pack are exactly its enabled \<open>ACTIVE\<close> rules, each as
  often as it occurs, in ascending family order and, within a family order, descending weight.
\<close>
theorem active_rules_sorted_permutation:
  "mset (active_rules p None) = filter_mset is_active (mset (rules p)) \<and>
   sorted_wrt (\<lambda>r s. family_order r < family_order s \<or>
     (family_order r = family_order s \<and> priority_weight s \<le> priority_weight r)) (active_rules p None)"
proof
  show "mset (active_rules p None) = filter_mset is_active (mset (rules p))"
    by (simp add: active_rules_def)
  have "sorted_wrt (\<lambda>r s. evaluation_key r \<le> evaluation_key s) (active_rules p None)"
    unfolding active_rules_def Let_def option.case by (rule sorted_wrt_sort_key)
  then show "sorted_wrt (\<lambda>r s. family_order r < family_order s \<or>
      (family_order r = family_order s \<and> priority_weight s \<le> priority_weight r)) (active_rules p None)"
    by (rule sorted_wrt_mono_rel [rotated]) (auto simp: evaluation_key_def less_eq_prod_def)
qed

lemma active_rules_active: "r \<in> set (active_rules p fam) \<Longrightarrow> is_active r \<and> r \<in> set (rules p)"
  by (auto simp: active_rules_def Let_def split: option.splits)

lemma active_rules_family: "active_rules p (Some f) = filter (\<lambda>r. family r = f) (active_rules p None)"
  by (simp add: active_rules_def filter_sort_key)

text \<open>Inactive rules do not matter to the order of the active ones.\<close>

lemma active_rules_drop_inactive:
  "active_rules (p\<lparr>rules := filter is_active (rules p)\<rparr>) fam = active_rules p fam"
  by (simp add: active_rules_def)

end
