(* ===== verification/Conflict_Resolver.thy ===== *)
theory Conflict_Resolver
  imports Rule_Model
begin

text \<open>
  \<open>app/domain/services/conflict_resolver.py\<close>: the suppressor pass, the conflict-group
  pass and the field merge that turn the matched rules into one actions dictionary, the
  priority floor and bump post-processing and the merge of the mitigations. Rule objects
  are compared by identity in the code (\<open>r is not winner\<close>); a rule's identity is its
  position in the list at hand.
\<close>

section \<open>Severities\<close>

text \<open>
  The abstract severity scale; the code works with the four names and looks their rank up
  in \<open>_SEVERITY_ORDER\<close> or in the list \<open>order\<close>.
\<close>

datatype severity = Low | Medium | High | Critical

fun sev_rank :: "severity \<Rightarrow> nat" where
  "sev_rank Low = 0"
| "sev_rank Medium = 1"
| "sev_rank High = 2"
| "sev_rank Critical = 3"

instantiation severity :: linorder
begin

definition less_eq_severity :: "severity \<Rightarrow> severity \<Rightarrow> bool" where
  "less_eq_severity a b = (sev_rank a \<le> sev_rank b)"

definition less_severity :: "severity \<Rightarrow> severity \<Rightarrow> bool" where
  "less_severity a b = (sev_rank a < sev_rank b)"

instance
proof
  fix x y z :: severity
  show "(x < y) = (x \<le> y \<and> \<not> y \<le> x)" by (auto simp: less_eq_severity_def less_severity_def)
  show "x \<le> x" by (simp add: less_eq_severity_def)
  show "x \<le> y \<Longrightarrow> y \<le> z \<Longrightarrow> x \<le> z" by (simp add: less_eq_severity_def)
  show "x \<le> y \<Longrightarrow> y \<le> x \<Longrightarrow> x = y" by (cases x; cases y) (auto simp: less_eq_severity_def)
  show "x \<le> y \<or> y \<le> x" by (auto simp: less_eq_severity_def)
qed

end

fun sev_name :: "severity \<Rightarrow> string" where
  "sev_name Low = ''Low''"
| "sev_name Medium = ''Medium''"
| "sev_name High = ''High''"
| "sev_name Critical = ''Critical''"

text \<open>One level up, capped at the top of the scale.\<close>

fun bump :: "severity \<Rightarrow> severity" where
  "bump Low = Medium"
| "bump Medium = High"
| "bump High = Critical"
| "bump Critical = Critical"

section \<open>The resolver\<close>

definition severity_order :: "(string \<times> int) list" where
  "severity_order = [(''Low'', 0), (''Medium'', 1), (''High'', 2), (''Critical'', 3)]"

definition modifier_fields :: "string list" where
  "modifier_fields = [''priorityFloor'', ''priorityBumpOneLevel'']"

definition order_list :: "string list" where
  "order_list = [''Low'', ''Medium'', ''High'', ''Critical'']"

text \<open>\<open>_SEVERITY_ORDER.get(v, -1)\<close>; a list or a dictionary is not hashable.\<close>

definition severity_rank :: "val \<Rightarrow> int res" where
  "severity_rank v =
     (case v of
        PStr s \<Rightarrow> Inr (dict_get severity_order s (-1))
      | PList _ \<Rightarrow> Inl TypeError
      | PDict _ \<Rightarrow> Inl TypeError
      | _ \<Rightarrow> Inr (-1))"

definition parse_duration_minutes :: "val \<Rightarrow> int res" where
  "parse_duration_minutes value =
     (case value of
        PStr s \<Rightarrow>
          (case split_ws (py_lower s) of
             [] \<Rightarrow> Inl IndexError
           | p # _ \<Rightarrow> bindr (py_int p) (\<lambda>n. Inr (if str_in ''hour'' (py_lower s) then n * 60 else n)))
      | _ \<Rightarrow> Inl AttributeError)"

text \<open>The rules that write each field, in match order, fields in order of first writing.\<close>

definition add_writer :: "rule \<Rightarrow> (string \<times> rule list) list \<Rightarrow> (string \<times> rule list) list" where
  "add_writer r fw =
     foldl (\<lambda>fw f. if f \<in> set modifier_fields then fw else dict_append f r fw) fw (map fst (actions r))"

definition field_writers :: "rule list \<Rightarrow> (string \<times> rule list) list" where
  "field_writers matched = foldl (\<lambda>fw r. add_writer r fw) [] matched"

text \<open>
  \<open>r.actions[field]\<close> for a writer of the field: the key is present (\<open>field_writers_mem\<close>
  below), so the subscript cannot raise.
\<close>

definition field_value :: "string \<Rightarrow> rule \<Rightarrow> val" where
  "field_value f r = get_none (actions r) f"

definition apply_suppression :: "string \<Rightarrow> rule list \<Rightarrow> rule list \<times> suppression list" where
  "apply_suppression f writers =
     (let ws = enumerate 0 writers; suppressors = filter (\<lambda>(_, r). is_suppressor r) ws
      in case suppressors of
           [] \<Rightarrow> (writers, [])
         | s # ss \<Rightarrow>
             if filter non_suppressible writers \<noteq> []
             then (filter (\<lambda>r. \<not> is_suppressor r) writers,
                   map (\<lambda>(_, r). \<lparr>s_rule_code = rule_code r, s_field = f,
                     s_reason = ''attempted suppression overridden by non-suppressible rule''\<rparr>) suppressors)
             else let winner = max_by (\<lambda>(_, r). priority_weight r) s ss
                  in ([snd winner],
                      map (\<lambda>(_, r). \<lparr>s_rule_code = rule_code r, s_field = f,
                        s_reason = ''suppressed by '' @ rule_code (snd winner)\<rparr>)
                        (filter (\<lambda>(i, _). i \<noteq> fst winner) ws)))"

text \<open>The list decorated with its keys.\<close>

definition keyed :: "('a \<Rightarrow> 'k res) \<Rightarrow> 'a list \<Rightarrow> ('k \<times> 'a) list res" where
  "keyed key xs = mapr (\<lambda>x. bindr (key x) (\<lambda>k. Inr (k, x))) xs"

text \<open>The winner of a conflict group: weight, then specificity, then the least rule code.\<close>

definition heaviest :: "(nat \<times> rule) list \<Rightarrow> (nat \<times> rule) list" where
  "heaviest cs =
     (case map (\<lambda>(_, r). priority_weight r) cs of
        [] \<Rightarrow> []
      | w # ws \<Rightarrow> filter (\<lambda>(_, r). priority_weight r = max_by (\<lambda>x. x) w ws) cs)"

definition most_specific :: "(nat \<times> rule) list \<Rightarrow> (nat \<times> rule) list res" where
  "most_specific cands =
     bindr (keyed (\<lambda>c. specificity (conditions (snd c))) cands)
       (\<lambda>specs. case map fst specs of
          [] \<Rightarrow> Inr []
        | n # ns \<Rightarrow> Inr (map snd (filter (\<lambda>(k, _). k = max_by (\<lambda>x. x) n ns) specs)))"

definition resolve_conflict_group :: "string \<Rightarrow> rule list \<Rightarrow> (rule \<times> suppression list) res" where
  "resolve_conflict_group f candidates =
     (let cs = enumerate 0 candidates; best = heaviest cs
      in bindr (if 1 < length best then most_specific best else Inr best)
           (\<lambda>best. case best of
              [] \<Rightarrow> Inl IndexError
            | t # ts \<Rightarrow>
                let winner = min_by (\<lambda>(_, r). rule_code r) t ts
                in Inr (snd winner,
                     map (\<lambda>(_, r). \<lparr>s_rule_code = rule_code r, s_field = f,
                       s_reason = ''lost conflict group to '' @ rule_code (snd winner)\<rparr>)
                       (filter (\<lambda>(i, _). i \<noteq> fst winner) cs))))"

definition merge_field :: "string \<Rightarrow> rule list \<Rightarrow> val res" where
  "merge_field f candidates =
     (let values = map (field_value f) candidates in
      if f = ''priority'' then
        bindr (keyed severity_rank values)
          (\<lambda>kvs. case kvs of [] \<Rightarrow> Inl (ValueError ''max() iterable argument is empty'')
                 | kv # rest \<Rightarrow> Inr (snd (max_by fst kv rest)))
      else if f = ''targetSLA'' \<or> f = ''slaTarget'' then
        bindr (keyed parse_duration_minutes values)
          (\<lambda>kvs. case kvs of [] \<Rightarrow> Inl (ValueError ''min() iterable argument is empty'')
                 | kv # rest \<Rightarrow> Inr (snd (min_by fst kv rest)))
      else if list_all is_bool values then Inr (PBool (list_ex py_bool values))
      else case candidates of
             [] \<Rightarrow> Inl (ValueError ''max() iterable argument is empty'')
           | c # cs \<Rightarrow> Inr (field_value f (max_by priority_weight c cs)))"

text \<open>One field: \<open>None\<close> when suppression left no writer.\<close>

definition resolve_field :: "string \<Rightarrow> rule list \<Rightarrow> (val option \<times> suppression list) res" where
  "resolve_field f writers =
     (case apply_suppression f writers of (effective, logged) \<Rightarrow>
        (case effective of
           [] \<Rightarrow> Inr (None, logged)
         | e # es \<Rightarrow>
             if es = [] then Inr (Some (field_value f e), logged)
             else if list_all (\<lambda>r. py_eq (field_value f r) (field_value f e)) effective
               then Inr (Some (field_value f e), logged)
             else if conflict_group e \<noteq> None \<and> list_all (\<lambda>r. conflict_group r = conflict_group e) es
               then bindr (resolve_conflict_group f effective)
                      (\<lambda>(winner, lost). Inr (Some (field_value f winner), logged @ lost))
             else bindr (merge_field f effective) (\<lambda>v. Inr (Some v, logged))))"

fun resolve_fields :: "(string \<times> rule list) list \<Rightarrow> dict \<times> suppression list \<Rightarrow> (dict \<times> suppression list) res" where
  "resolve_fields [] st = Inr st"
| "resolve_fields ((f, writers) # fws) (acts, supp) =
     bindr (resolve_field f writers)
       (\<lambda>(v, logged). resolve_fields fws
          (case v of None \<Rightarrow> acts | Some x \<Rightarrow> dict_set f x acts, supp @ logged))"

text \<open>\<open>order.index(v)\<close>\<close>

definition order_index :: "val \<Rightarrow> nat res" where
  "order_index v =
     (if v = PStr ''Low'' then Inr 0 else if v = PStr ''Medium'' then Inr 1
      else if v = PStr ''High'' then Inr 2 else if v = PStr ''Critical'' then Inr 3
      else Inl (ValueError (py_repr v @ '' is not in list'')))"

definition priority_floors :: "rule list \<Rightarrow> val list" where
  "priority_floors matched =
     map (field_value ''priorityFloor'') (filter (\<lambda>r. dict_in ''priorityFloor'' (actions r)) matched)"

definition bump_count :: "rule list \<Rightarrow> nat" where
  "bump_count matched =
     length (filter (\<lambda>r. py_bool (get_none (actions r) ''priorityBumpOneLevel'')) matched)"

definition raise_to_floor :: "val list \<Rightarrow> val \<Rightarrow> val res" where
  "raise_to_floor floors current =
     (if floors = [] then Inr current
      else case map (\<lambda>f. projr (order_index f)) (filter (\<lambda>f. is_ok (order_index f)) floors) of
             [] \<Rightarrow> Inl (ValueError ''max() iterable argument is empty'')
           | i # js \<Rightarrow>
               let floor_idx = max_by (\<lambda>x. x) i js
               in bindr (order_index current)
                    (\<lambda>c. Inr (if c < floor_idx then PStr (order_list ! floor_idx) else current)))"

definition bump_priority :: "nat \<Rightarrow> val \<Rightarrow> val res" where
  "bump_priority bumps current =
     (if bumps = 0 then Inr current
      else bindr (order_index current)
             (\<lambda>c. Inr (PStr (order_list ! min (c + bumps) (length order_list - 1)))))"

definition apply_priority_postprocessing :: "dict \<Rightarrow> rule list \<Rightarrow> dict res" where
  "apply_priority_postprocessing acts matched =
     (let floors = priority_floors matched;
          current = get_none acts ''priority'';
          current = (if current = PNone \<and> floors \<noteq> [] then PStr ''Low'' else current)
      in if current = PNone then Inr acts
         else bindr (raise_to_floor floors current)
                (\<lambda>current. bindr (bump_priority (bump_count matched) current)
                  (\<lambda>current. Inr (dict_set ''priority'' current acts))))"

definition merge_mitigation :: "dict \<Rightarrow> string \<times> val \<Rightarrow> dict" where
  "merge_mitigation m kv =
     (case kv of (k, v) \<Rightarrow>
        (case v of
           PBool b \<Rightarrow> let old = dict_get m k (PBool False) in dict_set k (if py_bool old then old else v) m
         | _ \<Rightarrow> dict_setdefault k v m))"

definition merge_mitigations :: "rule list \<Rightarrow> dict" where
  "merge_mitigations matched = foldl (\<lambda>m r. foldl merge_mitigation m (mitigations r)) [] matched"

definition resolve :: "rule list \<Rightarrow> (dict \<times> dict \<times> suppression list) res" where
  "resolve matched =
     bindr (resolve_fields (field_writers matched) ([], []))
       (\<lambda>(acts, supp). bindr (apply_priority_postprocessing acts matched)
          (\<lambda>acts. Inr (acts, merge_mitigations matched, supp)))"

end
