(* ===== verification/Decision_Services.thy ===== *)
theory Decision_Services
  imports Conflict_Resolver
begin

text \<open>
  The other domain services of the decision pipeline (\<open>app/domain/services\<close>): the policy
  engine that matches rules, the compliance applier, the risk scorer, the execution plan
  builder, the explanation text, the confidence score, the SLA matrix and the aggregation
  of the context sources.
\<close>

section \<open>Policy engine\<close>

definition COMPLIANCE_FAMILY :: string where "COMPLIANCE_FAMILY = ''COMPLIANCE''"

definition rejection :: "rule \<Rightarrow> string \<Rightarrow> rejected_rule_trace" where
  "rejection r why = \<lparr>rj_rule_code = rule_code r, rj_name = rule_name r, rj_reason = why\<rparr>"

definition vetoed :: "rule \<Rightarrow> dict \<Rightarrow> bool res" where
  "vetoed r data = (case exceptions r of None \<Rightarrow> Inr False | Some e \<Rightarrow> is_satisfied_by e data)"

text \<open>One turn of the loop over the active rules.\<close>

definition policy_step :: "dict \<Rightarrow> rule \<Rightarrow> rule list \<times> rejected_rule_trace list
    \<Rightarrow> (rule list \<times> rejected_rule_trace list) res" where
  "policy_step data r st =
     (case st of (matched, rejected) \<Rightarrow>
        if family r = COMPLIANCE_FAMILY then Inr (matched, rejected)
        else bindr (vetoed r data) (\<lambda>v.
          if v then Inr (matched, rejected @ [rejection r ''self-vetoed by exceptions clause''])
          else bindr (is_satisfied_by (conditions r) data) (\<lambda>b.
            if b then Inr (matched @ [r], rejected)
            else Inr (matched, rejected @ [rejection r ''conditions not satisfied'']))))"

definition policy_evaluate :: "rule_pack \<Rightarrow> incident \<Rightarrow> (rule list \<times> rejected_rule_trace list) res" where
  "policy_evaluate pack inc = foldr_res (policy_step (as_evaluation_data inc)) (active_rules pack None) ([], [])"

section \<open>Compliance\<close>

definition compliance_step :: "dict \<Rightarrow> rule \<Rightarrow> dict \<times> constraint list \<Rightarrow> (dict \<times> constraint list) res" where
  "compliance_step data r st =
     (case st of (acts, constraints) \<Rightarrow>
        bindr (is_satisfied_by (conditions r) data) (\<lambda>b.
          if b then Inr (dict_update acts (actions r),
                 constraints @ [\<lparr>c_rule_code = rule_code r, c_name = rule_name r, c_applied = actions r\<rparr>])
          else Inr (acts, constraints)))"

definition compliance_apply :: "rule_pack \<Rightarrow> incident \<Rightarrow> dict \<Rightarrow> (dict \<times> constraint list) res" where
  "compliance_apply pack inc acts =
     foldr_res (compliance_step (as_evaluation_data inc)) (active_rules pack (Some ''COMPLIANCE'')) (acts, [])"

section \<open>Risk score\<close>

definition risk_bands :: "(int \<times> string) list" where
  "risk_bands = [(30, ''LOW''), (50, ''MEDIUM''), (75, ''HIGH'')]"

definition contribution :: "rule \<Rightarrow> int" where
  "contribution r = (case contribution_score r of None \<Rightarrow> 0 | Some n \<Rightarrow> n)"

definition band_of :: "int \<Rightarrow> string" where
  "band_of tot = (case filter (\<lambda>(t, _). tot \<le> t) risk_bands of [] \<Rightarrow> ''CRITICAL'' | (_, b) # _ \<Rightarrow> b)"

definition risk_score :: "rule list \<Rightarrow> string list \<Rightarrow> int \<times> string" where
  "risk_score matched suppressed_codes =
     (let tot = sum_list (map contribution (filter (\<lambda>r. rule_code r \<notin> set suppressed_codes) matched));
          tot = max 0 (min tot 120)
      in (tot, band_of tot))"

section \<open>Execution plan\<close>

definition base_precedence :: "(string \<times> string) list" where
  "base_precedence =
     [(''autoRemediate'', ''Automated Remediation''), (''rerouteTraffic'', ''Traffic Reroute''),
      (''dispatchEngineer'', ''Dispatch Engineer''), (''customerNotification'', ''Customer Notification''),
      (''notifyNOC'', ''Notify NOC'')]"

text \<open>Adding to the set of inserted types needs a hashable value.\<close>

definition hashable :: "val \<Rightarrow> bool" where
  "hashable v = (case v of PList _ \<Rightarrow> False | PDict _ \<Rightarrow> False | _ \<Rightarrow> True)"

definition has_sequencing :: "rule \<Rightarrow> bool" where
  "has_sequencing r = (case sequencing r of None \<Rightarrow> False | Some s \<Rightarrow> s \<noteq> [])"

definition sequencing_step :: "rule \<Rightarrow> plan_step list \<times> val list \<Rightarrow> (plan_step list \<times> val list) res" where
  "sequencing_step r st =
     (case st of (plan, inserted) \<Rightarrow>
        let s = (case sequencing r of None \<Rightarrow> [] | Some s \<Rightarrow> s) in
        bindr (get_item s ''tryFirst'') (\<lambda>first. bindr (get_item s ''fallbackTo'') (\<lambda>fallback.
          if hashable first \<and> hashable fallback
          then Inr (plan @
             [\<lparr>ps_order = int (length plan) + 1, ps_action = first, ps_type = first,
               ps_condition = None, ps_source = Some (rule_code r)\<rparr>,
              \<lparr>ps_order = int (length plan) + 2, ps_action = fallback, ps_type = fallback,
               ps_condition = Some (''if '' @ py_str first @ '' fails within '' @
                 py_str (dict_get s ''fallbackAfterMinutes'' (PStr ''?'')) @ '' minutes''),
               ps_source = Some (rule_code r)\<rparr>],
             inserted @ [first, fallback])
          else Inl TypeError)))"

definition precedence_step :: "dict \<Rightarrow> val list \<Rightarrow> plan_step list \<Rightarrow> string \<times> string \<Rightarrow> plan_step list" where
  "precedence_step acts inserted plan fl =
     (if py_bool (get_none acts (fst fl)) \<and> PStr (fst fl) \<notin> set inserted
      then plan @ [\<lparr>ps_order = int (length plan) + 1, ps_action = PStr (snd fl), ps_type = PStr (fst fl),
             ps_condition = None, ps_source = None\<rparr>]
      else plan)"

definition build_plan :: "dict \<Rightarrow> rule list \<Rightarrow> plan_step list res" where
  "build_plan acts matched =
     bindr (foldr_res sequencing_step (filter has_sequencing matched) ([], []))
       (\<lambda>(plan, inserted). Inr (foldl (precedence_step acts inserted) plan base_precedence))"

section \<open>Explanation\<close>

definition explanation :: "rule list \<Rightarrow> int \<Rightarrow> string \<Rightarrow> dict \<Rightarrow> string" where
  "explanation matched score band final_actions =
     (if matched = [] then ''No rules matched; incident routed to manual review.''
      else py_str (dict_get final_actions ''priority'' (PStr ''Unclassified'')) @ '' because: '' @
        join_with ''; '' (map (\<lambda>r. rule_name r @ '' ('' @ rule_code r @ '')'') matched) @
        ''. Risk score '' @ str_of_int score @ '' ('' @ band @ '' band) '' @
        ''reflects combined signal weight and is used for triage ranking only, '' @
        ''not as the priority driver.'')"

definition matched_trace :: "rule list \<Rightarrow> matched_rule_trace list" where
  "matched_trace matched =
     map (\<lambda>r. \<lparr>mt_rule_code = rule_code r, mt_name = rule_name r, mt_family = family r,
        mt_priority_weight = priority_weight r, mt_severity_band = severity_band r,
        mt_contribution_score = contribution_score r\<rparr>) matched"

section \<open>Confidence\<close>

text \<open>\<open>round(x, 2)\<close> of a finite double: correctly rounded to two decimals.\<close>

definition round2 :: "fl \<Rightarrow> fl" where
  "round2 x = (case x of Fin a \<Rightarrow> rnd (of_int (round_half_even (a * 100)) / 100) | _ \<Rightarrow> x)"

definition confidence :: "int \<Rightarrow> int \<Rightarrow> fl res" where
  "confidence total_context_sources degraded_count =
     (if total_context_sources \<le> 0 then Inr (Fin 100)
      else let live = max (total_context_sources - degraded_count) 0
           in bindr (int_to_fl live) (\<lambda>l. bindr (int_to_fl total_context_sources) (\<lambda>t.
                Inr (round2 (case t of Fin d \<Rightarrow> fl_div (fl_mul (Fin 100) l) d | _ \<Rightarrow> NaN)))))"

section \<open>The SLA matrix\<close>

type_synonym sla_matrix = "(string \<times> (string \<times> (string \<times> int) list) list) list"

definition priority_to_severity :: "(string \<times> string) list" where
  "priority_to_severity =
     [(''Critical'', ''SEV1_CRITICAL''), (''High'', ''SEV2_MAJOR''), (''Medium'', ''SEV3_MINOR''),
      (''Low'', ''SEV4_INFORMATIONAL'')]"

definition matrix_resolve :: "sla_matrix \<Rightarrow> val \<Rightarrow> val \<Rightarrow> (string \<times> int) list option res" where
  "matrix_resolve matrix customer_tier priority =
     (if \<not> py_bool customer_tier \<or> \<not> py_bool priority then Inr None
      else if \<not> hashable priority then Inl TypeError
      else case (case priority of PStr p \<Rightarrow> map_of priority_to_severity p | _ \<Rightarrow> None) of
             None \<Rightarrow> Inr None
           | Some sev \<Rightarrow>
               (case customer_tier of
                  PStr t \<Rightarrow>
                    (case map_of matrix (py_upper t) of
                       None \<Rightarrow> Inr None
                     | Some row \<Rightarrow> if row = [] then Inr None else Inr (map_of row sev))
                | _ \<Rightarrow> Inl AttributeError))"

section \<open>Context aggregation\<close>

text \<open>
  A context provider: its source name and what its \<open>fetch\<close> returns for an incident (a
  dictionary or nothing) or raises.
\<close>

type_synonym provider = "string \<times> (incident \<Rightarrow> dict option res)"

record aggregated_context =
  merged :: dict
  total_sources :: int
  degraded_sources :: "string list"

definition is_degraded :: "aggregated_context \<Rightarrow> bool" where
  "is_degraded a = (0 < length (degraded_sources a))"

definition aggregate_step :: "incident \<Rightarrow> dict \<times> string list \<Rightarrow> provider \<Rightarrow> dict \<times> string list" where
  "aggregate_step inc st p =
     (case st of (m, degraded) \<Rightarrow>
        (case snd p inc of
           Inl _ \<Rightarrow> (m, degraded @ [fst p])
         | Inr r \<Rightarrow> (dict_update m (case r of None \<Rightarrow> [] | Some d \<Rightarrow> d), degraded)))"

definition aggregate :: "provider list \<Rightarrow> incident \<Rightarrow> aggregated_context" where
  "aggregate providers inc =
     (case foldl (aggregate_step inc) ([], []) providers of (m, dg) \<Rightarrow>
        \<lparr>merged = m, total_sources = int (length providers), degraded_sources = dg\<rparr>)"

text \<open>
  The stub providers (\<open>app/infrastructure/external\<close>): fixed fields, overridden at
  construction time.
\<close>

definition static_field_provider :: "string \<Rightarrow> dict \<Rightarrow> dict option \<Rightarrow> provider" where
  "static_field_provider source_name default_fields overrides =
     (source_name,
      \<lambda>_. Inr (Some (dict_update default_fields (case overrides of None \<Rightarrow> [] | Some d \<Rightarrow> d))))"

definition crm_provider :: "dict option \<Rightarrow> provider" where
  "crm_provider = static_field_provider ''customer_crm''
     [(''customerSegment'', PNone), (''regulatedSectorCustomerAffected'', PBool False)]"

definition historical_context_provider :: "dict option \<Rightarrow> provider" where
  "historical_context_provider = static_field_provider ''historical_incident_store''
     [(''repairVisitCount90Days'', PInt 0), (''warrantyExpired'', PBool False),
      (''towerFlapCount1Hour'', PInt 0), (''sameVendorFaultAssetCount24h'', PInt 0),
      (''correlatedFaultTypesAtSite'', PInt 0)]"

definition incident_correlation_provider :: "dict option \<Rightarrow> provider" where
  "incident_correlation_provider = static_field_provider ''incident_correlation_state''
     [(''activeParentIncidentOnSameAsset'', PBool False), (''upstreamDependencyAlreadyResolved'', PBool False),
      (''duplicateOfExistingMajorIncident'', PBool False), (''regionIncidentCount10Min'', PInt 0),
      (''regionIncidentCount7Days'', PInt 0)]"

definition workforce_provider :: "dict option \<Rightarrow> provider" where
  "workforce_provider = static_field_provider ''dispatch_workforce_system''
     [(''engineerCapacityAvailable'', PBool True)]"

definition vendor_kb_provider :: "dict option \<Rightarrow> provider" where
  "vendor_kb_provider = static_field_provider ''vendor_knowledge_base''
     [(''knownFirmwareBugMatch'', PBool False), (''remoteFixAvailable'', PBool False)]"

definition social_listening_provider :: "dict option \<Rightarrow> provider" where
  "social_listening_provider = static_field_provider ''social_listening''
     [(''negativeSocialMentionSpike'', PBool False)]"

definition regional_policy_provider :: "dict option \<Rightarrow> provider" where
  "regional_policy_provider = static_field_provider ''regional_policy_store''
     [(''isPeakHoursLocal'', PBool False), (''isOffHoursOrHoliday'', PBool False),
      (''highRiskZone'', PBool False), (''gdprScopeRegion'', PBool False)]"

definition competitive_intel_provider :: "dict option \<Rightarrow> provider" where
  "competitive_intel_provider = static_field_provider ''competitive_intelligence''
     [(''competitorCampaignActiveInRegion'', PBool False)]"


section \<open>What the policy engine returns\<close>

definition matches :: "dict \<Rightarrow> rule \<Rightarrow> bool" where
  "matches data r = (vetoed r data = Inr False \<and> is_satisfied_by (conditions r) data = Inr True)"

definition judged :: "dict \<Rightarrow> rule \<Rightarrow> bool" where
  \<comment> \<open>neither clause that the engine evaluates raises\<close>
  "judged data r = (vetoed r data = Inr True \<or> (vetoed r data = Inr False \<and> is_ok (is_satisfied_by (conditions r) data)))"

definition refusal :: "dict \<Rightarrow> rule \<Rightarrow> rejected_rule_trace" where
  "refusal data r = rejection r (if vetoed r data = Inr True then ''self-vetoed by exceptions clause''
     else ''conditions not satisfied'')"

lemma policy_step_cases:
  "policy_step data r (m, rj) =
     (if family r = COMPLIANCE_FAMILY then Inr (m, rj)
      else if judged data r then
        Inr (if matches data r then (m @ [r], rj) else (m, rj @ [refusal data r]))
      else bindr (vetoed r data) (\<lambda>_. bindr (is_satisfied_by (conditions r) data) (\<lambda>_. Inr (m, rj))))"
  by (cases "vetoed r data"; cases "is_satisfied_by (conditions r) data")
    (auto simp: policy_step_def judged_def matches_def refusal_def)

lemma not_judged_raises:
  "\<not> judged data r \<Longrightarrow> family r \<noteq> COMPLIANCE_FAMILY \<Longrightarrow> \<exists>e. policy_step data r st = Inl e"
  by (cases st; cases "vetoed r data"; cases "is_satisfied_by (conditions r) data")
    (auto simp: policy_step_def judged_def)

abbreviation contended :: "rule list \<Rightarrow> rule list" where
  "contended rs \<equiv> filter (\<lambda>r. family r \<noteq> COMPLIANCE_FAMILY) rs"

lemma policy_loop:
  "list_all (judged data) (contended rs) \<Longrightarrow>
   foldr_res (policy_step data) rs (m, rj) =
     Inr (m @ filter (matches data) (contended rs),
          rj @ map (refusal data) (filter (\<lambda>r. \<not> matches data r) (contended rs)))"
proof (induction rs arbitrary: m rj)
  case (Cons r rs)
  then show ?case by (cases "family r = COMPLIANCE_FAMILY"; cases "matches data r") (auto simp: policy_step_cases)
qed simp

lemma policy_loop_ok:
  "foldr_res (policy_step data) rs st = Inr st' \<Longrightarrow> list_all (judged data) (contended rs)"
proof (induction rs arbitrary: st)
  case (Cons r rs)
  then obtain t where "policy_step data r st = Inr t" "foldr_res (policy_step data) rs t = Inr st'"
    by (auto simp: bindr_eq_Inr)
  with Cons.IH [of t] not_judged_raises [of data r st] show ?case by auto
qed simp

lemma policy_evaluate_eq:
  assumes "policy_evaluate pack inc = Inr (matched, rejected)"
  shows "matched = filter (matches (as_evaluation_data inc)) (contended (active_rules pack None))"
    and "rejected = map (refusal (as_evaluation_data inc))
      (filter (\<lambda>r. \<not> matches (as_evaluation_data inc) r) (contended (active_rules pack None)))"
  using assms policy_loop_ok [of "as_evaluation_data inc" "active_rules pack None" "([], [])"]
    policy_loop [of "as_evaluation_data inc" "active_rules pack None" "[]" "[]"]
  by (auto simp: policy_evaluate_def)

lemma policy_evaluate_ok:
  "is_ok (policy_evaluate pack inc) = list_all (judged (as_evaluation_data inc)) (contended (active_rules pack None))"
  using policy_loop_ok [of "as_evaluation_data inc" "active_rules pack None" "([], [])"]
    policy_loop [of "as_evaluation_data inc" "active_rules pack None" "[]" "[]"]
  by (auto simp: policy_evaluate_def is_ok_iff)

text \<open>
  Property C24: the policy engine judges exactly the active rules outside the compliance
  family, each once and in evaluation order: a rule is matched when its exceptions do not
  veto it and its conditions hold, and is otherwise rejected with the reason that applies;
  the engine returns at all exactly when no clause it evaluates raises.
\<close>
theorem policy_engine_partitions:
  fixes pack inc
  defines "ns \<equiv> contended (active_rules pack None)" and "data \<equiv> as_evaluation_data inc"
  shows "is_ok (policy_evaluate pack inc) = list_all (judged data) ns \<and>
    (policy_evaluate pack inc = Inr (matched, rejected) \<longrightarrow>
       matched = filter (matches data) ns \<and>
       rejected = map (refusal data) (filter (\<lambda>r. \<not> matches data r) ns))"
  unfolding ns_def data_def using policy_evaluate_ok policy_evaluate_eq by blast

lemma policy_engine_partitions_witness:
  "map rule_code (filter (matches (as_evaluation_data (new_incident ''I1'' [] [] False)))
     (filter (\<lambda>r. family r \<noteq> COMPLIANCE_FAMILY)
       (active_rules (new_pack ''p'' 1 ACTIVE None
          [(w_rule ''R1'' 3 [])\<lparr>conditions := PBool True\<rparr>, (w_rule ''R2'' 5 [])\<lparr>conditions := PBool False\<rparr>]) None))) =
   [''R1'']"
proof -
  let ?a = "(w_rule ''R1'' 3 [])\<lparr>conditions := PBool True\<rparr>"
  let ?b = "(w_rule ''R2'' 5 [])\<lparr>conditions := PBool False\<rparr>"
  let ?pack = "new_pack ''p'' 1 ACTIVE None [?a, ?b]" and ?inc = "new_incident ''I1'' [] [] False"
  have *: "policy_evaluate ?pack ?inc = Inr ([?a], [rejection ?b ''conditions not satisfied''])"
    by code_simp
  from policy_engine_partitions [of ?pack ?inc "[?a]" "[rejection ?b ''conditions not satisfied'']"] *
  have "[?a] = filter (matches (as_evaluation_data ?inc))
      (filter (\<lambda>r. family r \<noteq> COMPLIANCE_FAMILY) (active_rules ?pack None))" by blast
  then have "map rule_code (filter (matches (as_evaluation_data ?inc)) (contended (active_rules ?pack None))) =
      map rule_code [?a]" by (rule arg_cong [OF sym])
  also have "\<dots> = [''R1'']" by (simp add: w_rule_def)
  finally show ?thesis .
qed


section \<open>What compliance adds\<close>

definition applied_rules :: "dict \<Rightarrow> rule list \<Rightarrow> rule list" where
  "applied_rules data rs = filter (\<lambda>r. is_satisfied_by (conditions r) data = Inr True) rs"

definition applied_constraint :: "rule \<Rightarrow> constraint" where
  "applied_constraint r = \<lparr>c_rule_code = rule_code r, c_name = rule_name r, c_applied = actions r\<rparr>"

lemma compliance_step_eq:
  "compliance_step data r (acts, cs) =
     bindr (is_satisfied_by (conditions r) data) (\<lambda>b.
       Inr (if b then (dict_update acts (actions r), cs @ [applied_constraint r]) else (acts, cs)))"
  by (cases "is_satisfied_by (conditions r) data") (simp_all add: compliance_step_def applied_constraint_def)

lemma compliance_loop:
  "foldr_res (compliance_step data) rs (acts, cs) = Inr (acts', cs') \<Longrightarrow>
   acts' = foldl (\<lambda>a r. dict_update a (actions r)) acts (applied_rules data rs) \<and>
   cs' = cs @ map applied_constraint (applied_rules data rs)"
proof (induction rs arbitrary: acts cs)
  case (Cons r rs)
  then show ?case
    by (cases "is_satisfied_by (conditions r) data")
      (auto simp: compliance_step_eq applied_rules_def dest: Cons.IH split: if_splits)
qed (simp add: applied_rules_def)

lemma dict_update_fold_get:
  "list_all (\<lambda>r. dict_ok (actions r)) rs \<Longrightarrow>
   map_of (foldl (\<lambda>a r. dict_update a (actions r)) acts rs) f =
     (case filter (\<lambda>r. dict_in f (actions r)) (rev rs) of [] \<Rightarrow> map_of acts f | r # _ \<Rightarrow> map_of (actions r) f)"
proof (induction rs rule: rev_induct)
  case (snoc r rs)
  then show ?case by (auto simp: map_of_dict_update dict_in_def split: option.splits)
qed simp

text \<open>
  Compliance records exactly the active compliance rules whose conditions hold,
  in evaluation order, and whatever a rule of them writes overrides the outcome of the
  conflict resolution, the priority included: the last of them that writes a field decides
  it. Their \<open>exceptions\<close> clauses are not consulted.
\<close>
theorem compliance_overrides:
  fixes pack inc
  defines "cs \<equiv> applied_rules (as_evaluation_data inc) (active_rules pack (Some ''COMPLIANCE''))"
  assumes "compliance_apply pack inc acts = Inr (acts', constraints)"
    and "\<forall>r \<in> set (rules pack). dict_ok (actions r)"
  shows "constraints = map applied_constraint cs \<and>
    map_of acts' f = (case filter (\<lambda>r. dict_in f (actions r)) (rev cs) of
       [] \<Rightarrow> map_of acts f | r # _ \<Rightarrow> map_of (actions r) f)"
proof -
  have "list_all (\<lambda>r. dict_ok (actions r)) cs"
    using assms(3) active_rules_active unfolding cs_def applied_rules_def
    by (fastforce simp: list_all_iff)
  then show ?thesis
    using compliance_loop [of "as_evaluation_data inc" "active_rules pack (Some ''COMPLIANCE'')" acts "[]"]
      assms(2) dict_update_fold_get [of cs acts f]
    by (simp add: compliance_apply_def cs_def)
qed

lemma compliance_overrides_witness:
  "map_of [(''priority'', PStr ''Low'')] ''priority'' = Some (PStr ''Low'') \<and>
   compliance_apply (new_pack ''p'' 1 ACTIVE None
     [(w_rule ''C1'' 1 [(''priority'', PStr ''Low'')])\<lparr>family := ''COMPLIANCE'', conditions := PBool True,
        exceptions := Some (PBool True)\<rparr>])
     (new_incident ''I1'' [] [] False) [(''priority'', PStr ''Critical'')] =
   Inr ([(''priority'', PStr ''Low'')], [\<lparr>c_rule_code = ''C1'', c_name = ''C1'', c_applied = [(''priority'', PStr ''Low'')]\<rparr>])"
proof -
  let ?c = "(w_rule ''C1'' 1 [(''priority'', PStr ''Low'')])\<lparr>family := ''COMPLIANCE'', conditions := PBool True,
        exceptions := Some (PBool True)\<rparr>"
  have *: "compliance_apply (new_pack ''p'' 1 ACTIVE None [?c]) (new_incident ''I1'' [] [] False)
      [(''priority'', PStr ''Critical'')] =
    Inr ([(''priority'', PStr ''Low'')], [\<lparr>c_rule_code = ''C1'', c_name = ''C1'', c_applied = [(''priority'', PStr ''Low'')]\<rparr>])"
    by code_simp
  have ok: "\<forall>r \<in> set (rules (new_pack ''p'' 1 ACTIVE None [?c])). dict_ok (actions r)"
    by (simp add: new_pack_def w_rule_def dict_ok_def)
  have "applied_rules (as_evaluation_data (new_incident ''I1'' [] [] False))
      (active_rules (new_pack ''p'' 1 ACTIVE None [?c]) (Some ''COMPLIANCE'')) = [?c]" by code_simp
  with compliance_overrides [OF * ok, of "''priority''"] * show ?thesis
    by (simp add: w_rule_def dict_in_def)
qed

section \<open>The risk score\<close>

text \<open>
  The risk score lies between 0 and 120 and its band follows it by the
  thresholds 30, 50 and 75; with non-negative contributions, suppressing more rules never
  raises it.
\<close>
theorem risk_score_bounds:
  "0 \<le> fst (risk_score m codes) \<and> fst (risk_score m codes) \<le> 120 \<and>
   snd (risk_score m codes) =
     (if fst (risk_score m codes) \<le> 30 then ''LOW'' else if fst (risk_score m codes) \<le> 50 then ''MEDIUM''
      else if fst (risk_score m codes) \<le> 75 then ''HIGH'' else ''CRITICAL'') \<and>
   (list_all (\<lambda>r. 0 \<le> contribution r) m \<longrightarrow> set codes \<subseteq> set others \<longrightarrow>
      fst (risk_score m others) \<le> fst (risk_score m codes))"
proof -
  let ?sum = "\<lambda>cs. sum_list (map contribution (filter (\<lambda>r. rule_code r \<notin> set cs) m))"
  have "?sum others \<le> ?sum codes" if "list_all (\<lambda>r. 0 \<le> contribution r) m" "set codes \<subseteq> set others"
    using that by (induction m) auto
  then show ?thesis by (auto simp: risk_score_def band_of_def risk_bands_def Let_def)
qed

lemma risk_score_bounds_witness:
  "fst (risk_score [(w_rule ''R1'' 1 [])\<lparr>contribution_score := Some 40\<rparr>] [''R1'']) \<le>
   fst (risk_score [(w_rule ''R1'' 1 [])\<lparr>contribution_score := Some 40\<rparr>] [])"
  using risk_score_bounds [of "[(w_rule ''R1'' 1 [])\<lparr>contribution_score := Some 40\<rparr>]" "[]" "[''R1'']"]
  by (simp add: contribution_def)

section \<open>The execution plan\<close>

lemma upto_snoc: "[1..int n] @ [int n + 1] = [1..int n + 1]"
  using upto_rec2 [of 1 "int n + 1"] by simp

definition numbered :: "plan_step list \<Rightarrow> bool" where
  "numbered plan = (map ps_order plan = [1..int (length plan)])"

lemma numbered_snoc: "numbered plan \<Longrightarrow> ps_order s = int (length plan) + 1 \<Longrightarrow> numbered (plan @ [s])"
  using upto_snoc [of "length plan"] by (simp add: numbered_def add.commute)

lemma sequencing_step_numbered:
  assumes "sequencing_step r (plan, ins) = Inr (plan', ins')" and "numbered plan"
  shows "numbered plan'"
proof -
  obtain a b where "plan' = plan @ [a, b]" "ps_order a = int (length plan) + 1" "ps_order b = int (length plan) + 2"
    using assms(1) by (auto simp: sequencing_step_def Let_def bindr_eq_Inr split: if_splits)
  with numbered_snoc [of "plan @ [a]" b] numbered_snoc [of plan a] assms(2) show ?thesis by simp
qed

lemma precedence_step_numbered: "numbered plan \<Longrightarrow> numbered (precedence_step acts ins plan fl)"
  by (simp add: precedence_step_def numbered_snoc)

lemma precedence_fold:
  "foldl (precedence_step acts ins) plan fls =
     plan @ map (\<lambda>(i, fl). \<lparr>ps_order = int i + 1, ps_action = PStr (snd fl), ps_type = PStr (fst fl),
             ps_condition = None, ps_source = None\<rparr>)
       (enumerate (length plan) (filter (\<lambda>fl. py_bool (get_none acts (fst fl)) \<and> PStr (fst fl) \<notin> set ins) fls))"
  by (induction fls arbitrary: plan) (auto simp: precedence_step_def)

text \<open>The sequencing entries of a rule: the first attempt, then its fallback.\<close>

definition sequenced_types :: "rule \<Rightarrow> val list" where
  "sequenced_types r = (case sequencing r of None \<Rightarrow> [] | Some s \<Rightarrow> [get_none s ''tryFirst'', get_none s ''fallbackTo''])"

lemma sequencing_step_types:
  "sequencing_step r (plan, ins) = Inr (plan', ins') \<Longrightarrow>
   map ps_type plan' = map ps_type plan @ sequenced_types r \<and> ins' = ins @ sequenced_types r"
  by (auto simp: sequencing_step_def sequenced_types_def Let_def bindr_eq_Inr get_item_def get_none_def dict_get_def
      split: if_splits option.splits)

lemma sequencing_loop:
  "foldr_res sequencing_step rs (plan, ins) = Inr (plan', ins') \<Longrightarrow> numbered plan \<Longrightarrow>
   numbered plan' \<and> map ps_type plan' = map ps_type plan @ concat (map sequenced_types rs) \<and>
   ins' = ins @ concat (map sequenced_types rs)"
proof (induction rs arbitrary: plan ins)
  case (Cons r rs)
  then obtain p i where st: "sequencing_step r (plan, ins) = Inr (p, i)"
    and rest: "foldr_res sequencing_step rs (p, i) = Inr (plan', ins')"
    by (auto simp: bindr_eq_Inr)
  from Cons.IH [OF rest sequencing_step_numbered [OF st Cons.prems(2)]] sequencing_step_types [OF st]
  show ?case by simp
qed simp

lemma foldl_numbered: "numbered plan \<Longrightarrow> numbered (foldl (precedence_step acts ins) plan fls)"
  by (induction fls arbitrary: plan) (auto simp: precedence_step_numbered)

text \<open>
  An execution plan is numbered 1, 2, ... without gaps; it lists first, per
  sequenced rule, the attempt and its fallback, then the truthy actions of the fixed
  precedence in that order, leaving out those a sequencing already inserted.
\<close>
theorem plan_numbered_and_ordered:
  assumes "build_plan acts matched = Inr plan"
  shows "map ps_order plan = [1..int (length plan)] \<and>
    map ps_type plan =
      concat (map sequenced_types (filter has_sequencing matched)) @
      map (\<lambda>fl. PStr (fst fl)) (filter (\<lambda>fl. py_bool (get_none acts (fst fl)) \<and>
        PStr (fst fl) \<notin> set (concat (map sequenced_types (filter has_sequencing matched)))) base_precedence)"
proof -
  obtain p ins where l: "foldr_res sequencing_step (filter has_sequencing matched) ([], []) = Inr (p, ins)"
    and plan: "plan = foldl (precedence_step acts ins) p base_precedence"
    using assms by (auto simp: build_plan_def bindr_eq_Inr)
  have n: "numbered p" and t: "map ps_type p = concat (map sequenced_types (filter has_sequencing matched))"
    and i: "ins = concat (map sequenced_types (filter has_sequencing matched))"
    using sequencing_loop [OF l] by (simp_all add: numbered_def)
  have "map ps_type plan = map ps_type p @ map (\<lambda>fl. PStr (fst fl))
      (filter (\<lambda>fl. py_bool (get_none acts (fst fl)) \<and> PStr (fst fl) \<notin> set ins) base_precedence)"
  proof -
    have "map (\<lambda>x. PStr (fst (snd x))) (enumerate k xs) = map (\<lambda>fl. PStr (fst fl)) (xs :: (string \<times> string) list)" for k xs
      by (induction xs arbitrary: k) auto
    then show ?thesis by (simp add: plan precedence_fold comp_def split_beta)
  qed
  with foldl_numbered [OF n] show ?thesis
    unfolding plan t i numbered_def by simp
qed

lemma plan_numbered_and_ordered_witness:
  "map ps_type [\<lparr>ps_order = 1, ps_action = PStr ''Notify NOC'', ps_type = PStr ''notifyNOC'',
      ps_condition = None, ps_source = None\<rparr>] = [PStr ''notifyNOC'']"
proof -
  have "build_plan [(''notifyNOC'', PBool True)] [] =
      Inr [\<lparr>ps_order = 1, ps_action = PStr ''Notify NOC'', ps_type = PStr ''notifyNOC'',
        ps_condition = None, ps_source = None\<rparr>]" by code_simp
  from plan_numbered_and_ordered [OF this] show ?thesis by simp
qed

section \<open>Context aggregation\<close>

lemma aggregate_loop:
  "foldl (aggregate_step inc) (m, dg) ps =
     (foldl (\<lambda>m p. dict_update m (case snd p inc of Inr (Some d) \<Rightarrow> d | _ \<Rightarrow> [])) m ps,
      dg @ map fst (filter (\<lambda>p. \<not> is_ok (snd p inc)) ps))"
  by (induction ps arbitrary: m dg) (auto simp: aggregate_step_def split: sum.splits option.splits)

text \<open>
  A raising context source degrades that source only: aggregation is the same
  as over the sources that answered, except that the failed ones are counted and listed in
  registration order; a field is given by the last source that answered with it.
\<close>
theorem aggregation_isolates_failures:
  "merged (aggregate ps inc) = merged (aggregate (filter (\<lambda>p. is_ok (snd p inc)) ps) inc) \<and>
   degraded_sources (aggregate ps inc) = map fst (filter (\<lambda>p. \<not> is_ok (snd p inc)) ps) \<and>
   is_degraded (aggregate ps inc) = (\<exists>p \<in> set ps. \<not> is_ok (snd p inc)) \<and>
   total_sources (aggregate ps inc) = int (length ps) \<and>
   (snd p inc = Inr (Some d) \<longrightarrow> dict_ok d \<longrightarrow>
      map_of (merged (aggregate (ps @ [p]) inc)) f =
        (case map_of d f of None \<Rightarrow> map_of (merged (aggregate ps inc)) f | Some v \<Rightarrow> Some v))"
proof -
  have "foldl (\<lambda>m p. dict_update m (case snd p inc of Inr (Some d) \<Rightarrow> d | _ \<Rightarrow> [])) m ps =
      foldl (\<lambda>m p. dict_update m (case snd p inc of Inr (Some d) \<Rightarrow> d | _ \<Rightarrow> [])) m
        (filter (\<lambda>p. is_ok (snd p inc)) ps)" for m
    by (induction ps arbitrary: m) (auto split: sum.splits)
  then show ?thesis
    by (auto simp: aggregate_def is_degraded_def aggregate_loop aggregate_step_def map_of_dict_update
        filter_empty_conv split: option.splits)
qed

lemma aggregation_isolates_failures_witness:
  "map_of (merged (aggregate [(''down'', \<lambda>_. Inl TypeError), workforce_provider None] (new_incident ''I1'' [] [] False)))
     ''engineerCapacityAvailable'' = Some (PBool True)"
  using aggregation_isolates_failures [of "[(''down'', \<lambda>_. Inl TypeError)]" "new_incident ''I1'' [] [] False"
      "workforce_provider None" "[(''engineerCapacityAvailable'', PBool True)]" "''engineerCapacityAvailable''"]
  by (simp add: workforce_provider_def static_field_provider_def dict_ok_def)

end
