(* ===== verification/Resolver_Properties.thy ===== *)
theory Resolver_Properties
  imports Conflict_Resolver
begin

text \<open>
  What the conflict resolver guarantees: where the value of a field comes from, that a
  suppressor never silences a non-suppressible rule, who wins a conflict group, and the
  closed form of the final priority over the severity scale.
\<close>

section \<open>The writers of a field\<close>

definition writes :: "string \<Rightarrow> rule \<Rightarrow> bool" where
  "writes f r = (dict_in f (actions r) \<and> f \<notin> set modifier_fields)"

definition rules_ok :: "rule list \<Rightarrow> bool" where
  "rules_ok rs = list_all (\<lambda>r. dict_ok (actions r)) rs"

lemma rules_ok_mem: "rules_ok rs \<Longrightarrow> r \<in> set rs \<Longrightarrow> dict_ok (actions r)"
  by (auto simp: rules_ok_def list_all_iff)

lemma field_value_writes: "writes f r \<Longrightarrow> map_of (actions r) f = Some (field_value f r)"
  by (auto simp: writes_def dict_in_def field_value_def get_none_def dict_get_def)

lemma add_writer_keys:
  "distinct ks \<Longrightarrow>
   dict_get (foldl (\<lambda>fw f. if f \<in> set modifier_fields then fw else dict_append f r fw) fw ks) f [] =
   dict_get fw f [] @ (if f \<in> set ks \<and> f \<notin> set modifier_fields then [r] else [])"
  by (induction ks arbitrary: fw) auto

lemma add_writer_get:
  "dict_ok (actions r) \<Longrightarrow>
   dict_get (add_writer r fw) f [] = dict_get fw f [] @ (if writes f r then [r] else [])"
  using add_writer_keys [of "map fst (actions r)" r fw f]
  by (simp add: add_writer_def dict_ok_def writes_def dict_in_fst)

lemma field_writers_foldl_get:
  "rules_ok matched \<Longrightarrow>
   dict_get (foldl (\<lambda>fw r. add_writer r fw) fw matched) f [] = dict_get fw f [] @ filter (writes f) matched"
  by (induction matched arbitrary: fw) (auto simp: rules_ok_def add_writer_get)

lemma field_writers_get:
  "rules_ok matched \<Longrightarrow> dict_get (field_writers matched) f [] = filter (writes f) matched"
  using field_writers_foldl_get [of matched "[]" f] by (simp add: field_writers_def dict_get_simps)

lemma dict_ok_add_writer: "dict_ok fw \<Longrightarrow> dict_ok (add_writer r fw)"
proof -
  have "dict_ok fw \<Longrightarrow>
    dict_ok (foldl (\<lambda>fw f. if f \<in> set modifier_fields then fw else dict_append f r fw) fw ks)" for ks
    by (induction ks arbitrary: fw) auto
  then show "dict_ok fw \<Longrightarrow> dict_ok (add_writer r fw)" by (simp add: add_writer_def)
qed

lemma dict_ok_field_writers: "dict_ok (field_writers matched)"
proof -
  have "dict_ok fw \<Longrightarrow> dict_ok (foldl (\<lambda>fw r. add_writer r fw) fw matched)" for fw
    by (induction matched arbitrary: fw) (auto intro: dict_ok_add_writer)
  then show ?thesis by (simp add: field_writers_def)
qed

text \<open>No field is listed without a writer.\<close>

lemma field_writers_nonempty: "map_of (field_writers matched) f \<noteq> Some []"
proof -
  let ?step = "\<lambda>r fw f. if f \<in> set modifier_fields then fw else dict_append f r fw"
  have one: "map_of fw f \<noteq> Some [] \<Longrightarrow> map_of (foldl (?step r) fw ks) f \<noteq> Some []" for fw r ks
    by (induction ks arbitrary: fw) (auto simp: dict_append_def)
  have "map_of fw f \<noteq> Some [] \<Longrightarrow> map_of (foldl (\<lambda>fw r. add_writer r fw) fw matched) f \<noteq> Some []" for fw
    by (induction matched arbitrary: fw) (auto simp: add_writer_def one)
  from this [of "[]"] show ?thesis by (simp add: field_writers_def)
qed

lemma field_writers_map_of:
  assumes "rules_ok matched"
  shows "map_of (field_writers matched) f =
    (if filter (writes f) matched = [] then None else Some (filter (writes f) matched))"
proof (cases "map_of (field_writers matched) f")
  case None
  then show ?thesis using field_writers_get [OF assms, of f] by (simp add: dict_get_def)
next
  case (Some ws)
  then show ?thesis
    using field_writers_get [OF assms, of f] field_writers_nonempty [of matched f]
    by (simp add: dict_get_def)
qed

lemma field_writers_mem:
  assumes "rules_ok matched" and "map_of (field_writers matched) f = Some ws" and "r \<in> set ws"
  shows "r \<in> set matched" and "writes f r"
  using assms by (auto simp: field_writers_map_of split: if_splits)

section \<open>Suppression\<close>

lemma suppressors_enumerate:
  "filter (\<lambda>(_, r). is_suppressor r) (enumerate n ws) = [] \<longleftrightarrow> (\<forall>r \<in> set ws. \<not> is_suppressor r)"
  by (induction ws arbitrary: n) auto

lemma enumerate_mem: "(i, r) \<in> set (enumerate n ws) \<Longrightarrow> r \<in> set ws"
  by (induction ws arbitrary: n) auto

lemma enumerate_mem_ex: "r \<in> set ws \<Longrightarrow> \<exists>i. (i, r) \<in> set (enumerate n ws)"
proof (induction ws arbitrary: n)
  case (Cons a ws)
  then show ?case using Cons.IH [of "Suc n"] by auto
qed simp

text \<open>The three outcomes of the pass.\<close>

lemma apply_suppression_cases:
  obtains (none) "\<forall>r \<in> set ws. \<not> is_suppressor r" "apply_suppression f ws = (ws, [])"
  | (protected) n where "n \<in> set ws" "non_suppressible n"
      "fst (apply_suppression f ws) = filter (\<lambda>r. \<not> is_suppressor r) ws"
      "\<And>e. e \<in> set (snd (apply_suppression f ws)) \<Longrightarrow> s_field e = f \<and> s_rule_code e \<in> rule_code ` set ws"
  | (won) w where "w \<in> set ws" "is_suppressor w" "\<forall>r \<in> set ws. \<not> non_suppressible r"
      "fst (apply_suppression f ws) = [w]"
      "\<And>e. e \<in> set (snd (apply_suppression f ws)) \<Longrightarrow> s_field e = f \<and> s_rule_code e \<in> rule_code ` set ws"
proof (cases "filter (\<lambda>(_, r). is_suppressor r) (enumerate 0 ws)")
  case Nil
  then show ?thesis
    using none suppressors_enumerate [of 0 ws] by (simp add: apply_suppression_def Let_def)
next
  case (Cons s ss)
  note cons = Cons
  have mem: "r \<in> set ws \<and> is_suppressor r" if "(i, r) \<in> set (s # ss)" for i r
    using that unfolding Cons [symmetric] by (auto dest: enumerate_mem)
  show ?thesis
  proof (cases "filter non_suppressible ws")
    case Nil
    obtain i w where w: "max_by (\<lambda>(_, r). priority_weight r) s ss = (i, w)" by fastforce
    then have "(i, w) \<in> set (s # ss)" using max_by_in [of "\<lambda>(_, r). priority_weight r" s ss] by simp
    then have "w \<in> set ws" "is_suppressor w" using mem by blast+
    moreover have "s_field e = f \<and> s_rule_code e \<in> rule_code ` set ws"
      if "e \<in> set (snd (apply_suppression f ws))" for e
      using that Nil Cons w by (auto simp: apply_suppression_def Let_def dest: enumerate_mem)
    moreover have "\<forall>r \<in> set ws. \<not> non_suppressible r" using Nil by (simp add: filter_empty_conv)
    ultimately show ?thesis
      using won [of w] Nil Cons w by (simp add: apply_suppression_def Let_def)
  next
    case (Cons n ns)
    then have "n \<in> set (filter non_suppressible ws)" by simp
    then have "n \<in> set ws" "non_suppressible n" by simp_all
    moreover have "s_field e = f \<and> s_rule_code e \<in> rule_code ` set ws"
      if e: "e \<in> set (snd (apply_suppression f ws))" for e
    proof -
      have "e \<in> (\<lambda>(_, r). \<lparr>s_rule_code = rule_code r, s_field = f,
          s_reason = ''attempted suppression overridden by non-suppressible rule''\<rparr>) ` set (s # ss)"
        using e Cons cons by (simp add: apply_suppression_def Let_def)
      then obtain i r where "(i, r) \<in> set (s # ss)" "s_field e = f" "s_rule_code e = rule_code r"
        by (auto simp del: set_simps)
      with mem [of i r] show ?thesis by blast
    qed
    ultimately show ?thesis
      using protected [of n] Cons cons
      by (simp add: apply_suppression_def Let_def)
  qed
qed

lemma apply_suppression_subset: "set (fst (apply_suppression f ws)) \<subseteq> set ws"
  by (rule apply_suppression_cases [of ws f]) auto

text \<open>
  With a non-suppressible writer of the field, no suppressor survives and every other
  writer does.
\<close>

lemma apply_suppression_protected:
  assumes "n \<in> set ws" and "non_suppressible n"
  shows "fst (apply_suppression f ws) = filter (\<lambda>r. \<not> is_suppressor r) ws"
proof (cases "\<exists>r \<in> set ws. is_suppressor r")
  case True
  moreover have "filter non_suppressible ws \<noteq> []" using assms by (auto simp: filter_empty_conv)
  ultimately show ?thesis
    using suppressors_enumerate [of 0 ws]
    by (auto simp: apply_suppression_def Let_def split: list.splits)
next
  case False
  then show ?thesis
    using suppressors_enumerate [of 0 ws] by (auto simp: apply_suppression_def Let_def)
qed

lemma apply_suppression_none:
  "(\<forall>r \<in> set ws. \<not> is_suppressor r) \<Longrightarrow> apply_suppression f ws = (ws, [])"
  using suppressors_enumerate [of 0 ws] by (simp add: apply_suppression_def Let_def)

text \<open>Every log entry of a field names one of its writers.\<close>

lemma apply_suppression_log:
  "e \<in> set (snd (apply_suppression f ws)) \<Longrightarrow> s_field e = f \<and> s_rule_code e \<in> rule_code ` set ws"
  by (rule apply_suppression_cases [of ws f]) auto

section \<open>Conflict groups\<close>

definition spec_of :: "rule \<Rightarrow> int" where
  "spec_of r = (case specificity (conditions r) of Inl _ \<Rightarrow> 0 | Inr n \<Rightarrow> n)"

text \<open>\<open>w\<close> beats every candidate: heavier, else more specific, else the least code.\<close>

definition beats_all :: "rule \<Rightarrow> rule list \<Rightarrow> bool" where
  "beats_all w cs \<longleftrightarrow> w \<in> set cs \<and>
     (\<forall>r \<in> set cs. priority_weight r < priority_weight w \<or>
        (priority_weight r = priority_weight w \<and>
          (spec_of r < spec_of w \<or> (spec_of r = spec_of w \<and> rule_code w \<le> rule_code r))))"

lemma beats_all_unique:
  assumes "beats_all w cs" and "beats_all v ds" and "set cs = set ds"
    and "inj_on rule_code (set cs)"
  shows "v = w"
proof -
  have vc: "v \<in> set cs" and wc: "w \<in> set cs" and wd: "w \<in> set ds"
    using assms(1-3) by (simp_all add: beats_all_def)
  have "priority_weight v < priority_weight w \<or> (priority_weight v = priority_weight w \<and>
      (spec_of v < spec_of w \<or> (spec_of v = spec_of w \<and> rule_code w \<le> rule_code v)))"
    using assms(1) vc by (simp add: beats_all_def)
  moreover have "priority_weight w < priority_weight v \<or> (priority_weight w = priority_weight v \<and>
      (spec_of w < spec_of v \<or> (spec_of w = spec_of v \<and> rule_code v \<le> rule_code w)))"
    using assms(2) wd by (simp add: beats_all_def)
  ultimately have "rule_code v = rule_code w" by (auto intro: antisym)
  moreover note vc wc
  ultimately show ?thesis using assms(4) by (simp add: inj_on_eq_iff)
qed

lemma heaviest_props:
  assumes "cs \<noteq> []"
  shows "heaviest cs \<noteq> []" and "set (heaviest cs) \<subseteq> set cs"
    and "c \<in> set (heaviest cs) \<Longrightarrow> d \<in> set cs \<Longrightarrow> priority_weight (snd d) \<le> priority_weight (snd c)"
    and "c \<in> set (heaviest cs) \<Longrightarrow> d \<in> set cs \<Longrightarrow> priority_weight (snd d) = priority_weight (snd c)
          \<Longrightarrow> d \<in> set (heaviest cs)"
proof -
  obtain c0 rest where cs: "cs = c0 # rest" using assms by (cases cs) auto
  let ?ws = "map (\<lambda>(_, r). priority_weight r) rest" and ?w = "(\<lambda>(_, r). priority_weight r) c0"
  let ?m = "max_by (\<lambda>x. x) ?w ?ws"
  have h: "heaviest cs = filter (\<lambda>(_, r). priority_weight r = ?m) cs"
    by (simp add: heaviest_def cs)
  have "?m \<in> set (?w # ?ws)" by (rule max_by_in)
  then have "?m \<in> (\<lambda>(_, r). priority_weight r) ` set cs" by (auto simp: cs)
  then have "\<exists>d. d \<in> set (heaviest cs)" unfolding h by force
  then show "heaviest cs \<noteq> []" by auto
  show "set (heaviest cs) \<subseteq> set cs" by (auto simp: h)
  have ub: "priority_weight (snd d) \<le> ?m" if "d \<in> set cs" for d
  proof -
    have "(\<lambda>(_, r). priority_weight r) d \<in> (\<lambda>(_, r). priority_weight r) ` set cs"
      using that by (rule imageI)
    then have "priority_weight (snd d) \<in> set (?w # ?ws)" by (simp add: cs split_beta)
    then show ?thesis using max_by_ge [of "priority_weight (snd d)" ?w ?ws "\<lambda>x. x"] by simp
  qed
  show "c \<in> set (heaviest cs) \<Longrightarrow> d \<in> set cs \<Longrightarrow> priority_weight (snd d) \<le> priority_weight (snd c)"
    using ub [of d] by (auto simp: h)
  show "c \<in> set (heaviest cs) \<Longrightarrow> d \<in> set cs \<Longrightarrow> priority_weight (snd d) = priority_weight (snd c)
      \<Longrightarrow> d \<in> set (heaviest cs)"
    by (auto simp: h)
qed

lemma keyed_Inr:
  "keyed key xs = Inr kvs \<Longrightarrow> map snd kvs = xs \<and> (\<forall>(k, x) \<in> set kvs. key x = Inr k)"
  by (induction xs arbitrary: kvs) (auto simp: keyed_def bindr_eq_Inr)

lemma most_specific_props:
  assumes "most_specific cands = Inr best" and "cands \<noteq> []"
  shows "best \<noteq> []" and "set best \<subseteq> set cands"
    and "c \<in> set best \<Longrightarrow> d \<in> set cands \<Longrightarrow> spec_of (snd d) \<le> spec_of (snd c)"
    and "c \<in> set best \<Longrightarrow> d \<in> set cands \<Longrightarrow> spec_of (snd d) = spec_of (snd c) \<Longrightarrow> d \<in> set best"
proof -
  obtain specs where sp: "keyed (\<lambda>c. specificity (conditions (snd c))) cands = Inr specs"
    using assms(1) by (cases "keyed (\<lambda>c. specificity (conditions (snd c))) cands")
      (simp_all add: most_specific_def)
  then have bd: "(case map fst specs of [] \<Rightarrow> Inr []
      | n # ns \<Rightarrow> Inr (map snd (filter (\<lambda>(k, _). k = max_by (\<lambda>x. x) n ns) specs))) = (Inr best :: (nat \<times> rule) list res)"
    using assms(1) by (simp add: most_specific_def)
  from keyed_Inr [OF sp] have snds: "map snd specs = cands"
    and keys: "\<And>k c. (k, c) \<in> set specs \<Longrightarrow> k = spec_of (snd c)"
    by (auto simp: spec_of_def)
  obtain s0 rest where specs: "specs = s0 # rest" using assms(2) snds by (cases specs) auto
  let ?m = "max_by (\<lambda>x. x) (fst s0) (map fst rest)"
  have b: "best = map snd (filter (\<lambda>(k, _). k = ?m) specs)" using bd by (simp add: specs)
  have "?m \<in> set (fst s0 # map fst rest)" by (rule max_by_in)
  then have "?m \<in> fst ` set specs" by (auto simp: specs)
  then show "best \<noteq> []" by (auto simp: b filter_empty_conv)
  show "set best \<subseteq> set cands" by (auto simp: b snds [symmetric])
  have mem: "\<exists>k. (k, d) \<in> set specs" if "d \<in> set cands" for d
    using that by (force simp: snds [symmetric])
  have ub: "spec_of (snd d) \<le> ?m" if d: "d \<in> set cands" for d
  proof -
    obtain k where k: "(k, d) \<in> set specs" using mem [OF d] by blast
    then have "k \<in> fst ` set specs" by force
    then have "spec_of (snd d) \<in> set (fst s0 # map fst rest)"
      using keys [OF k] by (simp add: specs)
    then show ?thesis using max_by_ge [of "spec_of (snd d)" "fst s0" "map fst rest" "\<lambda>x. x"] by simp
  qed
  have best_m: "spec_of (snd c) = ?m" if "c \<in> set best" for c
    using that keys by (force simp: b)
  show "c \<in> set best \<Longrightarrow> d \<in> set cands \<Longrightarrow> spec_of (snd d) \<le> spec_of (snd c)"
    using ub best_m by metis
  show "d \<in> set best" if c: "c \<in> set best" and d: "d \<in> set cands" and eq: "spec_of (snd d) = spec_of (snd c)"
  proof -
    obtain k where k: "(k, d) \<in> set specs" using mem [OF d] by blast
    then have "k = ?m" using keys [OF k] best_m [OF c] eq by simp
    with k have "(k, d) \<in> set (filter (\<lambda>(k, _). k = ?m) specs)" by simp
    then show ?thesis unfolding b by force
  qed
qed

lemma resolve_conflict_group_winner:
  assumes r: "resolve_conflict_group f cands = Inr (w, lost)"
  shows "beats_all w cands"
proof -
  let ?cs = "enumerate 0 cands"
  have nonempty: "?cs \<noteq> []" using r by (cases cands) (auto simp: resolve_conflict_group_def heaviest_def)
  note h = heaviest_props [OF nonempty]
  obtain best t ts where best: "(if 1 < length (heaviest ?cs) then most_specific (heaviest ?cs)
      else Inr (heaviest ?cs)) = Inr best" and bt: "best = t # ts"
    and w: "w = snd (min_by (\<lambda>(_, r). rule_code r) t ts)"
  proof -
    obtain best where best: "(if 1 < length (heaviest ?cs) then most_specific (heaviest ?cs)
        else Inr (heaviest ?cs)) = Inr best"
      using r unfolding resolve_conflict_group_def Let_def bindr_eq_Inr by blast
    with r show ?thesis
      by (cases best) (auto simp add: resolve_conflict_group_def Let_def intro: that [OF best])
  qed
  let ?win = "min_by (\<lambda>(_, r). rule_code r) t ts"
  have win: "?win \<in> set best" using min_by_in [of _ t ts] bt by simp
  have sub: "set best \<subseteq> set (heaviest ?cs)"
    and spec: "\<And>c d. c \<in> set best \<Longrightarrow> d \<in> set (heaviest ?cs) \<Longrightarrow>
       spec_of (snd d) < spec_of (snd c) \<or> (spec_of (snd d) = spec_of (snd c) \<and> d \<in> set best)"
  proof -
    show "set best \<subseteq> set (heaviest ?cs)"
      using best most_specific_props(2) h(1) by (auto split: if_splits)
    show "spec_of (snd d) < spec_of (snd c) \<or> (spec_of (snd d) = spec_of (snd c) \<and> d \<in> set best)"
      if c: "c \<in> set best" and d: "d \<in> set (heaviest ?cs)" for c d
    proof (cases "1 < length (heaviest ?cs)")
      case True
      with best have "most_specific (heaviest ?cs) = Inr best" by simp
      from most_specific_props(3,4) [OF this h(1) c d] show ?thesis by fastforce
    next
      case False
      with h(1) obtain x where "heaviest ?cs = [x]" by (cases "heaviest ?cs") auto
      with best False c d show ?thesis by auto
    qed
  qed
  have code: "rule_code (snd ?win) \<le> rule_code (snd d)" if "d \<in> set best" for d
    using min_by_le [of d t ts "\<lambda>(_, r). rule_code r"] that bt by (simp add: case_prod_beta)
  have "priority_weight r < priority_weight w \<or> (priority_weight r = priority_weight w \<and>
      (spec_of r < spec_of w \<or> (spec_of r = spec_of w \<and> rule_code w \<le> rule_code r)))"
    if r: "r \<in> set cands" for r
  proof -
    obtain i where i: "(i, r) \<in> set ?cs" using enumerate_mem_ex [OF r] by blast
    have "priority_weight r \<le> priority_weight w" using h(3) [of ?win "(i, r)"] win sub i w by auto
    moreover have "(i, r) \<in> set (heaviest ?cs)" if "priority_weight r = priority_weight w"
      using h(4) [of ?win "(i, r)"] win sub i w that by auto
    ultimately show ?thesis
      using spec [OF win, of "(i, r)"] code [of "(i, r)"] w by fastforce
  qed
  moreover have "w \<in> set cands" using win sub h(2) w by (metis enumerate_mem subsetD prod.collapse)
  ultimately show ?thesis by (simp add: beats_all_def)
qed

text \<open>
  Property C22: a conflict group is won by the rule of greatest weight, then of greatest
  specificity, then of least rule code; so among rules with distinct codes the winner does
  not depend on the order in which they matched.
\<close>
theorem conflict_group_winner:
  assumes "resolve_conflict_group f xs = Inr (w, lost)"
  shows "beats_all w xs \<and>
    (distinct (map rule_code xs) \<longrightarrow> mset ys = mset xs \<longrightarrow>
       resolve_conflict_group f ys = Inr (v, lost') \<longrightarrow> v = w)"
proof (intro conjI impI)
  show w: "beats_all w xs" using assms by (rule resolve_conflict_group_winner)
  assume "distinct (map rule_code xs)" "mset ys = mset xs" "resolve_conflict_group f ys = Inr (v, lost')"
  then have "beats_all v ys" "inj_on rule_code (set xs)"
    by (simp_all add: resolve_conflict_group_winner distinct_map)
  moreover have "set xs = set ys" using mset_eq_setD [OF \<open>mset ys = mset xs\<close>] by simp
  ultimately show "v = w" using w by (intro beats_all_unique)
qed


lemma conflict_group_winner_witness:
  "beats_all (w_rule ''R2'' 5 []) [w_rule ''R1'' 3 [], w_rule ''R2'' 5 []] \<and>
   resolve_conflict_group ''priority'' [w_rule ''R2'' 5 [], w_rule ''R1'' 3 []] =
     Inr (w_rule ''R2'' 5 [], [\<lparr>s_rule_code = ''R1'', s_field = ''priority'',
       s_reason = ''lost conflict group to R2''\<rparr>])"
proof
  have *: "resolve_conflict_group ''priority'' [w_rule ''R1'' 3 [], w_rule ''R2'' 5 []] =
      Inr (w_rule ''R2'' 5 [], [\<lparr>s_rule_code = ''R1'', s_field = ''priority'',
        s_reason = ''lost conflict group to R2''\<rparr>])"
    by (simp add: resolve_conflict_group_def heaviest_def w_rule_def)
  from conflict_group_winner [OF *] show "beats_all (w_rule ''R2'' 5 []) [w_rule ''R1'' 3 [], w_rule ''R2'' 5 []]"
    by blast
  show "resolve_conflict_group ''priority'' [w_rule ''R2'' 5 [], w_rule ''R1'' 3 []] =
     Inr (w_rule ''R2'' 5 [], [\<lparr>s_rule_code = ''R1'', s_field = ''priority'',
       s_reason = ''lost conflict group to R2''\<rparr>])"
    by (simp add: resolve_conflict_group_def heaviest_def w_rule_def)
qed

section \<open>Where the value of a field comes from\<close>

lemma bool_list_any:
  "list_all is_bool vs \<Longrightarrow> vs \<noteq> [] \<Longrightarrow> PBool (list_ex py_bool vs) \<in> set vs"
proof (induction vs)
  case (Cons v vs)
  then show ?case by (cases v; cases "vs = []") auto
qed simp

lemma keyed_snd: "keyed key xs = Inr (kv # rest) \<Longrightarrow> snd ` set (kv # rest) = set xs"
  using keyed_Inr [of key xs "kv # rest"] by (metis set_map)

lemma pick_max:
  "bindr (keyed key xs) (\<lambda>kvs. case kvs of [] \<Rightarrow> Inl e | kv # rest \<Rightarrow> Inr (snd (max_by fst kv rest))) = Inr v
    \<Longrightarrow> v \<in> set xs"
  by (cases "keyed key xs"; cases "projr (keyed key xs)")
    (auto dest!: keyed_snd intro!: imageI max_by_in simp del: set_simps)

lemma pick_min:
  "bindr (keyed key xs) (\<lambda>kvs. case kvs of [] \<Rightarrow> Inl e | kv # rest \<Rightarrow> Inr (snd (min_by fst kv rest))) = Inr v
    \<Longrightarrow> v \<in> set xs"
  by (cases "keyed key xs"; cases "projr (keyed key xs)")
    (auto dest!: keyed_snd intro!: imageI min_by_in simp del: set_simps)

lemma merge_field_provenance:
  assumes "merge_field f cs = Inr v" and "cs \<noteq> []"
  shows "v \<in> field_value f ` set cs"
proof -
  let ?vs = "map (field_value f) cs"
  have vs: "set ?vs = field_value f ` set cs" by simp
  consider "f = ''priority''" | "f = ''targetSLA'' \<or> f = ''slaTarget''"
    | "f \<noteq> ''priority''" "\<not> (f = ''targetSLA'' \<or> f = ''slaTarget'')" by blast
  then show ?thesis
  proof cases
    case 1
    with assms(1) have "bindr (keyed severity_rank ?vs) (\<lambda>kvs. case kvs of
        [] \<Rightarrow> Inl (ValueError ''max() iterable argument is empty'')
      | kv # rest \<Rightarrow> Inr (snd (max_by fst kv rest))) = Inr v"
      by (auto simp: merge_field_def Let_def)
    from pick_max [OF this] show ?thesis by simp
  next
    case 2
    with assms(1) have "bindr (keyed parse_duration_minutes ?vs) (\<lambda>kvs. case kvs of
        [] \<Rightarrow> Inl (ValueError ''min() iterable argument is empty'')
      | kv # rest \<Rightarrow> Inr (snd (min_by fst kv rest))) = Inr v"
      by (auto simp: merge_field_def Let_def)
    from pick_min [OF this] show ?thesis by simp
  next
    case 3
    show ?thesis
    proof (cases "list_all is_bool ?vs")
      case True
      with 3 assms bool_list_any [OF True] show ?thesis by (auto simp: merge_field_def Let_def)
    next
      case False
      obtain c cs' where cs: "cs = c # cs'" using assms(2) by (cases cs) auto
      with 3 False assms(1) have "v = field_value f (max_by priority_weight c cs')"
        by (auto simp: merge_field_def Let_def split: if_splits)
      then show ?thesis using max_by_in [of priority_weight c cs'] cs by auto
    qed
  qed
qed

lemma conflict_group_mem:
  "resolve_conflict_group f cs = Inr (w, lost) \<Longrightarrow> w \<in> set cs"
  using resolve_conflict_group_winner by (auto simp: beats_all_def)

lemma resolve_field_provenance:
  assumes "resolve_field f ws = Inr (v, logged)"
  shows "case v of None \<Rightarrow> fst (apply_suppression f ws) = []
       | Some x \<Rightarrow> x \<in> field_value f ` set (fst (apply_suppression f ws))"
proof (cases "apply_suppression f ws")
  case (Pair effective sl)
  show ?thesis
  proof (cases effective)
    case Nil
    with Pair assms show ?thesis by (auto simp: resolve_field_def)
  next
    case (Cons e es)
    have mg: "x \<in> field_value f ` set effective" if "merge_field f effective = Inr x" for x
      using merge_field_provenance [OF that] Cons by simp
    have cg: "field_value f w \<in> field_value f ` set effective"
      if "resolve_conflict_group f effective = Inr (w, lost)" for w lost
      using conflict_group_mem [OF that] by simp
    show ?thesis
      using assms Pair mg cg unfolding resolve_field_def Cons
      by (auto simp: bindr_eq_Inr split: if_splits)
  qed
qed

lemma resolve_fields_get:
  assumes "resolve_fields fws (acts, supp) = Inr (acts', supp')" and "dict_ok fws"
  shows "map_of acts' f = (case map_of fws f of None \<Rightarrow> map_of acts f
    | Some ws \<Rightarrow> (case fst (projr (resolve_field f ws)) of None \<Rightarrow> map_of acts f | Some v \<Rightarrow> Some v)) \<and>
    (\<forall>ws. map_of fws f = Some ws \<longrightarrow> is_ok (resolve_field f ws))"
  using assms
proof (induction fws arbitrary: acts supp)
  case (Cons fw fws)
  obtain g ws where fw: "fw = (g, ws)" by (cases fw)
  obtain v logged where rf: "resolve_field g ws = Inr (v, logged)"
    and rest: "resolve_fields fws (case v of None \<Rightarrow> acts | Some x \<Rightarrow> dict_set g x acts, supp @ logged) = Inr (acts', supp')"
    using Cons.prems(1) by (auto simp: fw bindr_eq_Inr)
  have ok: "dict_ok fws" "map_of fws g = None"
    using Cons.prems(2) by (auto simp: fw dict_ok_def map_of_eq_None_iff)
  from Cons.IH [OF rest ok(1)] ok(2) rf show ?case
    by (cases "f = g"; cases v) (auto simp: fw split: option.splits)
qed simp

lemma post_other_fields:
  assumes "apply_priority_postprocessing acts matched = Inr acts'" and "f \<noteq> ''priority''"
  shows "map_of acts' f = map_of acts f"
  using assms by (auto simp: apply_priority_postprocessing_def Let_def bindr_eq_Inr split: if_splits)




section \<open>The final priority\<close>

lemma order_index_sev: "order_index (PStr (sev_name s)) = Inr (sev_rank s)"
  by (cases s) (simp_all add: order_index_def)

lemma order_list_sev: "order_list ! sev_rank s = sev_name s"
  by (cases s) (simp_all add: order_list_def)

lemma sev_rank_bump: "sev_rank (bump s) = min (sev_rank s + 1) 3"
  by (cases s) simp_all

lemma sev_rank_bumps: "sev_rank ((bump ^^ n) s) = min (sev_rank s + n) 3"
proof (induction n)
  case 0
  show ?case by (cases s) simp_all
qed (simp add: sev_rank_bump)

lemma sev_rank_max: "sev_rank (max a b) = max (sev_rank a) (sev_rank b)"
  by (simp add: max_def less_eq_severity_def)

lemma sev_rank_inj: "sev_rank a = sev_rank b \<Longrightarrow> a = b"
  by (cases a; cases b) simp_all

lemma max_by_ranks: "max_by (\<lambda>x. x) (sev_rank s) (map sev_rank fs) = sev_rank (foldl max s fs)"
proof (induction fs arbitrary: s)
  case (Cons f fs)
  have "(if sev_rank s < sev_rank f then sev_rank f else sev_rank s) = sev_rank (max s f)"
    by (simp add: sev_rank_max)
  with Cons [of "max s f"] show ?case by simp
qed simp

lemma foldl_max_ge: "(s :: severity) \<le> foldl max s fs \<and> (\<forall>f \<in> set fs. f \<le> foldl max s fs)"
proof (induction fs arbitrary: s)
  case (Cons f fs)
  from Cons [of "max s f"] show ?case by auto
qed simp

lemma foldl_max_shift: "foldl max (max s t) fs = max (s :: severity) (foldl max t fs)"
  by (induction fs arbitrary: t) (simp_all add: max.assoc)

lemma le_bump: "s \<le> (bump ^^ n) s"
proof -
  have "sev_rank s \<le> 3" by (cases s) simp_all
  then show ?thesis by (simp add: less_eq_severity_def sev_rank_bumps)
qed

lemma raise_to_floor_sev:
  "raise_to_floor (map (\<lambda>f. PStr (sev_name f)) fs) (PStr (sev_name s)) = Inr (PStr (sev_name (foldl max s fs)))"
proof (cases fs)
  case (Cons f gs)
  let ?floors = "map (\<lambda>f. PStr (sev_name f)) fs"
  have all: "filter (\<lambda>f. is_ok (order_index f)) ?floors = ?floors"
    by (auto simp: filter_id_conv order_index_sev)
  have "map (\<lambda>f. projr (order_index f)) ?floors = sev_rank f # map sev_rank gs"
    by (simp add: Cons order_index_sev)
  with all have "raise_to_floor ?floors (PStr (sev_name s)) =
      Inr (if sev_rank s < sev_rank (foldl max f gs) then PStr (order_list ! sev_rank (foldl max f gs))
           else PStr (sev_name s))"
    by (simp add: raise_to_floor_def Cons order_index_sev max_by_ranks comp_def Let_def)
  moreover have "foldl max s fs = max s (foldl max f gs)" by (simp add: Cons foldl_max_shift)
  ultimately show ?thesis
    by (auto simp: order_list_sev max_def less_eq_severity_def dest: sev_rank_inj)
qed (simp add: raise_to_floor_def)

lemma bump_priority_sev: "bump_priority n (PStr (sev_name s)) = Inr (PStr (sev_name ((bump ^^ n) s)))"
proof -
  have "order_list ! min (sev_rank s + n) 3 = sev_name ((bump ^^ n) s)"
    using order_list_sev [of "(bump ^^ n) s"] by (simp add: sev_rank_bumps)
  moreover have "length order_list - 1 = 3" by (simp add: order_list_def)
  ultimately show ?thesis by (cases n) (simp_all add: bump_priority_def order_index_sev)
qed

text \<open>The severity the resolution ends with, on the abstract scale.\<close>

definition final_severity :: "severity option \<Rightarrow> severity list \<Rightarrow> nat \<Rightarrow> severity" where
  "final_severity base floors bumps =
     (bump ^^ bumps) (foldl max (case base of None \<Rightarrow> Low | Some s \<Rightarrow> s) floors)"

text \<open>
  Property C20: the priority post-processing refines the abstract severity scale: the resolved
  priority is raised to the highest floor of any matched rule, suppressed or not, then one
  level per bumping rule, saturating at Critical; it is never below the priority it started
  from nor below a floor, and no priority is invented when there is neither a base nor a floor.
\<close>
theorem priority_postprocessing_refines:
  assumes "priority_floors matched = map (\<lambda>f. PStr (sev_name f)) floors"
    and "get_none acts ''priority'' = (case base of None \<Rightarrow> PNone | Some s \<Rightarrow> PStr (sev_name s))"
  shows "apply_priority_postprocessing acts matched =
      Inr (if base = None \<and> floors = [] then acts
           else dict_set ''priority'' (PStr (sev_name (final_severity base floors (bump_count matched)))) acts) \<and>
    (\<forall>s. base = Some s \<longrightarrow> s \<le> final_severity base floors (bump_count matched)) \<and>
    (\<forall>s \<in> set floors. s \<le> final_severity base floors (bump_count matched))"
proof (intro conjI)
  let ?b = "case base of None \<Rightarrow> Low | Some s \<Rightarrow> s"
  have le: "?b \<le> final_severity base floors (bump_count matched)"
    "\<forall>s \<in> set floors. s \<le> final_severity base floors (bump_count matched)"
    using foldl_max_ge [of ?b floors] le_bump unfolding final_severity_def by (blast intro: order.trans)+
  then show "\<forall>s. base = Some s \<longrightarrow> s \<le> final_severity base floors (bump_count matched)"
    "\<forall>s \<in> set floors. s \<le> final_severity base floors (bump_count matched)" by auto
  show "apply_priority_postprocessing acts matched =
      Inr (if base = None \<and> floors = [] then acts
           else dict_set ''priority'' (PStr (sev_name (final_severity base floors (bump_count matched)))) acts)"
  proof (cases "base = None \<and> floors = []")
    case True
    then show ?thesis using assms by (simp add: apply_priority_postprocessing_def)
  next
    case False
    have cur: "(if get_none acts ''priority'' = PNone \<and> priority_floors matched \<noteq> [] then PStr ''Low''
        else get_none acts ''priority'') = PStr (sev_name ?b)"
      using assms False by (cases base) auto
    show ?thesis
      using False raise_to_floor_sev [of floors ?b] bump_priority_sev
      unfolding apply_priority_postprocessing_def Let_def cur
      by (auto simp: assms(1) final_severity_def)
  qed
qed

lemma priority_postprocessing_refines_witness:
  "apply_priority_postprocessing [(''priority'', PStr ''Low'')]
     [w_rule ''F'' 1 [(''priorityFloor'', PStr ''Medium'')], w_rule ''B'' 1 [(''priorityBumpOneLevel'', PBool True)]] =
   Inr [(''priority'', PStr ''High'')]"
proof -
  let ?m = "[w_rule ''F'' 1 [(''priorityFloor'', PStr ''Medium'')], w_rule ''B'' 1 [(''priorityBumpOneLevel'', PBool True)]]"
  have f: "priority_floors ?m = map (\<lambda>f. PStr (sev_name f)) [Medium]" by code_simp
  have b: "get_none [(''priority'', PStr ''Low'')] ''priority'' =
      (case Some Low of None \<Rightarrow> PNone | Some s \<Rightarrow> PStr (sev_name s))" by code_simp
  have "bump_count ?m = 1" by code_simp
  with priority_postprocessing_refines [OF f b] show ?thesis
    by (simp add: final_severity_def max_def less_eq_severity_def)
qed

end
