(* ===== verification/Orchestrator.thy ===== *)
theory Orchestrator
  imports Decision_Services Resolver_Properties
begin

text \<open>
  \<open>app/application/orchestrator.py\<close>: the decision pipeline, from an incident and a rule
  pack to a decision. The instant stands for \<open>datetime.now\<close> at the creation of the
  decision; \<open>None\<close> for the matrix is an orchestrator built without an SLA matrix.
\<close>

section \<open>The pipeline\<close>

definition fill_sla :: "sla_matrix option \<Rightarrow> incident \<Rightarrow> dict \<Rightarrow> dict res" where
  "fill_sla matrix inc acts =
     (case matrix of
        None \<Rightarrow> Inr acts
      | Some m \<Rightarrow>
          if dict_in ''targetSLA'' acts then Inr acts
          else bindr (matrix_resolve m (get_none (payload inc) ''customerTier'') (get_none acts ''priority''))
                 (\<lambda>entry. case entry of
                    None \<Rightarrow> Inr acts
                  | Some e \<Rightarrow>
                      if e = [] then Inr acts
                      else bindr (get_item e ''responseMinutes'') (\<lambda>rm.
                             bindr (get_item e ''resolutionMinutes'') (\<lambda>sm.
                               Inr (dict_set ''slaResolutionMinutes'' (PInt sm)
                                 (dict_set ''targetSLA'' (PStr (str_of_int rm @ '' minutes'')) acts))))))"

definition source_count :: "incident \<Rightarrow> int" where
  "source_count inc =
     (if context_sources_total inc \<noteq> 0 then context_sources_total inc
      else if enriched_context inc \<noteq> [] then int (length (enriched_context inc)) else 1)"

definition degraded_count :: "incident \<Rightarrow> int" where
  "degraded_count inc =
     (if context_sources_degraded inc \<noteq> 0 then context_sources_degraded inc
      else if degraded_context inc then 1 else 0)"

definition engine_version :: string where "engine_version = ''0.1.0''"

definition run :: "sla_matrix option \<Rightarrow> instant \<Rightarrow> incident \<Rightarrow> rule_pack \<Rightarrow> decision res" where
  "run matrix now inc pack =
     bindr (policy_evaluate pack inc) (\<lambda>(matched, rejected).
     bindr (resolve matched) (\<lambda>(acts, mits, suppressed).
     bindr (compliance_apply pack inc acts) (\<lambda>(acts, constraints).
     bindr (fill_sla matrix inc acts) (\<lambda>acts.
     let (score, band) = risk_score matched (map s_rule_code suppressed) in
     bindr (build_plan acts matched) (\<lambda>plan.
     bindr (confidence (source_count inc) (degraded_count inc)) (\<lambda>conf.
     Inr \<lparr>d_incident_id = incident_id inc, d_priority = get_none acts ''priority'',
          d_risk_score = score, d_risk_band = band, d_actions = acts, d_mitigations = mits,
          d_execution_plan = plan, d_matched_rules = matched_trace matched,
          d_rejected_rules = rejected, d_suppressed_rules = suppressed,
          d_compliance_constraints = constraints, d_confidence_score = conf,
          d_degraded_context = degraded_context inc,
          d_explanation = explanation matched score band acts,
          d_engine_version = engine_version, d_created_at = now, d_resolved = False\<rparr>))))))"

section \<open>What a decision depends on\<close>

text \<open>A decision depends on its pack only through the active rules, in evaluation order.\<close>

lemma run_pack_cong:
  assumes "\<And>fam. active_rules p fam = active_rules q fam"
  shows "run matrix now inc p = run matrix now inc q"
  by (simp add: run_def policy_evaluate_def compliance_apply_def assms)

text \<open>A rule whose clauses leave the incident alone.\<close>

definition neutral :: "dict \<Rightarrow> rule \<Rightarrow> bool" where
  "neutral data r \<longleftrightarrow> \<not> is_active r \<or>
     (if family r = COMPLIANCE_FAMILY then is_satisfied_by (conditions r) data = Inr False
      else judged data r \<and> \<not> matches data r)"

lemma filter_active_rules:
  "filter P (active_rules p fam) =
   sort_key evaluation_key (filter P (filter (\<lambda>r. fam = None \<or> fam = Some (family r)) (filter is_active (rules p))))"
  by (cases fam) (auto simp: active_rules_def filter_sort_key intro: arg_cong [of _ _ "sort_key _"] filter_cong)

lemma filter_active_rules_append:
  assumes "\<And>r. r \<in> set extra \<Longrightarrow> is_active r \<Longrightarrow> fam = None \<or> fam = Some (family r) \<Longrightarrow> \<not> P r"
  shows "filter P (active_rules (p\<lparr>rules := rules p @ extra\<rparr>) fam) = filter P (active_rules p fam)"
proof -
  have "filter P (filter (\<lambda>r. fam = None \<or> fam = Some (family r)) (filter is_active extra)) = []"
    unfolding filter_empty_conv set_filter using assms by blast
  then show ?thesis by (simp add: filter_active_rules)
qed

lemma set_active_rules:
  "set (active_rules p fam) = {r \<in> set (rules p). is_active r \<and> (fam = None \<or> fam = Some (family r))}"
  using arg_cong [OF filter_active_rules [of "\<lambda>_. True" p fam], of set] by auto

lemma policy_evaluate_extra:
  assumes neutral: "\<forall>r \<in> set extra. neutral (as_evaluation_data inc) r"
    and ok: "policy_evaluate p inc = Inr (m, rj)"
  shows "\<exists>rj'. policy_evaluate (p\<lparr>rules := rules p @ extra\<rparr>) inc = Inr (m, rj')"
proof -
  let ?data = "as_evaluation_data inc" and ?q = "p\<lparr>rules := rules p @ extra\<rparr>"
  have "is_ok (policy_evaluate ?q inc)"
    using policy_evaluate_ok [of p inc] ok neutral
    by (auto simp: policy_evaluate_ok list_all_iff set_active_rules neutral_def)
  then obtain m' rj' where q: "policy_evaluate ?q inc = Inr (m', rj')" by (auto simp: is_ok_iff)
  have "filter (\<lambda>r. family r \<noteq> COMPLIANCE_FAMILY \<and> matches ?data r) (active_rules ?q None) =
        filter (\<lambda>r. family r \<noteq> COMPLIANCE_FAMILY \<and> matches ?data r) (active_rules p None)"
    using neutral by (intro filter_active_rules_append) (auto simp: neutral_def)
  then have "m' = m"
    using policy_evaluate_eq(1) [OF q] policy_evaluate_eq(1) [OF ok]
    by (simp add: filter_filter conj_commute)
  with q show ?thesis by blast
qed

lemma compliance_loop_ok:
  "is_ok (foldr_res (compliance_step data) rs st) \<longleftrightarrow> list_all (\<lambda>r. is_ok (is_satisfied_by (conditions r) data)) rs"
proof (induction rs arbitrary: st)
  case (Cons r rs)
  obtain acts cs where "st = (acts, cs)" by (cases st)
  then show ?case
    by (cases "is_satisfied_by (conditions r) data") (simp_all add: compliance_step_eq Cons)
qed simp

lemma compliance_apply_extra:
  assumes neutral: "\<forall>r \<in> set extra. neutral (as_evaluation_data inc) r"
    and ok: "compliance_apply p inc acts = Inr res"
  shows "compliance_apply (p\<lparr>rules := rules p @ extra\<rparr>) inc acts = Inr res"
proof -
  let ?data = "as_evaluation_data inc" and ?q = "p\<lparr>rules := rules p @ extra\<rparr>"
  have "is_ok (compliance_apply ?q inc acts)"
    using ok neutral compliance_loop_ok [of ?data "active_rules p (Some ''COMPLIANCE'')" "(acts, [])"]
    by (auto simp: compliance_apply_def compliance_loop_ok list_all_iff set_active_rules neutral_def
        COMPLIANCE_FAMILY_def)
  then obtain a' cs' where q: "compliance_apply ?q inc acts = Inr (a', cs')" by (auto simp: is_ok_iff)
  obtain a cs where res: "res = (a, cs)" by (cases res)
  have "applied_rules ?data (active_rules ?q (Some ''COMPLIANCE'')) =
      applied_rules ?data (active_rules p (Some ''COMPLIANCE''))"
    unfolding applied_rules_def using neutral
    by (intro filter_active_rules_append) (auto simp: neutral_def COMPLIANCE_FAMILY_def)
  with compliance_loop [OF q [unfolded compliance_apply_def]] compliance_loop [OF ok [unfolded compliance_apply_def res]]
  have "(a', cs') = (a, cs)" by simp
  with q res show ?thesis by simp
qed

lemma run_extra:
  assumes "run matrix now inc p = Inr d"
    and "\<forall>r \<in> set extra. neutral (as_evaluation_data inc) r"
  shows "\<exists>rejected. run matrix now inc (p\<lparr>rules := rules p @ extra\<rparr>) = Inr (d\<lparr>d_rejected_rules := rejected\<rparr>)"
proof -
  let ?q = "p\<lparr>rules := rules p @ extra\<rparr>"
  obtain m rj where pe: "policy_evaluate p inc = Inr (m, rj)"
    using assms(1) by (auto simp: run_def bindr_eq_Inr)
  obtain rj' where qe: "policy_evaluate ?q inc = Inr (m, rj')"
    using policy_evaluate_extra [OF assms(2) pe] by blast
  obtain acts mits supp where r: "resolve m = Inr (acts, mits, supp)"
    using assms(1) pe by (auto simp: run_def bindr_eq_Inr)
  obtain acts1 cs where c: "compliance_apply p inc acts = Inr (acts1, cs)"
    using assms(1) pe r by (auto simp: run_def bindr_eq_Inr)
  note cq = compliance_apply_extra [OF assms(2) c]
  obtain acts2 where f: "fill_sla matrix inc acts1 = Inr acts2"
    using assms(1) pe r c by (auto simp: run_def bindr_eq_Inr)
  obtain score band where s: "risk_score m (map s_rule_code supp) = (score, band)" by fastforce
  obtain plan where pl: "build_plan acts2 m = Inr plan"
    using assms(1) pe r c f s by (auto simp: run_def bindr_eq_Inr)
  obtain conf where cf: "confidence (source_count inc) (degraded_count inc) = Inr conf"
    using assms(1) pe r c f s pl by (auto simp: run_def bindr_eq_Inr)
  have "run matrix now inc ?q = Inr (d\<lparr>d_rejected_rules := rj'\<rparr>)"
    using assms(1) by (auto simp: run_def pe qe r c cq f s pl cf)
  then show "\<exists>rejected. run matrix now inc ?q = Inr (d\<lparr>d_rejected_rules := rejected\<rparr>)" by blast
qed

text \<open>
  Property C5: merging in further rules none of which applies to an incident leaves its
  decision alone: the same decision is taken, down to the plan, the scores and the text, and
  only the list of rejected rules differs. Rules that are not active do not even show there.
\<close>
theorem additive_pack_is_neutral:
  assumes "run matrix now inc p = Inr d"
    and "\<forall>r \<in> set extra. neutral (as_evaluation_data inc) r"
  shows "(\<exists>rejected. run matrix now inc (p\<lparr>rules := rules p @ extra\<rparr>) = Inr (d\<lparr>d_rejected_rules := rejected\<rparr>)) \<and>
    run matrix now inc (p\<lparr>rules := filter is_active (rules p)\<rparr>) = Inr d"
  using run_extra [OF assms] run_pack_cong [OF active_rules_drop_inactive] assms(1) by simp

text \<open>
  The SLA matrix only fills a gap: a target that a rule has set explicitly
  stays, the matrix touches no field besides the target and the resolution time, and an
  orchestrator without a matrix changes nothing.
\<close>
theorem sla_matrix_only_fills:
  assumes "fill_sla matrix inc acts = Inr acts'"
  shows "(\<forall>f. f \<noteq> ''targetSLA'' \<and> f \<noteq> ''slaResolutionMinutes'' \<longrightarrow> map_of acts' f = map_of acts f) \<and>
    (dict_in ''targetSLA'' acts \<longrightarrow> acts' = acts) \<and>
    (acts' \<noteq> acts \<longrightarrow> (\<exists>m e rm. matrix = Some m \<and>
       matrix_resolve m (get_none (payload inc) ''customerTier'') (get_none acts ''priority'') = Inr (Some e) \<and>
       map_of e ''responseMinutes'' = Some rm \<and>
       map_of acts' ''targetSLA'' = Some (PStr (str_of_int rm @ '' minutes''))))"
proof -
  have changed: "\<exists>m e rm sm. matrix = Some m \<and> \<not> dict_in ''targetSLA'' acts \<and>
      matrix_resolve m (get_none (payload inc) ''customerTier'') (get_none acts ''priority'') = Inr (Some e) \<and>
      map_of e ''responseMinutes'' = Some rm \<and>
      acts' = dict_set ''slaResolutionMinutes'' (PInt sm) (dict_set ''targetSLA'' (PStr (str_of_int rm @ '' minutes'')) acts)"
    if "acts' \<noteq> acts"
  proof -
    obtain m where m: "matrix = Some m" "\<not> dict_in ''targetSLA'' acts"
      using assms \<open>acts' \<noteq> acts\<close> by (auto simp: fill_sla_def split: option.splits if_splits)
    show ?thesis
      using assms \<open>acts' \<noteq> acts\<close> m
      by (cases "matrix_resolve m (get_none (payload inc) ''customerTier'') (get_none acts ''priority'')")
        (auto simp: fill_sla_def get_item_def split: option.splits if_splits)
  qed
  then show ?thesis by (cases "acts' = acts") fastforce+
qed


lemma sla_matrix_only_fills_witness:
  "map_of [(''priority'', PStr ''High''), (''targetSLA'', PStr ''15 minutes'')] ''targetSLA'' = Some (PStr ''15 minutes'') \<and>
   (\<exists>m e rm. Some [(''GOLD'', [(''SEV2_MAJOR'', [(''responseMinutes'', 30), (''resolutionMinutes'', 240)])])] = Some m \<and>
      matrix_resolve m (PStr ''Gold'') (PStr ''High'') = Inr (Some e) \<and> map_of e ''responseMinutes'' = Some rm)"
proof -
  let ?m = "[(''GOLD'', [(''SEV2_MAJOR'', [(''responseMinutes'', 30), (''resolutionMinutes'', 240)])])]"
  let ?inc = "new_incident ''I1'' [(''customerTier'', PStr ''Gold'')] [] False"
  have "fill_sla (Some ?m) ?inc [(''priority'', PStr ''High'')] =
      Inr [(''priority'', PStr ''High''), (''targetSLA'', PStr ''30 minutes''), (''slaResolutionMinutes'', PInt 240)]"
    by code_simp
  from sla_matrix_only_fills [OF this] show ?thesis by (auto simp: new_incident_def get_none_def dict_get_def)
qed

text \<open>The example: one matching rule, and an extra rule about another field.\<close>

lemma additive_pack_is_neutral_witness:
  "\<exists>d rejected. run None 0 (new_incident ''I1'' [(''load'', PInt 95)] [] False)
     (new_pack ''p'' 1 ACTIVE None ([(w_rule ''R1'' 3 [(''priority'', PStr ''High'')])
        \<lparr>conditions := PDict [(''>'', PList [PDict [(''var'', PStr ''load'')], PInt 90])]\<rparr>] @
      [(w_rule ''X1'' 9 [(''priority'', PStr ''Low'')])
        \<lparr>conditions := PDict [(''=='', PList [PDict [(''var'', PStr ''isMaintenance'')], PBool True])]\<rparr>])) =
     Inr (d\<lparr>d_rejected_rules := rejected\<rparr>) \<and> d_priority d = PStr ''High''"
proof -
  let ?r = "(w_rule ''R1'' 3 [(''priority'', PStr ''High'')])
        \<lparr>conditions := PDict [(''>'', PList [PDict [(''var'', PStr ''load'')], PInt 90])]\<rparr>"
  let ?x = "(w_rule ''X1'' 9 [(''priority'', PStr ''Low'')])
        \<lparr>conditions := PDict [(''=='', PList [PDict [(''var'', PStr ''isMaintenance'')], PBool True])]\<rparr>"
  let ?inc = "new_incident ''I1'' [(''load'', PInt 95)] [] False" and ?p = "new_pack ''p'' 1 ACTIVE None [?r]"
  have ok: "is_ok (run None 0 ?inc ?p) \<and> d_priority (projr (run None 0 ?inc ?p)) = PStr ''High''" by code_simp
  then obtain d where d: "run None 0 ?inc ?p = Inr d" "d_priority d = PStr ''High''" by (auto simp: is_ok_iff)
  have "list_all (neutral (as_evaluation_data ?inc)) [?x]" by code_simp
  then have "\<forall>r \<in> set [?x]. neutral (as_evaluation_data ?inc) r" by (simp only: list_all_iff)
  from additive_pack_is_neutral [OF d(1) this] d(2) show ?thesis by (auto simp: new_pack_def)
qed

end
