(* ===== verification/Stores.thy ===== *)
theory Stores
  imports Orchestrator
begin

text \<open>
  The remaining entities and the in-memory repositories (\<open>app/domain/entities\<close>,
  \<open>app/infrastructure/repositories/in_memory_*\<close>), rule packs apart. Two contracts cover
  them: an append-only history per key, and a store with one current record per key. Each
  is a locale whose laws are discharged for the repositories of the program. The stored
  records are values here; where the code mutates a stored object in place
  (\<open>revoke\<close>) the operation updates the store.
\<close>

section \<open>Entities\<close>

record escalation_level =
  el_level :: string
  el_timeout_minutes :: int

record escalation_policy =
  ep_severity_band :: string
  ep_levels :: "escalation_level list"

record escalation_event =
  ee_id :: string
  ee_decision_id :: string
  ee_level :: string
  ee_triggered_at :: instant
  ee_acknowledged_at :: "instant option"
  ee_acknowledged_by :: "string option"

record manual_override =
  mo_id :: string
  mo_decision_id :: string
  mo_operator :: string
  mo_original_decision :: dict
  mo_override_decision :: dict
  mo_reason :: string
  mo_created_at :: instant

record audit_log_entry =
  al_id :: string
  al_entity_type :: string
  al_entity_id :: string
  al_action :: string
  al_actor :: string
  al_before :: "dict option"
  al_after :: "dict option"
  al_ip_address :: "string option"
  al_request_id :: "string option"
  al_correlation_id :: "string option"
  al_created_at :: instant
  al_reason :: "string option"

record user =
  u_id :: string
  u_email :: string
  u_hashed_password :: string
  u_full_name :: string
  u_roles :: "string list"
  u_is_active :: bool
  u_created_at :: "instant option"
  u_updated_at :: "instant option"
  u_last_login_at :: "instant option"

record role =
  ro_code :: string
  ro_name :: string
  ro_permissions :: "string list"
  ro_description :: string
  ro_created_at :: "instant option"
  ro_updated_at :: "instant option"

record permission =
  pm_code :: string
  pm_description :: string
  pm_created_at :: "instant option"

record api_key =
  k_id :: string
  k_key_prefix :: string
  k_hashed_key :: string
  k_owner_user_id :: "string option"
  k_name :: string
  k_roles :: "string list"
  k_is_active :: bool
  k_created_at :: "instant option"
  k_last_used_at :: "instant option"
  k_expires_at :: "instant option"

record request_log_entry =
  rl_id :: string
  rl_method :: string
  rl_path :: string
  rl_status_code :: int
  rl_duration_ms :: fl
  rl_request_id :: string
  rl_correlation_id :: "string option"
  rl_ip_address :: "string option"
  rl_created_at :: instant

section \<open>Append-only histories\<close>

text \<open>\<open>sorted(xs, key=created, reverse=True)\<close>: equal keys keep their order.\<close>

definition newest_first :: "('a \<Rightarrow> instant) \<Rightarrow> 'a list \<Rightarrow> 'a list" where
  "newest_first created xs = sort_key (\<lambda>x. - created x) xs"

type_synonym decision_store = "(string \<times> decision list) list"

definition decision_save :: "decision \<Rightarrow> decision_store \<Rightarrow> decision_store" where
  "decision_save d st = dict_append (d_incident_id d) d st"

definition decision_get :: "decision_store \<Rightarrow> string \<Rightarrow> decision option" where
  "decision_get st i =
     (case map_of st i of None \<Rightarrow> None | Some h \<Rightarrow> if h = [] then None else Some (last h))"

definition decision_list_by_incident :: "decision_store \<Rightarrow> string \<Rightarrow> decision list" where
  "decision_list_by_incident st i = dict_get st i []"

definition decision_all :: "decision_store \<Rightarrow> decision list" where
  "decision_all st = concat (map snd st)"

definition decision_list_all :: "decision_store \<Rightarrow> nat \<Rightarrow> nat \<Rightarrow> decision list" where
  "decision_list_all st limit offset = page offset limit (newest_first d_created_at (decision_all st))"

definition escalation_save :: "escalation_event \<Rightarrow> (string \<times> escalation_event list) list \<Rightarrow> (string \<times> escalation_event list) list" where
  "escalation_save e st = dict_append (ee_decision_id e) e st"

definition escalation_list_by_decision :: "(string \<times> escalation_event list) list \<Rightarrow> string \<Rightarrow> escalation_event list" where
  "escalation_list_by_decision st i = dict_get st i []"

definition override_save :: "manual_override \<Rightarrow> (string \<times> manual_override list) list \<Rightarrow> (string \<times> manual_override list) list" where
  "override_save e st = dict_append (mo_decision_id e) e st"

definition override_list_by_decision :: "(string \<times> manual_override list) list \<Rightarrow> string \<Rightarrow> manual_override list" where
  "override_list_by_decision st i = dict_get st i []"

type_synonym audit_store = "((string \<times> string) \<times> audit_log_entry list) list"

definition audit_save :: "audit_log_entry \<Rightarrow> audit_store \<Rightarrow> audit_store" where
  "audit_save e st = dict_append (al_entity_type e, al_entity_id e) e st"

definition audit_list_by_entity :: "audit_store \<Rightarrow> string \<times> string \<Rightarrow> audit_log_entry list" where
  "audit_list_by_entity st k = dict_get st k []"

definition audit_list_by_entity_type :: "audit_store \<Rightarrow> string \<Rightarrow> nat \<Rightarrow> nat \<Rightarrow> audit_log_entry list" where
  "audit_list_by_entity_type st etype limit offset =
     page offset limit (newest_first al_created_at
       (concat (map snd (filter (\<lambda>((t, _), _). t = etype) st))))"

definition request_log_save :: "request_log_entry \<Rightarrow> request_log_entry list \<Rightarrow> request_log_entry list" where
  "request_log_save e st = st @ [e]"

text \<open>The contract of a history: saving appends to the history of the entry's key only.\<close>

locale history_store =
  fixes init :: "'s" and save :: "'e \<Rightarrow> 's \<Rightarrow> 's" and list_by :: "'s \<Rightarrow> 'k \<Rightarrow> 'e list" and key :: "'e \<Rightarrow> 'k"
  assumes list_init: "list_by init k = []"
    and list_save: "list_by (save e s) k = list_by s k @ (if key e = k then [e] else [])"
begin

text \<open>After any sequence of saves a key's history is what was saved under it, in order.\<close>

lemma list_after: "list_by (foldl (\<lambda>s e. save e s) s es) k = list_by s k @ filter (\<lambda>e. key e = k) es"
  by (induction es arbitrary: s) (auto simp: list_save)

lemma list_of_saved: "list_by (foldl (\<lambda>s e. save e s) init es) k = filter (\<lambda>e. key e = k) es"
  by (simp add: list_after list_init)

text \<open>Nothing recorded is lost or reordered by later saves.\<close>

lemma history_prefix: "prefix (list_by s k) (list_by (foldl (\<lambda>s e. save e s) s es) k)"
  by (simp add: list_after)

end

interpretation decisions: history_store "[]" decision_save decision_list_by_incident d_incident_id
  by unfold_locales (simp_all add: decision_save_def decision_list_by_incident_def dict_get_simps)

interpretation escalations: history_store "[]" escalation_save escalation_list_by_decision ee_decision_id
  by unfold_locales (simp_all add: escalation_save_def escalation_list_by_decision_def dict_get_simps)

interpretation overrides: history_store "[]" override_save override_list_by_decision mo_decision_id
  by unfold_locales (simp_all add: override_save_def override_list_by_decision_def dict_get_simps)

interpretation audits: history_store "[]" audit_save audit_list_by_entity "\<lambda>e. (al_entity_type e, al_entity_id e)"
  by unfold_locales (auto simp: audit_save_def audit_list_by_entity_def dict_get_simps)

interpretation requests: history_store "[]" request_log_save "\<lambda>st (_::unit). st" "\<lambda>_. ()"
  by unfold_locales (simp_all add: request_log_save_def)

lemma decision_get_list: "decision_get st i = (case rev (decision_list_by_incident st i) of [] \<Rightarrow> None | d # _ \<Rightarrow> Some d)"
  by (auto simp: decision_get_def decision_list_by_incident_def dict_get_def last_rev [symmetric] hd_rev
      split: option.splits list.splits)

text \<open>
  The decision and audit repositories are append-only histories: after any
  sequence of saves the history of an incident (of an audited entity) is exactly what was
  saved for it, in order, and the current decision is the last one saved.
\<close>
theorem histories_keep_everything:
  "decision_list_by_incident (foldl (\<lambda>s d. decision_save d s) [] ds) i = filter (\<lambda>d. d_incident_id d = i) ds \<and>
   decision_get (foldl (\<lambda>s d. decision_save d s) [] ds) i =
     (case rev (filter (\<lambda>d. d_incident_id d = i) ds) of [] \<Rightarrow> None | d # _ \<Rightarrow> Some d) \<and>
   audit_list_by_entity (foldl (\<lambda>s e. audit_save e s) [] es) (t, n) =
     filter (\<lambda>e. al_entity_type e = t \<and> al_entity_id e = n) es"
  using decisions.list_of_saved [of ds i] audits.list_of_saved [of es "(t, n)"]
  by (simp add: decision_get_list)

lemma decision_all_append: "mset (decision_all (decision_save d st)) = add_mset d (mset (decision_all st))"
proof -
  have "mset (concat (map snd (dict_set k v st))) + mset (dict_get st k []) = mset (concat (map snd st)) + mset v"
    for k and v :: "decision list" and st
    by (induction st) (auto simp: dict_get_simps split: prod.splits)
  from this [of "d_incident_id d" "dict_get st (d_incident_id d) [] @ [d]" st] show ?thesis
    by (simp add: decision_all_def decision_save_def dict_append_def)
qed

lemma decision_all_saved: "mset (decision_all (foldl (\<lambda>s d. decision_save d s) st ds)) = mset (decision_all st) + mset ds"
  by (induction ds arbitrary: st) (simp_all add: decision_all_append)

text \<open>
  The listing of all decisions pages through every saved decision, newest
  first: the whole list is a permutation of what was saved, sorted by descending creation
  time, and consecutive pages make it up.
\<close>
theorem decision_listing:
  fixes ds defines "st \<equiv> foldl (\<lambda>s d. decision_save d s) [] ds"
  shows "mset (decision_list_all st (length ds) 0) = mset ds \<and>
    sorted_wrt (\<lambda>a b. d_created_at b \<le> d_created_at a) (decision_list_all st n 0) \<and>
    decision_list_all st (n + m) 0 = decision_list_all st n 0 @ decision_list_all st m n"
proof -
  let ?all = "newest_first d_created_at (decision_all st)"
  have m: "mset ?all = mset ds"
    using decision_all_saved [of "[]" ds] by (simp add: newest_first_def st_def decision_all_def)
  have "length ?all = length ds" using arg_cong [OF m, of size] by simp
  moreover have s: "sorted_wrt (\<lambda>a b. d_created_at b \<le> d_created_at a) ?all"
    using sorted_wrt_sort_key [of "\<lambda>x. - d_created_at x" "decision_all st"] by (simp add: newest_first_def)
  moreover have "sorted_wrt (\<lambda>a b. d_created_at b \<le> d_created_at a) (take n ?all)"
    using s by (rule sorted_wrt_take)
  ultimately show ?thesis using m by (simp add: decision_list_all_def page_def take_add)
qed

section \<open>One record per key\<close>

type_synonym incident_store = "(string \<times> incident) list"

text \<open>\<open>datetime.min\<close> in UTC, in microseconds since the epoch.\<close>

definition datetime_min :: instant where "datetime_min = -62135596800000000"

definition stamp_created :: "instant \<Rightarrow> incident \<Rightarrow> incident" where
  "stamp_created now i = (if inc_created_at i = None then i\<lparr>inc_created_at := Some now\<rparr> else i)"

definition incident_save :: "instant \<Rightarrow> incident \<Rightarrow> incident_store \<Rightarrow> incident_store" where
  "incident_save now i st = dict_set (incident_id i) (stamp_created now i) st"

definition incident_get :: "incident_store \<Rightarrow> string \<Rightarrow> incident option" where
  "incident_get st i = map_of st i"

definition incident_list_all :: "incident_store \<Rightarrow> string option \<Rightarrow> nat \<Rightarrow> nat \<Rightarrow> incident list" where
  "incident_list_all st stat limit offset =
     (let is = map snd st;
          is = (case stat of None \<Rightarrow> is | Some s \<Rightarrow> filter (\<lambda>i. inc_status i = s) is)
      in page offset limit
           (newest_first (\<lambda>i. case inc_created_at i of None \<Rightarrow> datetime_min | Some t \<Rightarrow> t) is))"

record user_store =
  users_by_id :: "(string \<times> user) list"
  users_by_email :: "(string \<times> string) list"

definition user_save :: "user \<Rightarrow> user_store \<Rightarrow> user_store" where
  "user_save u st = \<lparr>users_by_id = dict_set (u_id u) u (users_by_id st),
     users_by_email = dict_set (py_lower (u_email u)) (u_id u) (users_by_email st)\<rparr>"

definition user_get_by_id :: "user_store \<Rightarrow> string \<Rightarrow> user option" where
  "user_get_by_id st i = map_of (users_by_id st) i"

definition user_get_by_email :: "user_store \<Rightarrow> string \<Rightarrow> user option" where
  "user_get_by_email st e =
     (case map_of (users_by_email st) (py_lower e) of
        None \<Rightarrow> None
      | Some i \<Rightarrow> if i = [] then None else map_of (users_by_id st) i)"

definition user_list_all :: "user_store \<Rightarrow> user list" where
  "user_list_all st = map snd (users_by_id st)"

definition role_save :: "role \<Rightarrow> (string \<times> role) list \<Rightarrow> (string \<times> role) list" where
  "role_save r st = dict_set (ro_code r) r st"

definition role_get_by_code :: "(string \<times> role) list \<Rightarrow> string \<Rightarrow> role option" where
  "role_get_by_code st c = map_of st c"

definition role_list_all :: "(string \<times> role) list \<Rightarrow> role list" where
  "role_list_all st = map snd st"

definition permission_list_all :: "(string \<times> permission) list \<Rightarrow> permission list" where
  "permission_list_all st = map snd st"

definition permission_save :: "permission \<Rightarrow> (string \<times> permission) list \<Rightarrow> (string \<times> permission) list" where
  "permission_save p st = dict_set (pm_code p) p st"

definition permission_get_by_code :: "(string \<times> permission) list \<Rightarrow> string \<Rightarrow> permission option" where
  "permission_get_by_code st c = map_of st c"

record api_key_store =
  keys_by_id :: "(string \<times> api_key) list"
  keys_by_prefix :: "(string \<times> string) list"

definition api_key_save :: "api_key \<Rightarrow> api_key_store \<Rightarrow> api_key_store" where
  "api_key_save k st = \<lparr>keys_by_id = dict_set (k_id k) k (keys_by_id st),
     keys_by_prefix = dict_set (k_key_prefix k) (k_id k) (keys_by_prefix st)\<rparr>"

definition api_key_get_by_id :: "api_key_store \<Rightarrow> string \<Rightarrow> api_key option" where
  "api_key_get_by_id st i = map_of (keys_by_id st) i"

definition api_key_get_by_prefix :: "api_key_store \<Rightarrow> string \<Rightarrow> api_key option" where
  "api_key_get_by_prefix st p =
     (case map_of (keys_by_prefix st) p of
        None \<Rightarrow> None
      | Some i \<Rightarrow> if i = [] then None else map_of (keys_by_id st) i)"

definition api_key_list_by_owner :: "api_key_store \<Rightarrow> string \<Rightarrow> api_key list" where
  "api_key_list_by_owner st owner = filter (\<lambda>k. k_owner_user_id k = Some owner) (map snd (keys_by_id st))"

definition api_key_revoke :: "string \<Rightarrow> api_key_store \<Rightarrow> api_key_store \<times> api_key option" where
  "api_key_revoke i st =
     (case map_of (keys_by_id st) i of
        None \<Rightarrow> (st, None)
      | Some k \<Rightarrow> (let k' = k\<lparr>k_is_active := False\<rparr>
                    in (st\<lparr>keys_by_id := dict_set i k' (keys_by_id st)\<rparr>, Some k')))"

text \<open>The contract of a keyed store: the last record saved under a key is the one found.\<close>

locale keyed_store =
  fixes save :: "'e \<Rightarrow> 's \<Rightarrow> 's" and get :: "'s \<Rightarrow> 'k \<Rightarrow> 'e option" and key :: "'e \<Rightarrow> 'k" and norm :: "'e \<Rightarrow> 'e"
  assumes get_save: "get (save e s) k = (if key e = k then Some (norm e) else get s k)"
    and norm_idem: "norm (norm e) = norm e"
    and key_norm: "key (norm e) = key e"
begin

lemma get_after:
  "get (foldl (\<lambda>s e. save e s) s es) k =
     (case rev (filter (\<lambda>e. key e = k) es) of [] \<Rightarrow> get s k | e # _ \<Rightarrow> Some (norm e))"
proof (induction es arbitrary: s)
  case (Cons e es)
  then show ?case by (auto simp: get_save split: list.splits)
qed simp

text \<open>Saving again what was found changes nothing that can be looked up.\<close>

lemma save_found: "get s (key e) = Some e \<Longrightarrow> norm e = e \<Longrightarrow> get (save e s) k = get s k"
  by (auto simp: get_save)

end

interpretation incidents: keyed_store "incident_save now" incident_get incident_id "stamp_created now" for now
  by unfold_locales (auto simp: incident_save_def incident_get_def stamp_created_def)

interpretation users: keyed_store user_save user_get_by_id u_id "\<lambda>u. u"
  by unfold_locales (auto simp: user_save_def user_get_by_id_def)

interpretation roles: keyed_store role_save role_get_by_code ro_code "\<lambda>r. r"
  by unfold_locales (auto simp: role_save_def role_get_by_code_def)

interpretation permissions: keyed_store permission_save permission_get_by_code pm_code "\<lambda>r. r"
  by unfold_locales (auto simp: permission_save_def permission_get_by_code_def)

interpretation api_keys: keyed_store api_key_save api_key_get_by_id k_id "\<lambda>r. r"
  by unfold_locales (auto simp: api_key_save_def api_key_get_by_id_def)

text \<open>The index by email follows the last user saved with that address, in any letter case.\<close>

lemma user_get_by_email_save:
  "u_id u \<noteq> [] \<Longrightarrow> py_lower e = py_lower (u_email u) \<Longrightarrow> user_get_by_email (user_save u st) e = Some u"
  by (simp add: user_get_by_email_def user_save_def)

lemma user_get_by_email_other:
  "py_lower e \<noteq> py_lower (u_email u) \<Longrightarrow>
   user_get_by_email (user_save u st) e =
     (if map_of (users_by_email st) (py_lower e) = Some (u_id u) \<and> u_id u \<noteq> [] then Some u else user_get_by_email st e)"
  by (auto simp: user_get_by_email_def user_save_def split: option.splits)

text \<open>
  Revoking an API key deactivates exactly that key: it is still found by its id
  and by its prefix, now inactive, and every other key is as before.
\<close>
theorem revoke_deactivates_one_key:
  assumes "api_key_get_by_id st i = Some k"
  shows "snd (api_key_revoke i st) = Some (k\<lparr>k_is_active := False\<rparr>) \<and>
    api_key_get_by_id (fst (api_key_revoke i st)) i = Some (k\<lparr>k_is_active := False\<rparr>) \<and>
    (\<forall>j. j \<noteq> i \<longrightarrow> api_key_get_by_id (fst (api_key_revoke i st)) j = api_key_get_by_id st j) \<and>
    (api_key_get_by_prefix st p = Some k \<and> k_id k = i \<and> map_of (keys_by_prefix st) p = Some i \<longrightarrow>
       api_key_get_by_prefix (fst (api_key_revoke i st)) p = Some (k\<lparr>k_is_active := False\<rparr>))"
  using assms by (auto simp: api_key_revoke_def api_key_get_by_id_def api_key_get_by_prefix_def Let_def
      split: if_splits)

lemma revoke_deactivates_one_key_witness:
  "\<exists>st k. api_key_get_by_id st ''k1'' = Some k \<and> k_is_active k \<and>
     api_key_get_by_id (fst (api_key_revoke ''k1'' st)) ''k1'' = Some (k\<lparr>k_is_active := False\<rparr>)"
proof -
  let ?k = "\<lparr>k_id = ''k1'', k_key_prefix = ''tdo_abcdefgh'', k_hashed_key = ''h'', k_owner_user_id = None,
    k_name = [], k_roles = [''viewer''], k_is_active = True, k_created_at = None, k_last_used_at = None,
    k_expires_at = None\<rparr>"
  let ?st = "api_key_save ?k \<lparr>keys_by_id = [], keys_by_prefix = []\<rparr>"
  have g: "api_key_get_by_id ?st ''k1'' = Some ?k" by (simp add: api_key_save_def api_key_get_by_id_def)
  with revoke_deactivates_one_key [OF g] show ?thesis by (intro exI [of _ ?st] exI [of _ ?k]) simp
qed

end
