(* ===== verification/Jobs.thy ===== *)
theory Jobs
  imports Stores
begin

text \<open>
  The scheduled jobs (\<open>app/jobs\<close>): the SLA breach sweep and the escalation sweep, with
  the operator actions on their results (\<open>acknowledge_escalation.py\<close>,
  \<open>override_decision.py\<close>). A sweep mutates the decisions it is handed; here it returns
  them, also when it raises half-way. The decisions of one sweep are distinct objects.
\<close>

section \<open>The SLA breach sweep\<close>

text \<open>\<open>(now - then).total_seconds() / 60\<close> as a double.\<close>

definition elapsed_minutes :: "instant \<Rightarrow> instant \<Rightarrow> fl" where
  "elapsed_minutes now start = fl_div (rnd (of_int (now - start) / 1000000)) 60"

definition sweep_parse_duration :: "val \<Rightarrow> int res" where
  "sweep_parse_duration v = (if \<not> py_bool v then Inr (10 ^ 6) else parse_duration_minutes v)"

definition next_severity :: "val \<Rightarrow> string option" where
  "next_severity p =
     (case order_index p of
        Inl _ \<Rightarrow> None
      | Inr i \<Rightarrow> if i < length order_list - 1 then Some (order_list ! (i + 1)) else None)"

definition bump_decision :: "string \<Rightarrow> decision \<Rightarrow> decision" where
  "bump_decision p d = d\<lparr>d_priority := PStr p,
     d_actions := dict_set ''supervisorNotified'' (PBool True) (dict_set ''priority'' (PStr p) (d_actions d))\<rparr>"

text \<open>One turn of the loop: the decision after it and whether it was bumped.\<close>

definition sweep_decision :: "fl \<Rightarrow> instant \<Rightarrow> decision \<Rightarrow> (decision \<times> bool) res" where
  "sweep_decision threshold now d =
     (if d_resolved d \<or> \<not> py_bool (d_priority d) then Inr (d, False)
      else let target = get_none (d_actions d) ''targetSLA'' in
        if \<not> py_bool target then Inr (d, False)
        else bindr (sweep_parse_duration target) (\<lambda>minutes. bindr (int_to_fl minutes) (\<lambda>m.
          if fl_less (elapsed_minutes now (d_created_at d)) (fl_mul m threshold) then Inr (d, False)
          else case next_severity (d_priority d) of
                 None \<Rightarrow> Inr (d, False)
               | Some p \<Rightarrow> Inr (bump_decision p d, True))))"

fun sla_sweep :: "fl \<Rightarrow> instant \<Rightarrow> decision list \<Rightarrow> decision list \<times> string list res" where
  "sla_sweep threshold now [] = ([], Inr [])"
| "sla_sweep threshold now (d # ds) =
     (case sweep_decision threshold now d of
        Inl e \<Rightarrow> (d # ds, Inl e)
      | Inr (d', b) \<Rightarrow>
          (case sla_sweep threshold now ds of (ds', r) \<Rightarrow>
             (d' # ds', bindr r (\<lambda>ids. Inr (if b then d_incident_id d # ids else ids)))))"

section \<open>The escalation sweep\<close>

definition level :: "string \<Rightarrow> int \<Rightarrow> escalation_level" where
  "level l t = \<lparr>el_level = l, el_timeout_minutes = t\<rparr>"

definition default_policies :: "(string \<times> escalation_policy) list" where
  "default_policies =
     [(''Critical'', \<lparr>ep_severity_band = ''Critical'', ep_levels =
         [level ''ENGINEER'' 5, level ''REGIONAL_MANAGER'' 15, level ''NATIONAL_NOC'' 30,
          level ''VENDOR'' 60, level ''OEM'' 120]\<rparr>),
      (''High'', \<lparr>ep_severity_band = ''High'', ep_levels =
         [level ''ENGINEER'' 15, level ''REGIONAL_MANAGER'' 30, level ''NATIONAL_NOC'' 60, level ''VENDOR'' 120]\<rparr>),
      (''Medium'', \<lparr>ep_severity_band = ''Medium'', ep_levels = [level ''ENGINEER'' 30, level ''REGIONAL_MANAGER'' 90]\<rparr>),
      (''Low'', \<lparr>ep_severity_band = ''Low'', ep_levels = [level ''ENGINEER'' 120]\<rparr>)]"

definition get_for_severity :: "(string \<times> escalation_policy) list option \<Rightarrow> string \<Rightarrow> escalation_policy option" where
  "get_for_severity policies band = map_of (case policies of None \<Rightarrow> default_policies | Some p \<Rightarrow> p) band"

definition due :: "instant \<Rightarrow> instant \<Rightarrow> escalation_level \<Rightarrow> bool" where
  "due now start l = (\<not> fl_less (elapsed_minutes now start) (Fin (of_int (el_timeout_minutes l))) \<and>
     elapsed_minutes now start \<noteq> NaN)"

definition next_level :: "escalation_policy \<Rightarrow> string list \<Rightarrow> instant \<Rightarrow> instant \<Rightarrow> escalation_level option" where
  "next_level pol triggered start now =
     foldl (\<lambda>acc l. if due now start l \<and> el_level l \<notin> set triggered then Some l else acc) None (ep_levels pol)"

definition escalation_sweep :: "string \<Rightarrow> string \<Rightarrow> escalation_policy \<Rightarrow> escalation_event list \<Rightarrow> instant \<Rightarrow> instant
    \<Rightarrow> escalation_event option" where
  \<comment> \<open>the first argument is the fresh \<open>uuid4\<close> of the event\<close>
  "escalation_sweep fresh decision_id pol events start now =
     (case next_level pol (map ee_level events) start now of
        None \<Rightarrow> None
      | Some l \<Rightarrow> Some \<lparr>ee_id = fresh, ee_decision_id = decision_id, ee_level = el_level l,
          ee_triggered_at = now, ee_acknowledged_at = None, ee_acknowledged_by = None\<rparr>)"

section \<open>Operator actions\<close>

definition acknowledge_escalation :: "instant \<Rightarrow> escalation_event \<Rightarrow> string \<Rightarrow> escalation_event res" where
  "acknowledge_escalation now e who =
     (if ee_acknowledged_at e \<noteq> None
      then Inl (ValueError (''Escalation event '' @ ee_id e @ '' was already acknowledged by '' @
        (case ee_acknowledged_by e of None \<Rightarrow> ''None'' | Some s \<Rightarrow> s)))
      else if py_strip who = []
      then Inl (ValueError ''Acknowledging an escalation requires an identified acknowledger'')
      else Inr (e\<lparr>ee_acknowledged_at := Some now, ee_acknowledged_by := Some who\<rparr>))"

definition override_decision :: "string \<Rightarrow> instant \<Rightarrow> decision \<Rightarrow> string \<Rightarrow> dict \<Rightarrow> string
    \<Rightarrow> (string \<times> manual_override list) list option
    \<Rightarrow> (manual_override \<times> (string \<times> manual_override list) list option) res" where
  "override_decision fresh now d operator override_actions reason repository =
     (if py_strip operator = [] then Inl (ValueError ''A manual override requires an identified operator'')
      else if py_strip reason = []
      then Inl (ValueError (''A manual override requires a non-empty reason -- this is an audit record, '' @ ''not a shortcut''))
      else let ov = \<lparr>mo_id = fresh, mo_decision_id = d_incident_id d, mo_operator = operator,
             mo_original_decision = d_actions d, mo_override_decision = override_actions,
             mo_reason = reason, mo_created_at = now\<rparr>
           in Inr (ov, case repository of None \<Rightarrow> None | Some st \<Rightarrow> Some (override_save ov st)))"

section \<open>What a sweep does to a decision\<close>

lemma next_severity_sev: "next_severity (PStr (sev_name s)) = (if s = Critical then None else Some (sev_name (bump s)))"
  by (cases s) (simp_all add: next_severity_def order_index_def order_list_def)

lemma next_severity_Some: "next_severity p = Some q \<Longrightarrow> \<exists>s. p = PStr (sev_name s) \<and> s \<noteq> Critical \<and> q = sev_name (bump s)"
proof -
  assume "next_severity p = Some q"
  then have "p \<in> PStr ` sev_name ` {Low, Medium, High, Critical}"
    by (auto simp: next_severity_def order_index_def split: sum.splits if_splits)
  then obtain s where "p = PStr (sev_name s)" by blast
  with \<open>next_severity p = Some q\<close> show ?thesis by (auto simp: next_severity_sev split: if_splits)
qed

lemma sweep_decision_cases:
  assumes "sweep_decision thr now d = Inr (d', b)"
  shows "(\<not> b \<and> d' = d) \<or>
    (b \<and> \<not> d_resolved d \<and> (\<exists>s. d_priority d = PStr (sev_name s) \<and> s \<noteq> Critical \<and> d' = bump_decision (sev_name (bump s)) d))"
  using assms next_severity_Some
  by (fastforce simp: sweep_decision_def Let_def bindr_eq_Inr split: if_splits option.splits)

lemma bump_decision_simps [simp]:
  "d_priority (bump_decision p d) = PStr p"
  "d_incident_id (bump_decision p d) = d_incident_id d"
  "d_resolved (bump_decision p d) = d_resolved d"
  "d_created_at (bump_decision p d) = d_created_at d"
  "get_none (d_actions (bump_decision p d)) ''priority'' = PStr p"
  "get_none (d_actions (bump_decision p d)) ''supervisorNotified'' = PBool True"
  "get_none (d_actions (bump_decision p d)) ''targetSLA'' = get_none (d_actions d) ''targetSLA''"
  by (simp_all add: bump_decision_def get_none_def dict_get_def)

lemma bump_sev_not_id: "s \<noteq> Critical \<Longrightarrow> sev_name (bump s) \<noteq> sev_name s"
  by (cases s) simp_all

lemma bump_decision_changes:
  "d_priority d = PStr (sev_name s) \<Longrightarrow> s \<noteq> Critical \<Longrightarrow> bump_decision (sev_name (bump s)) d \<noteq> d"
  using bump_sev_not_id [of s] by (metis bump_decision_simps(1) val.inject(4))

text \<open>
  A sweep that finishes leaves every decision alone or raises its priority by
  exactly one level, never beyond Critical and never for a resolved decision, keeps the
  actions in step with the priority and flags the supervisor; it reports exactly the
  incidents of the decisions it changed, in order.
\<close>
theorem sla_sweep_one_level:
  assumes "sla_sweep thr now ds = (ds', Inr ids)"
  shows "list_all2 (\<lambda>d d'. d' = d \<or> (\<not> d_resolved d \<and> (\<exists>s. s \<noteq> Critical \<and> d_priority d = PStr (sev_name s) \<and>
        d' = bump_decision (sev_name (bump s)) d))) ds ds' \<and>
    ids = map (d_incident_id \<circ> fst) (filter (\<lambda>(d, d'). d' \<noteq> d) (zip ds ds'))"
  using assms
proof (induction ds arbitrary: ds' ids)
  case (Cons d ds)
  obtain d1 b where sd: "sweep_decision thr now d = Inr (d1, b)"
    using Cons.prems by (cases "sweep_decision thr now d") auto
  obtain ds1 r where rest: "sla_sweep thr now ds = (ds1, r)" by fastforce
  then obtain ids1 where r: "r = Inr ids1" and ds': "ds' = d1 # ds1"
    and ids: "ids = (if b then d_incident_id d # ids1 else ids1)"
    using Cons.prems sd by (cases r) auto
  note ih = Cons.IH [OF rest [unfolded r]]
  from sweep_decision_cases [OF sd] show ?case
    using ih bump_decision_changes by (auto simp: ds' ids)
qed simp

definition w_decision :: "string \<Rightarrow> val \<Rightarrow> dict \<Rightarrow> decision" where
  \<comment> \<open>a decision for the examples\<close>
  "w_decision i p acts =
     \<lparr>d_incident_id = i, d_priority = p, d_risk_score = 0, d_risk_band = ''LOW'', d_actions = acts,
      d_mitigations = [], d_execution_plan = [], d_matched_rules = [], d_rejected_rules = [],
      d_suppressed_rules = [], d_compliance_constraints = [], d_confidence_score = Fin 100,
      d_degraded_context = False, d_explanation = [], d_engine_version = ''0.1.0'', d_created_at = 0,
      d_resolved = False\<rparr>"

lemma sla_sweep_one_level_witness:
  "[''I1''] = map (d_incident_id \<circ> fst) (filter (\<lambda>(d, d'). d' \<noteq> d)
     (zip [w_decision ''I1'' (PStr ''High'') [(''targetSLA'', PStr ''15 minutes'')]]
        [bump_decision ''Critical'' (w_decision ''I1'' (PStr ''High'') [(''targetSLA'', PStr ''15 minutes'')])]))"
proof -
  have "sla_sweep (rnd (4/5)) 840000000 [w_decision ''I1'' (PStr ''High'') [(''targetSLA'', PStr ''15 minutes'')]] =
    ([bump_decision ''Critical'' (w_decision ''I1'' (PStr ''High'') [(''targetSLA'', PStr ''15 minutes'')])], Inr [''I1''])"
    by code_simp
  from sla_sweep_one_level [OF this] show ?thesis by blast
qed

text \<open>
  One decision with an unreadable target stops the whole sweep: the sweep
  raises, and the decisions after it are not examined in this or any later run.
\<close>
theorem sla_sweep_stops_at_bad_target:
  assumes "sweep_decision thr now d = Inl e" and "sla_sweep thr now before = (before', Inr ids)"
  shows "sla_sweep thr now (before @ d # after) = (before' @ d # after, Inl e)"
  using assms(2)
proof (induction before arbitrary: before' ids)
  case Nil
  then show ?case using assms(1) by simp
next
  case (Cons c before)
  obtain c1 b where c: "sweep_decision thr now c = Inr (c1, b)"
    using Cons.prems by (cases "sweep_decision thr now c") auto
  obtain b1 r where rest: "sla_sweep thr now before = (b1, r)" by fastforce
  then obtain ids1 where "r = Inr ids1" and "before' = c1 # b1"
    using Cons.prems c by (cases r) auto
  with Cons.IH [of b1 ids1] rest c show ?case by simp
qed

lemma sla_sweep_stops_at_bad_target_witness:
  "sla_sweep (rnd (4/5)) 840000000
     ([] @ w_decision ''I1'' (PStr ''High'') [(''targetSLA'', PStr ''ASAP'')] #
       [w_decision ''I2'' (PStr ''Low'') [(''targetSLA'', PStr ''5 minutes'')]]) =
   ([] @ w_decision ''I1'' (PStr ''High'') [(''targetSLA'', PStr ''ASAP'')] #
       [w_decision ''I2'' (PStr ''Low'') [(''targetSLA'', PStr ''5 minutes'')]],
    Inl (ValueError ''invalid literal for int()''))"
proof -
  have "sweep_decision (rnd (4/5)) 840000000 (w_decision ''I1'' (PStr ''High'') [(''targetSLA'', PStr ''ASAP'')]) =
      Inl (ValueError ''invalid literal for int()'')" by code_simp
  moreover have "sla_sweep (rnd (4/5)) 840000000 [] = ([], Inr [])" by simp
  ultimately show ?thesis by (rule sla_sweep_stops_at_bad_target)
qed

section \<open>What the escalation sweep triggers\<close>

lemma next_level_filter:
  "next_level pol trig start now =
     (case rev (filter (\<lambda>l. due now start l \<and> el_level l \<notin> set trig) (ep_levels pol)) of [] \<Rightarrow> None | l # _ \<Rightarrow> Some l)"
proof -
  have "foldl (\<lambda>acc l. if P l then Some l else acc) a ls =
      (case rev (filter P ls) of [] \<Rightarrow> a | l # _ \<Rightarrow> Some l)" for P and ls :: "escalation_level list" and a
    by (induction ls arbitrary: a) (auto split: list.splits)
  then show ?thesis by (simp add: next_level_def)
qed

lemma escalation_sweep_None:
  "escalation_sweep fresh i pol evs start now = None \<longleftrightarrow>
   filter (\<lambda>l. due now start l \<and> el_level l \<notin> set (map ee_level evs)) (ep_levels pol) = []"
  by (cases "rev (filter (\<lambda>l. due now start l \<and> el_level l \<notin> set (map ee_level evs)) (ep_levels pol))")
    (simp_all add: escalation_sweep_def next_level_filter)

text \<open>
  An escalation sweep opens the furthest level of the policy that is due and has
  no event yet, and nothing exactly when every due level has an event; so no level is ever
  opened twice. After a jump over several levels the next sweep opens a skipped level below:
  on the default Critical policy, 16 minutes of silence open the regional manager first and
  the engineer after.
\<close>
theorem escalation_sweep_opens_furthest:
  "(escalation_sweep fresh i pol evs start now = None \<longleftrightarrow>
      (\<forall>l \<in> set (ep_levels pol). due now start l \<longrightarrow> el_level l \<in> ee_level ` set evs)) \<and>
   (\<forall>e. escalation_sweep fresh i pol evs start now = Some e \<longrightarrow>
      ee_level e \<notin> ee_level ` set evs \<and>
      (\<exists>xs l ys. ep_levels pol = xs @ l # ys \<and> due now start l \<and> ee_level e = el_level l \<and>
         (\<forall>m \<in> set ys. due now start m \<longrightarrow> el_level m \<in> ee_level ` set evs))) \<and>
   (let p = the (get_for_severity None ''Critical'');
        e1 = the (escalation_sweep ''a'' ''I1'' p [] 0 960000000)
    in ee_level e1 = ''REGIONAL_MANAGER'' \<and>
       map_option ee_level (escalation_sweep ''b'' ''I1'' p [e1] 0 960000000) = Some ''ENGINEER'')"
proof (intro conjI)
  let ?P = "\<lambda>l. due now start l \<and> el_level l \<notin> set (map ee_level evs)"
  show "escalation_sweep fresh i pol evs start now = None \<longleftrightarrow>
      (\<forall>l \<in> set (ep_levels pol). due now start l \<longrightarrow> el_level l \<in> ee_level ` set evs)"
    by (auto simp: escalation_sweep_None filter_empty_conv)
  show "\<forall>e. escalation_sweep fresh i pol evs start now = Some e \<longrightarrow>
      ee_level e \<notin> ee_level ` set evs \<and>
      (\<exists>xs l ys. ep_levels pol = xs @ l # ys \<and> due now start l \<and> ee_level e = el_level l \<and>
         (\<forall>m \<in> set ys. due now start m \<longrightarrow> el_level m \<in> ee_level ` set evs))"
  proof (intro allI impI)
    fix e assume e: "escalation_sweep fresh i pol evs start now = Some e"
    then have "\<exists>l \<in> set (ep_levels pol). ?P l"
      using escalation_sweep_None [of fresh i pol evs start now] by (auto simp: filter_empty_conv)
    from split_list_last_prop [OF this] obtain xs l ys where split: "ep_levels pol = xs @ l # ys" and l: "?P l" and ys: "\<forall>m \<in> set ys. \<not> ?P m"
      by blast
    have "filter ?P ys = []" using ys by (simp add: filter_empty_conv)
    then have "next_level pol (map ee_level evs) start now = Some l"
      using l by (simp add: next_level_filter split)
    then have lv: "ee_level e = el_level l" using e by (auto simp: escalation_sweep_def)
    with split l ys show "ee_level e \<notin> ee_level ` set evs \<and>
      (\<exists>xs l ys. ep_levels pol = xs @ l # ys \<and> due now start l \<and> ee_level e = el_level l \<and>
         (\<forall>m \<in> set ys. due now start m \<longrightarrow> el_level m \<in> ee_level ` set evs))"
      by (intro conjI exI [of _ xs] exI [of _ l] exI [of _ ys]) auto
  qed
  show "let p = the (get_for_severity None ''Critical'');
        e1 = the (escalation_sweep ''a'' ''I1'' p [] 0 960000000)
    in ee_level e1 = ''REGIONAL_MANAGER'' \<and>
       map_option ee_level (escalation_sweep ''b'' ''I1'' p [e1] 0 960000000) = Some ''ENGINEER''"
    by code_simp
qed


lemma escalation_sweep_opens_furthest_witness:
  "\<exists>xs l ys. ep_levels (the (get_for_severity None ''Low'')) = xs @ l # ys \<and> due 7200000000 0 l \<and> el_level l = ''ENGINEER''"
proof -
  let ?p = "the (get_for_severity None ''Low'')"
  have "escalation_sweep ''a'' ''I1'' ?p [] 0 7200000000 =
    Some \<lparr>ee_id = ''a'', ee_decision_id = ''I1'', ee_level = ''ENGINEER'', ee_triggered_at = 7200000000,
      ee_acknowledged_at = None, ee_acknowledged_by = None\<rparr>" by code_simp
  with escalation_sweep_opens_furthest [of "''a''" "''I1''" ?p "[]" 0 7200000000] show ?thesis by fastforce
qed

text \<open>
  An acknowledgement is recorded once, by a named person: it needs an
  unacknowledged event, stores who and when and nothing else, and a second one is refused.
\<close>
theorem acknowledge_once:
  "(is_ok (acknowledge_escalation now e who) \<longleftrightarrow> ee_acknowledged_at e = None \<and> py_strip who \<noteq> []) \<and>
   (\<forall>e'. acknowledge_escalation now e who = Inr e' \<longrightarrow>
      e' = e\<lparr>ee_acknowledged_at := Some now, ee_acknowledged_by := Some who\<rparr> \<and>
      \<not> is_ok (acknowledge_escalation later e' other))"
  by (auto simp: acknowledge_escalation_def)

lemma acknowledge_once_witness:
  "\<not> is_ok (acknowledge_escalation 9
     (\<lparr>ee_id = ''a'', ee_decision_id = ''I1'', ee_level = ''ENGINEER'', ee_triggered_at = 0,
       ee_acknowledged_at = Some 5, ee_acknowledged_by = Some ''kim''\<rparr>) ''lee'')"
proof -
  let ?e = "\<lparr>ee_id = ''a'', ee_decision_id = ''I1'', ee_level = ''ENGINEER'', ee_triggered_at = 0,
    ee_acknowledged_at = None, ee_acknowledged_by = None\<rparr>"
  have "acknowledge_escalation 5 ?e ''kim'' =
    Inr (?e\<lparr>ee_acknowledged_at := Some 5, ee_acknowledged_by := Some ''kim''\<rparr>)" by code_simp
  with acknowledge_once [of 5 ?e "''kim''" 9 "''lee''"] show ?thesis by simp
qed

text \<open>
  An override needs an operator and a reason; it is recorded next to the
  decision with the actions the engine had decided, and all earlier overrides stay.
\<close>
theorem override_is_a_separate_record:
  "(is_ok (override_decision fresh now d who acts why repo) \<longleftrightarrow> py_strip who \<noteq> [] \<and> py_strip why \<noteq> []) \<and>
   (\<forall>ov st'. override_decision fresh now d who acts why (Some st) = Inr (ov, st') \<longrightarrow>
      mo_original_decision ov = d_actions d \<and> mo_override_decision ov = acts \<and> mo_operator ov = who \<and>
      (\<exists>s. st' = Some s \<and> override_list_by_decision s i =
         override_list_by_decision st i @ (if i = d_incident_id d then [ov] else [])))"
  by (auto simp: override_decision_def Let_def overrides.list_save)

lemma override_is_a_separate_record_witness:
  "override_list_by_decision [(''I1'',
      [\<lparr>mo_id = ''o'', mo_decision_id = ''I1'', mo_operator = ''kim'', mo_original_decision = [],
        mo_override_decision = [(''priority'', PStr ''Low'')], mo_reason = ''drill'', mo_created_at = 7\<rparr>])] ''I1'' =
   [\<lparr>mo_id = ''o'', mo_decision_id = ''I1'', mo_operator = ''kim'', mo_original_decision = [],
        mo_override_decision = [(''priority'', PStr ''Low'')], mo_reason = ''drill'', mo_created_at = 7\<rparr>]"
proof -
  let ?ov = "\<lparr>mo_id = ''o'', mo_decision_id = ''I1'', mo_operator = ''kim'', mo_original_decision = [],
        mo_override_decision = [(''priority'', PStr ''Low'')], mo_reason = ''drill'', mo_created_at = 7\<rparr>"
  have "override_decision ''o'' 7 (w_decision ''I1'' PNone []) ''kim'' [(''priority'', PStr ''Low'')] ''drill'' (Some []) =
      Inr (?ov, Some [(''I1'', [?ov])])" by code_simp
  with override_is_a_separate_record [of "''o''" 7 "w_decision ''I1'' PNone []" "''kim''" "[(''priority'', PStr ''Low'')]" "''drill''"
      "None" "[]" "''I1''"]
  show ?thesis by (simp add: overrides.list_init w_decision_def)
qed

end
