(* ===== verification/Sweep_Progress.thy ===== *)
theory Sweep_Progress
  imports Jobs
begin

text \<open>
  Repeated runs of the scheduled jobs (\<open>sla_breach_sweep.py\<close>, \<open>escalation_sweep.py\<close>):
  what is guaranteed to have happened once a job has run often enough, and that the jobs
  come to rest. A run is given by its instant; an escalation run also by the fresh id of the
  event it may open.
\<close>

section \<open>SLA sweeps\<close>

fun sla_sweeps :: "fl \<Rightarrow> instant list \<Rightarrow> decision list \<Rightarrow> decision list res" where
  "sla_sweeps thr [] ds = Inr ds"
| "sla_sweeps thr (t # ts) ds =
     (case sla_sweep thr t ds of
        (ds', Inl e) \<Rightarrow> Inl e
      | (ds', Inr ids) \<Rightarrow> sla_sweeps thr ts ds')"

text \<open>An open decision whose target can be read and is used up by the threshold fraction.\<close>

definition breached :: "fl \<Rightarrow> instant \<Rightarrow> decision \<Rightarrow> bool" where
  "breached thr t d \<longleftrightarrow> \<not> d_resolved d \<and> py_bool (get_none (d_actions d) ''targetSLA'') \<and>
     (\<exists>n m. sweep_parse_duration (get_none (d_actions d) ''targetSLA'') = Inr n \<and> int_to_fl n = Inr m \<and>
        \<not> fl_less (elapsed_minutes t (d_created_at d)) (fl_mul m thr))"

lemma breached_bump [simp]: "breached thr t (bump_decision p d) = breached thr t d"
  by (simp add: breached_def)

lemma sev_name_nonempty [simp]: "sev_name s \<noteq> []"
  by (cases s) simp_all

lemma sweep_breached:
  assumes "breached thr t d" and "d_priority d = PStr (sev_name s)"
  shows "sweep_decision thr t d =
    Inr (if s = Critical then (d, False) else (bump_decision (sev_name (bump s)) d, True))"
  using assms next_severity_sev [of s] by (auto simp: breached_def sweep_decision_def Let_def)

lemma sla_sweep_nth:
  assumes "sla_sweep thr t ds = (ds', Inr ids)" and "k < length ds"
  shows "length ds' = length ds \<and> (\<exists>b. sweep_decision thr t (ds ! k) = Inr (ds' ! k, b))"
  using assms
proof (induction ds arbitrary: ds' ids k)
  case (Cons d ds)
  obtain d1 b where sd: "sweep_decision thr t d = Inr (d1, b)"
    using Cons.prems by (cases "sweep_decision thr t d") auto
  obtain ds1 r where rest: "sla_sweep thr t ds = (ds1, r)" by fastforce
  obtain ids1 where r: "r = Inr ids1" and ds': "ds' = d1 # ds1"
    using Cons.prems sd rest by (cases r) auto
  show ?case
  proof (cases k)
    case 0
    have "length ds1 = length ds" using Cons.IH [OF rest [unfolded r], of 0] rest r by (cases ds) auto
    then show ?thesis using 0 sd ds' by simp
  next
    case (Suc j)
    then show ?thesis using Cons.IH [OF rest [unfolded r], of j] Cons.prems(2) ds' by simp
  qed
qed simp

lemma sweeps_bump:
  assumes "sla_sweeps thr ts ds = Inr ds'" and "k < length ds" and "\<forall>t \<in> set ts. breached thr t (ds ! k)"
    and "d_priority (ds ! k) = PStr (sev_name s)"
  shows "length ds' = length ds \<and> d_priority (ds' ! k) = PStr (sev_name ((bump ^^ length ts) s)) \<and>
    (\<forall>t. breached thr t (ds' ! k) = breached thr t (ds ! k))"
  using assms
proof (induction ts arbitrary: ds s)
  case (Cons t ts)
  obtain ds1 ids where sw: "sla_sweep thr t ds = (ds1, Inr ids)"
    using Cons.prems(1) by (cases "sla_sweep thr t ds"; cases "snd (sla_sweep thr t ds)") auto
  note n = sla_sweep_nth [OF sw Cons.prems(2)]
  have "sweep_decision thr t (ds ! k) =
      Inr (if s = Critical then (ds ! k, False) else (bump_decision (sev_name (bump s)) (ds ! k), True))"
    using sweep_breached Cons.prems(3,4) by simp
  then have d1: "ds1 ! k = (if s = Critical then ds ! k else bump_decision (sev_name (bump s)) (ds ! k))"
    using n by (auto split: if_splits)
  then have "d_priority (ds1 ! k) = PStr (sev_name (bump s))" using Cons.prems(4) by simp
  moreover have "breached thr u (ds1 ! k) = breached thr u (ds ! k)" for u using d1 by simp
  moreover have "sla_sweeps thr ts ds1 = Inr ds'" using Cons.prems(1) sw by simp
  ultimately show ?case
    using Cons.IH [of ds1 "bump s"] Cons.prems(2,3) n by (simp add: funpow_swap1)
qed simp

lemma bump_thrice: "3 \<le> n \<Longrightarrow> (bump ^^ n) s = Critical"
proof (induction n rule: dec_induct)
  case base
  show ?case by (cases s) (simp_all add: numeral_3_eq_3)
qed simp

text \<open>
  Property C33: no breach is forgotten: an open decision with a readable target that stays in
  breach is Critical after three sweeps at the latest, wherever it stands in the list and
  whatever the sweeps do to the others, and at Critical further sweeps leave it alone. The
  sweeps have to finish, which one unreadable target prevents.
\<close>
theorem breached_decision_reaches_critical:
  assumes "sla_sweeps thr ts ds = Inr ds'" and "3 \<le> length ts" and "k < length ds"
    and "\<forall>t \<in> set ts. breached thr t (ds ! k)" and "d_priority (ds ! k) = PStr (sev_name s)"
  shows "d_priority (ds' ! k) = PStr ''Critical'' \<and>
    (breached thr t (ds ! k) \<longrightarrow> sweep_decision thr t (ds' ! k) = Inr (ds' ! k, False))"
proof -
  note w = sweeps_bump [OF assms(1,3,4,5)]
  have p: "d_priority (ds' ! k) = PStr (sev_name Critical)" using w bump_thrice [OF assms(2), of s] by simp
  then show ?thesis using w sweep_breached [of thr t "ds' ! k" Critical] by simp
qed

lemma breached_decision_reaches_critical_witness:
  "\<exists>ds'. sla_sweeps (rnd (4/5)) [840000000, 900000000, 960000000]
       [w_decision ''I1'' (PStr ''Low'') [(''targetSLA'', PStr ''15 minutes'')]] = Inr ds' \<and>
     d_priority (ds' ! 0) = PStr ''Critical''"
proof -
  let ?d = "w_decision ''I1'' (PStr ''Low'') [(''targetSLA'', PStr ''15 minutes'')]"
  let ?ts = "[840000000, 900000000, 960000000] :: instant list"
  have "is_ok (sla_sweeps (rnd (4/5)) ?ts [?d])" by code_simp
  then obtain ds' where sw: "sla_sweeps (rnd (4/5)) ?ts [?d] = Inr ds'" by (auto simp: is_ok_iff)
  have "breached (rnd (4/5)) t ?d" if "t \<in> set ?ts" for t
  proof -
    have "sweep_parse_duration (get_none (d_actions ?d) ''targetSLA'') = Inr 15" "int_to_fl 15 = Inr (Fin 15)" by code_simp+
    moreover have "\<forall>t \<in> set ?ts. \<not> fl_less (elapsed_minutes t (d_created_at ?d)) (fl_mul (Fin 15) (rnd (4/5)))" by code_simp
    moreover have "\<not> d_resolved ?d \<and> py_bool (get_none (d_actions ?d) ''targetSLA'')" by code_simp
    ultimately show ?thesis using that unfolding breached_def by blast
  qed
  moreover have "d_priority ([?d] ! 0) = PStr (sev_name Low)" by code_simp
  ultimately show ?thesis using breached_decision_reaches_critical [OF sw, of 0 Low] sw by auto
qed

section \<open>Escalation sweeps\<close>

definition escalation_run :: "string \<Rightarrow> escalation_policy \<Rightarrow> instant \<Rightarrow> escalation_event list \<Rightarrow> string \<times> instant \<Rightarrow> escalation_event list" where
  \<comment> \<open>a sweep whose event, if it opens one, is stored with the earlier ones\<close>
  "escalation_run i pol start evs r =
     (case escalation_sweep (fst r) i pol evs start (snd r) of None \<Rightarrow> evs | Some e \<Rightarrow> evs @ [e])"

abbreviation escalation_runs :: "string \<Rightarrow> escalation_policy \<Rightarrow> instant \<Rightarrow> escalation_event list \<Rightarrow> (string \<times> instant) list \<Rightarrow> escalation_event list" where
  "escalation_runs i pol start \<equiv> foldl (escalation_run i pol start)"

definition pending :: "escalation_policy \<Rightarrow> escalation_event list \<Rightarrow> string set" where
  "pending pol evs = el_level ` set (ep_levels pol) - ee_level ` set evs"

lemma finite_pending [simp]: "finite (pending pol evs)"
  by (simp add: pending_def)

lemma sweep_opens:
  assumes "escalation_sweep f i pol evs start t = Some e"
  shows "ee_level e \<in> pending pol evs"
proof -
  let ?c = "filter (\<lambda>l. due t start l \<and> el_level l \<notin> set (map ee_level evs)) (ep_levels pol)"
  obtain l ls where r: "rev ?c = l # ls" and e: "ee_level e = el_level l"
    using assms by (cases "rev ?c") (auto simp: escalation_sweep_def next_level_filter)
  have "l \<in> set ?c" using r by (metis list.set_intros(1) set_rev)
  then show ?thesis using e by (auto simp: pending_def)
qed

lemma run_cases:
  obtains "escalation_run i pol start evs r = evs" "escalation_sweep (fst r) i pol evs start (snd r) = None"
  | e where "escalation_run i pol start evs r = evs @ [e]" "ee_level e \<in> pending pol evs"
  using sweep_opens by (cases "escalation_sweep (fst r) i pol evs start (snd r)") (auto simp: escalation_run_def)

lemma pending_snoc: "pending pol (evs @ [e]) = pending pol evs - {ee_level e}"
  by (auto simp: pending_def)

lemma runs_append:
  "\<exists>new. escalation_runs i pol start evs rs = evs @ new \<and> distinct (map ee_level new) \<and>
     ee_level ` set new \<subseteq> pending pol evs"
proof (induction rs rule: rev_induct)
  case (snoc r rs)
  then obtain new where new: "escalation_runs i pol start evs rs = evs @ new" "distinct (map ee_level new)"
    "ee_level ` set new \<subseteq> pending pol evs" by blast
  show ?case
  proof (cases rule: run_cases [of i pol start "evs @ new" r])
    case 1
    then show ?thesis using new by auto
  next
    case (2 e)
    then show ?thesis using new by (intro exI [of _ "new @ [e]"]) (auto simp: pending_def)
  qed
qed simp

lemma run_progress:
  assumes "\<forall>l \<in> set (ep_levels pol). due (snd r) start l"
  shows "card (pending pol (escalation_run i pol start evs r)) = card (pending pol evs) - 1"
proof (cases rule: run_cases [of i pol start evs r])
  case 1
  then have "pending pol evs = {}" using assms by (auto simp: escalation_sweep_None filter_empty_conv pending_def)
  then show ?thesis using 1 by simp
next
  case (2 e)
  then show ?thesis by (simp add: pending_snoc)
qed

lemma runs_progress:
  assumes "\<forall>r \<in> set rs. \<forall>l \<in> set (ep_levels pol). due (snd r) start l"
  shows "card (pending pol (escalation_runs i pol start evs rs)) = card (pending pol evs) - length rs"
  using assms
proof (induction rs rule: rev_induct)
  case (snoc r rs)
  then show ?case using run_progress [of pol r start i "escalation_runs i pol start evs rs"] by simp
qed simp

text \<open>
  Property C34: silence is escalated all the way and only once: over any series of sweeps the
  earlier events stay, every level opened is one of the policy that had no event, and no
  level is opened twice; once the sweeps at which every timeout has passed are as many as
  the policy has levels, every level has its event and no further sweep opens anything.
\<close>
theorem escalation_reaches_every_level:
  "(\<exists>new. escalation_runs i pol start evs rs = evs @ new \<and> distinct (map ee_level new) \<and>
      ee_level ` set new \<subseteq> el_level ` set (ep_levels pol) - ee_level ` set evs) \<and>
   (length (ep_levels pol) \<le> length late \<and> (\<forall>r \<in> set late. \<forall>l \<in> set (ep_levels pol). due (snd r) start l) \<longrightarrow>
      (let evs' = escalation_runs i pol start evs (rs @ late) in
       el_level ` set (ep_levels pol) \<subseteq> ee_level ` set evs' \<and> escalation_sweep f i pol evs' start t = None))"
proof (intro conjI impI)
  show "\<exists>new. escalation_runs i pol start evs rs = evs @ new \<and> distinct (map ee_level new) \<and>
      ee_level ` set new \<subseteq> el_level ` set (ep_levels pol) - ee_level ` set evs"
    using runs_append [of i pol start evs rs] by (simp add: pending_def)
  assume late: "length (ep_levels pol) \<le> length late \<and> (\<forall>r \<in> set late. \<forall>l \<in> set (ep_levels pol). due (snd r) start l)"
  let ?e = "escalation_runs i pol start evs (rs @ late)"
  have "card (pending pol ?e) = card (pending pol (escalation_runs i pol start evs rs)) - length late"
    using runs_progress [of late pol start i "escalation_runs i pol start evs rs"] late by simp
  moreover have "card (pending pol es) \<le> length (ep_levels pol)" for es
    unfolding pending_def by (meson card_image_le card_length card_mono Diff_subset finite_imageI List.finite_set order_trans)
  from this [of "escalation_runs i pol start evs rs"] calculation late have "card (pending pol ?e) = 0" by linarith
  then have none: "pending pol ?e = {}" by simp
  then have "escalation_sweep f i pol ?e start t = None"
    by (auto simp: escalation_sweep_None filter_empty_conv pending_def)
  with none show "let evs' = ?e in el_level ` set (ep_levels pol) \<subseteq> ee_level ` set evs' \<and> escalation_sweep f i pol evs' start t = None"
    by (auto simp: pending_def)
qed

lemma escalation_reaches_every_level_witness:
  "{''ENGINEER'', ''REGIONAL_MANAGER''} \<subseteq> ee_level ` set
     (escalation_runs ''I1'' (the (get_for_severity None ''Medium'')) 0 [] [(''a'', 5400000000), (''b'', 5400000000)])"
proof -
  let ?p = "the (get_for_severity None ''Medium'')"
  let ?late = "[(''a'', 5400000000), (''b'', 5400000000)] :: (string \<times> instant) list"
  have "length (ep_levels ?p) \<le> length ?late" by code_simp
  moreover have "\<forall>r \<in> set ?late. \<forall>l \<in> set (ep_levels ?p). due (snd r) 0 l" by code_simp
  moreover have "el_level ` set (ep_levels ?p) = {''ENGINEER'', ''REGIONAL_MANAGER''}" by code_simp
  ultimately show ?thesis
    using escalation_reaches_every_level [of "''I1''" ?p 0 "[]" "[]" ?late] by (simp add: Let_def)
qed

end
