(* ===== verification/Ttl_Cache.thy ===== *)
theory Ttl_Cache
  imports Py_Value
begin

text \<open>
  \<open>TTLCache\<close> of \<open>app/core/cache.py\<close>: one cached value with the monotonic time it was
  loaded at. A loader is what calling it would return or raise; it is consulted only where
  the code calls it.
\<close>

definition fl_neg :: "fl \<Rightarrow> fl" where
  "fl_neg x = (case x of Fin a \<Rightarrow> Fin (- a) | PosInf \<Rightarrow> NegInf | NegInf \<Rightarrow> PosInf | NaN \<Rightarrow> NaN)"

text \<open>Subtraction of doubles.\<close>

definition fl_sub :: "fl \<Rightarrow> fl \<Rightarrow> fl" where
  "fl_sub x y = fl_add x (fl_neg y)"

record 'a ttl_cache =
  ttl_seconds :: fl
  cached :: "'a option"
  loaded_at :: fl

definition new_cache :: "fl \<Rightarrow> 'a ttl_cache" where
  "new_cache ttl = \<lparr>ttl_seconds = ttl, cached = None, loaded_at = Fin 0\<rparr>"

definition cache_stale :: "fl \<Rightarrow> 'a ttl_cache \<Rightarrow> bool" where
  "cache_stale now c = (cached c = None \<or> fl_less (ttl_seconds c) (fl_sub now (loaded_at c)))"

definition cache_get :: "fl \<Rightarrow> 'a option res \<Rightarrow> 'a ttl_cache \<Rightarrow> 'a option res \<times> 'a ttl_cache" where
  "cache_get now loader c =
     (if cache_stale now c
      then (case loader of
              Inl e \<Rightarrow> (Inl e, c)
            | Inr v \<Rightarrow> (Inr v, c\<lparr>cached := v, loaded_at := now\<rparr>))
      else (Inr (cached c), c))"

definition cache_invalidate :: "'a ttl_cache \<Rightarrow> 'a ttl_cache" where
  "cache_invalidate c = c\<lparr>cached := None, loaded_at := Fin 0\<rparr>"

definition cache_set :: "fl \<Rightarrow> 'a option \<Rightarrow> 'a ttl_cache \<Rightarrow> 'a ttl_cache" where
  "cache_set now v c = c\<lparr>cached := v, loaded_at := now\<rparr>"

definition cache_peek :: "'a ttl_cache \<Rightarrow> 'a option" where
  "cache_peek c = cached c"

definition cache_warmup :: "fl \<Rightarrow> 'a option res \<Rightarrow> 'a ttl_cache \<Rightarrow> 'a option res \<times> 'a ttl_cache" where
  "cache_warmup now loader c = cache_get now loader c"

definition cache_refresh :: "fl \<Rightarrow> 'a option res \<Rightarrow> 'a ttl_cache \<Rightarrow> 'a option res \<times> 'a ttl_cache" where
  "cache_refresh now loader c = cache_get now loader (cache_invalidate c)"

definition cache_reload :: "'a ttl_cache \<Rightarrow> 'a ttl_cache" where
  "cache_reload c = cache_invalidate c"

lemmas cache_defs = cache_get_def cache_invalidate_def cache_set_def cache_peek_def cache_stale_def

text \<open>
  The cache serves a value without consulting its loader exactly while it holds
  one no older than the time to live; otherwise it returns what the loader gives and keeps
  it, a loader that raises leaves the cached value as it was, and after an invalidation the
  next read always loads.
\<close>
theorem cache_serves_fresh_values:
  "(\<not> cache_stale now c \<longrightarrow> cache_get now loader c = (Inr (cached c), c)) \<and>
   (cache_stale now c \<longrightarrow> fst (cache_get now loader c) = loader) \<and>
   (cache_stale now c \<longrightarrow> loader = Inr v \<longrightarrow> cached (snd (cache_get now loader c)) = v) \<and>
   (cache_stale now c \<longrightarrow> loader = Inl e \<longrightarrow> snd (cache_get now loader c) = c) \<and>
   fst (cache_get now loader (cache_invalidate c)) = loader \<and>
   (\<not> fl_less (ttl_seconds c) (fl_sub later now) \<longrightarrow>
      cache_get later loader (cache_set now (Some x) c) = (Inr (Some x), cache_set now (Some x) c))"
  by (auto simp: cache_defs split: sum.splits)

lemma cache_serves_fresh_values_witness:
  "cache_get (Fin 105) (Inl TypeError) (cache_set (Fin 100) (Some ''pack'') (new_cache (Fin 10))) =
     (Inr (Some ''pack''), cache_set (Fin 100) (Some ''pack'') (new_cache (Fin 10)))"
proof -
  have "\<not> fl_less (ttl_seconds (new_cache (Fin 10))) (fl_sub (Fin 105) (Fin 100))" by code_simp
  with cache_serves_fresh_values [where c = "new_cache (Fin 10)" and now = "Fin 100" and later = "Fin 105" and x = "''pack''"] show ?thesis
    by (simp add: new_cache_def)
qed

end
