(* ===== verification/Security.thy ===== *)
theory Security
  imports Stores Ttl_Cache "HOL-Library.Word"
begin

text \<open>
  Authentication and authorisation: password hashes and tokens (\<open>app/core/security.py\<close>),
  registration, login and API keys (\<open>app/application/use_cases\<close>), the permission checks
  of the API (\<open>app/interfaces/api/security.py\<close>), its token endpoints
  (\<open>auth_router.py\<close>) and the rate limiter (\<open>middleware/rate_limit.py\<close>). The key
  derivation function and the JWT library are parameters; random salts, keys and ids are
  arguments, as is the current time.
\<close>

section \<open>Password hashes\<close>

type_synonym bytes = "8 word list"

text \<open>\<open>pbkdf2_hmac\<close> with SHA-256: password, salt, iterations.\<close>

type_synonym kdf = "string \<Rightarrow> bytes \<Rightarrow> int \<Rightarrow> bytes"

definition byte_hex :: "8 word \<Rightarrow> string" where
  "byte_hex b = [hex_digit (unat b div 16), hex_digit (unat b mod 16)]"

definition hex :: "bytes \<Rightarrow> string" where
  "hex bs = concat (map byte_hex bs)"

definition hex_value :: "char \<Rightarrow> nat option" where
  "hex_value c =
     (let n = code_of c in
      if 48 \<le> n \<and> n \<le> 57 then Some (n - 48)
      else if 97 \<le> n \<and> n \<le> 102 then Some (n - 87)
      else if 65 \<le> n \<and> n \<le> 70 then Some (n - 55)
      else None)"

definition hex_space :: "char \<Rightarrow> bool" where
  "hex_space c = (code_of c = 32 \<or> (9 \<le> code_of c \<and> code_of c \<le> 13))"

text \<open>\<open>bytes.fromhex\<close>: pairs of digits, white space allowed between them.\<close>

fun fromhex :: "string \<Rightarrow> bytes res" where
  "fromhex [] = Inr []"
| "fromhex [c] = (if hex_space c then Inr [] else Inl (ValueError ''non-hexadecimal number found in fromhex() arg''))"
| "fromhex (c # d # s) =
     (if hex_space c then fromhex (d # s)
      else case (hex_value c, hex_value d) of
             (Some x, Some y) \<Rightarrow> bindr (fromhex s) (\<lambda>bs. Inr (of_nat (16 * x + y) # bs))
           | _ \<Rightarrow> Inl (ValueError ''non-hexadecimal number found in fromhex() arg''))"

definition PBKDF2_ITERATIONS :: int where "PBKDF2_ITERATIONS = 310000"

definition hash_password :: "kdf \<Rightarrow> bytes \<Rightarrow> string \<Rightarrow> string" where
  "hash_password kdf salt plain =
     ''pbkdf2_sha256$'' @ str_of_int PBKDF2_ITERATIONS @ ''$'' @ hex salt @ ''$'' @
     hex (kdf plain salt PBKDF2_ITERATIONS)"

definition verify_password :: "kdf \<Rightarrow> string \<Rightarrow> string \<Rightarrow> bool res" where
  "verify_password kdf plain hashed =
     (case split_on CHR ''$'' hashed of
        [scheme, iterations, salt_hex, hash_hex] \<Rightarrow>
          if scheme \<noteq> ''pbkdf2_sha256'' then Inr False
          else (case (fromhex salt_hex, fromhex hash_hex) of
                  (Inr salt, Inr expected) \<Rightarrow>
                    bindr (py_int (py_strip iterations)) (\<lambda>n.
                      if n < 1 then Inl (ValueError ''iteration value must be greater than 0.'')
                      else Inr (kdf plain salt n = expected))
                | _ \<Rightarrow> Inr False)
      | _ \<Rightarrow> Inr False)"

section \<open>Tokens\<close>

text \<open>
  The JWT library as two functions: \<open>encode\<close> signs a claims dictionary with a secret and an
  algorithm, \<open>decode\<close> verifies a token at a time and returns the claims or raises.
  Instants in claims are whole seconds, as the library serialises them.
\<close>

type_synonym jwt_encode = "dict \<Rightarrow> string \<Rightarrow> string \<Rightarrow> string"
type_synonym jwt_decode = "instant \<Rightarrow> string \<Rightarrow> string \<Rightarrow> string \<Rightarrow> dict res"

definition seconds :: "instant \<Rightarrow> val" where
  "seconds t = PInt (t div 1000000)"

definition access_claims :: "string \<Rightarrow> string list \<Rightarrow> string \<Rightarrow> instant \<Rightarrow> int \<Rightarrow> dict" where
  "access_claims subject roles jti now expires_minutes =
     [(''sub'', PStr subject), (''roles'', PList (map PStr roles)), (''type'', PStr ''access''), (''jti'', PStr jti),
      (''iat'', seconds now), (''exp'', seconds (now + expires_minutes * 60000000))]"

definition create_access_token :: "jwt_encode \<Rightarrow> string \<Rightarrow> string list \<Rightarrow> string \<Rightarrow> string \<Rightarrow> string \<Rightarrow> instant \<Rightarrow> int \<Rightarrow> string" where
  "create_access_token encode subject roles secret algorithm jti now expires_minutes =
     encode (access_claims subject roles jti now expires_minutes) secret algorithm"

definition refresh_claims :: "string \<Rightarrow> string \<Rightarrow> instant \<Rightarrow> int \<Rightarrow> dict" where
  "refresh_claims subject jti now expires_days =
     [(''sub'', PStr subject), (''type'', PStr ''refresh''), (''jti'', PStr jti),
      (''iat'', seconds now), (''exp'', seconds (now + expires_days * 86400000000))]"

definition create_refresh_token :: "jwt_encode \<Rightarrow> string \<Rightarrow> string \<Rightarrow> string \<Rightarrow> string \<Rightarrow> instant \<Rightarrow> int \<Rightarrow> string" where
  "create_refresh_token encode subject secret algorithm jti now expires_days =
     encode (refresh_claims subject jti now expires_days) secret algorithm"

definition decode_token :: "jwt_decode \<Rightarrow> instant \<Rightarrow> string \<Rightarrow> string \<Rightarrow> string \<Rightarrow> string option \<Rightarrow> dict res" where
  "decode_token decode now token secret algorithm expected_type =
     bindr (decode now token secret algorithm) (\<lambda>claims.
       case expected_type of
         None \<Rightarrow> Inr claims
       | Some t \<Rightarrow>
           if \<not> py_eq (get_none claims ''type'') (PStr t)
           then Inl (JWTError (''expected a '' @ quoted t @ '' token, got '' @ quoted (py_str (get_none claims ''type''))))
           else Inr claims)"

section \<open>Roles and permissions\<close>

definition all_permissions :: "string list" where
  "all_permissions =
     [''incidents:evaluate'', ''incidents:create'', ''incidents:read'', ''decisions:read'', ''decisions:override'',
      ''rules:manage'', ''rules:edit'', ''rules:read'', ''rules:publish'', ''rules:activate'', ''rules:rollback'',
      ''rules:delete'', ''escalations:acknowledge'', ''users:manage'', ''apikeys:manage'', ''simulation:run'']"

definition mk_role :: "string \<Rightarrow> string \<Rightarrow> string list \<Rightarrow> string \<Rightarrow> role" where
  "mk_role c n ps descr = \<lparr>ro_code = c, ro_name = n, ro_permissions = ps, ro_description = descr,
     ro_created_at = None, ro_updated_at = None\<rparr>"

definition default_roles :: "role list" where
  "default_roles =
     [mk_role ''admin'' ''Administrator'' all_permissions
        ''Full access, including user/role management and rule-pack policy admin.'',
      mk_role ''operator'' ''NOC Operator''
        [''incidents:evaluate'', ''incidents:create'', ''incidents:read'', ''decisions:read'', ''decisions:override'',
         ''escalations:acknowledge'', ''rules:read'', ''simulation:run'']
        ''Day-to-day incident handling.'',
      mk_role ''viewer'' ''Viewer'' [''decisions:read'', ''rules:read'', ''incidents:read'']
        ''Read-only access. Default role for new users.'',
      mk_role ''editor'' ''Rule Editor'' [''rules:edit'', ''rules:read'', ''simulation:run'']
        (''Create rules/rule packs and modify drafts; cannot publish, activate, roll back, or delete. '' @
         ''Can run what-if simulations to test drafts before requesting publish.''),
      mk_role ''policy_admin'' ''Policy Admin''
        [''rules:edit'', ''rules:read'', ''rules:publish'', ''rules:activate'', ''rules:rollback'', ''rules:delete'',
         ''simulation:run'']
        (''Publish, activate, roll back, and delete rule packs -- the four state-changing operations the spec '' @
         ''reserves for this role. Can also run simulations/comparisons as part of that review.'')]"

definition default_role_store :: "(string \<times> role) list" where
  "default_role_store = map (\<lambda>r. (ro_code r, r)) default_roles"

definition permission_catalog :: "string list" where
  \<comment> \<open>the codes of the seeded permission catalogue\<close>
  "permission_catalog =
     [''incidents:evaluate'', ''incidents:create'', ''incidents:read'', ''decisions:read'', ''decisions:override'',
      ''rules:manage'', ''escalations:acknowledge'', ''users:manage'', ''apikeys:manage'', ''rules:edit'', ''rules:read'',
      ''rules:publish'', ''rules:activate'', ''rules:rollback'', ''rules:delete'', ''simulation:run'']"

record principal =
  pr_subject :: val
  pr_roles :: "val list"
  pr_permissions :: "string list"
  pr_auth_method :: string
  pr_is_authenticated :: bool

text \<open>A role code of a token is looked up when it is text; another hashable value finds no role.\<close>

fun resolve_permissions :: "(string \<times> role) list \<Rightarrow> val list \<Rightarrow> string list res" where
  "resolve_permissions rs [] = Inr []"
| "resolve_permissions rs (c # cs) =
     (if \<not> hashable c then Inl TypeError
      else bindr (resolve_permissions rs cs) (\<lambda>ps.
        Inr ((case c of
                PStr code \<Rightarrow> (case role_get_by_code rs code of None \<Rightarrow> [] | Some r \<Rightarrow> ro_permissions r)
              | _ \<Rightarrow> []) @ ps)))"

record auth_settings =
  jwt_secret :: string
  jwt_algorithm :: string
  jwt_access_token_minutes :: int
  jwt_refresh_token_days :: int
  auth_required :: bool

definition bearer_token :: "string option \<Rightarrow> string option" where
  \<comment> \<open>the token of an \<open>Authorization\<close> header that starts with \<open>bearer\<close>\<close>
  "bearer_token header =
     (case header of
        None \<Rightarrow> None
      | Some h \<Rightarrow>
          if prefix ''bearer '' (py_lower h) then Some (py_strip (tl (dropWhile (\<lambda>c. c \<noteq> CHR '' '') h))) else None)"

definition anonymous :: principal where
  "anonymous = \<lparr>pr_subject = PStr ''anonymous'', pr_roles = [], pr_permissions = [], pr_auth_method = ''anonymous'',
     pr_is_authenticated = False\<rparr>"

definition unauthorized :: "'a res \<Rightarrow> 'a res" where
  \<comment> \<open>\<open>except jwt.PyJWTError\<close>\<close>
  "unauthorized m =
     (case m of Inl (JWTError msg) \<Rightarrow> Inl (HTTPException 401 (''Invalid or expired access token: '' @ msg)) | _ \<Rightarrow> m)"

definition get_current_principal :: "jwt_decode \<Rightarrow> auth_settings \<Rightarrow> (string \<times> role) list \<Rightarrow> instant \<Rightarrow> string option \<Rightarrow> principal res" where
  "get_current_principal decode settings rs now header =
     (case bearer_token header of
        Some token \<Rightarrow>
          bindr (unauthorized (decode_token decode now token (jwt_secret settings) (jwt_algorithm settings) (Some ''access'')))
            (\<lambda>claims. bindr (get_item claims ''sub'') (\<lambda>sub.
               bindr (py_iter (dict_get claims ''roles'' (PList []))) (\<lambda>codes.
               bindr (resolve_permissions rs codes) (\<lambda>ps.
                 Inr \<lparr>pr_subject = sub, pr_roles = codes, pr_permissions = ps, pr_auth_method = ''jwt'',
                      pr_is_authenticated = True\<rparr>))))
      | None \<Rightarrow>
          if auth_required settings then Inl (HTTPException 401 ''Authentication required'') else Inr anonymous)"

definition require_permission :: "auth_settings \<Rightarrow> string \<Rightarrow> principal \<Rightarrow> principal res" where
  "require_permission settings code pr =
     (if \<not> auth_required settings \<and> \<not> pr_is_authenticated pr then Inr pr
      else if code \<notin> set (pr_permissions pr)
      then Inl (HTTPException 403 (''Missing required permission: '' @ quoted code))
      else Inr pr)"

text \<open>A protected endpoint: both dependencies in turn.\<close>

definition authorize :: "jwt_decode \<Rightarrow> auth_settings \<Rightarrow> (string \<times> role) list \<Rightarrow> instant \<Rightarrow> string \<Rightarrow> string option \<Rightarrow> principal res" where
  "authorize decode settings rs now code header =
     bindr (get_current_principal decode settings rs now header) (require_permission settings code)"

section \<open>Users and keys\<close>

definition known_roles :: "(string \<times> role) list \<Rightarrow> string list \<Rightarrow> unit res" where
  "known_roles rs codes =
     (case filter (\<lambda>c. role_get_by_code rs c = None) codes of
        [] \<Rightarrow> Inr ()
      | c # _ \<Rightarrow> Inl (ValueError (''Unknown role code: '' @ quoted c)))"

definition register_user :: "kdf \<Rightarrow> bytes \<Rightarrow> string \<Rightarrow> instant \<Rightarrow> (string \<times> role) list \<Rightarrow> user_store
    \<Rightarrow> string \<Rightarrow> string \<Rightarrow> string \<Rightarrow> string list option \<Rightarrow> (user \<times> user_store) res" where
  "register_user kdf salt fresh now rs st email password full_name roles =
     (let email = py_lower (py_strip email) in
      if email = [] \<or> CHR ''@'' \<notin> set email then Inl (ValueError ''A valid email address is required'')
      else if length password < 8 then Inl (ValueError ''Password must be at least 8 characters'')
      else if user_get_by_email st email \<noteq> None
      then Inl (ValueError (''A user with email '' @ quoted email @ '' already exists''))
      else let requested = (case roles of None \<Rightarrow> [''viewer''] | Some r \<Rightarrow> if r = [] then [''viewer''] else r) in
        bindr (known_roles rs requested) (\<lambda>_.
          let u = \<lparr>u_id = fresh, u_email = email, u_hashed_password = hash_password kdf salt password,
                u_full_name = full_name, u_roles = requested, u_is_active = True, u_created_at = Some now,
                u_updated_at = None, u_last_login_at = None\<rparr>
          in Inr (u, user_save u st)))"

definition authenticate_user :: "kdf \<Rightarrow> instant \<Rightarrow> user_store \<Rightarrow> string \<Rightarrow> string \<Rightarrow> (user \<times> user_store) res" where
  "authenticate_user kdf now st email password =
     (case user_get_by_email st (py_lower (py_strip email)) of
        None \<Rightarrow> Inl (ValueError ''Invalid email or password'')
      | Some u \<Rightarrow>
          bindr (verify_password kdf password (u_hashed_password u)) (\<lambda>ok.
            if \<not> ok then Inl (ValueError ''Invalid email or password'')
            else if \<not> u_is_active u then Inl (ValueError ''This account has been deactivated'')
            else let u' = u\<lparr>u_last_login_at := Some now\<rparr> in Inr (u', user_save u' st)))"

definition generate_api_key :: "string \<Rightarrow> string" where
  "generate_api_key urlsafe_token = ''tdo_'' @ urlsafe_token"

definition create_api_key :: "kdf \<Rightarrow> bytes \<Rightarrow> string \<Rightarrow> string \<Rightarrow> instant \<Rightarrow> api_key_store \<Rightarrow> string option \<Rightarrow> string \<Rightarrow> string list option
    \<Rightarrow> (string \<times> api_key) \<times> api_key_store" where
  "create_api_key kdf salt urlsafe_token fresh now st owner name roles =
     (let raw = generate_api_key urlsafe_token;
          k = \<lparr>k_id = fresh, k_key_prefix = take 12 raw, k_hashed_key = hash_password kdf salt raw,
               k_owner_user_id = owner, k_name = name,
               k_roles = (case roles of None \<Rightarrow> [''viewer''] | Some r \<Rightarrow> if r = [] then [''viewer''] else r),
               k_is_active = True, k_created_at = Some now, k_last_used_at = None, k_expires_at = None\<rparr>
      in ((raw, k), api_key_save k st))"

section \<open>The token endpoints\<close>

record token_response =
  tr_access_token :: string
  tr_refresh_token :: string
  tr_expires_in_minutes :: int

definition issue_tokens :: "jwt_encode \<Rightarrow> auth_settings \<Rightarrow> string \<Rightarrow> string \<Rightarrow> instant \<Rightarrow> string \<Rightarrow> string list \<Rightarrow> token_response" where
  "issue_tokens encode settings jti1 jti2 now user_id roles =
     \<lparr>tr_access_token = create_access_token encode user_id roles (jwt_secret settings) (jwt_algorithm settings) jti1 now
        (jwt_access_token_minutes settings),
      tr_refresh_token = create_refresh_token encode user_id (jwt_secret settings) (jwt_algorithm settings) jti2 now
        (jwt_refresh_token_days settings),
      tr_expires_in_minutes = jwt_access_token_minutes settings\<rparr>"

text \<open>\<open>except ValueError\<close> turned into a response of the given status.\<close>

definition value_error_as :: "nat \<Rightarrow> 'a res \<Rightarrow> 'a res" where
  "value_error_as code m = (case m of Inl (ValueError msg) \<Rightarrow> Inl (HTTPException code msg) | _ \<Rightarrow> m)"

definition login_endpoint :: "kdf \<Rightarrow> jwt_encode \<Rightarrow> auth_settings \<Rightarrow> string \<Rightarrow> string \<Rightarrow> instant \<Rightarrow> user_store \<Rightarrow> string \<Rightarrow> string
    \<Rightarrow> (token_response \<times> user_store) res" where
  "login_endpoint kdf encode settings jti1 jti2 now st email password =
     bindr (value_error_as 401 (authenticate_user kdf now st email password)) (\<lambda>(u, st').
       Inr (issue_tokens encode settings jti1 jti2 now (u_id u) (u_roles u), st'))"

definition register_endpoint :: "kdf \<Rightarrow> bytes \<Rightarrow> string \<Rightarrow> instant \<Rightarrow> (string \<times> role) list \<Rightarrow> user_store
    \<Rightarrow> string \<Rightarrow> string \<Rightarrow> string \<Rightarrow> string list option \<Rightarrow> (user \<times> user_store) res" where
  "register_endpoint kdf salt fresh now rs st email password full_name roles =
     value_error_as 400 (register_user kdf salt fresh now rs st email password full_name roles)"

definition refresh_endpoint :: "jwt_encode \<Rightarrow> jwt_decode \<Rightarrow> auth_settings \<Rightarrow> string \<Rightarrow> string \<Rightarrow> instant \<Rightarrow> user_store \<Rightarrow> string
    \<Rightarrow> token_response res" where
  "refresh_endpoint encode decode settings jti1 jti2 now st token =
     bindr (case decode_token decode now token (jwt_secret settings) (jwt_algorithm settings) (Some ''refresh'') of
              Inl (JWTError msg) \<Rightarrow> Inl (HTTPException 401 (''Invalid or expired refresh token: '' @ msg))
            | m \<Rightarrow> m)
       (\<lambda>claims. bindr (get_item claims ''sub'') (\<lambda>sub.
          if \<not> hashable sub then Inl TypeError
          else case (case sub of PStr i \<Rightarrow> user_get_by_id st i | _ \<Rightarrow> None) of
                 None \<Rightarrow> Inl (HTTPException 401 ''User no longer exists or is inactive'')
               | Some u \<Rightarrow>
                   if \<not> u_is_active u then Inl (HTTPException 401 ''User no longer exists or is inactive'')
                   else Inr (issue_tokens encode settings jti1 jti2 now (u_id u) (u_roles u))))"

definition me_endpoint :: "user_store \<Rightarrow> principal \<Rightarrow> user res" where
  "me_endpoint st pr =
     (if \<not> pr_is_authenticated pr then Inl (HTTPException 401 ''No credentials presented'')
      else if \<not> hashable (pr_subject pr) then Inl TypeError
      else case (case pr_subject pr of PStr i \<Rightarrow> user_get_by_id st i | _ \<Rightarrow> None) of
             None \<Rightarrow> Inl (HTTPException 404 ''User not found'')
           | Some u \<Rightarrow> Inr u)"

section \<open>The rate limiter\<close>

type_synonym windows = "(string \<times> (int \<times> fl)) list"

datatype rate_response = Pass | TooMany int

definition client_key :: "string option \<Rightarrow> string" where
  "client_key host = ''ip:'' @ (case host of None \<Rightarrow> ''unknown'' | Some h \<Rightarrow> h)"

definition fl_trunc :: "fl \<Rightarrow> int" where
  \<comment> \<open>\<open>int(x)\<close> of a finite double\<close>
  "fl_trunc x = (case x of Fin a \<Rightarrow> if 0 \<le> a then \<lfloor>a\<rfloor> else \<lceil>a\<rceil> | _ \<Rightarrow> 0)"

definition rate_limit :: "bool \<Rightarrow> int \<Rightarrow> string \<Rightarrow> fl \<Rightarrow> windows \<Rightarrow> rate_response \<times> windows" where
  "rate_limit rl_enabled limit key now counts =
     (if \<not> rl_enabled then (Pass, counts)
      else let (count, start) = dict_get counts key (0, Fin 0);
               (count, start) = (if \<not> fl_less (fl_sub now start) (Fin 60) then (0, now) else (count, start));
               count = count + 1;
               counts = dict_set key (count, start) counts
           in if limit < count
              then (TooMany (max 1 (fl_trunc (fl_sub (Fin 60) (fl_sub now start)))), counts)
              else (Pass, counts))"


section \<open>Passwords round trip\<close>

lemma hex_value_digit: "d < 16 \<Longrightarrow> hex_value (hex_digit d) = Some d \<and> \<not> hex_space (hex_digit d) \<and> hex_digit d \<noteq> CHR ''$''"
proof -
  assume d: "d < 16"
  then have c: "code_of (hex_digit d) = (if d < 10 then 48 + d else 87 + d)"
    by (simp add: hex_digit_def code_of_def char_at_def)
  moreover have "code_of CHR ''$'' = 36" by (simp add: code_of_def)
  ultimately have "hex_digit d \<noteq> CHR ''$''" by (auto split: if_splits)
  with c d show ?thesis by (auto simp: hex_value_def hex_space_def)
qed

lemma byte_nibbles: "unat (b :: 8 word) div 16 < 16" "unat b mod 16 < 16"
  using unsigned_less [of b, where ?'a = nat] by (simp_all add: less_mult_imp_div_less)

lemma fromhex_hex: "fromhex (hex bs) = Inr bs"
proof (induction bs)
  case (Cons b bs)
  have "of_nat (16 * (unat b div 16) + unat b mod 16) = b" by simp
  with Cons hex_value_digit [OF byte_nibbles(1) [of b]] hex_value_digit [OF byte_nibbles(2) [of b]]
  show ?case by (simp add: hex_def byte_hex_def)
qed (simp add: hex_def)

lemma hex_no_dollar: "CHR ''$'' \<notin> set (hex bs)"
proof
  assume "CHR ''$'' \<in> set (hex bs)"
  then obtain b where "CHR ''$'' \<in> set (byte_hex b)" by (auto simp: hex_def)
  then show False using hex_value_digit [OF byte_nibbles(1) [of b]] hex_value_digit [OF byte_nibbles(2) [of b]]
    by (auto simp: byte_hex_def)
qed

lemma split_hash:
  "split_on CHR ''$'' (hash_password kdf salt p) =
     [''pbkdf2_sha256'', ''310000'', hex salt, hex (kdf p salt PBKDF2_ITERATIONS)]"
proof -
  have "str_of_int PBKDF2_ITERATIONS = ''310000''" by code_simp
  then have "hash_password kdf salt p =
      ''pbkdf2_sha256'' @ CHR ''$'' # ''310000'' @ CHR ''$'' # hex salt @ CHR ''$'' # hex (kdf p salt PBKDF2_ITERATIONS)"
    by (simp add: hash_password_def)
  moreover have "CHR ''$'' \<notin> set ''pbkdf2_sha256''" "CHR ''$'' \<notin> set ''310000''" by simp_all
  ultimately show ?thesis
    by (simp only: split_on_append split_on_plain hex_no_dollar not_False_eq_True)
qed

lemma verify_hash: "verify_password kdf q (hash_password kdf salt p) =
    Inr (kdf q salt PBKDF2_ITERATIONS = kdf p salt PBKDF2_ITERATIONS)"
proof -
  have "py_int (py_strip ''310000'') = Inr PBKDF2_ITERATIONS" by code_simp
  then show ?thesis unfolding verify_password_def split_hash by (simp add: fromhex_hex PBKDF2_ITERATIONS_def)
qed

text \<open>
  A stored password hash verifies the password it was made from, whatever the
  salt and the derived key, and any other password exactly when the key derivation function
  maps both to the same key under that salt.
\<close>
theorem password_round_trip:
  "verify_password kdf p (hash_password kdf salt p) = Inr True \<and>
   verify_password kdf q (hash_password kdf salt p) =
     Inr (kdf q salt PBKDF2_ITERATIONS = kdf p salt PBKDF2_ITERATIONS)"
  by (simp add: verify_hash)

section \<open>Authorisation\<close>

lemma resolve_permissions_mem:
  "resolve_permissions rs codes = Inr ps \<Longrightarrow>
   p \<in> set ps \<longleftrightarrow> (\<exists>c r. PStr c \<in> set codes \<and> role_get_by_code rs c = Some r \<and> p \<in> set (ro_permissions r))"
proof (induction codes arbitrary: ps)
  case (Cons c codes)
  then obtain qs where "resolve_permissions rs codes = Inr qs"
    and ps: "ps = (case c of PStr code \<Rightarrow> (case role_get_by_code rs code of None \<Rightarrow> [] | Some r \<Rightarrow> ro_permissions r) | _ \<Rightarrow> []) @ qs"
    by (auto simp: bindr_eq_Inr split: if_splits)
  with Cons.IH [of qs] show ?case by (cases c) (auto split: option.splits)
qed simp

lemma py_eq_text: "py_eq v (PStr t) \<Longrightarrow> v = PStr t"
  by (cases v) (auto simp: num_eq_def)

lemma unauthorized_Inr [simp]: "unauthorized m = Inr c \<longleftrightarrow> m = Inr c"
  by (auto simp: unauthorized_def split: sum.splits exn.splits)

text \<open>
  Property C19: where authentication is required, a request passes a permission check only
  with a bearer token that verifies, is an access token, and names a role which the role
  repository at that moment grants the permission; a request that presents a bearer token is
  held to the same standard where authentication is not required.
\<close>
theorem authorization_sound:
  assumes "authorize decode settings rs now code header = Inr pr"
    and "auth_required settings \<or> bearer_token header \<noteq> None"
  shows "\<exists>token claims codes c r. bearer_token header = Some token \<and>
     decode now token (jwt_secret settings) (jwt_algorithm settings) = Inr claims \<and>
     get_none claims ''type'' = PStr ''access'' \<and>
     py_iter (dict_get claims ''roles'' (PList [])) = Inr codes \<and>
     PStr c \<in> set codes \<and> role_get_by_code rs c = Some r \<and> code \<in> set (ro_permissions r)"
proof -
  obtain pr0 where gp: "get_current_principal decode settings rs now header = Inr pr0"
    and rp: "require_permission settings code pr0 = Inr pr"
    using assms(1) by (auto simp: authorize_def bindr_eq_Inr)
  obtain token where tok: "bearer_token header = Some token"
    using gp assms(2) by (cases "bearer_token header") (auto simp: get_current_principal_def split: if_splits)
  obtain claims sub codes ps where
    d: "decode_token decode now token (jwt_secret settings) (jwt_algorithm settings) (Some ''access'') = Inr claims"
    and c: "py_iter (dict_get claims ''roles'' (PList [])) = Inr codes"
    and ps: "resolve_permissions rs codes = Inr ps"
    and pr0: "pr0 = \<lparr>pr_subject = sub, pr_roles = codes, pr_permissions = ps, pr_auth_method = ''jwt'', pr_is_authenticated = True\<rparr>"
    using gp tok by (auto simp: get_current_principal_def bindr_eq_Inr)
  have "decode now token (jwt_secret settings) (jwt_algorithm settings) = Inr claims"
    and "get_none claims ''type'' = PStr ''access''"
    using d py_eq_text [of "get_none claims ''type''" "''access''"]
    by (auto simp: decode_token_def bindr_eq_Inr split: if_splits)
  moreover have "code \<in> set ps" using rp pr0 by (auto simp: require_permission_def split: if_splits)
  ultimately show ?thesis using tok c resolve_permissions_mem [OF ps, of code] by blast
qed

definition w_settings :: "bool \<Rightarrow> auth_settings" where
  "w_settings req = \<lparr>jwt_secret = ''s'', jwt_algorithm = ''HS256'', jwt_access_token_minutes = 15,
     jwt_refresh_token_days = 7, auth_required = req\<rparr>"

lemma authorization_sound_witness:
  "\<exists>c r. role_get_by_code default_role_store c = Some r \<and> ''rules:publish'' \<in> set (ro_permissions r)"
proof -
  let ?decode = "\<lambda>_ _ _ _. Inr (access_claims ''u1'' [''policy_admin''] ''j'' 0 15)"
  have "is_ok (authorize ?decode (w_settings True) default_role_store 0 ''rules:publish'' (Some ''Bearer t''))"
    by code_simp
  then obtain pr where "authorize ?decode (w_settings True) default_role_store 0 ''rules:publish'' (Some ''Bearer t'') = Inr pr"
    by (auto simp: is_ok_iff)
  from authorization_sound [OF this] show ?thesis by (auto simp: w_settings_def)
qed

text \<open>
  A refresh token is not accepted where an access token is expected, nor the
  other way round: with a JWT library that returns the claims a token was made with, a
  refresh token presented as bearer is answered with 401, whatever the settings, and an
  access token is refused by the refresh endpoint.
\<close>
theorem token_types_are_not_interchangeable:
  assumes refresh: "decode now (create_refresh_token encode sub (jwt_secret s) (jwt_algorithm s) jti t days)
      (jwt_secret s) (jwt_algorithm s) = Inr (refresh_claims sub jti t days)"
    and access: "decode now (create_access_token encode sub rls (jwt_secret s) (jwt_algorithm s) jti t mins)
      (jwt_secret s) (jwt_algorithm s) = Inr (access_claims sub rls jti t mins)"
    and header: "bearer_token header = Some (create_refresh_token encode sub (jwt_secret s) (jwt_algorithm s) jti t days)"
  shows "(\<exists>msg. authorize decode s rs now code header = Inl (HTTPException 401 msg)) \<and>
    (\<exists>msg. refresh_endpoint encode decode s j1 j2 now st
       (create_access_token encode sub rls (jwt_secret s) (jwt_algorithm s) jti t mins) = Inl (HTTPException 401 msg))"
  using assms
  by (simp add: authorize_def get_current_principal_def refresh_endpoint_def decode_token_def unauthorized_def
      refresh_claims_def access_claims_def get_none_def dict_get_simps)

lemma token_types_are_not_interchangeable_witness:
  "\<exists>decode encode msg. authorize decode (w_settings False) default_role_store 0 ''rules:read''
     (Some (''Bearer '' @ create_refresh_token encode ''u1'' ''s'' ''HS256'' ''j'' 0 7)) = Inl (HTTPException 401 msg)"
proof -
  let ?encode = "\<lambda>claims _ _. if dict_in ''roles'' claims then ''A'' else ''R''"
  let ?decode = "\<lambda>_ tok _ _. Inr (if tok = ''A'' then access_claims ''u1'' [''admin''] ''j'' 0 15 else refresh_claims ''u1'' ''j'' 0 7)"
  have r: "?decode 0 (create_refresh_token ?encode ''u1'' (jwt_secret (w_settings False)) (jwt_algorithm (w_settings False)) ''j'' 0 7)
      (jwt_secret (w_settings False)) (jwt_algorithm (w_settings False)) = Inr (refresh_claims ''u1'' ''j'' 0 7)"
    by (simp add: create_refresh_token_def refresh_claims_def dict_in_def)
  have a: "?decode 0 (create_access_token ?encode ''u1'' [''admin''] (jwt_secret (w_settings False)) (jwt_algorithm (w_settings False)) ''j'' 0 15)
      (jwt_secret (w_settings False)) (jwt_algorithm (w_settings False)) = Inr (access_claims ''u1'' [''admin''] ''j'' 0 15)"
    by (simp add: create_access_token_def access_claims_def dict_in_def)
  have "create_refresh_token ?encode ''u1'' ''s'' ''HS256'' ''j'' 0 7 = ''R''"
    by (simp add: create_refresh_token_def refresh_claims_def dict_in_def)
  moreover have "bearer_token (Some (''Bearer '' @ ''R'')) = Some ''R''" by code_simp
  ultimately have h: "bearer_token (Some (''Bearer '' @ create_refresh_token ?encode ''u1'' ''s'' ''HS256'' ''j'' 0 7)) =
      Some (create_refresh_token ?encode ''u1'' (jwt_secret (w_settings False)) (jwt_algorithm (w_settings False)) ''j'' 0 7)"
    by (simp add: w_settings_def)
  from token_types_are_not_interchangeable [where decode = ?decode and encode = ?encode, OF r a h]
  show ?thesis by blast
qed

text \<open>
  Among the seeded roles exactly the administrator and the policy admin may
  publish, activate, roll back or delete rule packs; editors may edit but none of these;
  every permission a seeded role grants is in the permission catalogue, and the
  administrator holds the whole catalogue.
\<close>
theorem seeded_roles_separate_duties:
  "list_all (\<lambda>p. map ro_code (filter (\<lambda>r. p \<in> set (ro_permissions r)) default_roles) = [''admin'', ''policy_admin''])
     [''rules:publish'', ''rules:activate'', ''rules:rollback'', ''rules:delete''] \<and>
   list_all (\<lambda>r. set (ro_permissions r) \<subseteq> set permission_catalog) default_roles \<and>
   (\<exists>r. role_get_by_code default_role_store ''admin'' = Some r \<and> set (ro_permissions r) = set permission_catalog) \<and>
   map ro_code (filter (\<lambda>r. ''rules:edit'' \<in> set (ro_permissions r)) default_roles) = [''admin'', ''editor'', ''policy_admin'']"
proof (intro conjI)
  have "role_get_by_code default_role_store ''admin'' =
      Some (mk_role ''admin'' ''Administrator'' all_permissions
        ''Full access, including user/role management and rule-pack policy admin.'')" by code_simp
  moreover have "set all_permissions = set permission_catalog" by code_simp
  ultimately show "\<exists>r. role_get_by_code default_role_store ''admin'' = Some r \<and> set (ro_permissions r) = set permission_catalog"
    by (simp add: mk_role_def)
qed code_simp+


section \<open>Registration and login\<close>

lemma lower_char_idem [simp]: "lower_char (lower_char c) = lower_char c"
  by (auto simp: lower_char_def code_of_def char_at_def)

lemma py_lower_idem [simp]: "py_lower (py_lower s) = py_lower s"
  by (simp add: py_lower_def comp_def)

lemma register_user_Inr:
  assumes "register_user kdf salt fresh now rs st email password name rls = Inr (u, st')"
  shows "u_id u = fresh" "u_email u = py_lower (py_strip email)" "u_is_active u" "st' = user_save u st"
    and "u_hashed_password u = hash_password kdf salt password"
    and "u_roles u = (case rls of None \<Rightarrow> [''viewer''] | Some r \<Rightarrow> if r = [] then [''viewer''] else r)"
    and "user_get_by_email st (py_lower (py_strip email)) = None"
    and "\<forall>c \<in> set (u_roles u). role_get_by_code rs c \<noteq> None"
  using assms
  by (auto simp: register_user_def known_roles_def Let_def bindr_eq_Inr filter_empty_conv
      split: if_splits list.splits)

text \<open>
  A registered user can log in at once with the same password, under the
  address in any letter case and with surrounding blanks; no second account can be
  registered for that address; and the account has exactly the roles asked for, viewer when
  none are, each of them a known role.
\<close>
theorem registration_then_login:
  assumes reg: "register_user kdf salt fresh now rs st email password name rls = Inr (u, st')"
    and "fresh \<noteq> []" and same: "py_lower (py_strip email2) = py_lower (py_strip email)"
  shows "(\<exists>st''. authenticate_user kdf later st' email2 password = Inr (u\<lparr>u_last_login_at := Some later\<rparr>, st'')) \<and>
    \<not> is_ok (register_user kdf salt2 fresh2 later rs st' email2 password2 name2 rls2) \<and>
    u_roles u = (case rls of None \<Rightarrow> [''viewer''] | Some r \<Rightarrow> if r = [] then [''viewer''] else r) \<and>
    (\<forall>c \<in> set (u_roles u). role_get_by_code rs c \<noteq> None)"
proof -
  note r = register_user_Inr [OF reg]
  have get: "user_get_by_email st' (py_lower (py_strip email2)) = Some u"
    using r(1,2,4) assms(2) same by (simp add: user_get_by_email_save)
  then have "authenticate_user kdf later st' email2 password =
      Inr (u\<lparr>u_last_login_at := Some later\<rparr>, user_save (u\<lparr>u_last_login_at := Some later\<rparr>) st')"
    using r(3,5) by (simp add: authenticate_user_def verify_hash Let_def)
  moreover have "\<not> is_ok (register_user kdf salt2 fresh2 later rs st' email2 password2 name2 rls2)"
    using get by (auto simp: register_user_def Let_def)
  ultimately show ?thesis using r(6,8) by blast
qed

lemma registration_then_login_witness:
  "\<exists>u st' st''. register_user (\<lambda>p _ _. []) [] ''u1'' 0 default_role_store
       \<lparr>users_by_id = [], users_by_email = []\<rparr> '' Kim@Noc.example '' ''correct horse'' ''Kim'' (Some [''admin'']) = Inr (u, st') \<and>
     u_roles u = [''admin''] \<and>
     authenticate_user (\<lambda>p _ _. []) 5 st' ''KIM@noc.example'' ''correct horse'' = Inr (u\<lparr>u_last_login_at := Some 5\<rparr>, st'')"
proof -
  let ?reg = "register_user (\<lambda>p _ _. []) [] ''u1'' 0 default_role_store
       \<lparr>users_by_id = [], users_by_email = []\<rparr> '' Kim@Noc.example '' ''correct horse'' ''Kim'' (Some [''admin''])"
  have "is_ok ?reg" by code_simp
  then obtain u st' where r: "?reg = Inr (u, st')" by (auto simp: is_ok_iff)
  have "py_lower (py_strip ''KIM@noc.example'') = py_lower (py_strip '' Kim@Noc.example '')" by code_simp
  from registration_then_login [OF r _ this, of 5] show ?thesis using r by auto
qed

section \<open>The rate limit\<close>

definition in_window :: "windows \<Rightarrow> string \<Rightarrow> fl \<Rightarrow> bool" where
  "in_window w k t = fl_less (fl_sub t (snd (dict_get w k (0, Fin 0)))) (Fin 60)"

fun requests_of :: "int \<Rightarrow> (string \<times> fl) list \<Rightarrow> windows \<Rightarrow> rate_response list \<times> windows" where
  \<comment> \<open>the responses to a sequence of requests\<close>
  "requests_of limit [] w = ([], w)"
| "requests_of limit ((k, t) # rs) w =
     (case rate_limit True limit k t w of (a, w') \<Rightarrow> (case requests_of limit rs w' of (as, w'') \<Rightarrow> (a # as, w'')))"

lemma rate_limit_in_window:
  assumes "in_window w k t"
  shows "rate_limit True limit k t w =
    (if limit < fst (dict_get w k (0, Fin 0)) + 1
     then TooMany (max 1 (fl_trunc (fl_sub (Fin 60) (fl_sub t (snd (dict_get w k (0, Fin 0))))))) else Pass,
     dict_set k (fst (dict_get w k (0, Fin 0)) + 1, snd (dict_get w k (0, Fin 0))) w)"
  using assms by (simp add: rate_limit_def in_window_def Let_def split_beta)

lemma rate_limit_new_window:
  assumes "\<not> in_window w k t"
  shows "rate_limit True limit k t w =
    (if limit < 1 then TooMany (max 1 (fl_trunc (fl_sub (Fin 60) (fl_sub t t)))) else Pass, dict_set k (1, t) w)"
  using assms by (simp add: rate_limit_def in_window_def Let_def split_beta)

lemma window_count:
  assumes "list_all (in_window w k) ts"
  shows "length (filter (\<lambda>a. a = Pass) (fst (requests_of limit (map (\<lambda>t. (k, t)) ts) w))) =
      nat (min (int (length ts)) (max 0 (limit - fst (dict_get w k (0, Fin 0)))))"
  using assms
proof (induction ts arbitrary: w)
  case (Cons t ts)
  let ?n = "fst (dict_get w k (0, Fin 0))" and ?s = "snd (dict_get w k (0, Fin 0))"
  let ?w = "dict_set k (?n + 1, ?s) w"
  have step: "rate_limit True limit k t w =
      (if limit < ?n + 1 then TooMany (max 1 (fl_trunc (fl_sub (Fin 60) (fl_sub t ?s)))) else Pass, ?w)"
    using Cons.prems by (simp add: rate_limit_in_window)
  have "in_window ?w k = in_window w k" by (rule ext) (simp add: in_window_def dict_get_set)
  then have "list_all (in_window ?w k) ts" using Cons.prems by simp
  note ih = Cons.IH [OF this]
  show ?case
    using step ih by (auto simp: dict_get_set split_beta min_def max_def nat_add_distrib)
qed simp

text \<open>
  Property C38: within one window a client gets at most the configured number of requests
  through: of any number of requests that arrive while the window is open, exactly the first
  ones up to the limit pass, counting those already made; the first request after the window
  has closed opens a new one, and one client's requests leave every other client's window
  alone.
\<close>
theorem rate_limit_window:
  "(list_all (in_window w k) ts \<longrightarrow>
     length (filter (\<lambda>a. a = Pass) (fst (requests_of limit (map (\<lambda>t. (k, t)) ts) w))) =
       nat (min (int (length ts)) (max 0 (limit - fst (dict_get w k (0, Fin 0)))))) \<and>
   (\<not> in_window w k t \<longrightarrow> dict_get (snd (rate_limit True limit k t w)) k (0, Fin 0) = (1, t)) \<and>
   (k' \<noteq> k \<longrightarrow> dict_get (snd (rate_limit True limit k t w)) k' (0, Fin 0) = dict_get w k' (0, Fin 0))"
proof (intro conjI impI)
  assume "list_all (in_window w k) ts"
  then show "length (filter (\<lambda>a. a = Pass) (fst (requests_of limit (map (\<lambda>t. (k, t)) ts) w))) =
       nat (min (int (length ts)) (max 0 (limit - fst (dict_get w k (0, Fin 0)))))" by (rule window_count)
next
  assume "\<not> in_window w k t"
  then show "dict_get (snd (rate_limit True limit k t w)) k (0, Fin 0) = (1, t)"
    by (simp add: rate_limit_new_window dict_get_set)
next
  assume "k' \<noteq> k"
  then show "dict_get (snd (rate_limit True limit k t w)) k' (0, Fin 0) = dict_get w k' (0, Fin 0)"
    by (cases "in_window w k t") (simp_all add: rate_limit_in_window rate_limit_new_window dict_get_set)
qed

lemma rate_limit_window_witness:
  "length (filter (\<lambda>a. a = Pass) (fst (requests_of 2
     (map (\<lambda>t. (''ip:10.0.0.1'', t)) [Fin 1, Fin 2, Fin 3]) []))) = 2"
proof -
  have "list_all (in_window [] ''ip:10.0.0.1'') [Fin 1, Fin 2, Fin 3]" by code_simp
  with rate_limit_window [of "[]" "''ip:10.0.0.1''" "[Fin 1, Fin 2, Fin 3]" 2] show ?thesis
    by (simp add: dict_get_simps)
qed

end
