(* ===== verification/Uuid.thy ===== *)
theory Uuid
  imports Security
begin

text \<open>
  The identifiers of the relational backend: a UUID is a 128-bit integer, written and read as
  Python's \<open>uuid\<close> module does (\<open>_to_uuid\<close> and the \<open>str(row.id)\<close> of
  \<open>app/infrastructure/db/mappers.py\<close>).
\<close>

type_synonym uuid = "128 word"

section \<open>Writing\<close>

definition hex_digits :: "nat \<Rightarrow> nat \<Rightarrow> string" where
  \<comment> \<open>the \<open>k\<close> last hexadecimal digits, as \<open>'%0kx'\<close> writes a number that has no more\<close>
  "hex_digits k n = map (\<lambda>j. hex_digit (n div 16 ^ j mod 16)) (rev [0..<k])"

definition uuid_str :: "uuid \<Rightarrow> string" where
  "uuid_str u =
     (let h = hex_digits 32 (unat u) in
      take 8 h @ ''-'' @ take 4 (drop 8 h) @ ''-'' @ take 4 (drop 12 h) @ ''-'' @ take 4 (drop 16 h) @ ''-'' @ drop 20 h)"

section \<open>Reading\<close>

text \<open>\<open>s.replace(sub, "")\<close> for a text \<open>sub\<close> that is not empty.\<close>

function remove_text :: "string \<Rightarrow> string \<Rightarrow> string" where
  "remove_text sub [] = []"
| "remove_text sub (c # s) =
     (if sub \<noteq> [] \<and> prefix sub (c # s) then remove_text sub (drop (length sub) (c # s)) else c # remove_text sub s)"
  by pat_completeness auto
termination
  by (relation "measure (\<lambda>(sub, s). length s)") (auto simp: neq_Nil_conv)

definition strip_braces :: "string \<Rightarrow> string" where
  "strip_braces s =
     (let brace = (\<lambda>c. c = CHR ''{'' \<or> c = CHR ''}'') in rev (dropWhile brace (rev (dropWhile brace s))))"

definition hex_number :: "string \<Rightarrow> int" where
  "hex_number s = foldl (\<lambda>a c. 16 * a + (case hex_value c of None \<Rightarrow> 0 | Some d \<Rightarrow> int d)) 0 s"

definition py_int16 :: "string \<Rightarrow> int res" where
  \<comment> \<open>\<open>int(s, 16)\<close>: white space around, a sign, a prefix \<open>0x\<close>, single underscores between digits\<close>
  "py_int16 s =
     (let t = py_strip s;
          (neg, b) = (case t of
             c # r \<Rightarrow> if c = CHR ''-'' then (True, r) else if c = CHR ''+'' then (False, r) else (False, t)
           | [] \<Rightarrow> (False, t));
          d = (if prefix ''0x'' (py_lower b) then (if prefix ''_'' (drop 2 b) then drop 3 b else drop 2 b) else b)
      in if list_all (\<lambda>g. g \<noteq> [] \<and> list_all (\<lambda>c. hex_value c \<noteq> None) g) (split_on CHR ''_'' d)
         then Inr (if neg then - hex_number (filter (\<lambda>c. c \<noteq> CHR ''_'') d) else hex_number (filter (\<lambda>c. c \<noteq> CHR ''_'') d))
         else Inl (ValueError (''invalid literal for int() with base 16: '' @ str_repr s)))"

definition uuid_parse :: "string \<Rightarrow> uuid res" where
  \<comment> \<open>\<open>uuid.UUID(text)\<close>\<close>
  "uuid_parse s =
     (let h = filter (\<lambda>c. c \<noteq> CHR ''-'') (strip_braces (remove_text ''uuid:'' (remove_text ''urn:'' s))) in
      if length h \<noteq> 32 then Inl (ValueError ''badly formed hexadecimal UUID string'')
      else bindr (py_int16 h) (\<lambda>i.
        if 0 \<le> i \<and> i < 2 ^ 128 then Inr (of_int i) else Inl (ValueError ''int is out of range (need a 128-bit value)'')))"

definition to_uuid :: "string option \<Rightarrow> uuid option res" where
  "to_uuid v = (case v of None \<Rightarrow> Inr None | Some s \<Rightarrow> bindr (uuid_parse s) (\<lambda>u. Inr (Some u)))"

definition uuid_opt_str :: "uuid option \<Rightarrow> string" where
  \<comment> \<open>\<open>str(row.id)\<close>\<close>
  "uuid_opt_str v = (case v of None \<Rightarrow> ''None'' | Some u \<Rightarrow> uuid_str u)"

section \<open>What is written is read back\<close>

lemma hex_digits_Suc: "hex_digits (Suc k) n = hex_digit (n div 16 ^ k mod 16) # hex_digits k n"
  by (simp add: hex_digits_def)

lemma length_hex_digits [simp]: "length (hex_digits k n) = k"
  by (simp add: hex_digits_def)

lemma hex_digit_value: "d < 16 \<Longrightarrow> hex_value (hex_digit d) = Some d"
  using hex_value_digit by simp

lemma hex_number_digits:
  "foldl (\<lambda>a c. 16 * a + (case hex_value c of None \<Rightarrow> 0 | Some d \<Rightarrow> int d)) a (hex_digits k n) =
     a * 16 ^ k + int (n mod 16 ^ k)"
proof (induction k arbitrary: a)
  case (Suc k)
  have "n mod 16 ^ Suc k = 16 ^ k * (n div 16 ^ k mod 16) + n mod 16 ^ k"
    by (metis mod_mult2_eq mult.commute power_Suc)
  then show ?case using Suc by (simp add: hex_digits_Suc hex_digit_value algebra_simps)
qed (simp add: hex_digits_def)

definition hex_char :: "char \<Rightarrow> bool" where
  "hex_char c = (48 \<le> code_of c \<and> code_of c \<le> 57 \<or> 97 \<le> code_of c \<and> code_of c \<le> 102)"

lemma hex_char_digit: "d < 16 \<Longrightarrow> hex_char (hex_digit d)"
  by (auto simp: hex_char_def hex_digit_def code_of_def char_at_def)

lemma hex_charD:
  assumes "hex_char c"
  shows "hex_value c \<noteq> None" "\<not> is_space c" "lower_char c \<noteq> CHR ''x''"
    "c \<noteq> CHR ''-''" "c \<noteq> CHR ''_''" "c \<noteq> CHR '':''" "c \<noteq> CHR ''{''" "c \<noteq> CHR ''}''" "c \<noteq> CHR ''+''"
  using assms by (auto simp: hex_char_def hex_value_def is_space_def lower_char_def code_of_def Let_def)

lemma hex_digits_chars: "list_all hex_char (hex_digits k n)"
  by (auto simp: hex_digits_def list_all_iff hex_char_digit)

lemma remove_absent: "x \<in> set sub \<Longrightarrow> x \<notin> set s \<Longrightarrow> remove_text sub s = s"
proof (induction sub s rule: remove_text.induct)
  case (2 sub c s)
  then have "\<not> prefix sub (c # s)" by (meson set_mono_prefix subset_iff)
  then show ?case using 2 by simp
qed simp

lemma strip_id:
  assumes "s \<noteq> []" and "\<not> P (hd s)" and "\<not> P (last s)"
  shows "rev (dropWhile P (rev (dropWhile P s))) = s"
proof -
  have "dropWhile P s = s" using assms(1,2) by (cases s) simp_all
  moreover have "dropWhile P (rev s) = rev s" using assms(1,3) by (cases s rule: rev_cases) simp_all
  ultimately show ?thesis by simp
qed

lemma py_int16_plain:
  assumes "list_all hex_char h" and "length h = 32"
  shows "py_int16 h = Inr (hex_number h)"
proof -
  have c: "c \<in> set h \<Longrightarrow> hex_char c" for c using assms(1) by (simp add: list_all_iff)
  obtain a r where h1: "h = a # r" and lr: "length r = 31" using assms(2) by (cases h) auto
  obtain b q where "r = b # q" using lr by (cases r) auto
  with h1 have h: "h = a # b # q" by simp
  have in_h: "hex_char a" "hex_char b" "hex_char (hd h)" "hex_char (last h)" using c h by auto
  then have st: "py_strip h = h" unfolding py_strip_def using h hex_charD(2) by (intro strip_id) auto
  have px: "\<not> prefix ''0x'' (py_lower h)" using hex_charD(3) [OF in_h(2)] by (simp add: h py_lower_def)
  have "CHR ''_'' \<notin> set h" using c hex_charD(5) by blast
  then have "split_on CHR ''_'' h = [h]" "filter (\<lambda>c. c \<noteq> CHR ''_'') h = h"
    by (auto intro!: split_on_plain filter_True)
  moreover have "list_all (\<lambda>c. hex_value c \<noteq> None) h" using c hex_charD(1) by (auto simp: list_all_iff)
  moreover have "a \<noteq> CHR ''-''" "a \<noteq> CHR ''+''" using hex_charD(4,9) [OF in_h(1)] by simp_all
  ultimately show ?thesis using st px h1 unfolding py_int16_def Let_def by simp
qed

lemma take_drop_split: "take n (drop m xs) @ drop (n + m) xs = drop m xs"
  by (metis append_take_drop_id drop_drop)

lemma uuid_parse_str [simp]: "uuid_parse (uuid_str u) = Inr u"
proof -
  let ?h = "hex_digits 32 (unat u)"
  have chars: "c \<in> set ?h \<Longrightarrow> hex_char c" for c using hex_digits_chars [of 32 "unat u"] by (simp add: list_all_iff)
  have sub: "set (uuid_str u) \<subseteq> set ?h \<union> {CHR ''-''}"
    by (auto simp: uuid_str_def Let_def dest: in_set_takeD in_set_dropD)
  have "CHR '':'' \<notin> set (uuid_str u)" using sub chars hex_charD(6) by blast
  then have rem: "remove_text ''uuid:'' (uuid_str u) = uuid_str u" "remove_text ''urn:'' (uuid_str u) = uuid_str u"
    by (auto intro!: remove_absent [of "CHR '':''"])
  have len: "?h \<noteq> []" "length ?h = 32" by (metis length_0_conv length_hex_digits zero_neq_numeral, simp)
  have "hd (uuid_str u) = hd ?h" "last (uuid_str u) = last ?h" "uuid_str u \<noteq> []"
    using len by (simp_all add: uuid_str_def Let_def hd_append)
  then have "hex_char (hd (uuid_str u))" "hex_char (last (uuid_str u))" "uuid_str u \<noteq> []"
    using chars len by simp_all
  then have braces: "strip_braces (uuid_str u) = uuid_str u"
    unfolding strip_braces_def Let_def using hex_charD(7,8) by (intro strip_id) auto
  have keep: "filter (\<lambda>c. c \<noteq> CHR ''-'') xs = xs" if "set xs \<subseteq> set ?h" for xs
    using that chars hex_charD(4) by (intro filter_True) blast
  have "set (take n (drop m ?h)) \<subseteq> set ?h" for n m by (meson in_set_dropD in_set_takeD subsetI)
  then have "filter (\<lambda>c. c \<noteq> CHR ''-'') (uuid_str u) =
      take 8 ?h @ take 4 (drop 8 ?h) @ take 4 (drop 12 ?h) @ take 4 (drop 16 ?h) @ drop 20 ?h"
    using keep [of "take 8 ?h"] keep [of "drop 20 ?h"] keep by (simp add: uuid_str_def Let_def set_take_subset set_drop_subset)
  also have "\<dots> = ?h"
    using take_drop_split [of 4 16 ?h] take_drop_split [of 4 12 ?h] take_drop_split [of 4 8 ?h] by simp
  finally have digits: "filter (\<lambda>c. c \<noteq> CHR ''-'') (uuid_str u) = ?h" .
  have "unat u < 16 ^ 32" using unsigned_less [of u, where 'a = nat] by simp
  then have "hex_number ?h = uint u" using hex_number_digits [of 0 32 "unat u"] by (simp add: hex_number_def)
  moreover have "0 \<le> uint u" "uint u < 2 ^ 128" using unsigned_less [of u, where 'a = int] by simp_all
  ultimately show ?thesis
    using digits by (simp add: uuid_parse_def rem braces Let_def py_int16_plain [OF hex_digits_chars])
qed

lemma to_uuid_str [simp]: "to_uuid (Some (uuid_str u)) = Inr (Some u)" "to_uuid None = Inr None"
  by (simp_all add: to_uuid_def)

end
