(* ===== verification/Rule_Json.thy ===== *)
theory Rule_Json
  imports Rule_Model
begin

text \<open>
  Rules as JSON documents (\<open>_rule_to_json\<close> and \<open>_rule_from_json\<close> of
  \<open>rule_pack_lifecycle.py\<close>, the seed parser of \<open>in_memory_rule_repository.py\<close>), the
  snapshot of a pack for the distributed cache (\<open>rule_snapshot.py\<close>) and the structural
  validation of a pack (\<open>validate_rule_pack.py\<close>). Documents reach these functions from
  schema-validated requests or from the program's own serialisation; a field of another type
  than the entity declares is reported as \<open>TypeError\<close>, where Python would store it as it
  is.
\<close>

section \<open>Typed access to a document\<close>

definition as_str :: "val \<Rightarrow> string res" where
  "as_str v = (case v of PStr s \<Rightarrow> Inr s | _ \<Rightarrow> Inl TypeError)"

definition as_int :: "val \<Rightarrow> int res" where
  "as_int v = (case v of PInt i \<Rightarrow> Inr i | _ \<Rightarrow> Inl TypeError)"

definition as_bool :: "val \<Rightarrow> bool res" where
  "as_bool v = (case v of PBool b \<Rightarrow> Inr b | _ \<Rightarrow> Inl TypeError)"

definition as_dict :: "val \<Rightarrow> dict res" where
  "as_dict v = (case v of PDict d \<Rightarrow> Inr d | _ \<Rightarrow> Inl TypeError)"

definition as_strs :: "val \<Rightarrow> string list res" where
  "as_strs v = (case v of PList xs \<Rightarrow> mapr as_str xs | _ \<Rightarrow> Inl TypeError)"

definition as_opt :: "(val \<Rightarrow> 'a res) \<Rightarrow> val \<Rightarrow> 'a option res" where
  "as_opt f v = (if v = PNone then Inr None else bindr (f v) (\<lambda>x. Inr (Some x)))"

definition opt_val :: "('a \<Rightarrow> val) \<Rightarrow> 'a option \<Rightarrow> val" where
  "opt_val f x = (case x of None \<Rightarrow> PNone | Some y \<Rightarrow> f y)"

lemma as_simps [simp]:
  "as_str (PStr s) = Inr s" "as_int (PInt i) = Inr i" "as_bool (PBool b) = Inr b" "as_dict (PDict d) = Inr d"
  "as_strs (PList (map PStr ss)) = Inr ss"
  "as_opt as_str (opt_val PStr so) = Inr so" "as_opt as_int (opt_val PInt io) = Inr io"
  "as_opt as_dict (opt_val PDict dopt) = Inr dopt"
  by (simp_all add: as_str_def as_int_def as_bool_def as_dict_def as_opt_def opt_val_def split: option.splits)
    (induction ss, simp_all add: as_strs_def as_str_def)

section \<open>Rules\<close>

definition rule_to_json :: "rule \<Rightarrow> dict" where
  "rule_to_json r =
     [(''id'', opt_val PStr (rule_id r)), (''ruleCode'', PStr (rule_code r)), (''name'', PStr (rule_name r)),
      (''description'', PStr (rule_description r)), (''family'', PStr (family r)), (''familyOrder'', PInt (family_order r)),
      (''priorityWeight'', PInt (priority_weight r)), (''severityBand'', opt_val PStr (severity_band r)),
      (''contributionScore'', opt_val PInt (contribution_score r)), (''conditions'', conditions r),
      (''exceptions'', opt_val (\<lambda>t. t) (exceptions r)), (''conflictGroup'', opt_val PStr (conflict_group r)),
      (''conflictsWith'', PList (map PStr (conflicts_with r))), (''isSuppressor'', PBool (is_suppressor r)),
      (''nonSuppressible'', PBool (non_suppressible r)), (''cooldownMinutes'', PInt (cooldown_minutes r)),
      (''actions'', PDict (actions r)), (''mitigations'', PDict (mitigations r)),
      (''sequencing'', opt_val PDict (sequencing r)), (''slaTarget'', opt_val PStr (sla_target r)),
      (''ruleStatus'', PStr (rule_status r)), (''enabled'', PBool (enabled r))]"

definition exceptions_of :: "dict \<Rightarrow> val option" where
  \<comment> \<open>\<open>RuleCondition(data["exceptions"]) if data.get("exceptions") else None\<close>\<close>
  "exceptions_of d = (let e = get_none d ''exceptions'' in if py_bool e then Some e else None)"

definition rule_from_json :: "dict \<Rightarrow> rule res" where
  "rule_from_json d =
     bindr (bindr (get_item d ''ruleCode'') as_str) (\<lambda>code.
     bindr (bindr (get_item d ''name'') as_str) (\<lambda>name.
     bindr (as_str (dict_get d ''description'' (PStr []))) (\<lambda>descr.
     bindr (as_str (dict_get d ''family'' (PStr ''OPERATIONAL_FEASIBILITY''))) (\<lambda>fam.
     bindr (as_int (dict_get d ''familyOrder'' (PInt 99))) (\<lambda>forder.
     bindr (as_int (dict_get d ''priorityWeight'' (PInt 50))) (\<lambda>weight.
     bindr (as_opt as_str (get_none d ''severityBand'')) (\<lambda>band.
     bindr (as_opt as_int (get_none d ''contributionScore'')) (\<lambda>score.
     bindr (get_item d ''conditions'') (\<lambda>conds.
     bindr (as_opt as_str (get_none d ''conflictGroup'')) (\<lambda>group.
     bindr (as_strs (dict_get d ''conflictsWith'' (PList []))) (\<lambda>cw.
     bindr (as_bool (dict_get d ''isSuppressor'' (PBool False))) (\<lambda>supp.
     bindr (as_bool (dict_get d ''nonSuppressible'' (PBool False))) (\<lambda>nonsupp.
     bindr (as_int (dict_get d ''cooldownMinutes'' (PInt 0))) (\<lambda>cool.
     bindr (as_dict (dict_get d ''actions'' (PDict []))) (\<lambda>acts.
     bindr (as_dict (dict_get d ''mitigations'' (PDict []))) (\<lambda>mits.
     bindr (as_opt as_dict (get_none d ''sequencing'')) (\<lambda>sq.
     bindr (as_opt as_str (get_none d ''slaTarget'')) (\<lambda>sla.
     bindr (as_str (dict_get d ''ruleStatus'' (PStr ''ACTIVE''))) (\<lambda>st.
     bindr (as_bool (dict_get d ''enabled'' (PBool True))) (\<lambda>en.
       Inr \<lparr>rule_code = code, rule_name = name, rule_description = descr, family = fam, family_order = forder,
         priority_weight = weight, severity_band = band, contribution_score = score, conditions = conds,
         exceptions = exceptions_of d, conflict_group = group, conflicts_with = cw, is_suppressor = supp,
         non_suppressible = nonsupp, cooldown_minutes = cool, actions = acts, mitigations = mits,
         sequencing = sq, sla_target = sla, rule_status = st, enabled = en, rule_id = None\<rparr>))))))))))))))))))))"

text \<open>
  The seed parser: like \<open>_rule_from_json\<close>, but the family, its order and the weight are
  required, and every rule is enabled.
\<close>

definition parse_seed_rule :: "dict \<Rightarrow> rule res" where
  "parse_seed_rule d =
     bindr (get_item d ''family'') (\<lambda>_. bindr (get_item d ''familyOrder'') (\<lambda>_. bindr (get_item d ''priorityWeight'') (\<lambda>_.
       bindr (rule_from_json (dict_set ''enabled'' (PBool True) d)) Inr)))"

text \<open>What a trip through a document makes of a rule: a new identity, no empty exceptions.\<close>

definition json_normal :: "rule \<Rightarrow> rule" where
  "json_normal r = r\<lparr>rule_id := None,
     exceptions := (case exceptions r of None \<Rightarrow> None | Some t \<Rightarrow> if py_bool t then Some t else None)\<rparr>"

lemma rule_json_get:
  "get_item (rule_to_json r) ''ruleCode'' = Inr (PStr (rule_code r))"
  "get_item (rule_to_json r) ''name'' = Inr (PStr (rule_name r))"
  "get_item (rule_to_json r) ''conditions'' = Inr (conditions r)"
  by (simp_all add: rule_to_json_def get_item_def)

lemma rule_from_to_json: "rule_from_json (rule_to_json r) = Inr (json_normal r)"
proof -
  have "exceptions_of (rule_to_json r) = (case exceptions r of None \<Rightarrow> None | Some t \<Rightarrow> if py_bool t then Some t else None)"
    by (simp add: exceptions_of_def rule_to_json_def get_none_def dict_get_def opt_val_def split: option.splits)
  then show ?thesis
    by (simp add: rule_from_json_def rule_json_get json_normal_def)
      (simp add: rule_to_json_def get_none_def dict_get_simps)
qed

text \<open>
  Reading back the JSON of a rule gives the rule, up to its id, which the reader
  drops, and an exceptions tree that is empty, which it reads as none.
\<close>
theorem rule_json_round_trip:
  "rule_from_json (rule_to_json r) = Inr (r\<lparr>rule_id := None,
     exceptions := (case exceptions r of None \<Rightarrow> None | Some t \<Rightarrow> if py_bool t then Some t else None)\<rparr>)"
  by (simp add: rule_from_to_json json_normal_def)

lemma json_normal_idem [simp]: "json_normal (json_normal r) = json_normal r"
  by (simp add: json_normal_def split: option.splits)

lemma json_normal_active [simp]: "is_active (json_normal r) = is_active r"
  by (simp add: json_normal_def is_active_def)

section \<open>Pack snapshots\<close>

text \<open>The snapshot document as a record; an ISO 8601 text stands for the instant it denotes.\<close>

record pack_snapshot =
  sn_id :: "string option"
  sn_name :: string
  sn_version :: int
  sn_status :: string
  sn_region :: "string option"
  sn_tenant_id :: "string option"
  sn_created_by :: string
  sn_parent_version :: "int option"
  sn_created_at :: "instant option"
  sn_activated_at :: "instant option"
  sn_rules :: "dict list"

definition rule_pack_to_snapshot :: "rule_pack \<Rightarrow> pack_snapshot" where
  "rule_pack_to_snapshot p =
     \<lparr>sn_id = pack_id p, sn_name = pack_name p, sn_version = version p, sn_status = status p, sn_region = region p,
      sn_tenant_id = tenant_id p, sn_created_by = created_by p, sn_parent_version = parent_version p,
      sn_created_at = created_at p, sn_activated_at = activated_at p, sn_rules = map rule_to_json (rules p)\<rparr>"

definition rule_pack_from_snapshot :: "pack_snapshot \<Rightarrow> rule_pack res" where
  "rule_pack_from_snapshot s =
     bindr (mapr rule_from_json (sn_rules s)) (\<lambda>rs.
       Inr \<lparr>pack_name = sn_name s, version = sn_version s, status = sn_status s, region = sn_region s, rules = rs,
         parent_version = sn_parent_version s, pack_id = sn_id s, tenant_id = sn_tenant_id s,
         created_by = sn_created_by s, created_at = sn_created_at s, activated_at = sn_activated_at s,
         deleted_at = None, lock_version = 1\<rparr>)"

lemma mapr_rule_json: "mapr rule_from_json (map rule_to_json rs) = Inr (map json_normal rs)"
  by (induction rs) (simp_all add: rule_from_to_json)


lemma snapshot_round_trip:
  "rule_pack_from_snapshot (rule_pack_to_snapshot p) =
     Inr (p\<lparr>rules := map json_normal (rules p), deleted_at := None, lock_version := 1\<rparr>)"
  by (simp add: rule_pack_from_snapshot_def rule_pack_to_snapshot_def mapr_rule_json)

end
