(* ===== verification/Db_Rows.thy ===== *)
theory Db_Rows
  imports Uuid Rule_Json
begin

text \<open>
  The rows of the relational backend (\<open>app/infrastructure/db/models.py\<close> and the mixins of
  \<open>base.py\<close>), one record per table with its columns in the order of the class, the columns
  of the mixins last. A column the constructor was not given is \<open>None\<close>; inserting the row
  fills those that declare a default. A JSON column holds the Python value it stands for, a
  time column an instant or, for rows written by hand, an ISO 8601 text.
\<close>

section \<open>Tables\<close>

datatype time_value = Stamp instant | IsoText string

record rule_row =
  rur_rule_set_id :: uuid
  rur_rule_code :: string
  rur_name :: string
  rur_description :: "string option"
  rur_priority_weight :: int
  rur_severity_band :: "string option"
  rur_contribution_score :: "int option"
  rur_family :: string
  rur_family_order :: int
  rur_conditions :: val
  rur_exceptions :: "val option"
  rur_conflict_group :: "string option"
  rur_conflicts_with :: "string list option"
  rur_is_suppressor :: bool
  rur_non_suppressible :: bool
  rur_cooldown_minutes :: int
  rur_actions :: "dict option"
  rur_mitigations :: "dict option"
  rur_sequencing :: "dict option"
  rur_sla_target :: "string option"
  rur_region :: "string option"
  rur_tenant_id :: "uuid option"
  rur_rule_status :: string
  rur_enabled :: bool
  rur_created_by :: "string option"
  rur_approved_by :: "string option"
  rur_id :: "uuid option"
  rur_created_at :: "time_value option"
  rur_updated_at :: "time_value option"
  rur_deleted_at :: "time_value option"
  rur_lock_version :: "int option"

record rule_set_row =
  rsr_name :: string
  rsr_version :: int
  rsr_status :: string
  rsr_region :: "string option"
  rsr_tenant_id :: "uuid option"
  rsr_parent_version_id :: "uuid option"
  rsr_created_by :: string
  rsr_activated_at :: "instant option"
  rsr_rules :: "rule_row list"
  rsr_id :: "uuid option"
  rsr_created_at :: "instant option"
  rsr_updated_at :: "instant option"
  rsr_deleted_at :: "instant option"
  rsr_lock_version :: int

record decision_row =
  der_incident_id :: string
  der_rule_set_name :: "string option"
  der_rule_set_version :: "int option"
  der_priority :: val
  der_risk_score :: "int option"
  der_risk_band :: "string option"
  der_decision :: "dict option"
  der_mitigations :: "dict option"
  der_execution_plan :: "plan_step list option"
  der_matched_rules :: "dict list option"
  der_rejected_rules :: "dict list option"
  der_suppressed_rules :: "suppression list option"
  der_compliance_constraints :: "constraint list option"
  der_confidence_score :: "fl option"
  der_degraded_context :: bool
  der_explanation :: string
  der_engine_version :: string
  der_resolved :: bool
  der_created_at :: time_value
  der_id :: "uuid option"

record manual_override_row =
  mor_decision_id :: string
  mor_operator :: string
  mor_original_decision :: dict
  mor_override_decision :: dict
  mor_reason :: string
  mor_created_at :: time_value
  mor_id :: "uuid option"

record escalation_policy_row =
  epr_severity_band :: string
  epr_levels :: "dict list"
  epr_id :: "uuid option"

record escalation_event_row =
  eer_decision_id :: string
  eer_level :: string
  eer_triggered_at :: time_value
  eer_acknowledged_at :: "time_value option"
  eer_acknowledged_by :: "string option"
  eer_id :: "uuid option"

record audit_log_row =
  alr_entity_type :: string
  alr_entity_id :: string
  alr_action :: string
  alr_actor :: string
  alr_before :: "dict option"
  alr_after :: "dict option"
  alr_ip_address :: "string option"
  alr_request_id :: "string option"
  alr_correlation_id :: "string option"
  alr_created_at :: instant
  alr_reason :: "string option"
  alr_id :: "uuid option"

record request_log_row =
  rlr_method :: string
  rlr_path :: string
  rlr_status_code :: int
  rlr_duration_ms :: fl
  rlr_request_id :: string
  rlr_correlation_id :: "string option"
  rlr_ip_address :: "string option"
  rlr_created_at :: instant
  rlr_id :: "uuid option"

record user_row =
  usr_email :: string
  usr_hashed_password :: string
  usr_full_name :: string
  usr_roles :: "string list option"
  usr_is_active :: bool
  usr_last_login_at :: "instant option"
  usr_id :: "uuid option"
  usr_created_at :: "instant option"
  usr_updated_at :: "instant option"
  usr_deleted_at :: "instant option"
  usr_lock_version :: "int option"

record role_row =
  ror_code :: string
  ror_name :: string
  ror_permissions :: "string list option"
  ror_description :: string
  ror_id :: "uuid option"
  ror_created_at :: "instant option"
  ror_updated_at :: "instant option"

record permission_row =
  per_code :: string
  per_description :: string
  per_id :: "uuid option"
  per_created_at :: "instant option"
  per_updated_at :: "instant option"

record api_key_row =
  akr_key_prefix :: string
  akr_hashed_key :: string
  akr_owner_user_id :: "uuid option"
  akr_name :: string
  akr_roles :: "string list option"
  akr_is_active :: bool
  akr_last_used_at :: "instant option"
  akr_expires_at :: "instant option"
  akr_id :: "uuid option"
  akr_created_at :: "instant option"
  akr_updated_at :: "instant option"

record incident_row =
  inr_incident_id :: string
  inr_payload :: "dict option"
  inr_enriched_context :: "dict option"
  inr_degraded_context :: bool
  inr_context_sources_total :: int
  inr_context_sources_degraded :: int
  inr_status :: string
  inr_region :: "string option"
  inr_tenant_id :: "uuid option"
  inr_created_at :: "instant option"

section \<open>Inserting\<close>

text \<open>
  The defaults of the columns: a fresh UUID for \<open>id\<close>, the current time for the two
  timestamps, 1 for the lock version, \<open>system\<close> for the author.
\<close>

definition or_default :: "'a \<Rightarrow> 'a option \<Rightarrow> 'a option" where
  "or_default d x = (case x of None \<Rightarrow> Some d | Some y \<Rightarrow> Some y)"

lemma or_default_simps [simp]: "or_default d None = Some d" "or_default d (Some x) = Some x"
  by (simp_all add: or_default_def)

definition insert_rule_row :: "uuid \<Rightarrow> instant \<Rightarrow> rule_row \<Rightarrow> rule_row" where
  "insert_rule_row f t r =
     r\<lparr>rur_created_by := or_default ''system'' (rur_created_by r), rur_id := or_default f (rur_id r),
       rur_created_at := or_default (Stamp t) (rur_created_at r), rur_updated_at := or_default (Stamp t) (rur_updated_at r),
       rur_lock_version := or_default 1 (rur_lock_version r)\<rparr>"

definition insert_user_row :: "uuid \<Rightarrow> instant \<Rightarrow> user_row \<Rightarrow> user_row" where
  "insert_user_row f t r =
     r\<lparr>usr_id := or_default f (usr_id r), usr_created_at := or_default t (usr_created_at r),
       usr_updated_at := or_default t (usr_updated_at r), usr_lock_version := or_default 1 (usr_lock_version r)\<rparr>"

definition insert_role_row :: "uuid \<Rightarrow> instant \<Rightarrow> role_row \<Rightarrow> role_row" where
  "insert_role_row f t r =
     r\<lparr>ror_id := or_default f (ror_id r), ror_created_at := or_default t (ror_created_at r),
       ror_updated_at := or_default t (ror_updated_at r)\<rparr>"

definition insert_permission_row :: "uuid \<Rightarrow> instant \<Rightarrow> permission_row \<Rightarrow> permission_row" where
  "insert_permission_row f t r =
     r\<lparr>per_id := or_default f (per_id r), per_created_at := or_default t (per_created_at r),
       per_updated_at := or_default t (per_updated_at r)\<rparr>"

definition insert_api_key_row :: "uuid \<Rightarrow> instant \<Rightarrow> api_key_row \<Rightarrow> api_key_row" where
  "insert_api_key_row f t r =
     r\<lparr>akr_id := or_default f (akr_id r), akr_created_at := or_default t (akr_created_at r),
       akr_updated_at := or_default t (akr_updated_at r)\<rparr>"

definition insert_decision_row :: "uuid \<Rightarrow> decision_row \<Rightarrow> decision_row" where
  "insert_decision_row f r = r\<lparr>der_id := or_default f (der_id r)\<rparr>"

definition insert_override_row :: "uuid \<Rightarrow> manual_override_row \<Rightarrow> manual_override_row" where
  "insert_override_row f r = r\<lparr>mor_id := or_default f (mor_id r)\<rparr>"

definition insert_event_row :: "uuid \<Rightarrow> escalation_event_row \<Rightarrow> escalation_event_row" where
  "insert_event_row f r = r\<lparr>eer_id := or_default f (eer_id r)\<rparr>"

definition insert_audit_row :: "uuid \<Rightarrow> audit_log_row \<Rightarrow> audit_log_row" where
  "insert_audit_row f r = r\<lparr>alr_id := or_default f (alr_id r)\<rparr>"

lemmas insert_defs = insert_rule_row_def insert_user_row_def insert_role_row_def insert_permission_row_def
  insert_api_key_row_def insert_decision_row_def insert_override_row_def insert_event_row_def insert_audit_row_def

end
