(* ===== verification/Validation.thy ===== *)
theory Validation
  imports Resolver_Properties
begin

text \<open>
  \<open>app/application/use_cases/validate_rule_pack.py\<close>: the structural check of a pack
  before it can be published. The findings carry what the error texts of the code
  interpolate.
\<close>

datatype finding =
    EmptyPack
  | MalformedConditions string exn
  | UnknownTarget string string
  | UnresolvedConflict string string string
  | MalformedPayload exn

text \<open>
  The text of an exception inside a message. The wording the interpreter gives to the
  exceptions it raises itself is not modelled.
\<close>

fun exn_text :: "exn \<Rightarrow> string" where
  "exn_text (ValueError s) = s"
| "exn_text (KeyError k) = quoted k"
| "exn_text (LookupError s) = s"
| "exn_text (RuntimeError s) = s"
| "exn_text (AIProviderError s) = s"
| "exn_text (DatabaseError s) = s"
| "exn_text (ConcurrentModificationError s) = s"
| "exn_text (JWTError s) = s"
| "exn_text (HTTPException n s) = str_of_int (int n) @ '': '' @ s"
| "exn_text _ = []"

fun finding_text :: "finding \<Rightarrow> string" where
  "finding_text EmptyPack = ''Rule pack has zero rules -- cannot activate an empty pack''"
| "finding_text (MalformedConditions c e) = c @ '' has a malformed conditions tree: '' @ exn_text e"
| "finding_text (UnknownTarget c other) =
     c @ '' declares conflictsWith '' @ quoted other @ '', which does not exist in this rule pack''"
| "finding_text (UnresolvedConflict c other g) =
     c @ '' and '' @ other @ '' share conflict_group '' @ quoted g @ '' and are declared as conflicting, but '' @
     ''neither is a suppressor nor non_suppressible -- resolution '' @
     ''would fall through to an unexplained weight/specificity tiebreak''"
| "finding_text (MalformedPayload e) = ''Malformed rule payload: '' @ exn_text e"

definition by_code :: "rule_pack \<Rightarrow> string \<Rightarrow> rule option" where
  \<comment> \<open>the dictionary keeps the last rule of a code\<close>
  "by_code p c = map_of (rev (map (\<lambda>r. (rule_code r, r)) (rules p))) c"

definition shares_group :: "rule \<Rightarrow> rule \<Rightarrow> bool" where
  "shares_group r other = (conflict_group r \<noteq> None \<and> conflict_group r \<noteq> Some [] \<and> conflict_group other = conflict_group r)"

definition either_resolves_it :: "rule \<Rightarrow> rule \<Rightarrow> bool" where
  "either_resolves_it r other = (non_suppressible r \<or> non_suppressible other \<or> is_suppressor r \<or> is_suppressor other)"

definition check_conflict :: "rule_pack \<Rightarrow> rule \<Rightarrow> string \<Rightarrow> finding list" where
  "check_conflict p r c =
     (case by_code p c of
        None \<Rightarrow> [UnknownTarget (rule_code r) c]
      | Some other \<Rightarrow>
          if shares_group r other \<and> \<not> either_resolves_it r other
          then [UnresolvedConflict (rule_code r) c (case conflict_group r of None \<Rightarrow> [] | Some g \<Rightarrow> g)]
          else [])"

definition check_rule :: "rule_pack \<Rightarrow> rule \<Rightarrow> finding list" where
  "check_rule p r =
     (case specificity (conditions r) of Inl e \<Rightarrow> [MalformedConditions (rule_code r) e] | Inr _ \<Rightarrow> []) @
     concat (map (check_conflict p r) (conflicts_with r))"

definition validate_rule_pack :: "rule_pack \<Rightarrow> finding list" where
  "validate_rule_pack p =
     (if rules p = [] then [EmptyPack] else []) @ concat (map (check_rule p) (rules p))"

definition is_valid :: "rule_pack \<Rightarrow> bool" where
  "is_valid p = (validate_rule_pack p = [])"

section \<open>What a valid pack guarantees\<close>

lemma is_valid_specificity: "is_valid p \<Longrightarrow> r \<in> set (rules p) \<Longrightarrow> is_ok (specificity (conditions r))"
  by (auto simp: is_valid_def validate_rule_pack_def check_rule_def is_ok_def split: sum.splits if_splits)

lemma is_valid_nonempty: "is_valid p \<Longrightarrow> rules p \<noteq> []"
  by (auto simp: is_valid_def validate_rule_pack_def)

lemma by_code_mem: "by_code p c = Some r \<Longrightarrow> r \<in> set (rules p) \<and> rule_code r = c"
  unfolding by_code_def by (drule map_of_SomeD) auto

lemma is_valid_targets:
  assumes "is_valid p" and "r \<in> set (rules p)" and "c \<in> set (conflicts_with r)"
  obtains other where "other \<in> set (rules p)" "rule_code other = c"
    "shares_group r other \<longrightarrow> either_resolves_it r other"
proof -
  have "check_conflict p r c = []"
    using assms by (auto simp: is_valid_def validate_rule_pack_def check_rule_def split: if_splits)
  then obtain other where "by_code p c = Some other" "shares_group r other \<longrightarrow> either_resolves_it r other"
    by (auto simp: check_conflict_def split: option.splits if_splits)
  with that by_code_mem show ?thesis by blast
qed

lemma keyed_ok: "(\<And>x. x \<in> set xs \<Longrightarrow> is_ok (key x)) \<Longrightarrow> is_ok (keyed key xs)"
proof (induction xs)
  case (Cons x xs)
  then have "is_ok (key x)" "is_ok (keyed key xs)" by auto
  then show ?case by (auto simp: keyed_def is_ok_iff)
qed (simp add: keyed_def)

lemma most_specific_ok:
  assumes "\<And>c. c \<in> set cs \<Longrightarrow> is_ok (specificity (conditions (snd c)))"
  shows "is_ok (most_specific cs)"
proof -
  obtain specs where "keyed (\<lambda>c. specificity (conditions (snd c))) cs = Inr specs"
    using keyed_ok [of cs "\<lambda>c. specificity (conditions (snd c))"] assms by (auto simp: is_ok_iff)
  then show ?thesis by (simp add: most_specific_def split: list.split)
qed

text \<open>
  On the rules of a pack that validation accepts, every conflict group of rules
  of the pack is decided: the specificity that breaks its ties never raises. Every conflict
  a rule declares is with a rule of the pack, and where both share a group one of them is a
  suppressor or cannot be suppressed.
\<close>
theorem valid_pack_resolves_conflicts:
  assumes "is_valid p" and "set cs \<subseteq> set (rules p)" and "cs \<noteq> []"
  shows "(\<exists>w lost. resolve_conflict_group f cs = Inr (w, lost) \<and> w \<in> set cs) \<and>
    (\<forall>r \<in> set (rules p). \<forall>c \<in> set (conflicts_with r). \<exists>other \<in> set (rules p). rule_code other = c \<and>
       (shares_group r other \<longrightarrow> either_resolves_it r other))"
proof
  let ?cs = "enumerate 0 cs"
  have ne: "?cs \<noteq> []" using assms(3) by (cases cs) auto
  have "is_ok (most_specific (heaviest ?cs))"
  proof (rule most_specific_ok)
    fix c assume "c \<in> set (heaviest ?cs)"
    then have "(fst c, snd c) \<in> set ?cs" using heaviest_props(2) [OF ne] by auto
    from enumerate_mem [OF this] have "snd c \<in> set (rules p)" using assms(2) by auto
    then show "is_ok (specificity (conditions (snd c)))" by (rule is_valid_specificity [OF assms(1)])
  qed
  then obtain ms where ms: "most_specific (heaviest ?cs) = Inr ms" by (auto simp: is_ok_iff)
  have "ms \<noteq> []" using most_specific_props(1) [OF ms heaviest_props(1) [OF ne]] .
  obtain best where best: "(if 1 < length (heaviest ?cs) then most_specific (heaviest ?cs) else Inr (heaviest ?cs)) = Inr best"
    and "best \<noteq> []"
    using ms \<open>ms \<noteq> []\<close> heaviest_props(1) [OF ne] by (cases "1 < length (heaviest ?cs)") auto
  then have "\<exists>w lost. resolve_conflict_group f cs = Inr (w, lost)"
    by (cases best) (simp_all only: resolve_conflict_group_def Let_def best bindr_simps list.case, auto)
  then show "\<exists>w lost. resolve_conflict_group f cs = Inr (w, lost) \<and> w \<in> set cs"
    using conflict_group_mem by blast
  show "\<forall>r \<in> set (rules p). \<forall>c \<in> set (conflicts_with r). \<exists>other \<in> set (rules p). rule_code other = c \<and>
       (shares_group r other \<longrightarrow> either_resolves_it r other)"
  proof (intro ballI)
    fix r c assume "r \<in> set (rules p)" "c \<in> set (conflicts_with r)"
    then obtain other where "other \<in> set (rules p)" "rule_code other = c"
      "shares_group r other \<longrightarrow> either_resolves_it r other"
      by (rule is_valid_targets [OF assms(1)])
    then show "\<exists>other \<in> set (rules p). rule_code other = c \<and> (shares_group r other \<longrightarrow> either_resolves_it r other)"
      by blast
  qed
qed

lemma valid_pack_resolves_conflicts_witness:
  "\<exists>w lost. resolve_conflict_group ''priority''
     [(w_rule ''R1'' 5 [])\<lparr>conditions := PDict [(''=='', PList [PInt 1, PInt 1])]\<rparr>, w_rule ''R2'' 5 []] = Inr (w, lost)"
proof -
  let ?rs = "[(w_rule ''R1'' 5 [])\<lparr>conditions := PDict [(''=='', PList [PInt 1, PInt 1])]\<rparr>, w_rule ''R2'' 5 []]"
  have "is_valid (new_pack ''p'' 1 DRAFT None ?rs)" by code_simp
  from valid_pack_resolves_conflicts [OF this, of ?rs "''priority''"] show ?thesis by (auto simp: new_pack_def)
qed

end
