(* ===== verification/Pack_Repository.thy ===== *)
theory Pack_Repository
  imports Validation Ttl_Cache
begin

text \<open>
  \<open>app/infrastructure/repositories/in_memory_rule_pack_repository.py\<close>. The code keeps
  \<open>RulePack\<close> objects in a dictionary under the name and version they had when they were
  saved, and mutates them in place; so packs live in a heap, the dictionary holds references
  and one object may be reachable under two keys. A reference is the position of the object
  in the heap. Where no pack is renamed, the repository refines a map from name and version
  to packs.
\<close>

section \<open>State\<close>

type_synonym ref = nat

record pack_repo =
  store :: "((string \<times> int) \<times> ref) list"
  heap :: "rule_pack list"
  active_cache :: "rule_pack ttl_cache"

definition empty_repo :: pack_repo where
  "empty_repo = \<lparr>store = [], heap = [], active_cache = new_cache (Fin 10)\<rparr>"

definition pack_at :: "pack_repo \<Rightarrow> ref \<Rightarrow> rule_pack" where
  "pack_at repo r = heap repo ! r"

definition put_pack :: "ref \<Rightarrow> rule_pack \<Rightarrow> pack_repo \<Rightarrow> pack_repo" where
  "put_pack r p repo = repo\<lparr>heap := (heap repo)[r := p]\<rparr>"

text \<open>A new object: its reference and the heap with it.\<close>

definition alloc :: "rule_pack \<Rightarrow> pack_repo \<Rightarrow> ref \<times> pack_repo" where
  "alloc p repo = (length (heap repo), repo\<lparr>heap := heap repo @ [p]\<rparr>)"

definition refs :: "pack_repo \<Rightarrow> ref list" where
  "refs repo = map snd (store repo)"

section \<open>Operations\<close>

definition stamp_pack :: "string \<Rightarrow> instant \<Rightarrow> rule_pack \<Rightarrow> rule_pack" where
  "stamp_pack fresh now p =
     (let p = (if pack_id p = None then p\<lparr>pack_id := Some fresh\<rparr> else p)
      in if created_at p = None then p\<lparr>created_at := Some now\<rparr> else p)"

definition repo_save :: "string \<Rightarrow> instant \<Rightarrow> ref \<Rightarrow> pack_repo \<Rightarrow> pack_repo" where
  "repo_save fresh now r repo =
     (let p = stamp_pack fresh now (pack_at repo r)
      in (put_pack r p repo)\<lparr>store := dict_set (pack_name p, version p) r (store repo)\<rparr>)"

definition repo_get :: "pack_repo \<Rightarrow> string \<Rightarrow> int \<Rightarrow> ref option" where
  "repo_get repo n v = map_of (store repo) (n, v)"

definition repo_get_by_id :: "pack_repo \<Rightarrow> string \<Rightarrow> ref option" where
  "repo_get_by_id repo i = find (\<lambda>r. pack_id (pack_at repo r) = Some i) (refs repo)"

definition repo_get_active :: "pack_repo \<Rightarrow> string \<Rightarrow> string option \<Rightarrow> ref option" where
  "repo_get_active repo n reg =
     find (\<lambda>r. pack_name (pack_at repo r) = n \<and> status (pack_at repo r) = ACTIVE \<and> region (pack_at repo r) = reg) (refs repo)"

definition list_versions :: "pack_repo \<Rightarrow> string \<Rightarrow> ref list" where
  "list_versions repo n =
     sort_key (\<lambda>r. version (pack_at repo r)) (filter (\<lambda>r. pack_name (pack_at repo r) = n) (refs repo))"

definition repo_list_all :: "pack_repo \<Rightarrow> string option \<Rightarrow> string option \<Rightarrow> bool \<Rightarrow> nat \<Rightarrow> nat \<Rightarrow> ref list" where
  "repo_list_all repo stat reg include_archived limit offset =
     (let rs = refs repo;
          rs = (if include_archived then rs else filter (\<lambda>r. status (pack_at repo r) \<noteq> ARCHIVED) rs);
          rs = (case stat of None \<Rightarrow> rs | Some s \<Rightarrow> filter (\<lambda>r. status (pack_at repo r) = s) rs);
          rs = (case reg of None \<Rightarrow> rs | Some g \<Rightarrow> filter (\<lambda>r. region (pack_at repo r) = Some g) rs)
      in page offset limit (sort_key (\<lambda>r. (pack_name (pack_at repo r), version (pack_at repo r))) rs))"

definition check_lock :: "rule_pack \<Rightarrow> int option \<Rightarrow> unit res" where
  "check_lock p expected =
     (case expected of
        None \<Rightarrow> Inr ()
      | Some n \<Rightarrow>
          if lock_version p \<noteq> n
          then Inl (ConcurrentModificationError (''Rule pack '' @ (case pack_id p of None \<Rightarrow> ''None'' | Some i \<Rightarrow> i) @
            '' was modified by someone else since it was loaded (expected lock_version='' @ str_of_int n @
            '', current='' @ str_of_int (lock_version p) @ '') -- reload the latest version and retry your change.''))
          else Inr ())"

definition bump_lock :: "rule_pack \<Rightarrow> rule_pack" where
  "bump_lock p = p\<lparr>lock_version := lock_version p + 1\<rparr>"

text \<open>The attributes the API updates.\<close>

datatype pack_attr = AttrName string | AttrRegion "string option" | AttrTenant "string option"

fun set_attr :: "rule_pack \<Rightarrow> pack_attr \<Rightarrow> rule_pack" where
  "set_attr p (AttrName n) = p\<lparr>pack_name := n\<rparr>"
| "set_attr p (AttrRegion r) = p\<lparr>region := r\<rparr>"
| "set_attr p (AttrTenant t) = p\<lparr>tenant_id := t\<rparr>"

definition no_such_pack :: "string \<Rightarrow> exn" where
  "no_such_pack i = ValueError (''No such rule pack: '' @ i)"

text \<open>Read by id, check the lock, change in place.\<close>

definition modify_by_id :: "string \<Rightarrow> int option \<Rightarrow> (rule_pack \<Rightarrow> rule_pack) \<Rightarrow> pack_repo \<Rightarrow> (ref \<times> pack_repo) res" where
  "modify_by_id i expected f repo =
     (case repo_get_by_id repo i of
        None \<Rightarrow> Inl (no_such_pack i)
      | Some r \<Rightarrow> bindr (check_lock (pack_at repo r) expected)
          (\<lambda>_. Inr (r, put_pack r (f (pack_at repo r)) repo)))"

definition update_metadata :: "string \<Rightarrow> int option \<Rightarrow> pack_attr list \<Rightarrow> pack_repo \<Rightarrow> (ref \<times> pack_repo) res" where
  "update_metadata i expected attrs repo = modify_by_id i expected (\<lambda>p. bump_lock (foldl set_attr p attrs)) repo"

definition update_status :: "string \<Rightarrow> string \<Rightarrow> int option \<Rightarrow> pack_repo \<Rightarrow> (ref \<times> pack_repo) res" where
  "update_status i s expected repo = modify_by_id i expected (\<lambda>p. bump_lock (p\<lparr>status := s\<rparr>)) repo"

definition soft_delete :: "instant \<Rightarrow> string \<Rightarrow> int option \<Rightarrow> pack_repo \<Rightarrow> (ref \<times> pack_repo) res" where
  "soft_delete now i expected repo =
     bindr (modify_by_id i expected (\<lambda>p. bump_lock (p\<lparr>status := ARCHIVED, deleted_at := Some now\<rparr>)) repo)
       (\<lambda>(r, repo'). Inr (r, repo'\<lparr>active_cache := cache_invalidate (active_cache repo')\<rparr>))"

definition deprecate :: "rule_pack \<Rightarrow> rule_pack" where
  "deprecate p = (if status p = ACTIVE then bump_lock (p\<lparr>status := DEPRECATED\<rparr>) else p)"

definition deprecate_all :: "ref list \<Rightarrow> pack_repo \<Rightarrow> pack_repo" where
  "deprecate_all rs repo = foldl (\<lambda>repo r. put_pack r (deprecate (pack_at repo r)) repo) repo rs"

definition make_active :: "instant \<Rightarrow> rule_pack \<Rightarrow> rule_pack" where
  "make_active now p = bump_lock (p\<lparr>status := ACTIVE, activated_at := Some now\<rparr>)"

definition repo_activate :: "instant \<Rightarrow> string \<Rightarrow> int \<Rightarrow> int option \<Rightarrow> pack_repo \<Rightarrow> (ref \<times> pack_repo) res" where
  "repo_activate now n v expected repo =
     (case repo_get repo n v of
        None \<Rightarrow> Inl (ValueError (''No such rule pack version: '' @ n @ '' v'' @ str_of_int v))
      | Some t \<Rightarrow> bindr (check_lock (pack_at repo t) expected) (\<lambda>_.
          let repo1 = deprecate_all (list_versions repo n) repo;
              repo2 = put_pack t (make_active now (pack_at repo1 t)) repo1
          in Inr (t, repo2\<lparr>active_cache := cache_invalidate (active_cache repo2)\<rparr>)))"

section \<open>The abstract view\<close>

definition view :: "pack_repo \<Rightarrow> string \<times> int \<Rightarrow> rule_pack option" where
  "view repo k = map_option (pack_at repo) (map_of (store repo) k)"

text \<open>
  The invariant of a repository in which no pack was renamed: every object is found under its
  own name and version, and has an id of its own.
\<close>

definition repo_ok :: "pack_repo \<Rightarrow> bool" where
  "repo_ok repo \<longleftrightarrow> dict_ok (store repo) \<and>
     (\<forall>k r. map_of (store repo) k = Some r \<longrightarrow> r < length (heap repo) \<and>
        k = (pack_name (pack_at repo r), version (pack_at repo r)) \<and> pack_id (pack_at repo r) \<noteq> None) \<and>
     (\<forall>k l p q. view repo k = Some p \<and> view repo l = Some q \<and> pack_id p = pack_id q \<longrightarrow> k = l)"

lemma repo_okD:
  assumes "repo_ok repo" and "map_of (store repo) k = Some r"
  shows "r < length (heap repo)" "k = (pack_name (pack_at repo r), version (pack_at repo r))"
    "pack_id (pack_at repo r) \<noteq> None" "view repo k = Some (pack_at repo r)"
proof -
  have "r < length (heap repo) \<and> k = (pack_name (pack_at repo r), version (pack_at repo r)) \<and> pack_id (pack_at repo r) \<noteq> None"
    using assms unfolding repo_ok_def by blast
  then show "r < length (heap repo)" "k = (pack_name (pack_at repo r), version (pack_at repo r))"
    "pack_id (pack_at repo r) \<noteq> None" by blast+
  show "view repo k = Some (pack_at repo r)" using assms(2) by (simp add: view_def)
qed

lemma view_key:
  assumes "repo_ok repo" and "view repo k = Some p"
  shows "k = (pack_name p, version p) \<and> pack_id p \<noteq> None"
proof -
  obtain r where r: "map_of (store repo) k = Some r" "p = pack_at repo r" using assms(2) by (auto simp: view_def)
  show ?thesis using repo_okD(2,3) [OF assms(1) r(1)] r(2) by simp
qed

lemma repo_ok_inj:
  "repo_ok repo \<Longrightarrow> map_of (store repo) k = Some r \<Longrightarrow> map_of (store repo) l = Some r \<Longrightarrow> k = l"
  using repo_okD(2) [of repo k r] repo_okD(2) [of repo l r] by simp

lemma repo_ok_ids:
  "repo_ok repo \<Longrightarrow> view repo k = Some p \<Longrightarrow> view repo l = Some q \<Longrightarrow> pack_id p = pack_id q \<Longrightarrow> k = l"
  unfolding repo_ok_def by blast

lemma ref_has_key:
  assumes "repo_ok repo" and "r \<in> set (refs repo)"
  shows "map_of (store repo) (pack_name (pack_at repo r), version (pack_at repo r)) = Some r"
proof -
  from assms(2) obtain k where "(k, r) \<in> set (store repo)" by (auto simp: refs_def)
  moreover have "distinct (map fst (store repo))" using assms(1) by (simp add: repo_ok_def dict_ok_def)
  ultimately have "map_of (store repo) k = Some r" by (simp add: map_of_eq_Some_iff)
  with repo_okD(2) [OF assms(1) this] show ?thesis by simp
qed

lemma key_has_ref: "map_of (store repo) k = Some r \<Longrightarrow> r \<in> set (refs repo)"
  by (force simp: refs_def dest: map_of_SomeD)

lemma store_put [simp]: "store (put_pack r p repo) = store repo" "active_cache (put_pack r p repo) = active_cache repo"
  "length (heap (put_pack r p repo)) = length (heap repo)" "refs (put_pack r p repo) = refs repo"
  by (simp_all add: put_pack_def refs_def)

lemma pack_at_put: "r < length (heap repo) \<Longrightarrow> pack_at (put_pack r p repo) s = (if s = r then p else pack_at repo s)"
  by (simp add: pack_at_def put_pack_def)

lemma pack_at_cache [simp]: "pack_at (repo\<lparr>active_cache := c\<rparr>) = pack_at repo"
  by (rule ext) (simp add: pack_at_def)

lemma view_cache [simp]: "view (repo\<lparr>active_cache := c\<rparr>) = view repo"
  by (rule ext) (simp add: view_def)

lemma repo_ok_cache [simp]: "repo_ok (repo\<lparr>active_cache := c\<rparr>) = repo_ok repo"
  by (simp add: repo_ok_def)

text \<open>A change in place that keeps name, version and id is a change at one key.\<close>

lemma view_put:
  assumes "repo_ok repo" and "map_of (store repo) k = Some r"
  shows "view (put_pack r p repo) = (view repo)(k \<mapsto> p)"
proof
  fix l
  show "view (put_pack r p repo) l = ((view repo)(k \<mapsto> p)) l"
  proof (cases "map_of (store repo) l")
    case (Some s)
    then show ?thesis
      using assms repo_okD(1) [OF assms] repo_ok_inj [OF assms(1) _ assms(2), of l]
      by (auto simp: view_def pack_at_put)
  next
    case None
    then show ?thesis using assms(2) by (auto simp: view_def)
  qed
qed

lemma repo_ok_put:
  assumes ok: "repo_ok repo" and k: "map_of (store repo) k = Some r"
    and same: "pack_name p = pack_name (pack_at repo r)" "version p = version (pack_at repo r)"
      "pack_id p = pack_id (pack_at repo r)"
  shows "repo_ok (put_pack r p repo)"
proof -
  have r: "r < length (heap repo)" using repo_okD(1) [OF ok k] .
  have 1: "s < length (heap repo) \<and> l = (pack_name (pack_at (put_pack r p repo) s), version (pack_at (put_pack r p repo) s)) \<and>
      pack_id (pack_at (put_pack r p repo) s) \<noteq> None" if "map_of (store repo) l = Some s" for l s
    using repo_okD [OF ok that] same r by (auto simp: pack_at_put)
  have "\<exists>q. view repo l = Some q \<and> pack_id q = pack_id q'" if "view (put_pack r p repo) l = Some q'" for l q'
    using that same(3) repo_okD(4) [OF ok k] by (auto simp: view_put [OF ok k] split: if_splits)
  then have "l = m" if "view (put_pack r p repo) l = Some a" "view (put_pack r p repo) m = Some b" "pack_id a = pack_id b"
    for l m a b using that repo_ok_ids [OF ok] by metis
  moreover have "dict_ok (store repo)" using ok by (simp add: repo_ok_def)
  ultimately show ?thesis using 1 unfolding repo_ok_def by auto
qed


section \<open>The operations on the view\<close>

lemma get_by_id_view:
  assumes ok: "repo_ok repo"
  shows "repo_get_by_id repo i = Some r \<Longrightarrow>
      \<exists>k. map_of (store repo) k = Some r \<and> view repo k = Some (pack_at repo r) \<and> pack_id (pack_at repo r) = Some i"
    and "repo_get_by_id repo i = None \<longleftrightarrow> (\<forall>k p. view repo k = Some p \<longrightarrow> pack_id p \<noteq> Some i)"
proof -
  assume "repo_get_by_id repo i = Some r"
  then have "r \<in> set (refs repo)" "pack_id (pack_at repo r) = Some i"
    by (auto simp: repo_get_by_id_def find_Some_iff)
  then show "\<exists>k. map_of (store repo) k = Some r \<and> view repo k = Some (pack_at repo r) \<and> pack_id (pack_at repo r) = Some i"
    using ref_has_key [OF ok] repo_okD(4) [OF ok] by blast
next
  show "repo_get_by_id repo i = None \<longleftrightarrow> (\<forall>k p. view repo k = Some p \<longrightarrow> pack_id p \<noteq> Some i)"
  proof
    assume "repo_get_by_id repo i = None"
    then show "\<forall>k p. view repo k = Some p \<longrightarrow> pack_id p \<noteq> Some i"
      using key_has_ref by (fastforce simp: repo_get_by_id_def find_None_iff view_def)
  next
    assume v: "\<forall>k p. view repo k = Some p \<longrightarrow> pack_id p \<noteq> Some i"
    have "pack_id (pack_at repo r) \<noteq> Some i" if "r \<in> set (refs repo)" for r
      using v repo_okD(4) [OF ok ref_has_key [OF ok that]] by blast
    then show "repo_get_by_id repo i = None" by (auto simp: repo_get_by_id_def find_None_iff)
  qed
qed

lemma modify_by_id_view:
  assumes ok: "repo_ok repo" and m: "modify_by_id i expected f repo = Inr (r, repo')"
    and keep: "\<And>p. pack_name (f p) = pack_name p" "\<And>p. version (f p) = version p" "\<And>p. pack_id (f p) = pack_id p"
  shows "repo_ok repo' \<and> (\<exists>k p. view repo k = Some p \<and> pack_id p = Some i \<and> p = pack_at repo r \<and>
      check_lock p expected = Inr () \<and> view repo' = (view repo)(k \<mapsto> f p) \<and> pack_at repo' r = f p)"
proof -
  have g: "repo_get_by_id repo i = Some r" and lock: "check_lock (pack_at repo r) expected = Inr ()"
    and repo': "repo' = put_pack r (f (pack_at repo r)) repo"
    using m by (auto simp: modify_by_id_def bindr_eq_Inr split: option.splits)
  obtain k where k: "map_of (store repo) k = Some r" "view repo k = Some (pack_at repo r)" "pack_id (pack_at repo r) = Some i"
    using get_by_id_view(1) [OF ok g] by blast
  then show ?thesis
    using repo_ok_put [OF ok k(1)] view_put [OF ok k(1)] repo_okD(1) [OF ok k(1)] keep lock
    by (intro conjI exI [of _ k] exI [of _ "pack_at repo r"]) (simp_all add: repo' pack_at_put)
qed

lemma deprecate_fields [simp]:
  "pack_name (deprecate p) = pack_name p" "version (deprecate p) = version p" "pack_id (deprecate p) = pack_id p"
  "rules (deprecate p) = rules p" "status (deprecate p) \<noteq> ACTIVE" "region (deprecate p) = region p"
  by (auto simp: deprecate_def bump_lock_def status_defs)

lemma deprecate_idem [simp]: "deprecate (deprecate p) = deprecate p"
  by (simp add: deprecate_def bump_lock_def status_defs)

lemma make_active_fields [simp]:
  "pack_name (make_active now p) = pack_name p" "version (make_active now p) = version p"
  "pack_id (make_active now p) = pack_id p" "rules (make_active now p) = rules p" "status (make_active now p) = ACTIVE"
  by (simp_all add: make_active_def bump_lock_def)

text \<open>Deprecating a list of stored packs deprecates exactly these.\<close>

lemma deprecate_all_view:
  assumes "repo_ok repo" and "set rs \<subseteq> set (refs repo)"
  shows "repo_ok (deprecate_all rs repo) \<and> store (deprecate_all rs repo) = store repo \<and>
    length (heap (deprecate_all rs repo)) = length (heap repo) \<and>
    (\<forall>s < length (heap repo). pack_at (deprecate_all rs repo) s = (if s \<in> set rs then deprecate (pack_at repo s) else pack_at repo s))"
  using assms
proof (induction rs rule: rev_induct)
  case (snoc r rs)
  let ?repo = "deprecate_all rs repo"
  have ih: "repo_ok ?repo" "store ?repo = store repo" "length (heap ?repo) = length (heap repo)"
    "\<And>s. s < length (heap repo) \<Longrightarrow> pack_at ?repo s = (if s \<in> set rs then deprecate (pack_at repo s) else pack_at repo s)"
    using snoc by auto
  have step: "deprecate_all (rs @ [r]) repo = put_pack r (deprecate (pack_at ?repo r)) ?repo"
    by (simp add: deprecate_all_def)
  have "r \<in> set (refs ?repo)" using snoc.prems ih(2) by (simp add: refs_def)
  note key = ref_has_key [OF ih(1) this]
  have r: "r < length (heap repo)" using repo_okD(1) [OF ih(1) key] ih(3) by simp
  have "repo_ok (put_pack r (deprecate (pack_at ?repo r)) ?repo)"
    by (rule repo_ok_put [OF ih(1) key]) simp_all
  moreover have "pack_at (put_pack r (deprecate (pack_at ?repo r)) ?repo) s =
      (if s \<in> set (rs @ [r]) then deprecate (pack_at repo s) else pack_at repo s)" if "s < length (heap repo)" for s
    using ih(3) ih(4) [OF r] ih(4) [OF that] r by (auto simp: pack_at_put)
  ultimately show ?case using ih(2,3) by (simp add: step)
qed (simp add: deprecate_all_def)

text \<open>What activation does to a pack: at the target, among its siblings, elsewhere.\<close>

definition activated :: "instant \<Rightarrow> string \<Rightarrow> int \<Rightarrow> rule_pack \<Rightarrow> rule_pack" where
  "activated now n v p =
     (if pack_name p = n then if version p = v then make_active now (deprecate p) else deprecate p else p)"

lemma activated_fields [simp]:
  "pack_name (activated now n v p) = pack_name p" "version (activated now n v p) = version p"
  "pack_id (activated now n v p) = pack_id p" "rules (activated now n v p) = rules p"
  by (simp_all add: activated_def)

lemma activate_view:
  assumes ok: "repo_ok repo" and a: "repo_activate now n v expected repo = Inr (t, repo')"
  shows "repo_ok repo' \<and> (\<exists>p. view repo (n, v) = Some p \<and> p = pack_at repo t \<and> check_lock p expected = Inr ()) \<and>
    view repo' = (\<lambda>k. map_option (activated now n v) (view repo k)) \<and> map_of (store repo') (n, v) = Some t"
proof -
  let ?rs = "list_versions repo n" and ?repo1 = "deprecate_all (list_versions repo n) repo"
  have g: "map_of (store repo) (n, v) = Some t" and lock: "check_lock (pack_at repo t) expected = Inr ()"
    and repo': "repo' = (put_pack t (make_active now (pack_at ?repo1 t)) ?repo1)\<lparr>active_cache :=
      cache_invalidate (active_cache (put_pack t (make_active now (pack_at ?repo1 t)) ?repo1))\<rparr>"
    using a by (auto simp: repo_activate_def repo_get_def Let_def bindr_eq_Inr split: option.splits)
  note t = repo_okD [OF ok g]
  have sub: "set ?rs \<subseteq> set (refs repo)" and mem: "s \<in> set ?rs \<longleftrightarrow> s \<in> set (refs repo) \<and> pack_name (pack_at repo s) = n" for s
    by (auto simp: list_versions_def)
  note d = deprecate_all_view [OF ok sub]
  have g1: "map_of (store ?repo1) (n, v) = Some t" using g d by simp
  have ok1: "repo_ok ?repo1" using d by simp
  have v1: "view ?repo1 k = map_option (\<lambda>p. if pack_name p = n then deprecate p else p) (view repo k)" for k
  proof (cases "map_of (store repo) k")
    case (Some s)
    then show ?thesis using d repo_okD(1) [OF ok Some] key_has_ref [OF Some] mem by (simp add: view_def)
  next
    case None
    then show ?thesis using d by (simp add: view_def)
  qed
  have t1: "pack_at ?repo1 t = deprecate (pack_at repo t)"
    using d t(1,2) key_has_ref [OF g] mem by auto
  have vr: "view repo' = (view ?repo1)((n, v) \<mapsto> make_active now (deprecate (pack_at repo t)))"
    by (simp add: repo' view_put [OF ok1 g1] t1)
  have nv: "pack_name (pack_at repo t) = n" "version (pack_at repo t) = v" using t(2) by simp_all
  have "view repo' k = map_option (activated now n v) (view repo k)" for k
  proof (cases "k = (n, v)")
    case True
    then show ?thesis by (simp add: vr t(4) activated_def nv)
  next
    case False
    then show ?thesis
      by (cases "view repo k") (auto simp: vr v1 activated_def dest: view_key [OF ok])
  qed
  moreover have "repo_ok repo'"
    unfolding repo' by (simp, rule repo_ok_put [OF ok1 g1]) simp_all
  ultimately show ?thesis using t lock g1 by (auto simp: repo')
qed


lemma stamp_pack_fields [simp]:
  "pack_name (stamp_pack f now p) = pack_name p" "version (stamp_pack f now p) = version p"
  "status (stamp_pack f now p) = status p" "rules (stamp_pack f now p) = rules p"
  "pack_id (stamp_pack f now p) = (case pack_id p of None \<Rightarrow> Some f | Some i \<Rightarrow> Some i)"
  "lock_version (stamp_pack f now p) = lock_version p" "parent_version (stamp_pack f now p) = parent_version p"
  by (auto simp: stamp_pack_def Let_def split: option.splits)

definition unused_id :: "string \<Rightarrow> pack_repo \<Rightarrow> bool" where
  "unused_id f repo \<longleftrightarrow> (\<forall>k p. view repo k = Some p \<longrightarrow> pack_id p \<noteq> Some f)"

text \<open>Saving a new object under an unused key with an unused id.\<close>

lemma save_new_view:
  assumes ok: "repo_ok repo" and new: "view repo (pack_name p, version p) = None" and id: "pack_id p = None"
    and fresh: "unused_id f repo" and a: "alloc p repo = (r, repo1)"
  shows "repo_ok (repo_save f now r repo1)"
    and "view (repo_save f now r repo1) = (view repo)((pack_name p, version p) \<mapsto> stamp_pack f now p)"
    and "pack_at (repo_save f now r repo1) r = stamp_pack f now p"
proof -
  let ?k = "(pack_name p, version p)" and ?q = "stamp_pack f now p" and ?s = "repo_save f now r repo1"
  have r: "r = length (heap repo)" and repo1: "repo1 = repo\<lparr>heap := heap repo @ [p]\<rparr>"
    using a by (simp_all add: alloc_def)
  have store: "store ?s = dict_set ?k r (store repo)"
    by (simp add: repo_save_def Let_def repo1 r pack_at_def put_pack_def)
  have heap: "heap ?s = heap repo @ [?q]"
    by (simp add: repo_save_def Let_def repo1 r pack_at_def put_pack_def)
  show at: "pack_at ?s r = ?q" unfolding pack_at_def heap by (simp add: r)
  have nf: "pack_id q \<noteq> Some f" if "view repo l = Some q" for l q using fresh that unfolding unused_id_def by blast
  have old: "pack_at ?s s = pack_at repo s" if "map_of (store repo) l = Some s" for l s
    using repo_okD(1) [OF ok that] by (simp add: pack_at_def heap nth_append)
  show v: "view ?s = (view repo)(?k \<mapsto> ?q)"
  proof
    fix l show "view ?s l = ((view repo)(?k \<mapsto> ?q)) l"
      by (cases "map_of (store repo) l") (auto simp: view_def store at old)
  qed
  have "s < length (heap ?s) \<and> l = (pack_name (pack_at ?s s), version (pack_at ?s s)) \<and> pack_id (pack_at ?s s) \<noteq> None"
    if l: "map_of (store ?s) l = Some s" for l s
  proof (cases "l = ?k")
    case True
    then have "s = r" using l by (simp add: store)
    then show ?thesis unfolding True heap using at r by (simp add: id)
  next
    case False
    then have m: "map_of (store repo) l = Some s" using l by (simp add: store)
    show ?thesis using repo_okD(1,2,3) [OF ok m] old [OF m] by (simp add: heap)
  qed
  moreover have "l = m" if "view ?s l = Some x" "view ?s m = Some y" "pack_id x = pack_id y" for l m x y
    using that repo_ok_ids [OF ok, of l x m y] id
    by (cases "l = ?k"; cases "m = ?k") (auto simp: v dest: nf)
  moreover have "dict_ok (store ?s)" using ok by (simp add: store repo_ok_def)
  ultimately show "repo_ok ?s" unfolding repo_ok_def by blast
qed

text \<open>Saving a changed object again under its own key.\<close>

lemma save_again_view:
  assumes ok: "repo_ok repo" and k: "map_of (store repo) k = Some r"
    and same: "pack_name p = pack_name (pack_at repo r)" "version p = version (pack_at repo r)"
      "pack_id p = pack_id (pack_at repo r)"
  shows "repo_ok (repo_save f now r (put_pack r p repo))"
    and "view (repo_save f now r (put_pack r p repo)) = (view repo)(k \<mapsto> stamp_pack f now p)"
    and "pack_at (repo_save f now r (put_pack r p repo)) r = stamp_pack f now p"
proof -
  note d = repo_okD [OF ok k]
  have st: "dict_set k r (store repo) = store repo"
    using k by (rule update_triv)
  have "repo_save f now r (put_pack r p repo) = put_pack r (stamp_pack f now p) repo"
    using d same st by (simp add: repo_save_def Let_def pack_at_def put_pack_def)
  moreover have "pack_id (stamp_pack f now p) = pack_id (pack_at repo r)" using d(3) same(3) by (auto split: option.splits)
  ultimately show "repo_ok (repo_save f now r (put_pack r p repo))"
    and "view (repo_save f now r (put_pack r p repo)) = (view repo)(k \<mapsto> stamp_pack f now p)"
    and "pack_at (repo_save f now r (put_pack r p repo)) r = stamp_pack f now p"
    using repo_ok_put [OF ok k, of "stamp_pack f now p"] view_put [OF ok k] same d(1) by (simp_all add: pack_at_put)
qed

end
