(* ===== verification/Lifecycle.thy ===== *)
theory Lifecycle
  imports Pack_Repository Stores Rule_Json
begin

text \<open>
  The rule pack use cases (\<open>rule_pack_lifecycle.py\<close>, \<open>rollback_rule_pack.py\<close>) and the
  rule use cases on drafts (\<open>manage_rules.py\<close>), over a platform of a pack repository, an
  optional audit log and an optional notifier. Fresh ids stand for \<open>uuid4\<close>, one per call in
  the code; \<open>now\<close> for \<open>datetime.now\<close>. A notifier is represented by the events
  published through it.
\<close>

section \<open>The platform\<close>

record refresh_event =
  ev_entity_type :: string
  ev_entity_id :: "string option"
  ev_action :: string

record platform =
  repo :: pack_repo
  audit :: "audit_store option"
  events :: "refresh_event list option"

record call =
  \<comment> \<open>who calls, why, when, and the fresh ids the call draws\<close>
  actor :: string
  reason :: "string option"
  correlation :: "string option"
  now :: instant
  fresh :: string
  fresh_audit :: string

definition audit_entry :: "call \<Rightarrow> string \<Rightarrow> string \<Rightarrow> string \<Rightarrow> dict option \<Rightarrow> dict option \<Rightarrow> string option \<Rightarrow> audit_log_entry" where
  "audit_entry c etype eid action before after why =
     \<lparr>al_id = fresh_audit c, al_entity_type = etype, al_entity_id = eid, al_action = action, al_actor = actor c,
      al_before = before, al_after = after, al_ip_address = None, al_request_id = None,
      al_correlation_id = correlation c, al_created_at = now c, al_reason = why\<rparr>"

definition write_audit :: "audit_log_entry \<Rightarrow> platform \<Rightarrow> platform" where
  "write_audit e pl = pl\<lparr>audit := map_option (audit_save e) (audit pl)\<rparr>"

definition notify :: "string option \<Rightarrow> string \<Rightarrow> platform \<Rightarrow> platform" where
  "notify eid action pl =
     pl\<lparr>events := map_option (\<lambda>es. es @ [\<lparr>ev_entity_type = ''rule_pack'', ev_entity_id = eid, ev_action = action\<rparr>]) (events pl)\<rparr>"

definition pack_summary :: "rule_pack \<Rightarrow> dict" where
  "pack_summary p = [(''id'', opt_val PStr (pack_id p)), (''name'', PStr (pack_name p)), (''version'', PInt (version p)),
     (''status'', PStr (status p))]"

lemma platform_simps [simp]:
  "repo (write_audit e pl) = repo pl" "events (write_audit e pl) = events pl"
  "repo (notify i a pl) = repo pl" "audit (notify i a pl) = audit pl"
  by (simp_all add: write_audit_def notify_def)

section \<open>Rule packs\<close>

definition latest_version :: "pack_repo \<Rightarrow> string \<Rightarrow> int option" where
  "latest_version rp n =
     (case map (\<lambda>r. version (pack_at rp r)) (list_versions rp n) of [] \<Rightarrow> None | v # vs \<Rightarrow> Some (max_by (\<lambda>x. x) v vs))"

definition create_rule_pack :: "call \<Rightarrow> string \<Rightarrow> string option \<Rightarrow> string option \<Rightarrow> rule list \<Rightarrow> platform \<Rightarrow> ref \<times> platform" where
  "create_rule_pack c n reg ten rs pl =
     (let latest = latest_version (repo pl) n;
          next_version = (case latest of None \<Rightarrow> 1 | Some v \<Rightarrow> v + 1);
          p = (new_pack n next_version DRAFT reg rs)\<lparr>tenant_id := ten, created_by := actor c, parent_version := latest\<rparr>;
          (r, rp) = alloc p (repo pl);
          rp = repo_save (fresh c) (now c) r rp;
          saved = pack_at rp r
      in (r, write_audit (audit_entry c ''rule_pack'' (the (pack_id saved)) ''created'' None (Some (pack_summary saved)) None)
               (pl\<lparr>repo := rp\<rparr>)))"

definition update_rule_pack :: "call \<Rightarrow> string \<Rightarrow> int option \<Rightarrow> pack_attr list \<Rightarrow> platform \<Rightarrow> (ref \<times> platform) res" where
  "update_rule_pack c i expected attrs pl =
     (case repo_get_by_id (repo pl) i of
        None \<Rightarrow> Inl (no_such_pack i)
      | Some r0 \<Rightarrow>
          let p = pack_at (repo pl) r0 in
          if status p \<noteq> DRAFT
          then Inl (ValueError (''Cannot modify a '' @ status p @
            '' rule pack -- only Draft packs are editable; create a new version instead''))
          else bindr (update_metadata i expected attrs (repo pl)) (\<lambda>(r, rp).
            Inr (r, write_audit (audit_entry c ''rule_pack'' i ''updated'' (Some (pack_summary p))
              (Some (pack_summary (pack_at rp r))) None) (pl\<lparr>repo := rp\<rparr>))))"

definition soft_delete_rule_pack :: "call \<Rightarrow> string \<Rightarrow> int option \<Rightarrow> platform \<Rightarrow> (ref \<times> platform) res" where
  "soft_delete_rule_pack c i expected pl =
     (case repo_get_by_id (repo pl) i of
        None \<Rightarrow> Inl (no_such_pack i)
      | Some r0 \<Rightarrow>
          let p = pack_at (repo pl) r0 in
          if status p = ACTIVE
          then Inl (ValueError ''Cannot delete the active rule pack -- activate a different version first'')
          else bindr (soft_delete (now c) i expected (repo pl)) (\<lambda>(r, rp).
            Inr (r, write_audit (audit_entry c ''rule_pack'' i ''deleted'' (Some (pack_summary p))
              (Some (pack_summary (pack_at rp r))) (reason c)) (notify (Some i) ''deleted'' (pl\<lparr>repo := rp\<rparr>)))))"

definition publish_rule_pack :: "call \<Rightarrow> string \<Rightarrow> platform \<Rightarrow> (ref \<times> platform) res" where
  "publish_rule_pack c i pl =
     (case repo_get_by_id (repo pl) i of
        None \<Rightarrow> Inl (no_such_pack i)
      | Some r0 \<Rightarrow>
          let p = pack_at (repo pl) r0 in
          if \<not> can_transition (status p) PUBLISHED
          then Inl (ValueError (''Cannot publish a rule pack in status '' @ quoted (status p)))
          else if \<not> is_valid p then Inl (ValueError (''Cannot publish an invalid rule pack: '' @
            join_with ''; '' (map finding_text (validate_rule_pack p))))
          else bindr (update_status i PUBLISHED None (repo pl)) (\<lambda>(r, rp).
            Inr (r, write_audit (audit_entry c ''rule_pack'' i ''published'' (Some (pack_summary p))
              (Some (pack_summary (pack_at rp r))) None) (pl\<lparr>repo := rp\<rparr>))))"

definition activate_rule_pack :: "call \<Rightarrow> string \<Rightarrow> int option \<Rightarrow> platform \<Rightarrow> (ref \<times> platform) res" where
  "activate_rule_pack c i expected pl =
     (case repo_get_by_id (repo pl) i of
        None \<Rightarrow> Inl (no_such_pack i)
      | Some r0 \<Rightarrow>
          let p = pack_at (repo pl) r0 in
          if \<not> can_transition (status p) ACTIVE
          then Inl (ValueError (''Cannot activate a rule pack in status '' @ quoted (status p) @
            '' -- publish it first (or it must be '' @ quoted ''deprecated'' @ '' for a rollback-style re-activation)''))
          else bindr (repo_activate (now c) (pack_name p) (version p) expected (repo pl)) (\<lambda>(r, rp).
            Inr (r, write_audit (audit_entry c ''rule_pack'' i ''activated'' (Some (pack_summary p))
              (Some (pack_summary (pack_at rp r))) (reason c)) (notify (Some i) ''activated'' (pl\<lparr>repo := rp\<rparr>)))))"

definition rollback_rule_pack :: "call \<Rightarrow> string \<Rightarrow> int \<Rightarrow> int option \<Rightarrow> platform \<Rightarrow> (ref \<times> platform) res" where
  "rollback_rule_pack c n current_version expected pl =
     (case repo_get (repo pl) n current_version of
        None \<Rightarrow> Inl (ValueError (''No such rule pack version: '' @ n @ '' v'' @ str_of_int current_version))
      | Some cr \<Rightarrow>
          let current = pack_at (repo pl) cr in
          (case parent_version current of
             None \<Rightarrow> Inl (ValueError (n @ '' v'' @ str_of_int current_version @ '' has no parent version to roll back to''))
           | Some parent \<Rightarrow>
               if expected \<noteq> None \<and> expected \<noteq> Some (lock_version current)
               then Inl (ConcurrentModificationError (n @ '' v'' @ str_of_int current_version @
                 '' was modified by someone else since it was loaded (expected lock_version='' @ str_of_int (the expected) @
                 '', current='' @ str_of_int (lock_version current) @ '') -- reload the latest state and retry the rollback.''))
               else bindr (repo_activate (now c) n parent None (repo pl)) (\<lambda>(r, rp).
                 let rolled_back = pack_at rp r in
                 Inr (r, write_audit (audit_entry c ''rule_pack''
                   (case pack_id rolled_back of None \<Rightarrow> n | Some i \<Rightarrow> if i = [] then n else i) ''rolled_back''
                   (Some [(''name'', PStr n), (''version'', PInt current_version), (''status'', PStr (status (pack_at rp cr)))])
                   (Some [(''name'', PStr n), (''version'', PInt (version rolled_back)), (''status'', PStr (status rolled_back))])
                   (reason c)) (notify (pack_id rolled_back) ''rolled_back'' (pl\<lparr>repo := rp\<rparr>))))))"

definition export_rule_pack :: "string \<Rightarrow> string option \<Rightarrow> platform \<Rightarrow> dict res" where
  "export_rule_pack n reg pl =
     (case repo_get_active (repo pl) n reg of
        None \<Rightarrow> Inl (ValueError (''No active rule pack named '' @ quoted n @ '' for region='' @ opt_repr reg))
      | Some r \<Rightarrow> let p = pack_at (repo pl) r in
          Inr [(''name'', PStr (pack_name p)), (''version'', PInt (version p)), (''region'', opt_val PStr (region p)),
               (''rules'', PList (map (\<lambda>x. PDict (rule_to_json x)) (rules p)))])"

definition rules_of_document :: "dict \<Rightarrow> rule list res" where
  "rules_of_document d =
     bindr (py_iter (dict_get d ''rules'' (PList []))) (mapr (\<lambda>x. bindr (as_dict x) rule_from_json))"

text \<open>\<open>requested_version or ((latest_version or 0) + 1)\<close>\<close>

definition import_version :: "int option \<Rightarrow> int option \<Rightarrow> int" where
  "import_version requested latest =
     (case requested of
        Some v \<Rightarrow> if v \<noteq> 0 then v else (case latest of None \<Rightarrow> 0 | Some l \<Rightarrow> l) + 1
      | None \<Rightarrow> (case latest of None \<Rightarrow> 0 | Some l \<Rightarrow> l) + 1)"

definition save_imported :: "call \<Rightarrow> string \<Rightarrow> int option \<Rightarrow> rule list \<Rightarrow> string option \<Rightarrow> string option \<Rightarrow> platform \<Rightarrow> ref \<times> platform" where
  "save_imported c n requested rs reg ten pl =
     (let latest = latest_version (repo pl) n;
          p = (new_pack n (import_version requested latest) DRAFT reg rs)
            \<lparr>tenant_id := ten, created_by := actor c, parent_version := latest\<rparr>;
          (r, rp) = alloc p (repo pl);
          rp = repo_save (fresh c) (now c) r rp;
          saved = pack_at rp r
      in (r, write_audit (audit_entry c ''rule_pack'' (the (pack_id saved)) ''imported'' None
           (Some (pack_summary saved)) None) (pl\<lparr>repo := rp\<rparr>)))"

definition import_rule_pack :: "call \<Rightarrow> dict \<Rightarrow> platform \<Rightarrow> (ref \<times> platform) res" where
  "import_rule_pack c d pl =
     bindr (bindr (get_item d ''name'') as_str) (\<lambda>n.
     bindr (as_opt as_int (get_none d ''version'')) (\<lambda>requested.
     bindr (rules_of_document d) (\<lambda>rs.
     bindr (as_opt as_str (get_none d ''region'')) (\<lambda>reg.
     bindr (as_opt as_str (get_none d ''tenantId'')) (\<lambda>ten.
       if requested \<noteq> None \<and> repo_get (repo pl) n (the requested) \<noteq> None
       then Inl (ValueError (''Rule pack '' @ quoted n @ '' version '' @ str_of_int (the requested) @
         '' already exists -- import rejected''))
       else Inr (save_imported c n requested rs reg ten pl))))))"

section \<open>Rules of a draft\<close>

definition find_rule :: "pack_repo \<Rightarrow> string \<Rightarrow> (ref \<times> rule) option" where
  "find_rule rp i =
     find (\<lambda>(r, x). rule_id x = Some i)
       (concat (map (\<lambda>r. map (\<lambda>x. (r, x)) (rules (pack_at rp r))) (repo_list_all rp None None True 10000 0)))"

definition create_rule :: "call \<Rightarrow> string \<Rightarrow> string \<Rightarrow> dict \<Rightarrow> platform \<Rightarrow> (rule \<times> platform) res" where
  \<comment> \<open>the second argument is the fresh id of the rule\<close>
  "create_rule c fresh_rule i d pl =
     (case repo_get_by_id (repo pl) i of
        None \<Rightarrow> Inl (no_such_pack i)
      | Some r \<Rightarrow>
          let p = pack_at (repo pl) r in
          if status p \<noteq> DRAFT
          then Inl (ValueError (''Cannot add rules to a '' @ status p @ '' rule pack -- only Draft packs are editable''))
          else bindr (rule_from_json d) (\<lambda>x.
            if list_ex (\<lambda>y. rule_code y = rule_code x) (rules p)
            then Inl (ValueError (''Rule code '' @ quoted (rule_code x) @ '' already exists in rule pack '' @ i))
            else let x = x\<lparr>rule_id := Some fresh_rule\<rparr>;
                     rp = repo_save (fresh c) (now c) r (put_pack r (p\<lparr>rules := rules p @ [x]\<rparr>) (repo pl))
                 in Inr (x, write_audit (audit_entry c ''rule'' fresh_rule ''created'' None (Some (rule_to_json x)) None)
                      (pl\<lparr>repo := rp\<rparr>))))"

definition get_rule :: "string \<Rightarrow> platform \<Rightarrow> rule res" where
  "get_rule i pl =
     (case find_rule (repo pl) i of None \<Rightarrow> Inl (ValueError (''No such rule: '' @ i)) | Some (_, x) \<Rightarrow> Inr x)"

definition list_rules :: "string option \<Rightarrow> string option \<Rightarrow> nat \<Rightarrow> nat \<Rightarrow> platform \<Rightarrow> rule list" where
  "list_rules i fam limit offset pl =
     (let rs = (case i of
            Some j \<Rightarrow> (case repo_get_by_id (repo pl) j of None \<Rightarrow> [] | Some r \<Rightarrow> rules (pack_at (repo pl) r))
          | None \<Rightarrow> concat (map (\<lambda>r. rules (pack_at (repo pl) r)) (repo_list_all (repo pl) None None False 10000 0)));
          rs = (case fam of None \<Rightarrow> rs | Some f \<Rightarrow> filter (\<lambda>x. family x = f) rs)
      in page offset limit rs)"

definition update_rule :: "call \<Rightarrow> string \<Rightarrow> dict \<Rightarrow> platform \<Rightarrow> (rule \<times> platform) res" where
  "update_rule c i d pl =
     (case find_rule (repo pl) i of
        None \<Rightarrow> Inl (ValueError (''No such rule: '' @ i))
      | Some (r, x) \<Rightarrow>
          let p = pack_at (repo pl) r in
          if status p \<noteq> DRAFT
          then Inl (ValueError (''Cannot modify a rule in a '' @ status p @ '' rule pack -- only Draft packs are editable''))
          else let before = rule_to_json x; m = dict_set ''id'' (opt_val PStr (rule_id x)) (dict_update before d) in
            bindr (rule_from_json m) (\<lambda>u.
              let u = u\<lparr>rule_id := rule_id x\<rparr>;
                  rp = repo_save (fresh c) (now c) r
                    (put_pack r (p\<lparr>rules := map (\<lambda>y. if rule_id y = Some i then u else y) (rules p)\<rparr>) (repo pl))
              in Inr (u, write_audit (audit_entry c ''rule'' i ''updated'' (Some before) (Some (rule_to_json u)) None)
                   (pl\<lparr>repo := rp\<rparr>))))"

text \<open>The found rule is the first object with that id; deletion disables that object.\<close>

fun disable_first :: "string \<Rightarrow> rule list \<Rightarrow> rule list" where
  "disable_first i [] = []"
| "disable_first i (x # xs) = (if rule_id x = Some i then x\<lparr>enabled := False\<rparr> # xs else x # disable_first i xs)"

definition delete_rule :: "call \<Rightarrow> string \<Rightarrow> platform \<Rightarrow> (rule \<times> platform) res" where
  "delete_rule c i pl =
     (case find_rule (repo pl) i of
        None \<Rightarrow> Inl (ValueError (''No such rule: '' @ i))
      | Some (r, x) \<Rightarrow>
          let p = pack_at (repo pl) r in
          if status p \<noteq> DRAFT
          then Inl (ValueError (''Cannot delete a rule in a '' @ status p @ '' rule pack -- only Draft packs are editable''))
          else let rp = repo_save (fresh c) (now c) r (put_pack r (p\<lparr>rules := disable_first i (rules p)\<rparr>) (repo pl));
                   x' = x\<lparr>enabled := False\<rparr>
               in Inr (x', write_audit (audit_entry c ''rule'' i ''deleted'' (Some (rule_to_json x)) (Some (rule_to_json x')) (reason c))
                    (pl\<lparr>repo := rp\<rparr>)))"

fun bulk_create_rules :: "call \<Rightarrow> string list \<Rightarrow> string \<Rightarrow> dict list \<Rightarrow> platform \<Rightarrow> rule list res \<times> platform" where
  \<comment> \<open>one fresh rule id per document; the rules created before a failing one stay\<close>
  "bulk_create_rules c ids i [] pl = (Inr [], pl)"
| "bulk_create_rules c ids i (d # ds) pl =
     (case create_rule c (hd ids) i d pl of
        Inl e \<Rightarrow> (Inl e, pl)
      | Inr (x, pl') \<Rightarrow> (case bulk_create_rules c (tl ids) i ds pl' of (m, pl'') \<Rightarrow> (bindr m (\<lambda>xs. Inr (x # xs)), pl'')))"

definition rule_history :: "audit_store \<Rightarrow> string option \<Rightarrow> nat \<Rightarrow> nat \<Rightarrow> audit_log_entry list" where
  "rule_history st i limit offset =
     (case i of Some j \<Rightarrow> audit_list_by_entity st (''rule'', j) | None \<Rightarrow> audit_list_by_entity_type st ''rule'' limit offset)"

fun malformed :: "exn \<Rightarrow> bool" where
  "malformed (KeyError k) = True"
| "malformed TypeError = True"
| "malformed e = is_value_error e"

definition validate_rule :: "rule list \<Rightarrow> dict \<Rightarrow> finding list res" where
  \<comment> \<open>a valid rule has no findings; an exception the code does not catch is \<open>Inl\<close>\<close>
  "validate_rule siblings d =
     (case rule_from_json d of
        Inl e \<Rightarrow> if malformed e then Inr [MalformedPayload e] else Inl e
      | Inr x \<Rightarrow> Inr (validate_rule_pack (new_pack ''__validate__'' 0 DRAFT None (x # siblings))))"

end
