(* ===== verification/Rule_Cache.thy ===== *)
theory Rule_Cache
  imports Lifecycle Orchestrator
begin

text \<open>
  The policy cache of the dynamic rule source: the Redis layer
  (\<open>redis_cache_backend.py\<close>), the local cache in front of it (\<open>rule_cache.py\<close>) and the
  in-process notifier that drives it (\<open>in_memory_cache_refresh_notifier.py\<close>). The Redis
  client is a parameter: what \<open>get\<close> and \<open>set\<close> answer in a state of the server and the
  state they leave. A JSON text stands for the document it encodes. Metrics and log records
  are not modelled.
\<close>

section \<open>The Redis backend\<close>

datatype redis_text = Token string | Json pack_snapshot

record 's redis_client =
  r_get :: "string \<Rightarrow> 's \<Rightarrow> redis_text option res"
  r_set :: "string \<Rightarrow> redis_text \<Rightarrow> int \<Rightarrow> 's \<Rightarrow> unit res \<times> 's"
  r_ping :: "'s \<Rightarrow> bool res"

record redis_config =
  key_prefix :: string
  snapshot_ttl :: int

definition pointer_key :: "redis_config \<Rightarrow> string \<Rightarrow> string" where
  "pointer_key c k = key_prefix c @ '':'' @ k @ '':pointer''"

definition snapshot_key :: "redis_config \<Rightarrow> string \<Rightarrow> string \<Rightarrow> string" where
  "snapshot_key c k token = key_prefix c @ '':'' @ k @ '':snapshot:'' @ token"

definition read_active :: "'s redis_client \<Rightarrow> redis_config \<Rightarrow> string \<Rightarrow> 's \<Rightarrow> pack_snapshot option" where
  \<comment> \<open>every exception is swallowed; a pointer that is not a token and a snapshot that is not
    a document are texts that cannot be decoded as such\<close>
  "read_active cl c k s =
     (case r_get cl (pointer_key c k) s of
        Inr (Some (Token token)) \<Rightarrow>
          (case r_get cl (snapshot_key c k token) s of
             Inr (Some (Json d)) \<Rightarrow> Some d
           | _ \<Rightarrow> None)
      | _ \<Rightarrow> None)"

definition write_active :: "'s redis_client \<Rightarrow> redis_config \<Rightarrow> string \<Rightarrow> string \<Rightarrow> pack_snapshot \<Rightarrow> 's \<Rightarrow> 's" where
  \<comment> \<open>two sets, the snapshot before the pointer; an exception ends the write silently\<close>
  "write_active cl c token k d s =
     (case r_set cl (snapshot_key c k token) (Json d) (snapshot_ttl c) s of
        (Inl e, s) \<Rightarrow> s
      | (Inr _, s) \<Rightarrow> snd (r_set cl (pointer_key c k) (Token token) (snapshot_ttl c) s))"

definition ping :: "'s redis_client \<Rightarrow> 's \<Rightarrow> bool" where
  "ping cl s = (case r_ping cl s of Inl _ \<Rightarrow> False | Inr b \<Rightarrow> b)"

section \<open>The cache\<close>

text \<open>
  \<open>rc_backend\<close> is the Redis client with its configuration, or nothing; \<open>rc_loader\<close> the
  bound loader: what it would answer is given with every event.
\<close>

record 's cache_setup =
  rc_backend :: "('s redis_client \<times> redis_config) option"
  rc_key :: string
  rc_bound :: bool

record 's rule_cache =
  rc_ttl_cache :: "rule_pack ttl_cache"
  rc_last_known_good :: "rule_pack option"
  rc_server :: 's

definition distributed_read :: "'s cache_setup \<Rightarrow> 's rule_cache \<Rightarrow> rule_pack option" where
  "distributed_read cf st =
     (case rc_backend cf of
        None \<Rightarrow> None
      | Some (cl, c) \<Rightarrow>
          (case read_active cl c (rc_key cf) (rc_server st) of
             None \<Rightarrow> None
           | Some d \<Rightarrow> the_res (rule_pack_from_snapshot d)))"

definition distributed_write :: "'s cache_setup \<Rightarrow> string \<Rightarrow> rule_pack \<Rightarrow> 's rule_cache \<Rightarrow> 's rule_cache" where
  "distributed_write cf token p st =
     (case rc_backend cf of
        None \<Rightarrow> st
      | Some (cl, c) \<Rightarrow> st\<lparr>rc_server := write_active cl c token (rc_key cf) (rule_pack_to_snapshot p) (rc_server st)\<rparr>)"

definition load_from_source_and_propagate ::
  "'s cache_setup \<Rightarrow> string \<Rightarrow> rule_pack res \<Rightarrow> 's rule_cache \<Rightarrow> rule_pack res \<times> 's rule_cache" where
  "load_from_source_and_propagate cf token loader st =
     (case loader of
        Inl e \<Rightarrow> (case rc_last_known_good st of Some p \<Rightarrow> (Inr p, st) | None \<Rightarrow> (Inl e, st))
      | Inr p \<Rightarrow> (Inr p, distributed_write cf token p (st\<lparr>rc_last_known_good := Some p\<rparr>)))"

definition resolve_for_get ::
  "'s cache_setup \<Rightarrow> string \<Rightarrow> rule_pack res \<Rightarrow> 's rule_cache \<Rightarrow> rule_pack res \<times> 's rule_cache" where
  "resolve_for_get cf token loader st =
     (case distributed_read cf st of
        Some p \<Rightarrow> (Inr p, st\<lparr>rc_last_known_good := Some p\<rparr>)
      | None \<Rightarrow> load_from_source_and_propagate cf token loader st)"

definition rule_cache_get ::
  "'s cache_setup \<Rightarrow> fl \<Rightarrow> string \<Rightarrow> rule_pack res \<Rightarrow> 's rule_cache \<Rightarrow> rule_pack option res \<times> 's rule_cache" where
  \<comment> \<open>the resolution runs as the loader of the local cache, only when that is stale\<close>
  "rule_cache_get cf t token loader st =
     (if cache_stale t (rc_ttl_cache st)
      then (case resolve_for_get cf token loader st of (m, st') \<Rightarrow>
              (case cache_get t (bindr m (\<lambda>p. Inr (Some p))) (rc_ttl_cache st') of (r, c) \<Rightarrow>
                 (r, st'\<lparr>rc_ttl_cache := c\<rparr>)))
      else (Inr (cached (rc_ttl_cache st)), st))"

definition rule_cache_warmup where
  "rule_cache_warmup = rule_cache_get"

definition rule_cache_refresh ::
  "'s cache_setup \<Rightarrow> fl \<Rightarrow> string \<Rightarrow> rule_pack res \<Rightarrow> 's rule_cache \<Rightarrow> rule_pack res \<times> 's rule_cache" where
  "rule_cache_refresh cf t token loader st =
     (case load_from_source_and_propagate cf token loader st of
        (Inl e, st) \<Rightarrow> (Inl e, st)
      | (Inr p, st) \<Rightarrow> (Inr p, st\<lparr>rc_ttl_cache := cache_set t (Some p) (rc_ttl_cache st)\<rparr>))"

definition rule_cache_reload :: "'s rule_cache \<Rightarrow> 's rule_cache" where
  "rule_cache_reload st = st\<lparr>rc_ttl_cache := cache_reload (rc_ttl_cache st)\<rparr>"

definition rule_cache_invalidate :: "'s rule_cache \<Rightarrow> 's rule_cache" where
  "rule_cache_invalidate st = st\<lparr>rc_ttl_cache := cache_invalidate (rc_ttl_cache st)\<rparr>"

definition on_event ::
  "'s cache_setup \<Rightarrow> fl \<Rightarrow> string \<Rightarrow> rule_pack res \<Rightarrow> refresh_event \<Rightarrow> 's rule_cache \<Rightarrow> 's rule_cache" where
  "on_event cf t token loader e st =
     (if ev_entity_type e \<notin> {''rule_pack'', ''rule''} then st
      else if \<not> rc_bound cf then rule_cache_reload st
      else snd (rule_cache_refresh cf t token loader st))"

record cache_status =
  cs_local_warm :: bool
  cs_active_version :: "int option"
  cs_activated_at :: "instant option"
  cs_configured :: bool
  cs_reachable :: "bool option"
  cs_has_last_known_good :: bool

definition rule_cache_status :: "'s cache_setup \<Rightarrow> 's rule_cache \<Rightarrow> cache_status" where
  "rule_cache_status cf st =
     (let p = cache_peek (rc_ttl_cache st) in
      \<lparr>cs_local_warm = (p \<noteq> None), cs_active_version = map_option version p,
       cs_activated_at = (case p of None \<Rightarrow> None | Some q \<Rightarrow> activated_at q),
       cs_configured = (rc_backend cf \<noteq> None),
       cs_reachable = map_option (\<lambda>(cl, _). ping cl (rc_server st)) (rc_backend cf),
       cs_has_last_known_good = (rc_last_known_good st \<noteq> None)\<rparr>)"

section \<open>The notifier\<close>

text \<open>Handlers are called in the order of their subscription.\<close>

definition subscribe :: "(refresh_event \<Rightarrow> 'w \<Rightarrow> 'w) \<Rightarrow> (refresh_event \<Rightarrow> 'w \<Rightarrow> 'w) list \<Rightarrow> (refresh_event \<Rightarrow> 'w \<Rightarrow> 'w) list" where
  "subscribe h hs = hs @ [h]"

definition publish :: "(refresh_event \<Rightarrow> 'w \<Rightarrow> 'w) list \<Rightarrow> refresh_event \<Rightarrow> 'w \<Rightarrow> 'w" where
  "publish hs e w = foldl (\<lambda>w h. h e w) w hs"

end
