(* ===== verification/Cache_Properties.thy ===== *)
theory Cache_Properties
  imports Rule_Cache
begin

text \<open>
  What the policy cache guarantees: a pack that went through the distributed cache decides
  as the pack it was made from, the two-step write never shows a reader a missing or mixed
  snapshot, and a cache that served once keeps serving.
\<close>

section \<open>Decisions from a cached pack\<close>

text \<open>
  \<open>json_normal\<close> is what a trip through JSON makes of a rule. The pipeline does not read
  the id of a rule, and an empty exceptions tree vetoes nothing.
\<close>

lemma json_normal_fields [simp]:
  "rule_code (json_normal r) = rule_code r" "rule_name (json_normal r) = rule_name r" "family (json_normal r) = family r"
  "family_order (json_normal r) = family_order r" "priority_weight (json_normal r) = priority_weight r"
  "severity_band (json_normal r) = severity_band r" "contribution_score (json_normal r) = contribution_score r"
  "conditions (json_normal r) = conditions r" "conflict_group (json_normal r) = conflict_group r"
  "is_suppressor (json_normal r) = is_suppressor r" "non_suppressible (json_normal r) = non_suppressible r"
  "actions (json_normal r) = actions r" "mitigations (json_normal r) = mitigations r" "sequencing (json_normal r) = sequencing r"
  by (simp_all add: json_normal_def)

lemma falsy_exception: "\<not> py_bool t \<Longrightarrow> is_satisfied_by t data = Inr False"
  by (cases t) (auto simp: is_satisfied_by_def engine_evaluate_def)

lemma vetoed_normal [simp]: "vetoed (json_normal r) data = vetoed r data"
  by (auto simp: vetoed_def json_normal_def falsy_exception split: option.splits)

lemma insort_key_map: "insort_key f (h x) (map h xs) = map h (insort_key (f \<circ> h) x xs)"
  by (induction xs) auto

lemma sort_key_map: "sort_key f (map h xs) = map h (sort_key (f \<circ> h) xs)"
  by (induction xs) (simp_all add: insort_key_map del: o_apply)

lemma active_rules_normal: "active_rules (p\<lparr>rules := map json_normal (rules p)\<rparr>) fam = map json_normal (active_rules p fam)"
proof -
  have "evaluation_key \<circ> json_normal = evaluation_key" by (rule ext) (simp add: evaluation_key_def)
  then show ?thesis by (cases fam) (simp_all add: active_rules_def filter_map comp_def sort_key_map)
qed

lemma policy_loop_normal:
  "foldr_res (policy_step data) (map json_normal rs) (map json_normal m, rj) =
   bindr (foldr_res (policy_step data) rs (m, rj)) (\<lambda>(m, rj). Inr (map json_normal m, rj))"
proof (induction rs arbitrary: m rj)
  case (Cons r rs)
  have step: "policy_step data (json_normal r) (map json_normal m, rj) =
      bindr (policy_step data r (m, rj)) (\<lambda>(m, rj). Inr (map json_normal m, rj))"
    by (auto simp: policy_step_def rejection_def split: prod.splits sum.splits if_splits simp: bindr_def)
  show ?case
  proof (cases "policy_step data r (m, rj)")
    case (Inr st)
    then show ?thesis using Cons [of "fst st" "snd st"] by (cases st) (simp add: step)
  qed (simp add: step)
qed simp

abbreviation on_writers :: "(string \<times> rule list) list \<Rightarrow> (string \<times> rule list) list" where
  "on_writers fw \<equiv> map (\<lambda>(k, ws). (k, map json_normal ws)) fw"

lemma dict_append_normal: "dict_append k (json_normal r) (on_writers fw) = on_writers (dict_append k r fw)"
proof -
  have "dict_get (on_writers fw) k [] = map json_normal (dict_get fw k [])"
    by (induction fw) (auto simp: dict_get_simps)
  note get = this
  have "dict_set k (map json_normal ws) (on_writers fw) = on_writers (dict_set k ws fw)" for ws
    by (induction fw) auto
  from get this [of "dict_get fw k [] @ [r]"] show ?thesis by (simp add: dict_append_def)
qed

lemma field_writers_normal: "field_writers (map json_normal m) = on_writers (field_writers m)"
proof -
  have "foldl (\<lambda>fw f. if f \<in> set modifier_fields then fw else dict_append f (json_normal r) fw) (on_writers fw) ks =
      on_writers (foldl (\<lambda>fw f. if f \<in> set modifier_fields then fw else dict_append f r fw) fw ks)" for r fw ks
    by (induction ks arbitrary: fw) (simp_all add: dict_append_normal)
  then have "foldl (\<lambda>fw r. add_writer r fw) (on_writers fw) (map json_normal m) = on_writers (foldl (\<lambda>fw r. add_writer r fw) fw m)" for fw
    by (induction m arbitrary: fw) (simp_all add: add_writer_def)
  from this [of "[]"] show ?thesis by (simp add: field_writers_def)
qed

lemma enumerate_normal: "enumerate n (map json_normal rs) = map (apsnd json_normal) (enumerate n rs)"
  by (induction rs arbitrary: n) auto

lemma suppression_normal:
  "apply_suppression f (map json_normal ws) = map_prod (map json_normal) id (apply_suppression f ws)"
proof -
  have "filter (\<lambda>(_, r). is_suppressor r) (enumerate 0 (map json_normal ws)) =
      map (apsnd json_normal) (filter (\<lambda>(_, r). is_suppressor r) (enumerate 0 ws))"
    by (simp add: enumerate_normal filter_map comp_def case_prod_unfold)
  then show ?thesis
    by (cases "filter (\<lambda>(_, r). is_suppressor r) (enumerate 0 ws)")
      (simp_all add: apply_suppression_def Let_def filter_map enumerate_normal comp_def case_prod_unfold max_by_map)
qed

lemma min_by_map: "min_by f (h x) (map h ys) = h (min_by (f \<circ> h) x ys)"
  by (induction ys arbitrary: x) auto

lemma heaviest_normal: "heaviest (map (apsnd json_normal) cs) = map (apsnd json_normal) (heaviest cs)"
  by (simp add: heaviest_def filter_map comp_def case_prod_unfold split: list.split)

lemma keyed_map: "(\<And>x. key (h x) = key x) \<Longrightarrow> keyed key (map h xs) = bindr (keyed key xs) (\<lambda>kvs. Inr (map (apsnd h) kvs))"
  by (induction xs) (auto simp: keyed_def bindr_def split: sum.splits)

lemma most_specific_normal:
  "most_specific (map (apsnd json_normal) cs) =
   bindr (most_specific cs) (\<lambda>xs. Inr (map (apsnd json_normal) xs))"
  by (subst most_specific_def, subst keyed_map)
    (auto simp: most_specific_def case_prod_unfold comp_def filter_map bindr_def split: sum.splits list.split)

definition pick_winner :: "string \<Rightarrow> (nat \<times> rule) list \<Rightarrow> (nat \<times> rule) list \<Rightarrow> (rule \<times> suppression list) res" where
  "pick_winner f cs best =
     (case best of
        [] \<Rightarrow> Inl IndexError
      | t # ts \<Rightarrow>
          let winner = min_by (\<lambda>(_, r). rule_code r) t ts
          in Inr (snd winner,
               map (\<lambda>(_, r). \<lparr>s_rule_code = rule_code r, s_field = f, s_reason = ''lost conflict group to '' @ rule_code (snd winner)\<rparr>)
                 (filter (\<lambda>(i, _). i \<noteq> fst winner) cs)))"

lemma pick_winner_normal:
  "pick_winner f (map (apsnd json_normal) cs) (map (apsnd json_normal) best) =
   bindr (pick_winner f cs best) (\<lambda>(w, l). Inr (json_normal w, l))"
  by (cases best) (simp_all add: pick_winner_def Let_def filter_map comp_def case_prod_unfold min_by_map)

lemma conflict_group_pick:
  "resolve_conflict_group f cs =
   bindr (if 1 < length (heaviest (enumerate 0 cs)) then most_specific (heaviest (enumerate 0 cs)) else Inr (heaviest (enumerate 0 cs)))
     (pick_winner f (enumerate 0 cs))"
  unfolding resolve_conflict_group_def pick_winner_def [abs_def] Let_def by (rule refl)

lemma conflict_group_normal:
  "resolve_conflict_group f (map json_normal cs) = bindr (resolve_conflict_group f cs) (\<lambda>(w, l). Inr (json_normal w, l))"
  by (simp add: conflict_group_pick enumerate_normal heaviest_normal most_specific_normal bindr_assoc pick_winner_normal)

lemma field_value_normal [simp]: "field_value f (json_normal r) = field_value f r"
  by (simp add: field_value_def)

lemma merge_field_normal: "merge_field f (map json_normal cs) = merge_field f cs"
  by (cases cs) (simp_all add: merge_field_def comp_def max_by_map Let_def)

lemma resolve_field_normal: "resolve_field f (map json_normal ws) = resolve_field f ws"
proof -
  obtain eff logged where s: "apply_suppression f ws = (eff, logged)" by fastforce
  show ?thesis
  proof (cases eff)
    case (Cons e es)
    have "resolve_conflict_group f (json_normal e # map json_normal es) =
        bindr (resolve_conflict_group f (e # es)) (\<lambda>(w, l). Inr (json_normal w, l))"
      using conflict_group_normal [of f "e # es"] by simp
    moreover have "merge_field f (json_normal e # map json_normal es) = merge_field f (e # es)"
      using merge_field_normal [of f "e # es"] by simp
    ultimately show ?thesis
      by (simp add: resolve_field_def suppression_normal s Cons list_all_iff bindr_assoc case_prod_unfold)
  qed (simp add: resolve_field_def suppression_normal s)
qed

lemma resolve_fields_normal: "resolve_fields (on_writers fws) st = resolve_fields fws st"
proof (induction fws arbitrary: st)
  case (Cons fw fws)
  then show ?case by (cases fw; cases st) (simp add: resolve_field_normal)
qed (cases st, simp)

lemma resolve_normal: "resolve (map json_normal m) = resolve m"
proof -
  have "priority_floors (map json_normal m) = priority_floors m" "bump_count (map json_normal m) = bump_count m"
    by (simp_all add: priority_floors_def bump_count_def filter_map comp_def)
  then have "apply_priority_postprocessing acts (map json_normal m) = apply_priority_postprocessing acts m" for acts
    by (simp only: apply_priority_postprocessing_def)
  moreover have "foldl (\<lambda>m r. foldl merge_mitigation m (mitigations r)) d (map json_normal m) =
      foldl (\<lambda>m r. foldl merge_mitigation m (mitigations r)) d m" for d
    by (induction m arbitrary: d) simp_all
  ultimately show ?thesis
    by (simp add: resolve_def field_writers_normal resolve_fields_normal merge_mitigations_def)
qed

lemma compliance_normal: "foldr_res (compliance_step data) (map json_normal rs) st = foldr_res (compliance_step data) rs st"
proof (induction rs arbitrary: st)
  case (Cons r rs)
  have "compliance_step data (json_normal r) st = compliance_step data r st" by (simp add: compliance_step_def cong: if_cong)
  then show ?case using Cons by (cases "compliance_step data r st") simp_all
qed simp

lemma plan_normal: "build_plan acts (map json_normal m) = build_plan acts m"
proof -
  have "foldr_res sequencing_step (map json_normal rs) st = foldr_res sequencing_step rs st" for rs st
  proof (induction rs arbitrary: st)
    case (Cons r rs)
    have "sequencing_step (json_normal r) st = sequencing_step r st" by (simp add: sequencing_step_def Let_def cong: if_cong)
    then show ?case using Cons by (cases "sequencing_step r st") simp_all
  qed simp
  moreover have "has_sequencing (json_normal r) = has_sequencing r" for r by (simp add: has_sequencing_def)
  ultimately show ?thesis by (simp add: build_plan_def filter_map comp_def)
qed

lemma contribution_normal [simp]: "contribution (json_normal r) = contribution r"
  by (simp add: contribution_def)

lemma trace_normal:
  "risk_score (map json_normal m) codes = risk_score m codes" "matched_trace (map json_normal m) = matched_trace m"
  "explanation (map json_normal m) score band acts = explanation m score band acts"
  by (simp_all add: risk_score_def matched_trace_def explanation_def filter_map comp_def)

lemma run_normal: "run matrix t inc (p\<lparr>rules := map json_normal (rules p)\<rparr>) = run matrix t inc p"
proof -
  have "policy_evaluate (p\<lparr>rules := map json_normal (rules p)\<rparr>) inc =
      bindr (policy_evaluate p inc) (\<lambda>(m, rj). Inr (map json_normal m, rj))"
    using policy_loop_normal [of "as_evaluation_data inc" "active_rules p None" "[]" "[]"]
    by (simp add: policy_evaluate_def active_rules_normal)
  moreover have "compliance_apply (p\<lparr>rules := map json_normal (rules p)\<rparr>) inc acts = compliance_apply p inc acts" for acts
    by (simp add: compliance_apply_def active_rules_normal compliance_normal)
  ultimately show ?thesis
    by (simp add: run_def bindr_assoc case_prod_unfold resolve_normal trace_normal plan_normal)
qed

text \<open>
  Property C6: the distributed cache is transparent: the pack read back from its snapshot
  takes on every incident exactly the decision the stored pack takes, exceptions and order
  of evaluation included.
\<close>
theorem cached_pack_decides_alike:
  "bindr (rule_pack_from_snapshot (rule_pack_to_snapshot p)) (run matrix t inc) = run matrix t inc p"
proof -
  have "run matrix t inc (p\<lparr>rules := map json_normal (rules p), deleted_at := None, lock_version := 1\<rparr>) =
      run matrix t inc (p\<lparr>rules := map json_normal (rules p)\<rparr>)"
    by (rule run_pack_cong) (simp add: active_rules_def)
  then show ?thesis by (simp add: snapshot_round_trip run_normal)
qed

section \<open>The two-step write\<close>

text \<open>
  What the code relies on of the Redis commands: a \<open>SET\<close> that succeeds stores the value
  under its key and touches no other; one that fails stores nothing.
\<close>

definition redis_laws :: "'s redis_client \<Rightarrow> bool" where
  "redis_laws cl \<longleftrightarrow> (\<forall>k v ttl s. case r_set cl k v ttl s of
     (Inl _, s') \<Rightarrow> s' = s
   | (Inr _, s') \<Rightarrow> (\<forall>k'. r_get cl k' s' = (if k' = k then Inr (Some v) else r_get cl k' s)))"

lemma redis_set:
  fixes k k' :: string
  assumes "redis_laws cl" and "r_set cl k v ttl s = (m, s')"
  shows "is_ok m \<Longrightarrow> r_get cl k' s' = (if k' = k then Inr (Some v) else r_get cl k' s)"
    and "\<not> is_ok m \<Longrightarrow> s' = s"
proof -
  from assms(1) have law: "case r_set cl k v ttl s of (Inl _, s') \<Rightarrow> s' = s
      | (Inr _, s') \<Rightarrow> (\<forall>k'. r_get cl k' s' = (if k' = k then Inr (Some v) else r_get cl k' s))"
    unfolding redis_laws_def by (elim allE)
  show "is_ok m \<Longrightarrow> r_get cl k' s' = (if k' = k then Inr (Some v) else r_get cl k' s)"
    using law assms(2) by (cases m) simp_all
  show "\<not> is_ok m \<Longrightarrow> s' = s" using law assms(2) by (cases m) simp_all
qed

lemma keys_differ: "pointer_key c k \<noteq> snapshot_key c k token"
  by (simp add: pointer_key_def snapshot_key_def)

lemma snapshot_key_inj: "snapshot_key c k token = snapshot_key c k token' \<longleftrightarrow> token = token'"
  by (simp add: snapshot_key_def)

definition unused_token :: "'s redis_client \<Rightarrow> redis_config \<Rightarrow> string \<Rightarrow> string \<Rightarrow> 's \<Rightarrow> bool" where
  "unused_token cl c k token s \<longleftrightarrow> r_get cl (pointer_key c k) s \<noteq> Inr (Some (Token token))"

text \<open>
  Property C30: a reader never sees a half-written policy: after the first of the two
  \<open>SET\<close>s of a write every reader still gets the previous snapshot, and after the write
  the previous or the new one, the new one when both commands succeeded.
\<close>
theorem pointer_swap_is_atomic:
  assumes laws: "redis_laws cl" and fresh: "unused_token cl c k token s"
    and first: "r_set cl (snapshot_key c k token) (Json d) (snapshot_ttl c) s = (m1, s1)"
    and second: "r_set cl (pointer_key c k) (Token token) (snapshot_ttl c) s1 = (m2, s2)"
  shows "read_active cl c k s1 = read_active cl c k s \<and>
    read_active cl c k (write_active cl c token k d s) \<in> {read_active cl c k s, Some d} \<and>
    (is_ok m1 \<and> is_ok m2 \<longrightarrow> read_active cl c k (write_active cl c token k d s) = Some d)"
proof -
  have s1: "read_active cl c k s1 = read_active cl c k s"
  proof (cases "is_ok m1")
    case True
    note g = redis_set(1) [OF laws first True]
    show ?thesis
      using fresh by (auto simp: read_active_def g keys_differ snapshot_key_inj unused_token_def
          split: sum.splits option.splits redis_text.splits)
  next
    case False
    then show ?thesis using redis_set(2) [OF laws first] by simp
  qed
  have s2: "read_active cl c k s2 = (if is_ok m2 then Some d else read_active cl c k s1)" if "is_ok m1"
  proof (cases "is_ok m2")
    case True
    have "r_get cl (snapshot_key c k token) s2 = Inr (Some (Json d))"
      using redis_set(1) [OF laws second True] redis_set(1) [OF laws first \<open>is_ok m1\<close>] keys_differ [of c k token] by simp
    then show ?thesis using redis_set(1) [OF laws second True] True by (simp add: read_active_def)
  next
    case False
    then show ?thesis using redis_set(2) [OF laws second] by simp
  qed
  have "write_active cl c token k d s = (if is_ok m1 then s2 else s1)"
    using first second by (cases m1) (simp_all add: write_active_def)
  then show ?thesis using s1 s2 by auto
qed

text \<open>The example client: a server that is a dictionary and always reachable.\<close>

definition w_client :: "(string \<times> redis_text) list redis_client" where
  "w_client = \<lparr>r_get = \<lambda>k s. Inr (map_of s k), r_set = \<lambda>k v _ s. (Inr (), dict_set k v s), r_ping = \<lambda>_. Inr True\<rparr>"

definition w_config :: redis_config where "w_config = \<lparr>key_prefix = ''decisiox:rulecache'', snapshot_ttl = 3600\<rparr>"

lemma w_client_laws: "redis_laws w_client"
  by (simp add: redis_laws_def w_client_def)

lemma pointer_swap_is_atomic_witness:
  "read_active w_client w_config ''noc'' (write_active w_client w_config ''t1'' ''noc''
      (rule_pack_to_snapshot (new_pack ''p'' 1 ACTIVE None [])) []) = Some (rule_pack_to_snapshot (new_pack ''p'' 1 ACTIVE None []))"
proof -
  have "unused_token w_client w_config ''noc'' ''t1'' []" by (simp add: unused_token_def w_client_def)
  from pointer_swap_is_atomic [OF w_client_laws this prod.collapse [symmetric] prod.collapse [symmetric]] show ?thesis
    by (simp add: w_client_def)
qed

section \<open>Availability\<close>

text \<open>The ways a cache is used, each with what the loader would answer at that time.\<close>

datatype cache_use = UGet fl string "rule_pack res" | URefresh fl string "rule_pack res" | UEvent fl string "rule_pack res" refresh_event
  | UReload | UInvalidate

fun cache_answer :: "'s cache_setup \<Rightarrow> cache_use \<Rightarrow> 's rule_cache \<Rightarrow> rule_pack option res" where
  "cache_answer cf (UGet t token loader) st = fst (rule_cache_get cf t token loader st)"
| "cache_answer cf (URefresh t token loader) st = bindr (fst (rule_cache_refresh cf t token loader st)) (\<lambda>p. Inr (Some p))"
| "cache_answer cf _ st = Inr None"

fun cache_after :: "'s cache_setup \<Rightarrow> cache_use \<Rightarrow> 's rule_cache \<Rightarrow> 's rule_cache" where
  "cache_after cf (UGet t token loader) st = snd (rule_cache_get cf t token loader st)"
| "cache_after cf (URefresh t token loader) st = snd (rule_cache_refresh cf t token loader st)"
| "cache_after cf (UEvent t token loader e) st = on_event cf t token loader e st"
| "cache_after cf UReload st = rule_cache_reload st"
| "cache_after cf UInvalidate st = rule_cache_invalidate st"

lemma distributed_write_fields [simp]:
  "rc_last_known_good (distributed_write cf token p st) = rc_last_known_good st"
  "rc_ttl_cache (distributed_write cf token p st) = rc_ttl_cache st"
  by (auto simp: distributed_write_def split: option.splits prod.splits)

lemma load_keeps_good:
  assumes "load_from_source_and_propagate cf token loader st = (m, st')" and "rc_last_known_good st \<noteq> None"
  shows "is_ok m \<and> rc_last_known_good st' \<noteq> None \<and> rc_ttl_cache st' = rc_ttl_cache st"
  using assms by (auto simp: load_from_source_and_propagate_def split: sum.splits option.splits)

lemma resolve_keeps_good:
  assumes "resolve_for_get cf token loader st = (m, st')" and "rc_last_known_good st \<noteq> None"
  shows "is_ok m \<and> rc_last_known_good st' \<noteq> None \<and> rc_ttl_cache st' = rc_ttl_cache st"
  using assms load_keeps_good [of cf token loader st m st'] by (auto simp: resolve_for_get_def split: option.splits)

lemma refresh_keeps_good:
  assumes "rule_cache_refresh cf t token loader st = (m, st')" and "rc_last_known_good st \<noteq> None"
  shows "is_ok m \<and> rc_last_known_good st' \<noteq> None"
proof -
  obtain m1 st1 where l: "load_from_source_and_propagate cf token loader st = (m1, st1)" by fastforce
  show ?thesis using assms(1) load_keeps_good [OF l assms(2)] by (cases m1) (auto simp: rule_cache_refresh_def l)
qed

lemma get_keeps_good:
  assumes "rule_cache_get cf t token loader st = (m, st')" and "rc_last_known_good st \<noteq> None"
  shows "(\<exists>p. m = Inr (Some p)) \<and> rc_last_known_good st' \<noteq> None"
proof (cases "cache_stale t (rc_ttl_cache st)")
  case True
  obtain m1 st1 where l: "resolve_for_get cf token loader st = (m1, st1)" by fastforce
  show ?thesis
    using assms(1) resolve_keeps_good [OF l assms(2)] True
    by (cases m1) (auto simp: rule_cache_get_def l cache_get_def)
next
  case False
  then show ?thesis using assms by (auto simp: rule_cache_get_def cache_stale_def)
qed

lemma use_keeps_good:
  assumes "rc_last_known_good st \<noteq> None"
  shows "is_ok (cache_answer cf u st) \<and> rc_last_known_good (cache_after cf u st) \<noteq> None"
proof (cases u)
  case (UGet t token loader)
  obtain m st' where "rule_cache_get cf t token loader st = (m, st')" by fastforce
  with get_keeps_good [OF this assms] UGet show ?thesis by auto
next
  case (URefresh t token loader)
  obtain m st' where "rule_cache_refresh cf t token loader st = (m, st')" by fastforce
  with refresh_keeps_good [OF this assms] URefresh show ?thesis by (cases m) auto
next
  case (UEvent t token loader e)
  obtain m st' where "rule_cache_refresh cf t token loader st = (m, st')" by fastforce
  with refresh_keeps_good [OF this assms] UEvent assms show ?thesis by (auto simp: on_event_def rule_cache_reload_def)
qed (use assms in \<open>simp_all add: rule_cache_reload_def rule_cache_invalidate_def\<close>)

text \<open>
  Property C31: a cache that has served once keeps serving: once a pack has been loaded, no
  later read or refresh raises, whatever sequence of reads, refreshes, events and
  invalidations comes in between and however the loader, Redis or both fail.
\<close>
theorem cache_keeps_serving:
  assumes "rc_last_known_good st \<noteq> None"
  shows "is_ok (cache_answer cf u (foldl (\<lambda>st u. cache_after cf u st) st us)) \<and>
    (\<exists>p. fst (rule_cache_get cf t token loader (foldl (\<lambda>st u. cache_after cf u st) st us)) = Inr (Some p))"
proof -
  have good: "rc_last_known_good (foldl (\<lambda>st u. cache_after cf u st) st us) \<noteq> None"
  proof (induction us rule: rev_induct)
    case (snoc u us)
    from use_keeps_good [OF snoc, of cf u] show ?case by simp
  qed (simp add: assms)
  let ?st = "foldl (\<lambda>st u. cache_after cf u st) st us"
  obtain m st' where "rule_cache_get cf t token loader ?st = (m, st')" by fastforce
  with get_keeps_good [OF this good] use_keeps_good [OF good] show ?thesis by simp
qed

definition w_cache :: "(string \<times> redis_text) list rule_cache" where
  "w_cache = \<lparr>rc_ttl_cache = new_cache (Fin 10), rc_last_known_good = Some (new_pack ''p'' 1 ACTIVE None []), rc_server = []\<rparr>"

definition w_cache_setup :: "(string \<times> redis_text) list cache_setup" where
  "w_cache_setup = \<lparr>rc_backend = Some (w_client, w_config), rc_key = ''noc'', rc_bound = True\<rparr>"

lemma cache_keeps_serving_witness:
  "\<exists>p. fst (rule_cache_get w_cache_setup (Fin 99) ''t'' (Inl (LookupError [])) (foldl (\<lambda>st u. cache_after w_cache_setup u st) w_cache
     [UInvalidate, URefresh (Fin 1) ''u'' (Inl (LookupError []))])) = Inr (Some p)"
proof -
  have "rc_last_known_good w_cache \<noteq> None" by (simp add: w_cache_def)
  from cache_keeps_serving [OF this] show ?thesis by blast
qed

section \<open>What an event does\<close>

text \<open>
  An event reaches the cache at once when the source can be read: the new pack
  is served by this process for the time to live, and is what every reader of the shared
  layer gets. When the source cannot be read the event is lost: the previous pack is served
  as if fresh, and a snapshot left in the shared layer hides the source from later reads even
  after the source is back.
\<close>
theorem event_effect_on_the_cache:
  assumes cf: "rc_backend cf = Some (cl, c)" "rc_bound cf" and e: "ev_entity_type e = ''rule_pack''"
    and laws: "redis_laws cl" and up: "\<And>k v ttl s. is_ok (fst (r_set cl k v ttl s))"
    and fresh: "unused_token cl c (rc_key cf) token (rc_server st)"
  shows "(let st' = on_event cf t token (Inr p) e st in
      cached (rc_ttl_cache st') = Some p \<and> rc_last_known_good st' = Some p \<and>
      (\<not> fl_less (ttl_seconds (rc_ttl_cache st)) (fl_sub t' t) \<longrightarrow> fst (rule_cache_get cf t' tk loader st') = Inr (Some p)) \<and>
      distributed_read cf st' = the_res (rule_pack_from_snapshot (rule_pack_to_snapshot p))) \<and>
    (rc_last_known_good st = Some old \<longrightarrow> (let st' = on_event cf t token (Inl x) e st in
      cached (rc_ttl_cache st') = Some old \<and> loaded_at (rc_ttl_cache st') = t \<and> rc_server st' = rc_server st)) \<and>
    (distributed_read cf st = Some old \<and> cache_stale t (rc_ttl_cache st) \<longrightarrow>
      fst (rule_cache_get cf t token (Inr p) st) = Inr (Some old))"
proof (intro conjI impI)
  let ?d = "rule_pack_to_snapshot p"
  let ?st = "on_event cf t token (Inr p) e st"
  have st: "?st = (distributed_write cf token p (st\<lparr>rc_last_known_good := Some p\<rparr>))
      \<lparr>rc_ttl_cache := cache_set t (Some p) (rc_ttl_cache st)\<rparr>"
    using cf e by (simp add: on_event_def rule_cache_refresh_def load_from_source_and_propagate_def)
  obtain m1 s1 where f: "r_set cl (snapshot_key c (rc_key cf) token) (Json ?d) (snapshot_ttl c) (rc_server st) = (m1, s1)" by fastforce
  obtain m2 s2 where s: "r_set cl (pointer_key c (rc_key cf)) (Token token) (snapshot_ttl c) s1 = (m2, s2)" by fastforce
  have "is_ok m1" "is_ok m2" using up f s by (metis fst_conv)+
  then have "s2 = write_active cl c token (rc_key cf) ?d (rc_server st)"
    using f s by (cases m1) (simp_all add: write_active_def)
  moreover have "r_get cl (pointer_key c (rc_key cf)) s2 = Inr (Some (Token token))"
    "r_get cl (snapshot_key c (rc_key cf) token) s2 = Inr (Some (Json ?d))"
    using redis_set(1) [OF laws s \<open>is_ok m2\<close>] redis_set(1) [OF laws f \<open>is_ok m1\<close>] keys_differ [of c "rc_key cf" token] by simp_all
  ultimately have read: "read_active cl c (rc_key cf) (write_active cl c token (rc_key cf) ?d (rc_server st)) = Some ?d"
    by (simp add: read_active_def)
  show "let st' = ?st in cached (rc_ttl_cache st') = Some p \<and> rc_last_known_good st' = Some p \<and>
      (\<not> fl_less (ttl_seconds (rc_ttl_cache st)) (fl_sub t' t) \<longrightarrow> fst (rule_cache_get cf t' tk loader st') = Inr (Some p)) \<and>
      distributed_read cf st' = the_res (rule_pack_from_snapshot ?d)"
    using cf(1) read by (simp add: st Let_def cache_set_def rule_cache_get_def cache_stale_def distributed_read_def distributed_write_def)
  show "let st' = on_event cf t token (Inl x) e st in
      cached (rc_ttl_cache st') = Some old \<and> loaded_at (rc_ttl_cache st') = t \<and> rc_server st' = rc_server st"
    if "rc_last_known_good st = Some old"
    using cf e that by (simp add: on_event_def rule_cache_refresh_def load_from_source_and_propagate_def cache_set_def Let_def)
  show "fst (rule_cache_get cf t token (Inr p) st) = Inr (Some old)"
    if "distributed_read cf st = Some old \<and> cache_stale t (rc_ttl_cache st)"
    using that by (simp add: rule_cache_get_def resolve_for_get_def cache_get_def)
qed

lemma event_effect_on_the_cache_witness:
  "distributed_read w_cache_setup (on_event w_cache_setup (Fin 5) ''t'' (Inr (new_pack ''p'' 2 ACTIVE None []))
       \<lparr>ev_entity_type = ''rule_pack'', ev_entity_id = None, ev_action = ''activated''\<rparr> w_cache) =
     the_res (rule_pack_from_snapshot (rule_pack_to_snapshot (new_pack ''p'' 2 ACTIVE None [])))"
proof -
  have "rc_backend w_cache_setup = Some (w_client, w_config)" "rc_bound w_cache_setup" by (simp_all add: w_cache_setup_def)
  moreover have "is_ok (fst (r_set w_client k v ttl s))" for k v ttl s by (simp add: w_client_def)
  moreover have "unused_token w_client w_config (rc_key w_cache_setup) ''t'' (rc_server w_cache)"
    by (simp add: unused_token_def w_client_def w_cache_def)
  ultimately show ?thesis
    using event_effect_on_the_cache [of w_cache_setup w_client w_config
      "\<lparr>ev_entity_type = ''rule_pack'', ev_entity_id = None, ev_action = ''activated''\<rparr>" "''t''" w_cache "Fin 5" "new_pack ''p'' 2 ACTIVE None []"]
      w_client_laws by (simp add: Let_def)
qed

end
