(* ===== verification/Db_Mapping.thy ===== *)
theory Db_Mapping
  imports Db_Rows Cache_Properties
begin

text \<open>
  The mappers between entities and rows (\<open>app/infrastructure/db/mappers.py\<close>) and those
  written inside the Postgres repositories (\<open>postgres_rule_pack_repository.py\<close>,
  \<open>postgres_audit_log_repository.py\<close>, \<open>postgres_request_log_repository.py\<close>), with what
  a trip through the database preserves. \<open>fromisoformat\<close> is an argument of the mappers that
  may meet a time written as text.
\<close>

section \<open>Times and traces\<close>

type_synonym iso_reader = "string \<Rightarrow> instant res"

fun parse_time :: "iso_reader \<Rightarrow> time_value \<Rightarrow> instant res" where
  "parse_time fromiso (Stamp t) = Inr t"
| "parse_time fromiso (IsoText s) = fromiso s"

definition parse_dt :: "iso_reader \<Rightarrow> time_value option \<Rightarrow> instant option res" where
  "parse_dt fromiso v = (case v of None \<Rightarrow> Inr None | Some x \<Rightarrow> bindr (parse_time fromiso x) (\<lambda>t. Inr (Some t)))"

text \<open>\<open>m.__dict__\<close> and \<open>MatchedRuleTrace(**m)\<close>: exactly the fields as keys.\<close>

definition matched_to_dict :: "matched_rule_trace \<Rightarrow> dict" where
  "matched_to_dict m =
     [(''rule_code'', PStr (mt_rule_code m)), (''name'', PStr (mt_name m)), (''family'', PStr (mt_family m)),
      (''priority_weight'', PInt (mt_priority_weight m)), (''severity_band'', opt_val PStr (mt_severity_band m)),
      (''contribution_score'', opt_val PInt (mt_contribution_score m))]"

definition keys_are :: "string list \<Rightarrow> dict \<Rightarrow> bool" where
  "keys_are ks d = (set (map fst d) = set ks)"

definition matched_of_dict :: "dict \<Rightarrow> matched_rule_trace res" where
  "matched_of_dict d =
     (if \<not> keys_are [''rule_code'', ''name'', ''family'', ''priority_weight'', ''severity_band'', ''contribution_score''] d
      then Inl TypeError
      else bindr (bindr (get_item d ''rule_code'') as_str) (\<lambda>code.
           bindr (bindr (get_item d ''name'') as_str) (\<lambda>nm.
           bindr (bindr (get_item d ''family'') as_str) (\<lambda>fam.
           bindr (bindr (get_item d ''priority_weight'') as_int) (\<lambda>w.
           bindr (bindr (get_item d ''severity_band'') (as_opt as_str)) (\<lambda>band.
           bindr (bindr (get_item d ''contribution_score'') (as_opt as_int)) (\<lambda>score.
             Inr \<lparr>mt_rule_code = code, mt_name = nm, mt_family = fam, mt_priority_weight = w,
                  mt_severity_band = band, mt_contribution_score = score\<rparr>)))))))"

definition rejected_to_dict :: "rejected_rule_trace \<Rightarrow> dict" where
  "rejected_to_dict r = [(''rule_code'', PStr (rj_rule_code r)), (''name'', PStr (rj_name r)), (''reason'', PStr (rj_reason r))]"

definition rejected_of_dict :: "dict \<Rightarrow> rejected_rule_trace res" where
  "rejected_of_dict d =
     (if \<not> keys_are [''rule_code'', ''name'', ''reason''] d then Inl TypeError
      else bindr (bindr (get_item d ''rule_code'') as_str) (\<lambda>code.
           bindr (bindr (get_item d ''name'') as_str) (\<lambda>nm.
           bindr (bindr (get_item d ''reason'') as_str) (\<lambda>why.
             Inr \<lparr>rj_rule_code = code, rj_name = nm, rj_reason = why\<rparr>))))"

definition or_empty :: "'a list option \<Rightarrow> 'a list" where
  \<comment> \<open>\<open>x or []\<close>, \<open>x or {}\<close>\<close>
  "or_empty x = (case x of None \<Rightarrow> [] | Some xs \<Rightarrow> xs)"

lemma or_empty_simps [simp]: "or_empty None = []" "or_empty (Some xs) = xs"
  by (simp_all add: or_empty_def)

section \<open>Rules and packs\<close>

definition rule_to_domain :: "rule_row \<Rightarrow> rule" where
  "rule_to_domain row =
     \<lparr>rule_code = rur_rule_code row, rule_name = rur_name row, rule_description = or_empty (rur_description row),
      family = rur_family row, family_order = rur_family_order row, priority_weight = rur_priority_weight row,
      severity_band = rur_severity_band row, contribution_score = rur_contribution_score row,
      conditions = rur_conditions row,
      exceptions = (case rur_exceptions row of None \<Rightarrow> None | Some e \<Rightarrow> if py_bool e then Some e else None),
      conflict_group = rur_conflict_group row, conflicts_with = or_empty (rur_conflicts_with row),
      is_suppressor = rur_is_suppressor row, non_suppressible = rur_non_suppressible row,
      cooldown_minutes = rur_cooldown_minutes row, actions = or_empty (rur_actions row),
      mitigations = or_empty (rur_mitigations row), sequencing = rur_sequencing row, sla_target = rur_sla_target row,
      rule_status = rur_rule_status row, enabled = rur_enabled row, rule_id = Some (uuid_opt_str (rur_id row))\<rparr>"

definition given_id :: "string option \<Rightarrow> uuid option res" where
  \<comment> \<open>\<open>{"id": _to_uuid(rule.id)} if rule.id else {}\<close>\<close>
  "given_id i = (if i = None \<or> i = Some [] then Inr None else to_uuid i)"

definition rule_to_orm :: "rule \<Rightarrow> uuid \<Rightarrow> rule_row res" where
  "rule_to_orm r rule_set_id =
     bindr (given_id (rule_id r)) (\<lambda>i.
       Inr \<lparr>rur_rule_set_id = rule_set_id, rur_rule_code = rule_code r, rur_name = rule_name r,
            rur_description = Some (rule_description r), rur_priority_weight = priority_weight r,
            rur_severity_band = severity_band r, rur_contribution_score = contribution_score r, rur_family = family r,
            rur_family_order = family_order r, rur_conditions = conditions r, rur_exceptions = exceptions r,
            rur_conflict_group = conflict_group r, rur_conflicts_with = Some (conflicts_with r),
            rur_is_suppressor = is_suppressor r, rur_non_suppressible = non_suppressible r,
            rur_cooldown_minutes = cooldown_minutes r, rur_actions = Some (actions r),
            rur_mitigations = Some (mitigations r), rur_sequencing = sequencing r, rur_sla_target = sla_target r,
            rur_region = None, rur_tenant_id = None, rur_rule_status = rule_status r, rur_enabled = enabled r,
            rur_created_by = None, rur_approved_by = None, rur_id = i, rur_created_at = None, rur_updated_at = None,
            rur_deleted_at = None, rur_lock_version = None\<rparr>)"

definition rule_pack_to_domain :: "rule_set_row \<Rightarrow> rule_pack" where
  "rule_pack_to_domain row =
     new_pack (rsr_name row) (rsr_version row) (rsr_status row) (rsr_region row) (map rule_to_domain (rsr_rules row))"

text \<open>
  \<open>_to_domain\<close> of the repository; \<open>versions\<close> is what \<open>session.get\<close> finds of the
  parent: the version of the row with that id, if there is one.
\<close>

definition resolve_parent_version :: "(uuid \<Rightarrow> int option) \<Rightarrow> uuid option \<Rightarrow> int option" where
  "resolve_parent_version versions i = (case i of None \<Rightarrow> None | Some u \<Rightarrow> versions u)"

definition stored_pack_to_domain :: "(uuid \<Rightarrow> int option) \<Rightarrow> rule_set_row \<Rightarrow> rule_pack" where
  "stored_pack_to_domain versions row =
     \<lparr>pack_name = rsr_name row, version = rsr_version row, status = rsr_status row, region = rsr_region row,
      rules = map rule_to_domain (rsr_rules row),
      parent_version = resolve_parent_version versions (rsr_parent_version_id row),
      pack_id = Some (uuid_opt_str (rsr_id row)), tenant_id = map_option uuid_str (rsr_tenant_id row),
      created_by = rsr_created_by row, created_at = rsr_created_at row, activated_at = rsr_activated_at row,
      deleted_at = rsr_deleted_at row, lock_version = rsr_lock_version row\<rparr>"

section \<open>Decisions\<close>

definition decision_to_domain :: "iso_reader \<Rightarrow> decision_row \<Rightarrow> decision res" where
  "decision_to_domain fromiso row =
     bindr (mapr matched_of_dict (or_empty (der_matched_rules row))) (\<lambda>matched.
     bindr (mapr rejected_of_dict (or_empty (der_rejected_rules row))) (\<lambda>rejected.
     bindr (parse_time fromiso (der_created_at row)) (\<lambda>t.
       Inr \<lparr>d_incident_id = der_incident_id row, d_priority = der_priority row,
            d_risk_score = (case der_risk_score row of None \<Rightarrow> 0 | Some n \<Rightarrow> n),
            d_risk_band = (if or_empty (der_risk_band row) = [] then ''LOW'' else or_empty (der_risk_band row)),
            d_actions = or_empty (der_decision row), d_mitigations = or_empty (der_mitigations row),
            d_execution_plan = or_empty (der_execution_plan row), d_matched_rules = matched,
            d_rejected_rules = rejected, d_suppressed_rules = or_empty (der_suppressed_rules row),
            d_compliance_constraints = or_empty (der_compliance_constraints row),
            d_confidence_score = (case der_confidence_score row of None \<Rightarrow> Fin 0 | Some x \<Rightarrow> x),
            d_degraded_context = der_degraded_context row, d_explanation = der_explanation row,
            d_engine_version = der_engine_version row, d_created_at = t, d_resolved = der_resolved row\<rparr>)))"

definition decision_to_orm :: "decision \<Rightarrow> decision_row" where
  "decision_to_orm d =
     \<lparr>der_incident_id = d_incident_id d, der_rule_set_name = None, der_rule_set_version = None,
      der_priority = d_priority d, der_risk_score = Some (d_risk_score d), der_risk_band = Some (d_risk_band d),
      der_decision = Some (d_actions d), der_mitigations = Some (d_mitigations d),
      der_execution_plan = Some (d_execution_plan d), der_matched_rules = Some (map matched_to_dict (d_matched_rules d)),
      der_rejected_rules = Some (map rejected_to_dict (d_rejected_rules d)),
      der_suppressed_rules = Some (d_suppressed_rules d), der_compliance_constraints = Some (d_compliance_constraints d),
      der_confidence_score = Some (d_confidence_score d), der_degraded_context = d_degraded_context d,
      der_explanation = d_explanation d, der_engine_version = d_engine_version d, der_resolved = d_resolved d,
      der_created_at = Stamp (d_created_at d), der_id = None\<rparr>"

section \<open>Overrides, escalations and logs\<close>

definition manual_override_to_domain :: "iso_reader \<Rightarrow> manual_override_row \<Rightarrow> manual_override res" where
  "manual_override_to_domain fromiso row =
     bindr (parse_time fromiso (mor_created_at row)) (\<lambda>t.
       Inr \<lparr>mo_id = uuid_opt_str (mor_id row), mo_decision_id = mor_decision_id row, mo_operator = mor_operator row,
            mo_original_decision = mor_original_decision row, mo_override_decision = mor_override_decision row,
            mo_reason = mor_reason row, mo_created_at = t\<rparr>)"

definition manual_override_to_orm :: "manual_override \<Rightarrow> manual_override_row" where
  "manual_override_to_orm ov =
     \<lparr>mor_decision_id = mo_decision_id ov, mor_operator = mo_operator ov,
      mor_original_decision = mo_original_decision ov, mor_override_decision = mo_override_decision ov,
      mor_reason = mo_reason ov, mor_created_at = Stamp (mo_created_at ov), mor_id = None\<rparr>"

definition escalation_policy_to_domain :: "escalation_policy_row \<Rightarrow> escalation_policy res" where
  "escalation_policy_to_domain row =
     bindr (mapr (\<lambda>l. bindr (bindr (get_item l ''level'') as_str) (\<lambda>n.
                      bindr (bindr (get_item l ''timeoutMinutes'') as_int) (\<lambda>t.
                        Inr \<lparr>el_level = n, el_timeout_minutes = t\<rparr>))) (epr_levels row)) (\<lambda>ls.
       Inr \<lparr>ep_severity_band = epr_severity_band row, ep_levels = ls\<rparr>)"

definition escalation_policy_to_orm :: "escalation_policy \<Rightarrow> escalation_policy_row" where
  "escalation_policy_to_orm p =
     \<lparr>epr_severity_band = ep_severity_band p,
      epr_levels = map (\<lambda>l. [(''level'', PStr (el_level l)), (''timeoutMinutes'', PInt (el_timeout_minutes l))]) (ep_levels p),
      epr_id = None\<rparr>"

definition escalation_event_to_domain :: "iso_reader \<Rightarrow> escalation_event_row \<Rightarrow> escalation_event res" where
  "escalation_event_to_domain fromiso row =
     bindr (parse_time fromiso (eer_triggered_at row)) (\<lambda>t.
     bindr (parse_dt fromiso (eer_acknowledged_at row)) (\<lambda>a.
       Inr \<lparr>ee_id = uuid_opt_str (eer_id row), ee_decision_id = eer_decision_id row, ee_level = eer_level row,
            ee_triggered_at = t, ee_acknowledged_at = a, ee_acknowledged_by = eer_acknowledged_by row\<rparr>))"

definition escalation_event_to_orm :: "escalation_event \<Rightarrow> escalation_event_row" where
  "escalation_event_to_orm e =
     \<lparr>eer_decision_id = ee_decision_id e, eer_level = ee_level e, eer_triggered_at = Stamp (ee_triggered_at e),
      eer_acknowledged_at = map_option Stamp (ee_acknowledged_at e), eer_acknowledged_by = ee_acknowledged_by e,
      eer_id = None\<rparr>"

definition audit_to_orm :: "audit_log_entry \<Rightarrow> audit_log_row" where
  "audit_to_orm e =
     \<lparr>alr_entity_type = al_entity_type e, alr_entity_id = al_entity_id e, alr_action = al_action e, alr_actor = al_actor e,
      alr_before = al_before e, alr_after = al_after e, alr_ip_address = al_ip_address e, alr_request_id = al_request_id e,
      alr_correlation_id = al_correlation_id e, alr_created_at = al_created_at e, alr_reason = al_reason e, alr_id = None\<rparr>"

definition audit_to_domain :: "audit_log_row \<Rightarrow> audit_log_entry" where
  "audit_to_domain r =
     \<lparr>al_id = uuid_opt_str (alr_id r), al_entity_type = alr_entity_type r, al_entity_id = alr_entity_id r,
      al_action = alr_action r, al_actor = alr_actor r, al_before = alr_before r, al_after = alr_after r,
      al_ip_address = alr_ip_address r, al_request_id = alr_request_id r, al_correlation_id = alr_correlation_id r,
      al_created_at = alr_created_at r, al_reason = alr_reason r\<rparr>"

definition request_log_to_orm :: "request_log_entry \<Rightarrow> request_log_row" where
  "request_log_to_orm e =
     \<lparr>rlr_method = rl_method e, rlr_path = rl_path e, rlr_status_code = rl_status_code e, rlr_duration_ms = rl_duration_ms e,
      rlr_request_id = rl_request_id e, rlr_correlation_id = rl_correlation_id e, rlr_ip_address = rl_ip_address e,
      rlr_created_at = rl_created_at e, rlr_id = None\<rparr>"

section \<open>Users, roles and keys\<close>

definition user_to_domain :: "user_row \<Rightarrow> user" where
  "user_to_domain row =
     \<lparr>u_id = uuid_opt_str (usr_id row), u_email = usr_email row, u_hashed_password = usr_hashed_password row,
      u_full_name = usr_full_name row, u_roles = or_empty (usr_roles row), u_is_active = usr_is_active row,
      u_created_at = usr_created_at row, u_updated_at = usr_updated_at row, u_last_login_at = usr_last_login_at row\<rparr>"

definition user_to_orm :: "user \<Rightarrow> user_row res" where
  "user_to_orm u =
     bindr (to_uuid (Some (u_id u))) (\<lambda>i.
       Inr \<lparr>usr_email = u_email u, usr_hashed_password = u_hashed_password u, usr_full_name = u_full_name u,
            usr_roles = Some (u_roles u), usr_is_active = u_is_active u, usr_last_login_at = u_last_login_at u,
            usr_id = i, usr_created_at = None, usr_updated_at = None, usr_deleted_at = None, usr_lock_version = None\<rparr>)"

definition role_to_domain :: "role_row \<Rightarrow> role" where
  "role_to_domain row =
     \<lparr>ro_code = ror_code row, ro_name = ror_name row, ro_permissions = or_empty (ror_permissions row),
      ro_description = ror_description row, ro_created_at = ror_created_at row, ro_updated_at = ror_updated_at row\<rparr>"

definition role_to_orm :: "role \<Rightarrow> role_row" where
  "role_to_orm r =
     \<lparr>ror_code = ro_code r, ror_name = ro_name r, ror_permissions = Some (ro_permissions r),
      ror_description = ro_description r, ror_id = None, ror_created_at = None, ror_updated_at = None\<rparr>"

definition permission_to_domain :: "permission_row \<Rightarrow> permission" where
  "permission_to_domain row =
     \<lparr>pm_code = per_code row, pm_description = per_description row, pm_created_at = per_created_at row\<rparr>"

definition permission_to_orm :: "permission \<Rightarrow> permission_row" where
  "permission_to_orm p =
     \<lparr>per_code = pm_code p, per_description = pm_description p, per_id = None, per_created_at = None, per_updated_at = None\<rparr>"

definition api_key_to_domain :: "api_key_row \<Rightarrow> api_key" where
  "api_key_to_domain row =
     \<lparr>k_id = uuid_opt_str (akr_id row), k_key_prefix = akr_key_prefix row, k_hashed_key = akr_hashed_key row,
      k_owner_user_id = map_option uuid_str (akr_owner_user_id row), k_name = akr_name row,
      k_roles = or_empty (akr_roles row), k_is_active = akr_is_active row, k_created_at = akr_created_at row,
      k_last_used_at = akr_last_used_at row, k_expires_at = akr_expires_at row\<rparr>"

definition api_key_to_orm :: "api_key \<Rightarrow> api_key_row res" where
  "api_key_to_orm k =
     bindr (to_uuid (Some (k_id k))) (\<lambda>i.
     bindr (to_uuid (k_owner_user_id k)) (\<lambda>owner.
       Inr \<lparr>akr_key_prefix = k_key_prefix k, akr_hashed_key = k_hashed_key k, akr_owner_user_id = owner,
            akr_name = k_name k, akr_roles = Some (k_roles k), akr_is_active = k_is_active k,
            akr_last_used_at = k_last_used_at k, akr_expires_at = k_expires_at k, akr_id = i,
            akr_created_at = None, akr_updated_at = None\<rparr>))"

section \<open>Incidents\<close>

definition incident_to_domain :: "incident_row \<Rightarrow> incident" where
  "incident_to_domain row =
     \<lparr>incident_id = inr_incident_id row, payload = or_empty (inr_payload row),
      enriched_context = or_empty (inr_enriched_context row), degraded_context = inr_degraded_context row,
      context_sources_total = inr_context_sources_total row, context_sources_degraded = inr_context_sources_degraded row,
      inc_status = inr_status row, inc_region = inr_region row, inc_tenant = map_option uuid_str (inr_tenant_id row),
      inc_created_at = inr_created_at row\<rparr>"

definition incident_to_orm :: "incident \<Rightarrow> incident_row res" where
  "incident_to_orm inc =
     bindr (to_uuid (inc_tenant inc)) (\<lambda>ten.
       Inr \<lparr>inr_incident_id = incident_id inc, inr_payload = Some (payload inc),
            inr_enriched_context = Some (enriched_context inc), inr_degraded_context = degraded_context inc,
            inr_context_sources_total = context_sources_total inc,
            inr_context_sources_degraded = context_sources_degraded inc, inr_status = inc_status inc,
            inr_region = inc_region inc, inr_tenant_id = ten, inr_created_at = inc_created_at inc\<rparr>)"

end
