(* ===== verification/Db_Properties.thy ===== *)
theory Db_Properties
  imports Db_Mapping
begin

text \<open>What a trip through the relational backend preserves, table by table.\<close>

section \<open>The contract of a mapper\<close>

text \<open>
  Every table has a mapper to rows, which may raise, the defaults filled in when a row is
  inserted, and a mapper back. \<open>stored f t e\<close> says what comes back of an entity inserted
  with the fresh id \<open>f\<close> at time \<open>t\<close>.
\<close>

locale row_mapper =
  fixes to_row :: "'e \<Rightarrow> 'r res" and insert_row :: "uuid \<Rightarrow> instant \<Rightarrow> 'r \<Rightarrow> 'r"
    and to_entity :: "'r \<Rightarrow> 'e res" and stored :: "uuid \<Rightarrow> instant \<Rightarrow> 'e \<Rightarrow> 'e"
  assumes trip: "to_row e = Inr r \<Longrightarrow> to_entity (insert_row f t r) = Inr (stored f t e)"
begin

lemma table_trip:
  "mapr (\<lambda>(f, e). bindr (to_row e) (\<lambda>r. Inr (insert_row f t r))) fes = Inr rows \<Longrightarrow>
   mapr to_entity rows = Inr (map (\<lambda>(f, e). stored f t e) fes)"
proof (induction fes arbitrary: rows)
  case (Cons fe fes)
  obtain f e where "fe = (f, e)" by fastforce
  with Cons show ?case by (auto simp: bindr_eq_Inr trip)
qed simp

lemma table_storable:
  "\<forall>(f, e) \<in> set fes. is_ok (to_row e) \<Longrightarrow>
   is_ok (mapr (\<lambda>(f, e). bindr (to_row e) (\<lambda>r. Inr (insert_row f t r))) fes)"
proof (induction fes)
  case (Cons fe fes)
  obtain f e where "fe = (f, e)" by fastforce
  moreover obtain r where "to_row e = Inr r" using Cons.prems calculation by (auto simp: is_ok_iff)
  ultimately show ?case using Cons by (auto simp: is_ok_iff)
qed simp

end

section \<open>Rules\<close>

definition stored_rules :: "uuid \<Rightarrow> instant \<Rightarrow> (uuid \<times> rule) list \<Rightarrow> rule_row list res" where
  \<comment> \<open>the rules of a pack as the repository's \<open>save\<close> appends and inserts them, each with its fresh id\<close>
  "stored_rules s t frs = mapr (\<lambda>(f, r). bindr (rule_to_orm r s) (\<lambda>row. Inr (insert_rule_row f t row))) frs"

definition rule_as_stored :: "uuid \<Rightarrow> rule \<Rightarrow> rule" where
  "rule_as_stored f r =
     (json_normal r)\<lparr>rule_id := Some (uuid_str (case projr (given_id (rule_id r)) of None \<Rightarrow> f | Some u \<Rightarrow> u))\<rparr>"

lemma rule_trip:
  assumes "rule_to_orm r s = Inr row"
  shows "rule_to_domain (insert_rule_row f t row) = rule_as_stored f r"
proof -
  obtain i where i: "given_id (rule_id r) = Inr i" using assms by (auto simp: rule_to_orm_def bindr_eq_Inr)
  show ?thesis
    using assms
    by (cases i; simp add: rule_to_orm_def i; hypsubst)
      (simp_all add: rule_to_domain_def insert_rule_row_def rule_as_stored_def json_normal_def uuid_opt_str_def i)
qed

interpretation rule_rows: row_mapper "\<lambda>r. rule_to_orm r s" insert_rule_row "\<lambda>row. Inr (rule_to_domain row)"
  "\<lambda>f t. rule_as_stored f" for s
  by unfold_locales (simp add: rule_trip)

lemma normal_as_stored [simp]: "json_normal (rule_as_stored f r) = json_normal r"
  by (simp add: rule_as_stored_def json_normal_def split: option.splits)

lemma stored_rules_normal:
  assumes "stored_rules s t frs = Inr rows"
  shows "map json_normal (map rule_to_domain rows) = map json_normal (map snd frs)"
  using rule_rows.table_trip [OF assms [unfolded stored_rules_def]] by (simp add: case_prod_unfold)

definition storable_id :: "string option \<Rightarrow> bool" where
  \<comment> \<open>no id yet, or one the application generated with \<open>str(uuid4())\<close>\<close>
  "storable_id i \<longleftrightarrow> i = None \<or> i = Some [] \<or> (\<exists>u. i = Some (uuid_str u))"

lemma storable_rule: "storable_id (rule_id r) \<Longrightarrow> is_ok (rule_to_orm r s)"
  by (auto simp: storable_id_def rule_to_orm_def given_id_def)

lemma storable_rules: "\<forall>(f, r) \<in> set frs. storable_id (rule_id r) \<Longrightarrow> is_ok (stored_rules s t frs)"
  unfolding stored_rules_def by (rule rule_rows.table_storable) (use storable_rule in auto)


definition w_stored :: rule where
  "w_stored = (w_rule ''R1'' 5 [(''priority'', PStr ''High'')])\<lparr>rule_id := Some (uuid_str 7)\<rparr>"


section \<open>Decisions\<close>

lemma matched_dict_trip [simp]: "matched_of_dict (matched_to_dict m) = Inr m"
  by (cases m) (auto simp: matched_of_dict_def matched_to_dict_def keys_are_def get_item_def as_str_def as_int_def as_opt_def opt_val_def
      split: option.splits)

lemma rejected_dict_trip [simp]: "rejected_of_dict (rejected_to_dict r) = Inr r"
  by (cases r) (auto simp: rejected_of_dict_def rejected_to_dict_def keys_are_def get_item_def as_str_def)

lemma mapr_trip: "(\<And>x. f (g x) = Inr x) \<Longrightarrow> mapr f (map g xs) = Inr xs"
  by (induction xs) simp_all

lemma decision_trip:
  "decision_to_domain fromiso (insert_decision_row f (decision_to_orm d)) =
     Inr (if d_risk_band d = [] then d\<lparr>d_risk_band := ''LOW''\<rparr> else d)"
  by (simp add: decision_to_domain_def insert_decision_row_def decision_to_orm_def mapr_trip)

interpretation decision_rows: row_mapper "\<lambda>d. Inr (decision_to_orm d)" "\<lambda>f t. insert_decision_row f"
  "decision_to_domain fromiso" "\<lambda>f t d. if d_risk_band d = [] then d\<lparr>d_risk_band := ''LOW''\<rparr> else d" for fromiso
  by unfold_locales (auto simp: decision_trip)

lemma run_band: "run matrix t inc p = Inr d \<Longrightarrow> d_risk_band d \<noteq> []"
proof -
  have "band_of n \<noteq> []" for n by (auto simp: band_of_def risk_bands_def split: list.splits if_splits)
  then have "snd (risk_score m codes) \<noteq> []" for m codes by (simp add: risk_score_def Let_def)
  then show "run matrix t inc p = Inr d \<Longrightarrow> d_risk_band d \<noteq> []"
    by (auto simp: run_def bindr_eq_Inr Let_def case_prod_unfold)
qed

text \<open>
  A decision the pipeline took survives storage unchanged: the mappers turn it
  into a row and back into the same decision, traces, plan, scores and time included.
\<close>
theorem decision_survives_storage:
  assumes "run matrix t inc p = Inr d"
  shows "decision_to_domain fromiso (insert_decision_row f (decision_to_orm d)) = Inr d"
  using run_band [OF assms] decision_rows.trip [of d "decision_to_orm d" fromiso f] by simp

lemma decision_survives_storage_witness:
  "\<exists>d. run None 3 (new_incident ''I1'' [(''load'', PInt 9)] [] False) (new_pack ''p'' 1 ''active'' None []) = Inr d \<and>
     decision_to_domain (\<lambda>_. Inl TypeError) (insert_decision_row 5 (decision_to_orm d)) = Inr d"
proof -
  let ?m = "run None 3 (new_incident ''I1'' [(''load'', PInt 9)] [] False) (new_pack ''p'' 1 ''active'' None [])"
  have "is_ok ?m" by code_simp
  then obtain d where d: "?m = Inr d" by (auto simp: is_ok_iff)
  from decision_survives_storage [OF d] d show ?thesis by blast
qed

section \<open>The other tables\<close>

definition user_as_stored :: "instant \<Rightarrow> user \<Rightarrow> user" where
  "user_as_stored t u = u\<lparr>u_id := uuid_str (projr (uuid_parse (u_id u))), u_created_at := Some t, u_updated_at := Some t\<rparr>"

interpretation user_rows: row_mapper user_to_orm insert_user_row "\<lambda>row. Inr (user_to_domain row)" "\<lambda>f. user_as_stored"
  by unfold_locales
    (auto simp: user_to_orm_def to_uuid_def bindr_eq_Inr user_to_domain_def insert_defs uuid_opt_str_def user_as_stored_def)

definition api_key_as_stored :: "instant \<Rightarrow> api_key \<Rightarrow> api_key" where
  "api_key_as_stored t k =
     k\<lparr>k_id := uuid_str (projr (uuid_parse (k_id k))),
       k_owner_user_id := map_option uuid_str (projr (to_uuid (k_owner_user_id k))), k_created_at := Some t\<rparr>"

interpretation api_key_rows: row_mapper api_key_to_orm insert_api_key_row "\<lambda>row. Inr (api_key_to_domain row)" "\<lambda>f. api_key_as_stored"
  by unfold_locales
    (auto simp: api_key_to_orm_def bindr_eq_Inr api_key_to_domain_def insert_defs uuid_opt_str_def to_uuid_def [of "Some _"]
      api_key_as_stored_def)

definition incident_as_stored :: "incident \<Rightarrow> incident" where
  "incident_as_stored inc = inc\<lparr>inc_tenant := map_option uuid_str (projr (to_uuid (inc_tenant inc)))\<rparr>"

interpretation incident_rows: row_mapper incident_to_orm "\<lambda>f t row. row" "\<lambda>row. Inr (incident_to_domain row)" "\<lambda>f t. incident_as_stored"
  by unfold_locales (auto simp: incident_to_orm_def bindr_eq_Inr incident_to_domain_def incident_as_stored_def)

interpretation policy_rows: row_mapper "\<lambda>p. Inr (escalation_policy_to_orm p)" "\<lambda>f t row. row\<lparr>epr_id := or_default f (epr_id row)\<rparr>"
  escalation_policy_to_domain "\<lambda>f t p. p"
  by unfold_locales
    (auto simp: escalation_policy_to_domain_def escalation_policy_to_orm_def get_item_def as_str_def as_int_def mapr_trip)

interpretation role_rows: row_mapper "\<lambda>r. Inr (role_to_orm r)" insert_role_row "\<lambda>row. Inr (role_to_domain row)"
  "\<lambda>f t r. r\<lparr>ro_created_at := Some t, ro_updated_at := Some t\<rparr>"
  by unfold_locales (auto simp: role_to_domain_def role_to_orm_def insert_defs)

interpretation permission_rows: row_mapper "\<lambda>p. Inr (permission_to_orm p)" insert_permission_row
  "\<lambda>row. Inr (permission_to_domain row)" "\<lambda>f t p. p\<lparr>pm_created_at := Some t\<rparr>"
  by unfold_locales (auto simp: permission_to_domain_def permission_to_orm_def insert_defs)

interpretation override_rows: row_mapper "\<lambda>ov. Inr (manual_override_to_orm ov)" "\<lambda>f t. insert_override_row f"
  "manual_override_to_domain fromiso" "\<lambda>f t ov. ov\<lparr>mo_id := uuid_str f\<rparr>" for fromiso
  by unfold_locales (auto simp: manual_override_to_domain_def manual_override_to_orm_def insert_defs uuid_opt_str_def)

interpretation event_rows: row_mapper "\<lambda>e. Inr (escalation_event_to_orm e)" "\<lambda>f t. insert_event_row f"
  "escalation_event_to_domain fromiso" "\<lambda>f t e. e\<lparr>ee_id := uuid_str f\<rparr>" for fromiso
  by unfold_locales
    (auto simp: escalation_event_to_domain_def escalation_event_to_orm_def insert_defs uuid_opt_str_def parse_dt_def split: option.split)

interpretation audit_rows: row_mapper "\<lambda>a. Inr (audit_to_orm a)" "\<lambda>f t. insert_audit_row f"
  "\<lambda>row. Inr (audit_to_domain row)" "\<lambda>f t a. a\<lparr>al_id := uuid_str f\<rparr>"
  by unfold_locales (auto simp: audit_to_domain_def audit_to_orm_def insert_defs uuid_opt_str_def)

lemma storable_user: "is_ok (user_to_orm u) \<longleftrightarrow> is_ok (uuid_parse (u_id u))"
  by (cases "uuid_parse (u_id u)") (simp_all add: user_to_orm_def to_uuid_def)

lemma storable_api_key: "is_ok (api_key_to_orm k) \<longleftrightarrow> is_ok (uuid_parse (k_id k)) \<and> is_ok (to_uuid (k_owner_user_id k))"
  by (cases "uuid_parse (k_id k)"; cases "to_uuid (k_owner_user_id k)") (simp_all add: api_key_to_orm_def to_uuid_def [of "Some _"])

lemma storable_incident: "is_ok (incident_to_orm inc) \<longleftrightarrow> is_ok (to_uuid (inc_tenant inc))"
  by (cases "to_uuid (inc_tenant inc)") (simp_all add: incident_to_orm_def)

text \<open>
  What the mappers keep of the other records. A user, an API key and an incident
  come back as they were, their ids in canonical form and the timestamps set, and they can be
  stored exactly when those ids are UUID texts: an incident of a tenant with another kind of id
  cannot. Overrides, escalation events and audit entries come back under a new id.
\<close>
theorem stored_records_round_trip:
  "(is_ok (user_to_orm u) \<longleftrightarrow> is_ok (uuid_parse (u_id u))) \<and>
   (\<forall>row. user_to_orm u = Inr row \<longrightarrow> user_to_domain (insert_user_row f t row) =
      u\<lparr>u_id := uuid_str (projr (uuid_parse (u_id u))), u_created_at := Some t, u_updated_at := Some t\<rparr>) \<and>
   (is_ok (api_key_to_orm k) \<longleftrightarrow> is_ok (uuid_parse (k_id k)) \<and> is_ok (to_uuid (k_owner_user_id k))) \<and>
   (\<forall>row. api_key_to_orm k = Inr row \<longrightarrow> api_key_to_domain (insert_api_key_row f t row) =
      k\<lparr>k_id := uuid_str (projr (uuid_parse (k_id k))),
        k_owner_user_id := map_option uuid_str (projr (to_uuid (k_owner_user_id k))), k_created_at := Some t\<rparr>) \<and>
   (is_ok (incident_to_orm inc) \<longleftrightarrow> is_ok (to_uuid (inc_tenant inc))) \<and>
   (\<forall>row. incident_to_orm inc = Inr row \<longrightarrow>
      incident_to_domain row = inc\<lparr>inc_tenant := map_option uuid_str (projr (to_uuid (inc_tenant inc)))\<rparr>) \<and>
   manual_override_to_domain fromiso (insert_override_row f (manual_override_to_orm ov)) = Inr (ov\<lparr>mo_id := uuid_str f\<rparr>) \<and>
   escalation_event_to_domain fromiso (insert_event_row f (escalation_event_to_orm e)) = Inr (e\<lparr>ee_id := uuid_str f\<rparr>) \<and>
   audit_to_domain (insert_audit_row f (audit_to_orm a)) = a\<lparr>al_id := uuid_str f\<rparr> \<and>
   uuid_parse (uuid_str i) = Inr i"
  using user_rows.trip [of u _ f t] api_key_rows.trip [of k _ f t] incident_rows.trip [of inc]
    override_rows.trip [of ov] event_rows.trip [of e] audit_rows.trip [of a]
  by (simp add: storable_user storable_api_key storable_incident user_as_stored_def api_key_as_stored_def incident_as_stored_def)

text \<open>The example: a user with a generated id, and an incident of a tenant that has a name instead.\<close>

definition w_user :: user where
  "w_user = \<lparr>u_id = uuid_str 9, u_email = ''k@x'', u_hashed_password = ''h'', u_full_name = ''K'', u_roles = [''viewer''],
     u_is_active = True, u_created_at = None, u_updated_at = None, u_last_login_at = None\<rparr>"

lemma stored_records_round_trip_witness:
  "(\<exists>row. user_to_orm w_user = Inr row \<and>
      user_to_domain (insert_user_row 1 5 row) = w_user\<lparr>u_created_at := Some 5, u_updated_at := Some 5\<rparr>) \<and>
   \<not> is_ok (incident_to_orm ((new_incident ''I1'' [] [] False)\<lparr>inc_tenant := Some ''acme''\<rparr>))"
proof
  note trip = stored_records_round_trip [where u = w_user and f = 1 and t = 5 and
      inc = "(new_incident ''I1'' [] [] False)\<lparr>inc_tenant := Some ''acme''\<rparr>"]
  obtain row where row: "user_to_orm w_user = Inr row" by (simp add: user_to_orm_def w_user_def)
  with trip [THEN conjunct2, THEN conjunct1] have "user_to_domain (insert_user_row 1 5 row) =
      w_user\<lparr>u_id := uuid_str (projr (uuid_parse (u_id w_user))), u_created_at := Some 5, u_updated_at := Some 5\<rparr>" by blast
  with row show "\<exists>row. user_to_orm w_user = Inr row \<and>
      user_to_domain (insert_user_row 1 5 row) = w_user\<lparr>u_created_at := Some 5, u_updated_at := Some 5\<rparr>"
    by (auto simp: w_user_def)
  have "\<not> is_ok (to_uuid (Some ''acme''))" by (simp add: to_uuid_def uuid_parse_def strip_braces_def Let_def)
  then show "\<not> is_ok (incident_to_orm ((new_incident ''I1'' [] [] False)\<lparr>inc_tenant := Some ''acme''\<rparr>))"
    using trip [THEN conjunct2, THEN conjunct2, THEN conjunct2, THEN conjunct2, THEN conjunct1] by simp
qed

end
