(* ===== verification/Db_Packs.thy ===== *)
theory Db_Packs
  imports Db_Properties
begin

text \<open>
  The relational rule pack repositories (\<open>postgres_rule_pack_repository.py\<close>,
  \<open>postgres_rule_repository.py\<close>) over the session of the ORM, which is a parameter: what a
  query answers and what a commit does are its functions, and \<open>session_laws\<close> states what the
  code relies on. Every operation that writes loads rows, changes them and commits; what other
  sessions commit in between is an argument.
\<close>

section \<open>The session\<close>

text \<open>
  A unit of work: a row the session added, a row it loaded with what its columns were changed
  to, or one whose rules were replaced as well. A commit stores the unit, finds that a
  versioned row has changed meanwhile, or fails.
\<close>

datatype row_change = Added rule_set_row | Changed rule_set_row rule_set_row | Replaced rule_set_row rule_set_row

datatype 'db committed = Committed 'db | Stale_Data | Failed string

text \<open>
  The rows of a query without an order, each with its rules; the reading of a text given for a
  UUID; the sort key of a text under the collation of the database; and the commit.
\<close>

record 'db sql_session =
  sql_rows :: "'db \<Rightarrow> rule_set_row list"
  sql_key :: "string \<Rightarrow> uuid res"
  sql_collate :: "string \<Rightarrow> string"
  sql_commit :: "instant \<Rightarrow> row_change list \<Rightarrow> 'db \<Rightarrow> 'db committed"

record 'db pg_repo =
  database :: 'db
  pg_cache :: "rule_pack ttl_cache"

definition row_by_id :: "rule_set_row list \<Rightarrow> uuid \<Rightarrow> rule_set_row option" where
  "row_by_id rs u = find (\<lambda>r. rsr_id r = Some u) rs"

definition session_get :: "'db sql_session \<Rightarrow> string \<Rightarrow> 'db \<Rightarrow> rule_set_row option res" where
  \<comment> \<open>\<open>session.get(RuleSetORM, i)\<close>\<close>
  "session_get q i d = bindr (sql_key q i) (\<lambda>u. Inr (row_by_id (sql_rows q d) u))"

definition versions_of :: "'db sql_session \<Rightarrow> 'db \<Rightarrow> uuid \<Rightarrow> int option" where
  "versions_of q d u = map_option rsr_version (row_by_id (sql_rows q d) u)"

definition pg_to_domain :: "'db sql_session \<Rightarrow> 'db \<Rightarrow> rule_set_row \<Rightarrow> rule_pack" where
  "pg_to_domain q d row = stored_pack_to_domain (versions_of q d) row"

section \<open>Queries\<close>

definition row_of_version :: "string \<Rightarrow> int \<Rightarrow> rule_set_row list \<Rightarrow> rule_set_row option" where
  "row_of_version n v rs = find (\<lambda>r. rsr_name r = n \<and> rsr_version r = v) rs"

definition pg_get :: "'db sql_session \<Rightarrow> 'db pg_repo \<Rightarrow> string \<Rightarrow> int \<Rightarrow> rule_pack option" where
  "pg_get q st n v =
     map_option (pg_to_domain q (database st)) (row_of_version n v (sql_rows q (database st)))"

definition pg_get_by_id :: "'db sql_session \<Rightarrow> 'db pg_repo \<Rightarrow> string \<Rightarrow> rule_pack option res" where
  "pg_get_by_id q st i =
     bindr (sql_key q i) (\<lambda>u. Inr (map_option (pg_to_domain q (database st))
       (find (\<lambda>r. rsr_id r = Some u \<and> rsr_status r \<noteq> ARCHIVED) (sql_rows q (database st)))))"

definition pg_list_all ::
  "'db sql_session \<Rightarrow> 'db pg_repo \<Rightarrow> string option \<Rightarrow> string option \<Rightarrow> bool \<Rightarrow> nat \<Rightarrow> nat \<Rightarrow> rule_pack list" where
  "pg_list_all q st stat reg include_archived limit offset =
     (let rs = sql_rows q (database st);
          rs = (if include_archived then rs else filter (\<lambda>r. rsr_status r \<noteq> ARCHIVED) rs);
          rs = (case stat of None \<Rightarrow> rs | Some s \<Rightarrow> filter (\<lambda>r. rsr_status r = s) rs);
          rs = (case reg of None \<Rightarrow> rs | Some g \<Rightarrow> filter (\<lambda>r. rsr_region r = Some g) rs)
      in map (pg_to_domain q (database st))
           (page offset limit (sort_key (\<lambda>r. (sql_collate q (rsr_name r), rsr_version r)) rs)))"

definition pg_get_active :: "'db sql_session \<Rightarrow> 'db pg_repo \<Rightarrow> string \<Rightarrow> string option \<Rightarrow> rule_pack option" where
  "pg_get_active q st n reg =
     map_option (pg_to_domain q (database st))
       (find (\<lambda>r. rsr_name r = n \<and> rsr_status r = ACTIVE \<and> rsr_region r = reg) (sql_rows q (database st)))"

definition pg_list_versions :: "'db sql_session \<Rightarrow> 'db pg_repo \<Rightarrow> string \<Rightarrow> rule_pack list" where
  "pg_list_versions q st n =
     map (pg_to_domain q (database st))
       (sort_key rsr_version (filter (\<lambda>r. rsr_name r = n) (sql_rows q (database st))))"

section \<open>Commits\<close>

definition lost_race :: exn where
  "lost_race = ConcurrentModificationError (''This rule pack was modified by someone else since it was loaded '' @
     ''-- reload the latest version and retry your change.'')"

definition pg_commit :: "'db sql_session \<Rightarrow> instant \<Rightarrow> row_change list \<Rightarrow> 'db pg_repo \<Rightarrow> unit res \<times> 'db pg_repo" where
  "pg_commit q t chs st =
     (case sql_commit q t chs (database st) of
        Committed d \<Rightarrow> (Inr (), st\<lparr>database := d\<rparr>)
      | Stale_Data \<Rightarrow> (Inl lost_race, st)
      | Failed m \<Rightarrow> (Inl (DatabaseError m), st))"

definition refresh_row :: "'db sql_session \<Rightarrow> 'db \<Rightarrow> rule_set_row \<Rightarrow> rule_set_row res" where
  "refresh_row q d row =
     (case Option.bind (rsr_id row) (row_by_id (sql_rows q d)) of
        None \<Rightarrow> Inl (DatabaseError ''Could not refresh instance'')
      | Some r \<Rightarrow> Inr r)"

definition commit_and_read ::
  "'db sql_session \<Rightarrow> instant \<Rightarrow> row_change list \<Rightarrow> rule_set_row \<Rightarrow> 'db pg_repo \<Rightarrow> rule_pack res \<times> 'db pg_repo" where
  "commit_and_read q t chs row st =
     (case pg_commit q t chs st of
        (Inl e, st') \<Rightarrow> (Inl e, st')
      | (Inr _, st') \<Rightarrow>
          (bindr (refresh_row q (database st') row) (\<lambda>r. Inr (pg_to_domain q (database st') r)), st'))"

definition invalidate_pg :: "rule_pack res \<times> 'db pg_repo \<Rightarrow> rule_pack res \<times> 'db pg_repo" where
  \<comment> \<open>after the refresh; an exception before it leaves the cache alone\<close>
  "invalidate_pg res = (case res of
     (Inl e, st) \<Rightarrow> (Inl e, st)
   | (Inr p, st) \<Rightarrow> (Inr p, st\<lparr>pg_cache := cache_invalidate (pg_cache st)\<rparr>))"

definition check_row_lock :: "rule_set_row \<Rightarrow> int option \<Rightarrow> unit res" where
  "check_row_lock row expected =
     (case expected of
        None \<Rightarrow> Inr ()
      | Some n \<Rightarrow>
          if rsr_lock_version row \<noteq> n
          then Inl (ConcurrentModificationError (''Rule pack '' @ uuid_opt_str (rsr_id row) @
            '' was modified by someone else since it was loaded (expected lock_version='' @ str_of_int n @
            '', current='' @ str_of_int (rsr_lock_version row) @ '') -- reload the latest version and retry your change.''))
          else Inr ())"

text \<open>Load by id, check the lock, change, commit; \<open>others\<close> is what is committed in between.\<close>

definition pg_modify ::
  "'db sql_session \<Rightarrow> instant \<Rightarrow> ('db \<Rightarrow> 'db) \<Rightarrow> string \<Rightarrow> int option \<Rightarrow> (rule_set_row \<Rightarrow> rule_set_row res) \<Rightarrow>
   'db pg_repo \<Rightarrow> rule_pack res \<times> 'db pg_repo" where
  "pg_modify q t others i expected f st =
     (case session_get q i (database st) of
        Inl e \<Rightarrow> (Inl e, st)
      | Inr None \<Rightarrow> (Inl (no_such_pack i), st)
      | Inr (Some row) \<Rightarrow>
          (case bindr (check_row_lock row expected) (\<lambda>_. f row) of
             Inl e \<Rightarrow> (Inl e, st)
           | Inr row' \<Rightarrow> commit_and_read q t [Changed row row'] row (st\<lparr>database := others (database st)\<rparr>)))"

fun set_row_attr :: "(string \<Rightarrow> uuid res) \<Rightarrow> pack_attr \<Rightarrow> rule_set_row \<Rightarrow> rule_set_row res" where
  "set_row_attr key (AttrName n) row = Inr (row\<lparr>rsr_name := n\<rparr>)"
| "set_row_attr key (AttrRegion (Some g)) row = Inr (row\<lparr>rsr_region := Some g\<rparr>)"
| "set_row_attr key (AttrTenant (Some i)) row = bindr (key i) (\<lambda>u. Inr (row\<lparr>rsr_tenant_id := Some u\<rparr>))"
| "set_row_attr key _ row = Inr row"

definition pg_update_metadata ::
  "'db sql_session \<Rightarrow> instant \<Rightarrow> ('db \<Rightarrow> 'db) \<Rightarrow> string \<Rightarrow> int option \<Rightarrow> pack_attr list \<Rightarrow> 'db pg_repo \<Rightarrow>
   rule_pack res \<times> 'db pg_repo" where
  "pg_update_metadata q t others i expected attrs st =
     pg_modify q t others i expected (foldr_res (set_row_attr (sql_key q)) attrs) st"

definition pg_update_status ::
  "'db sql_session \<Rightarrow> instant \<Rightarrow> ('db \<Rightarrow> 'db) \<Rightarrow> string \<Rightarrow> string \<Rightarrow> int option \<Rightarrow> 'db pg_repo \<Rightarrow>
   rule_pack res \<times> 'db pg_repo" where
  "pg_update_status q t others i s expected st =
     pg_modify q t others i expected (\<lambda>r. Inr (r\<lparr>rsr_status := s\<rparr>)) st"

definition pg_soft_delete ::
  "'db sql_session \<Rightarrow> instant \<Rightarrow> ('db \<Rightarrow> 'db) \<Rightarrow> string \<Rightarrow> int option \<Rightarrow> 'db pg_repo \<Rightarrow>
   rule_pack res \<times> 'db pg_repo" where
  "pg_soft_delete q t others i expected st =
     invalidate_pg (pg_modify q t others i expected
       (\<lambda>r. Inr (r\<lparr>rsr_status := ARCHIVED, rsr_deleted_at := Some t\<rparr>)) st)"

text \<open>The rows an activation loads, and what it makes of each.\<close>

definition activation_rows :: "string \<Rightarrow> rule_set_row \<Rightarrow> rule_set_row list \<Rightarrow> rule_set_row list" where
  "activation_rows n target rs =
     target # filter (\<lambda>r. rsr_name r = n \<and> rsr_status r = ACTIVE \<and> rsr_id r \<noteq> rsr_id target) rs"

definition activate_row :: "instant \<Rightarrow> rule_set_row \<Rightarrow> rule_set_row \<Rightarrow> rule_set_row" where
  "activate_row t target r =
     (let r = (if rsr_status r = ACTIVE then r\<lparr>rsr_status := DEPRECATED\<rparr> else r)
      in if rsr_id r = rsr_id target then r\<lparr>rsr_status := ACTIVE, rsr_activated_at := Some t\<rparr> else r)"

definition pg_activate ::
  "'db sql_session \<Rightarrow> instant \<Rightarrow> ('db \<Rightarrow> 'db) \<Rightarrow> string \<Rightarrow> int \<Rightarrow> int option \<Rightarrow> 'db pg_repo \<Rightarrow>
   rule_pack res \<times> 'db pg_repo" where
  "pg_activate q t others n v expected st =
     (let rs = sql_rows q (database st) in
      case row_of_version n v rs of
        None \<Rightarrow> (Inl (ValueError (''No such rule pack version: '' @ n @ '' v'' @ str_of_int v)), st)
      | Some target \<Rightarrow>
          (case check_row_lock target expected of
             Inl e \<Rightarrow> (Inl e, st)
           | Inr _ \<Rightarrow>
               invalidate_pg (commit_and_read q t (map (\<lambda>r. Changed r (activate_row t target r)) (activation_rows n target rs))
                 target (st\<lparr>database := others (database st)\<rparr>))))"

section \<open>Saving\<close>

text \<open>
  \<open>save\<close> updates the row with the name and version of the pack or inserts one; \<open>f\<close> and
  \<open>fs\<close> are the UUIDs generated for a new row and for the rules that have no id yet. The
  columns of a row are filled in as the constructor and the mixins declare.
\<close>

definition new_set_row :: "uuid \<Rightarrow> instant \<Rightarrow> rule_pack \<Rightarrow> uuid option \<Rightarrow> rule_set_row" where
  "new_set_row f t p parent =
     \<lparr>rsr_name = pack_name p, rsr_version = version p, rsr_status = status p, rsr_region = region p,
      rsr_tenant_id = None, rsr_parent_version_id = parent, rsr_created_by = created_by p, rsr_activated_at = None,
      rsr_rules = [], rsr_id = Some f, rsr_created_at = Some t, rsr_updated_at = Some t, rsr_deleted_at = None,
      rsr_lock_version = 1\<rparr>"

definition numbered_rules :: "(nat \<Rightarrow> uuid) \<Rightarrow> rule list \<Rightarrow> (uuid \<times> rule) list" where
  "numbered_rules fs rs = map (\<lambda>(i, r). (fs i, r)) (enumerate 0 rs)"

definition row_uuid :: "rule_set_row \<Rightarrow> uuid" where
  "row_uuid r = (case rsr_id r of None \<Rightarrow> 0 | Some u \<Rightarrow> u)"

definition save_unit :: "uuid \<Rightarrow> (nat \<Rightarrow> uuid) \<Rightarrow> instant \<Rightarrow> rule_pack \<Rightarrow> rule_set_row list \<Rightarrow> (row_change \<times> rule_set_row) res" where
  \<comment> \<open>the unit of work of the save and the row it is about\<close>
  "save_unit f fs t p rs =
     (case row_of_version (pack_name p) (version p) rs of
        Some old \<Rightarrow>
          bindr (stored_rules (row_uuid old) t (numbered_rules fs (rules p))) (\<lambda>rows.
            let row = old\<lparr>rsr_status := status p, rsr_region := region p, rsr_created_by := created_by p, rsr_rules := rows\<rparr>
            in Inr (Replaced old row, row))
      | None \<Rightarrow>
          let parent = Option.bind (parent_version p) (\<lambda>v. Option.bind (row_of_version (pack_name p) v rs) rsr_id);
              row = new_set_row f t p parent
          in bindr (stored_rules f t (numbered_rules fs (rules p))) (\<lambda>rows.
               Inr (Added (row\<lparr>rsr_rules := rows\<rparr>), row\<lparr>rsr_rules := rows\<rparr>)))"

definition pg_save ::
  "'db sql_session \<Rightarrow> uuid \<Rightarrow> (nat \<Rightarrow> uuid) \<Rightarrow> instant \<Rightarrow> ('db \<Rightarrow> 'db) \<Rightarrow> rule_pack \<Rightarrow> 'db pg_repo \<Rightarrow>
   rule_pack res \<times> 'db pg_repo" where
  "pg_save q f fs t others p st =
     (case save_unit f fs t p (sql_rows q (database st)) of
        Inl e \<Rightarrow> (Inl e, st)
      | Inr (ch, row) \<Rightarrow>
          (case pg_commit q t [ch] (st\<lparr>database := others (database st)\<rparr>) of
             (Inl e, st') \<Rightarrow> (Inl e, st')
           | (Inr _, st') \<Rightarrow>
               (bindr (refresh_row q (database st') row) (\<lambda>r.
                  Inr (p\<lparr>pack_id := Some (uuid_opt_str (rsr_id r)), created_at := rsr_created_at r\<rparr>)), st')))"

section \<open>The active policy\<close>

text \<open>\<open>PostgresRuleRepository\<close>: the pack a live evaluation uses; \<open>n\<close> is the configured name.\<close>

definition no_active_policy :: "string \<Rightarrow> string option \<Rightarrow> exn" where
  "no_active_policy n reg = LookupError (''No active rule set named '' @ quoted n @ '' for region='' @
     (case reg of None \<Rightarrow> ''None'' | Some g \<Rightarrow> str_repr g) @
     ''. Run scripts/seed_base_rule_pack.py, or create+publish+activate one via POST /api/v1/rule-packs, after migrating.'')"

definition load_from_db :: "'db sql_session \<Rightarrow> string \<Rightarrow> string option \<Rightarrow> 'db \<Rightarrow> rule_pack res" where
  "load_from_db q n reg d =
     (case find (\<lambda>r. rsr_name r = n \<and> rsr_status r = ACTIVE \<and> rsr_region r = reg \<and> rsr_deleted_at r = None) (sql_rows q d) of
        None \<Rightarrow> Inl (no_active_policy n reg)
      | Some row \<Rightarrow> Inr ((pg_to_domain q d row)\<lparr>deleted_at := None, lock_version := 1\<rparr>))"

definition policy_get_active ::
  "'db sql_session \<Rightarrow> string \<Rightarrow> ('s cache_setup \<times> fl \<times> string) option \<Rightarrow> string option \<Rightarrow> 'db \<Rightarrow> 's rule_cache \<Rightarrow>
   rule_pack option res \<times> 's rule_cache" where
  \<comment> \<open>through the policy cache where there is one\<close>
  "policy_get_active q n cache reg d rc =
     (case cache of
        None \<Rightarrow> (bindr (load_from_db q n reg d) (\<lambda>p. Inr (Some p)), rc)
      | Some (cf, t, token) \<Rightarrow> rule_cache_get cf t token (load_from_db q n reg d) rc)"

end
