(* ===== verification/Db_Pack_Properties.thy ===== *)
theory Db_Pack_Properties
  imports Db_Packs
begin

text \<open>
  What the relational rule pack repository guarantees: it keeps the contract of the in-memory
  one, a commit based on an outdated row changes nothing, and where that is not enough: two
  activations that start together, and a policy that is deleted and rolled back to.
\<close>

section \<open>What the code relies on\<close>

text \<open>
  A row without its rules and the rules it carries: the relationship has no order, so what is
  read back is known up to the order of the rules, and of a rule only what the mapper reads.
\<close>

definition row_core :: "rule_set_row \<Rightarrow> rule_set_row \<times> rule multiset" where
  "row_core r = (r\<lparr>rsr_rules := []\<rparr>, mset (map rule_to_domain (rsr_rules r)))"

definition dirty :: "rule_set_row \<Rightarrow> rule_set_row \<Rightarrow> bool" where
  \<comment> \<open>a column of the row itself has changed\<close>
  "dirty old new \<longleftrightarrow> new\<lparr>rsr_rules := []\<rparr> \<noteq> old\<lparr>rsr_rules := []\<rparr>"

fun change_id :: "row_change \<Rightarrow> uuid option" where
  "change_id (Added r) = rsr_id r"
| "change_id (Changed old new) = rsr_id old"
| "change_id (Replaced old new) = rsr_id old"

text \<open>
  An \<open>UPDATE\<close> is issued for a dirty row only; it carries the lock version that was loaded
  and increments it, and sets the time of the update. The rules are other rows, stored without
  that check.
\<close>

definition update_row :: "instant \<Rightarrow> rule_set_row \<Rightarrow> rule_set_row \<Rightarrow> rule_set_row \<Rightarrow> rule_set_row" where
  "update_row t old new r =
     (if dirty old new
      then new\<lparr>rsr_rules := rsr_rules r, rsr_updated_at := Some t, rsr_lock_version := rsr_lock_version old + 1\<rparr>
      else r)"

fun flush_into :: "instant \<Rightarrow> row_change \<Rightarrow> rule_set_row \<Rightarrow> rule_set_row" where
  "flush_into t (Added new) r = new"
| "flush_into t (Changed old new) r = update_row t old new r"
| "flush_into t (Replaced old new) r = (update_row t old new r)\<lparr>rsr_rules := rsr_rules new\<rparr>"

definition after_commit :: "instant \<Rightarrow> row_change list \<Rightarrow> (uuid \<Rightarrow> rule_set_row option) \<Rightarrow> uuid \<Rightarrow> rule_set_row option" where
  "after_commit t chs rows u =
     (case find (\<lambda>c. change_id c = Some u) chs of
        None \<Rightarrow> rows u
      | Some (Added r) \<Rightarrow> Some r
      | Some c \<Rightarrow> map_option (flush_into t c) (rows u))"

definition stale_row :: "(uuid \<Rightarrow> rule_set_row option) \<Rightarrow> rule_set_row \<Rightarrow> rule_set_row \<Rightarrow> bool" where
  "stale_row rows old new \<longleftrightarrow> dirty old new \<and>
     map_option rsr_lock_version (Option.bind (rsr_id old) rows) \<noteq> Some (rsr_lock_version old)"

fun stale_change :: "(uuid \<Rightarrow> rule_set_row option) \<Rightarrow> row_change \<Rightarrow> bool" where
  "stale_change rows (Added r) = False"
| "stale_change rows (Changed old new) = stale_row rows old new"
| "stale_change rows (Replaced old new) = stale_row rows old new"

fun same_identity :: "row_change \<Rightarrow> bool" where
  "same_identity (Added r) = True"
| "same_identity (Changed old new) = (rsr_id new = rsr_id old)"
| "same_identity (Replaced old new) = (rsr_id new = rsr_id old)"

definition unit_of_work :: "row_change list \<Rightarrow> bool" where
  \<comment> \<open>each row once, and its identity stays\<close>
  "unit_of_work chs \<longleftrightarrow> distinct (map change_id chs) \<and>
     list_all same_identity chs"

definition session_laws :: "'db sql_session \<Rightarrow> bool" where
  "session_laws q \<longleftrightarrow>
     (\<forall>d. distinct (map rsr_id (sql_rows q d)) \<and> None \<notin> rsr_id ` set (sql_rows q d)) \<and>
     (\<forall>u. sql_key q (uuid_str u) = Inr u) \<and>
     (\<forall>t chs d. unit_of_work chs \<longrightarrow>
        (case sql_commit q t chs d of
           Committed d' \<Rightarrow> list_all (\<lambda>c. \<not> stale_change (row_by_id (sql_rows q d)) c) chs \<and>
             (\<forall>u. map_option row_core (row_by_id (sql_rows q d') u) =
                map_option row_core (after_commit t chs (row_by_id (sql_rows q d)) u))
         | Stale_Data \<Rightarrow> list_ex (stale_change (row_by_id (sql_rows q d))) chs
         | Failed m \<Rightarrow> True))"

text \<open>
  A change of status and times violates no constraint of the table; \<open>available\<close> says that
  such commits do not fail.
\<close>

fun lifecycle_change :: "row_change \<Rightarrow> bool" where
  "lifecycle_change (Changed old new) \<longleftrightarrow>
     new = old\<lparr>rsr_status := rsr_status new, rsr_activated_at := rsr_activated_at new, rsr_deleted_at := rsr_deleted_at new\<rparr>"
| "lifecycle_change _ \<longleftrightarrow> False"

definition available :: "'db sql_session \<Rightarrow> bool" where
  "available q \<longleftrightarrow> (\<forall>t chs d m. list_all lifecycle_change chs \<longrightarrow> sql_commit q t chs d \<noteq> Failed m)"

section \<open>Rows\<close>

lemma row_by_id_Some: "row_by_id rs u = Some r \<Longrightarrow> r \<in> set rs \<and> rsr_id r = Some u"
  by (auto simp: row_by_id_def find_Some_iff)

lemma row_of_version_in: "row_of_version n v rs = Some r \<Longrightarrow> r \<in> set rs \<and> rsr_name r = n \<and> rsr_version r = v"
  by (auto simp: row_of_version_def find_Some_iff)

lemma row_by_id_member:
  assumes "session_laws q" and "r \<in> set (sql_rows q d)"
  obtains u where "rsr_id r = Some u" "row_by_id (sql_rows q d) u = Some r"
proof -
  have ids: "distinct (map rsr_id (sql_rows q d))" "None \<notin> rsr_id ` set (sql_rows q d)"
    using assms(1) unfolding session_laws_def by blast+
  then obtain u where u: "rsr_id r = Some u" using assms(2) by (metis imageI not_None_eq)
  then have "row_by_id (sql_rows q d) u \<noteq> None" using assms(2) by (auto simp: row_by_id_def find_None_iff)
  then obtain s where s: "row_by_id (sql_rows q d) u = Some s" by blast
  have "s = r" using row_by_id_Some [OF s] ids(1) u assms(2) by (metis distinct_map inj_onD)
  with s u that show thesis by blast
qed

lemma key_read: "session_laws q \<Longrightarrow> sql_key q (uuid_str u) = Inr u"
  unfolding session_laws_def by blast

lemma commit_law:
  assumes "session_laws q" and "unit_of_work chs"
  shows "sql_commit q t chs d = Committed d' \<Longrightarrow> list_all (\<lambda>c. \<not> stale_change (row_by_id (sql_rows q d)) c) chs"
    and "sql_commit q t chs d = Committed d' \<Longrightarrow>
      map_option row_core (row_by_id (sql_rows q d') u) = map_option row_core (after_commit t chs (row_by_id (sql_rows q d)) u)"
    and "sql_commit q t chs d = Stale_Data \<Longrightarrow> list_ex (stale_change (row_by_id (sql_rows q d))) chs"
  using assms unfolding session_laws_def by (force split: committed.splits)+

lemma row_core_fields:
  assumes "row_core r = row_core s"
  shows "rsr_id r = rsr_id s" "rsr_name r = rsr_name s" "rsr_version r = rsr_version s" "rsr_status r = rsr_status s"
    "rsr_region r = rsr_region s" "rsr_lock_version r = rsr_lock_version s" "rsr_deleted_at r = rsr_deleted_at s"
    "rsr_activated_at r = rsr_activated_at s" "rsr_created_at r = rsr_created_at s"
  using assms by (cases r; cases s; simp add: row_core_def)+

text \<open>What a row that was loaded in the same state is after the commit.\<close>

definition flushed :: "instant \<Rightarrow> rule_set_row \<Rightarrow> rule_set_row \<Rightarrow> rule_set_row" where
  "flushed t old new =
     (if dirty old new then new\<lparr>rsr_updated_at := Some t, rsr_lock_version := rsr_lock_version old + 1\<rparr>
      else old\<lparr>rsr_rules := rsr_rules new\<rparr>)"

text \<open>A change of a loaded row \<open>r\<close> to \<open>g r\<close>, as a unit of work records it.\<close>

definition changes_row :: "(rule_set_row \<Rightarrow> rule_set_row) \<Rightarrow> (rule_set_row \<Rightarrow> row_change) \<Rightarrow> rule_set_row \<Rightarrow> bool" where
  "changes_row g c r \<longleftrightarrow> rsr_id (g r) = rsr_id r \<and>
     (c r = Changed r (g r) \<and> rsr_rules (g r) = rsr_rules r \<or> c r = Replaced r (g r))"

lemma changes_rowD:
  assumes "changes_row g c r"
  shows "change_id (c r) = rsr_id r" "same_identity (c r)" "stale_change rows (c r) = stale_row rows r (g r)"
    "flush_into t (c r) r = flushed t r (g r)" "\<exists>new. c r = Changed r new \<or> c r = Replaced r new"
  using assms by (auto simp: changes_row_def flushed_def update_row_def)

lemma changed_ids: "\<forall>r \<in> set rs. changes_row g c r \<Longrightarrow> map (\<lambda>r. change_id (c r)) rs = map rsr_id rs"
  using changes_rowD(1) by (intro map_cong) blast+

lemma change_id_written: "\<forall>r \<in> set rs. changes_row g c r \<Longrightarrow> r \<in> set rs \<Longrightarrow> change_id (c r) = rsr_id r"
  using changes_rowD(1) by blast

lemma unit_of_writes:
  assumes "distinct (map rsr_id rs)" and "\<forall>r \<in> set rs. changes_row g c r"
  shows "unit_of_work (map c rs)"
proof -
  have "map change_id (map c rs) = map rsr_id rs" using changed_ids [OF assms(2)] by (simp add: comp_def)
  then have "distinct (map change_id (map c rs))" using assms(1) by (simp only:)
  then show ?thesis using assms(2) changes_rowD(2) unfolding unit_of_work_def by (auto simp: list_all_iff)
qed

lemma unit_identity: "unit_of_work chs \<Longrightarrow> list_all same_identity chs"
  by (simp add: unit_of_work_def)

lemma find_map_Some: "find P (map c rs) = Some x \<Longrightarrow> \<exists>r \<in> set rs. x = c r \<and> P x"
  by (induction rs) (auto split: if_splits)

lemma flushed_fields [simp]:
  "rsr_rules (flushed t old new) = rsr_rules new"
  "rsr_id (flushed t old new) = rsr_id new" "rsr_name (flushed t old new) = rsr_name new"
  "rsr_version (flushed t old new) = rsr_version new" "rsr_status (flushed t old new) = rsr_status new"
  "rsr_region (flushed t old new) = rsr_region new" "rsr_deleted_at (flushed t old new) = rsr_deleted_at new"
  "rsr_activated_at (flushed t old new) = rsr_activated_at new"
  by (cases old; cases new; simp add: flushed_def dirty_def)+

text \<open>A commit of rows loaded from the state it applies to.\<close>

lemma commit_changed:
  assumes laws: "session_laws q" and sub: "set rs \<subseteq> set (sql_rows q d)" and dist: "distinct (map rsr_id rs)"
    and w: "\<forall>r \<in> set rs. changes_row g c r" and commit: "sql_commit q t (map c rs) d = Committed d'"
  shows "map_option row_core (row_by_id (sql_rows q d') u) =
    map_option row_core (map_option (\<lambda>r. if r \<in> set rs then flushed t r (g r) else r) (row_by_id (sql_rows q d) u))"
proof -
  have "after_commit t (map c rs) (row_by_id (sql_rows q d)) u =
      map_option (\<lambda>r. if r \<in> set rs then flushed t r (g r) else r) (row_by_id (sql_rows q d) u)"
  proof (cases "find (\<lambda>c. change_id c = Some u) (map c rs)")
    case None
    then have "r \<notin> set rs" if "row_by_id (sql_rows q d) u = Some r" for r
      using row_by_id_Some [OF that] change_id_written [OF w] by (auto simp: find_None_iff)
    then show ?thesis using None by (cases "row_by_id (sql_rows q d) u") (auto simp: after_commit_def)
  next
    case (Some ch)
    then obtain r where r: "r \<in> set rs" "ch = c r" "rsr_id r = Some u"
      using find_map_Some [OF Some] change_id_written [OF w] by fastforce
    then have "row_by_id (sql_rows q d) u = Some r"
      using sub row_by_id_member [OF laws, of r d] by (metis option.inject subsetD)
    moreover have "flush_into t ch r = flushed t r (g r)" "\<exists>new. ch = Changed r new \<or> ch = Replaced r new"
      using w r changes_rowD(4,5) by blast+
    ultimately show ?thesis using Some r(1) by (auto simp: after_commit_def simp del: flush_into.simps)
  qed
  with commit_law(2) [OF laws unit_of_writes [OF dist w] commit] show ?thesis by simp
qed

lemma loaded_not_stale:
  assumes laws: "session_laws q" and sub: "set rs \<subseteq> set (sql_rows q d)" and dist: "distinct (map rsr_id rs)"
    and w: "\<forall>r \<in> set rs. changes_row g c r"
  shows "sql_commit q t (map c rs) d \<noteq> Stale_Data"
proof
  assume "sql_commit q t (map c rs) d = Stale_Data"
  then have "list_ex (stale_change (row_by_id (sql_rows q d))) (map c rs)"
    by (rule commit_law(3) [OF laws unit_of_writes [OF dist w]])
  then obtain r where r: "r \<in> set rs" "stale_row (row_by_id (sql_rows q d)) r (g r)"
    using w changes_rowD(3) by (auto simp: list_ex_iff)
  then obtain u where "rsr_id r = Some u" "row_by_id (sql_rows q d) u = Some r"
    using sub row_by_id_member [OF laws] by blast
  with r(2) show False by (simp add: stale_row_def)
qed

section \<open>Refinement of the in-memory repository\<close>

text \<open>
  Two packs are alike when they agree in every attribute and carry the same rules, whatever
  their order and ids. A database represents an in-memory repository when their packs are
  alike one by one.
\<close>

definition pack_core :: "rule_pack \<Rightarrow> rule_pack \<times> rule multiset" where
  "pack_core p = (p\<lparr>rules := []\<rparr>, mset (map json_normal (rules p)))"

definition pack_alike :: "rule_pack \<Rightarrow> rule_pack \<Rightarrow> bool" where
  "pack_alike p q \<longleftrightarrow> pack_core p = pack_core q"

definition represents :: "'db sql_session \<Rightarrow> pack_repo \<Rightarrow> 'db \<Rightarrow> bool" where
  "represents q mem d \<longleftrightarrow>
     (\<forall>u r. row_by_id (sql_rows q d) u = Some r \<longrightarrow>
        (\<exists>p. view mem (rsr_name r, rsr_version r) = Some p \<and> pack_alike p (pg_to_domain q d r))) \<and>
     (\<forall>k p. view mem k = Some p \<longrightarrow>
        (\<exists>u r. row_by_id (sql_rows q d) u = Some r \<and> pack_alike p (pg_to_domain q d r)))"

lemma pack_alike_fields:
  assumes "pack_alike p p'"
  shows "pack_name p = pack_name p'" "version p = version p'" "status p = status p'" "region p = region p'"
    "pack_id p = pack_id p'" "lock_version p = lock_version p'" "deleted_at p = deleted_at p'"
    "activated_at p = activated_at p'" "created_by p = created_by p'" "created_at p = created_at p'"
  using assms by (cases p; cases p'; simp add: pack_alike_def pack_core_def)+

lemma pack_alike_refl [simp]: "pack_alike p p"
  by (simp add: pack_alike_def)

lemma pack_alike_trans: "pack_alike p p' \<Longrightarrow> pack_alike p' p'' \<Longrightarrow> pack_alike p p''"
  by (simp add: pack_alike_def)

lemma pg_to_domain_fields [simp]:
  "pack_name (pg_to_domain q d r) = rsr_name r" "version (pg_to_domain q d r) = rsr_version r"
  "status (pg_to_domain q d r) = rsr_status r" "region (pg_to_domain q d r) = rsr_region r"
  "pack_id (pg_to_domain q d r) = Some (uuid_opt_str (rsr_id r))"
  "lock_version (pg_to_domain q d r) = rsr_lock_version r" "deleted_at (pg_to_domain q d r) = rsr_deleted_at r"
  "activated_at (pg_to_domain q d r) = rsr_activated_at r" "created_by (pg_to_domain q d r) = rsr_created_by r"
  "created_at (pg_to_domain q d r) = rsr_created_at r"
  by (simp_all add: pg_to_domain_def stored_pack_to_domain_def)

lemma uuid_str_eq [simp]: "uuid_str u = uuid_str w \<longleftrightarrow> u = w"
  by (metis sum.inject(2) uuid_parse_str)

lemma core_alike:
  assumes "row_core r = row_core s"
  shows "pack_alike (stored_pack_to_domain vs r) (stored_pack_to_domain vs s)"
proof -
  have "mset (map rule_to_domain (rsr_rules r)) = mset (map rule_to_domain (rsr_rules s))"
    using assms by (simp only: row_core_def prod.inject)
  then have "mset (map json_normal (map rule_to_domain (rsr_rules r))) = mset (map json_normal (map rule_to_domain (rsr_rules s)))"
    by (simp only: mset_map [of json_normal])
  moreover have "r\<lparr>rsr_rules := []\<rparr> = s\<lparr>rsr_rules := []\<rparr>" using assms by (simp add: row_core_def)
  moreover have "(stored_pack_to_domain vs x)\<lparr>rules := []\<rparr> = stored_pack_to_domain vs (x\<lparr>rsr_rules := []\<rparr>)"
    "rules (stored_pack_to_domain vs x) = map rule_to_domain (rsr_rules x)" for x
    by (simp_all add: stored_pack_to_domain_def)
  ultimately show ?thesis unfolding pack_alike_def pack_core_def by metis
qed

lemma represents_row:
  assumes "represents q mem d" and "row_by_id (sql_rows q d) u = Some r"
  obtains p where "view mem (rsr_name r, rsr_version r) = Some p" "pack_alike p (pg_to_domain q d r)"
    "pack_id p = Some (uuid_str u)"
proof -
  obtain p where p: "view mem (rsr_name r, rsr_version r) = Some p" "pack_alike p (pg_to_domain q d r)"
    using assms unfolding represents_def by blast
  moreover have "pack_id p = Some (uuid_str u)"
    using pack_alike_fields(5) [OF p(2)] row_by_id_Some [OF assms(2)] by (simp add: uuid_opt_str_def)
  ultimately show thesis using that by blast
qed

lemma represents_pack:
  assumes "represents q mem d" and "repo_ok mem" and "view mem k = Some p"
  obtains u r where "row_by_id (sql_rows q d) u = Some r" "pack_alike p (pg_to_domain q d r)"
    "k = (rsr_name r, rsr_version r)" "pack_id p = Some (uuid_str u)"
proof -
  obtain u r where r: "row_by_id (sql_rows q d) u = Some r" "pack_alike p (pg_to_domain q d r)"
    using assms unfolding represents_def by blast
  note f = pack_alike_fields [OF r(2)]
  have "k = (rsr_name r, rsr_version r)" using view_key [OF assms(2,3)] f by simp
  moreover have "pack_id p = Some (uuid_str u)" using f row_by_id_Some [OF r(1)] by (simp add: uuid_opt_str_def)
  ultimately show thesis using that r by blast
qed

text \<open>One row per version: the row of a name and version is the one whose pack is stored there.\<close>

lemma represents_unique:
  assumes "represents q mem d" and "row_by_id (sql_rows q d) u = Some r" and "row_by_id (sql_rows q d) w = Some s"
    and "rsr_name r = rsr_name s" and "rsr_version r = rsr_version s"
  shows "u = w \<and> r = s"
proof -
  from represents_row [OF assms(1,2)] obtain p where
    p: "view mem (rsr_name r, rsr_version r) = Some p" "pack_id p = Some (uuid_str u)" by metis
  from represents_row [OF assms(1,3)] obtain p' where
    p': "view mem (rsr_name s, rsr_version s) = Some p'" "pack_id p' = Some (uuid_str w)" by metis
  have "u = w" using p p' assms(4,5) by simp
  then show ?thesis using assms(2,3) by simp
qed

lemma row_of_version_represented:
  assumes laws: "session_laws q" and rep: "represents q mem d" and ok: "repo_ok mem"
  shows "view mem (n, v) = None \<Longrightarrow> row_of_version n v (sql_rows q d) = None"
    and "view mem (n, v) = Some p \<Longrightarrow> \<exists>u r. row_of_version n v (sql_rows q d) = Some r \<and> row_by_id (sql_rows q d) u = Some r \<and>
      rsr_id r = Some u \<and> pack_alike p (pg_to_domain q d r) \<and> pack_id p = Some (uuid_str u)"
proof -
  assume none: "view mem (n, v) = None"
  have "(rsr_name r, rsr_version r) \<noteq> (n, v)" if "r \<in> set (sql_rows q d)" for r
    using row_by_id_member [OF laws that] represents_row [OF rep] none by (metis option.distinct(1))
  then show "row_of_version n v (sql_rows q d) = None" by (auto simp: row_of_version_def find_None_iff)
next
  assume "view mem (n, v) = Some p"
  then obtain u r where r: "row_by_id (sql_rows q d) u = Some r" "pack_alike p (pg_to_domain q d r)"
    "(n, v) = (rsr_name r, rsr_version r)" "pack_id p = Some (uuid_str u)"
    by (rule represents_pack [OF rep ok])
  have inrows: "r \<in> set (sql_rows q d)" "rsr_id r = Some u" using row_by_id_Some [OF r(1)] by blast+
  then have "row_of_version n v (sql_rows q d) \<noteq> None" using r(3) by (auto simp: row_of_version_def find_None_iff)
  then obtain s where s: "row_of_version n v (sql_rows q d) = Some s" by blast
  then have "s \<in> set (sql_rows q d)" "rsr_name s = n" "rsr_version s = v"
    using row_of_version_in by blast+
  moreover obtain w where "row_by_id (sql_rows q d) w = Some s"
    using row_by_id_member [OF laws calculation(1)] by blast
  ultimately have "s = r" using represents_unique [OF rep r(1), of w s] r(3) by simp
  with s r inrows show "\<exists>u r. row_of_version n v (sql_rows q d) = Some r \<and> row_by_id (sql_rows q d) u = Some r \<and>
      rsr_id r = Some u \<and> pack_alike p (pg_to_domain q d r) \<and> pack_id p = Some (uuid_str u)" by blast
qed

text \<open>One step: the packs change by \<open>F\<close>, the rows by \<open>G\<close>, and each pack stays alike its row.\<close>

lemma core_map:
  assumes "map_option row_core x = map_option row_core y"
  shows "map_option rsr_version x = map_option rsr_version y"
  using assms by (cases x; cases y; simp; elim row_core_fields(3))

lemma represents_step:
  assumes rep: "represents q mem d" and ok: "repo_ok mem"
    and view': "view mem' = (\<lambda>k. map_option F (view mem k))"
    and rows: "\<And>u. map_option row_core (row_by_id (sql_rows q d') u) =
        map_option row_core (map_option G (row_by_id (sql_rows q d) u))"
    and G: "\<And>r. rsr_name (G r) = rsr_name r" "\<And>r. rsr_version (G r) = rsr_version r"
    and FG: "\<And>u r p. row_by_id (sql_rows q d) u = Some r \<Longrightarrow> view mem (rsr_name r, rsr_version r) = Some p \<Longrightarrow>
        pack_alike p (pg_to_domain q d r) \<Longrightarrow> pack_alike (F p) (stored_pack_to_domain (versions_of q d) (G r))"
  shows "represents q mem' d' \<and>
    (\<forall>u r p. row_by_id (sql_rows q d) u = Some r \<longrightarrow> view mem (rsr_name r, rsr_version r) = Some p \<longrightarrow>
      (\<exists>r'. row_by_id (sql_rows q d') u = Some r' \<and> pack_alike (F p) (pg_to_domain q d' r')))"
proof -
  have vs: "versions_of q d' = versions_of q d"
  proof
    fix w
    have "map_option rsr_version (map_option G (row_by_id (sql_rows q d) w)) = versions_of q d w"
      by (simp add: versions_of_def option.map_comp comp_def G)
    then show "versions_of q d' w = versions_of q d w" using core_map [OF rows [of w]] by (simp add: versions_of_def)
  qed
  have step: "pack_alike (F x) (pg_to_domain q d' s')"
    if s: "row_by_id (sql_rows q d) w = Some s" and x: "view mem (rsr_name s, rsr_version s) = Some x"
      and c: "row_core s' = row_core (G s)" for w s s' x
  proof -
    obtain y where "view mem (rsr_name s, rsr_version s) = Some y" "pack_alike y (pg_to_domain q d s)"
      using represents_row [OF rep s] by metis
    with x have "pack_alike (F x) (stored_pack_to_domain (versions_of q d) (G s))" using FG [OF s] by simp
    moreover have "pack_alike (stored_pack_to_domain (versions_of q d) (G s)) (pg_to_domain q d' s')"
      unfolding pg_to_domain_def vs by (rule core_alike) (rule c [symmetric])
    ultimately show ?thesis by (rule pack_alike_trans)
  qed
  have fwd: "\<exists>s'. row_by_id (sql_rows q d') w = Some s' \<and> row_core s' = row_core (G s)"
    if "row_by_id (sql_rows q d) w = Some s" for w s
    using rows [of w] that by (cases "row_by_id (sql_rows q d') w") auto
  have bwd: "\<exists>s. row_by_id (sql_rows q d) w = Some s \<and> row_core s' = row_core (G s)"
    if "row_by_id (sql_rows q d') w = Some s'" for w s'
    using rows [of w] that by (cases "row_by_id (sql_rows q d) w") auto
  have "represents q mem' d'"
    unfolding represents_def
  proof (intro conjI allI impI)
    fix w s' assume s': "row_by_id (sql_rows q d') w = Some s'"
    obtain s where s: "row_by_id (sql_rows q d) w = Some s" "row_core s' = row_core (G s)" using bwd [OF s'] by blast
    obtain x where x: "view mem (rsr_name s, rsr_version s) = Some x" using represents_row [OF rep s(1)] by metis
    have "view mem' (rsr_name s', rsr_version s') = Some (F x)"
      using row_core_fields(2,3) [OF s(2)] x by (simp add: view' G)
    then show "\<exists>p. view mem' (rsr_name s', rsr_version s') = Some p \<and> pack_alike p (pg_to_domain q d' s')"
      using step [OF s(1) x s(2)] by blast
  next
    fix k y assume "view mem' k = Some y"
    then obtain x where x: "view mem k = Some x" "y = F x" by (auto simp: view')
    obtain w s where s: "row_by_id (sql_rows q d) w = Some s" "k = (rsr_name s, rsr_version s)"
      by (rule represents_pack [OF rep ok x(1)])
    with fwd [OF s(1)] step [OF s(1)] x show "\<exists>u r. row_by_id (sql_rows q d') u = Some r \<and> pack_alike y (pg_to_domain q d' r)"
      by blast
  qed
  then show ?thesis using fwd step by blast
qed

text \<open>What both backends answer to the same call, and that the database represents the outcome.\<close>

definition same_outcome ::
  "'db sql_session \<Rightarrow> 'db pg_repo \<Rightarrow> (ref \<times> pack_repo) res \<Rightarrow> rule_pack res \<times> 'db pg_repo \<Rightarrow> bool" where
  "same_outcome q st m pg \<longleftrightarrow> (case m of
     Inl err \<Rightarrow> pg = (Inl err, st)
   | Inr (r, mem') \<Rightarrow> (case pg of
       (Inl err, st') \<Rightarrow> st' = st \<and> (\<exists>why. err = DatabaseError why)
     | (Inr p, st') \<Rightarrow> repo_ok mem' \<and> represents q mem' (database st') \<and> pack_alike (pack_at mem' r) p))"

lemma same_database [simp]: "st\<lparr>database := database st\<rparr> = st"
  by (cases st) simp

lemma lock_checks_agree:
  assumes "pack_alike p (pg_to_domain q d r)"
  shows "check_lock p expected = check_row_lock r expected"
  using pack_alike_fields(5,6) [OF assms] by (simp add: check_lock_def check_row_lock_def split: option.splits)

lemma alike_update:
  assumes "pack_alike p p'" and "\<And>x. (U x)\<lparr>rules := []\<rparr> = U (x\<lparr>rules := []\<rparr>)" and "\<And>x. rules (U x) = rules x"
  shows "pack_alike (U p) (U p')"
  using assms by (simp add: pack_alike_def pack_core_def)

lemma refreshed:
  "row_by_id (sql_rows q d) u = Some r' \<Longrightarrow> rsr_id r = Some u \<Longrightarrow> refresh_row q d r = Inr r'"
  by (simp add: refresh_row_def)

text \<open>A change by id: the in-memory change \<open>f\<close> and the change \<open>h\<close> of the row are the same.\<close>

lemma modify_refines:
  assumes laws: "session_laws q" and ok: "repo_ok mem" and rep: "represents q mem (database st)"
    and keep: "\<And>p. pack_name (f p) = pack_name p" "\<And>p. version (f p) = version p" "\<And>p. pack_id (f p) = pack_id p"
    and hold: "\<And>r. rsr_name (h r) = rsr_name r" "\<And>r. rsr_version (h r) = rsr_version r"
      "\<And>r. rsr_id (h r) = rsr_id r" "\<And>r. rsr_rules (h r) = rsr_rules r"
    and fh: "\<And>r p. row_by_id (sql_rows q (database st)) u = Some r \<Longrightarrow> pack_alike p (pg_to_domain q (database st) r) \<Longrightarrow>
        pack_alike (f p) (stored_pack_to_domain (versions_of q (database st)) (flushed t r (h r)))"
  shows "same_outcome q st (modify_by_id (uuid_str u) expected f mem)
    (pg_modify q t (\<lambda>d. d) (uuid_str u) expected (\<lambda>r. Inr (h r)) st)"
proof (cases "repo_get_by_id mem (uuid_str u)")
  case None
  have "row_by_id (sql_rows q (database st)) u = None"
  proof (rule ccontr)
    assume "row_by_id (sql_rows q (database st)) u \<noteq> None"
    then obtain r where "row_by_id (sql_rows q (database st)) u = Some r" by blast
    from represents_row [OF rep this] get_by_id_view(2) [OF ok] None show False by metis
  qed
  then show ?thesis
    using None by (simp add: same_outcome_def modify_by_id_def pg_modify_def session_get_def key_read [OF laws])
next
  case (Some ref)
  obtain k where k: "map_of (store mem) k = Some ref" "view mem k = Some (pack_at mem ref)" "pack_id (pack_at mem ref) = Some (uuid_str u)"
    using get_by_id_view(1) [OF ok Some] by blast
  obtain w row where row: "row_by_id (sql_rows q (database st)) w = Some row"
    "pack_alike (pack_at mem ref) (pg_to_domain q (database st) row)" "k = (rsr_name row, rsr_version row)"
    "pack_id (pack_at mem ref) = Some (uuid_str w)"
    by (rule represents_pack [OF rep ok k(2)])
  have w: "w = u" using row(4) k(3) by simp
  have id: "rsr_id row = Some u" "row \<in> set (sql_rows q (database st))" using row_by_id_Some [OF row(1)] w by simp_all
  note lock = lock_checks_agree [OF row(2), of expected]
  have get: "session_get q (uuid_str u) (database st) = Inr (Some row)"
    using row(1) by (simp add: session_get_def key_read [OF laws] w)
  show ?thesis
  proof (cases "check_row_lock row expected")
    case (Inl e)
    then show ?thesis using Some lock by (simp add: same_outcome_def modify_by_id_def pg_modify_def get)
  next
    case (Inr x)
    let ?mem' = "put_pack ref (f (pack_at mem ref)) mem" and ?c = "sql_commit q t [Changed row (h row)] (database st)"
    have m: "modify_by_id (uuid_str u) expected f mem = Inr (ref, ?mem')"
      using Some lock Inr by (simp add: modify_by_id_def)
    have pg: "pg_modify q t (\<lambda>d. d) (uuid_str u) expected (\<lambda>r. Inr (h r)) st = commit_and_read q t [Changed row (h row)] row st"
      using Inr by (simp add: pg_modify_def get)
    have v: "view ?mem' = (view mem)(k \<mapsto> f (pack_at mem ref))" by (rule view_put [OF ok k(1)])
    have ok': "repo_ok ?mem'" using keep by (intro repo_ok_put [OF ok k(1)])
    have at: "pack_at ?mem' ref = f (pack_at mem ref)" using repo_okD(1) [OF ok k(1)] by (simp add: pack_at_put)
    have not_stale: "?c \<noteq> Stale_Data" using loaded_not_stale [OF laws, of "[row]" _ h "\<lambda>r. Changed r (h r)" t] id hold(3,4) by (simp add: changes_row_def)
    show ?thesis
    proof (cases ?c)
      case (Committed d')
      let ?F = "\<lambda>x. if pack_id x = Some (uuid_str u) then f x else x"
      let ?G = "\<lambda>r. if r = row then flushed t row (h row) else r"
      have vF: "view ?mem' = (\<lambda>k. map_option ?F (view mem k))"
      proof
        fix l show "view ?mem' l = map_option ?F (view mem l)"
          using repo_ok_ids [OF ok k(2), of l] k(2,3) by (cases "view mem l") (auto simp: v)
      qed
      have rows: "map_option row_core (row_by_id (sql_rows q d') a) =
          map_option row_core (map_option ?G (row_by_id (sql_rows q (database st)) a))" for a
        using commit_changed [OF laws, of "[row]" "database st" h "\<lambda>r. Changed r (h r)" t d' a] id Committed hold(3,4)
        by (cases "row_by_id (sql_rows q (database st)) a") (auto simp: changes_row_def)
      have FG: "pack_alike (?F p) (stored_pack_to_domain (versions_of q (database st)) (?G r))"
        if r: "row_by_id (sql_rows q (database st)) a = Some r" and p: "view mem (rsr_name r, rsr_version r) = Some p"
          "pack_alike p (pg_to_domain q (database st) r)" for a r p
      proof (cases "a = u")
        case True
        then have "r = row" using r row(1) w by simp
        moreover have "pack_id p = Some (uuid_str u)" using pack_alike_fields(5) [OF p(2)] \<open>r = row\<close> id by (simp add: uuid_opt_str_def)
        ultimately show ?thesis using fh [OF row(1) [unfolded w]] p(2) by simp
      next
        case False
        have "rsr_id r = Some a" using row_by_id_Some [OF r] by simp
        then have "r \<noteq> row" "pack_id p \<noteq> Some (uuid_str u)"
          using False id pack_alike_fields(5) [OF p(2)] by (auto simp: uuid_opt_str_def)
        then show ?thesis using p(2) by (simp add: pg_to_domain_def)
      qed
      have S: "represents q ?mem' d' \<and>
          (\<forall>a r p. row_by_id (sql_rows q (database st)) a = Some r \<longrightarrow> view mem (rsr_name r, rsr_version r) = Some p \<longrightarrow>
            (\<exists>r'. row_by_id (sql_rows q d') a = Some r' \<and> pack_alike (?F p) (pg_to_domain q d' r')))"
      proof (rule represents_step [OF rep ok vF rows])
        show "rsr_name (?G r) = rsr_name r" "rsr_version (?G r) = rsr_version r" for r by (simp_all add: hold)
      qed (rule FG)
      obtain r' where "row_by_id (sql_rows q d') u = Some r'" "pack_alike (f (pack_at mem ref)) (pg_to_domain q d' r')"
        using S row(1,3) k(2,3) w by fastforce
      then show ?thesis
        using S id ok' at by (simp add: m pg same_outcome_def commit_and_read_def pg_commit_def Committed refreshed)
    next
      case (Failed why)
      then show ?thesis by (simp add: m pg same_outcome_def commit_and_read_def pg_commit_def)
    qed (use not_stale in simp)
  qed
qed

text \<open>The three changes by id, where the row really changes.\<close>

lemma stored_pack_upd:
  "stored_pack_to_domain vs (r\<lparr>rsr_status := s, rsr_updated_at := a, rsr_lock_version := l\<rparr>) =
     (stored_pack_to_domain vs r)\<lparr>status := s, lock_version := l\<rparr>"
  "stored_pack_to_domain vs (r\<lparr>rsr_region := g, rsr_updated_at := a, rsr_lock_version := l\<rparr>) =
     (stored_pack_to_domain vs r)\<lparr>region := g, lock_version := l\<rparr>"
  "stored_pack_to_domain vs (r\<lparr>rsr_status := s, rsr_updated_at := a, rsr_deleted_at := x, rsr_lock_version := l\<rparr>) =
     (stored_pack_to_domain vs r)\<lparr>status := s, deleted_at := x, lock_version := l\<rparr>"
  "stored_pack_to_domain vs (r\<lparr>rsr_status := s, rsr_activated_at := x, rsr_updated_at := a, rsr_lock_version := l\<rparr>) =
     (stored_pack_to_domain vs r)\<lparr>status := s, activated_at := x, lock_version := l\<rparr>"
  by (simp_all add: stored_pack_to_domain_def)

lemma dirtyI:
  "rsr_status new \<noteq> rsr_status old \<Longrightarrow> dirty old new" "rsr_region new \<noteq> rsr_region old \<Longrightarrow> dirty old new"
  "rsr_deleted_at new \<noteq> rsr_deleted_at old \<Longrightarrow> dirty old new"
  by (cases old; cases new; simp add: dirty_def)+

lemma lock_stored [simp]: "lock_version (stored_pack_to_domain vs r) = rsr_lock_version r"
  by (simp add: stored_pack_to_domain_def)

lemma status_refines:
  assumes "session_laws q" and ok: "repo_ok mem" and rep: "represents q mem (database st)"
    and differs: "\<And>k p. view mem k = Some p \<Longrightarrow> pack_id p = Some (uuid_str u) \<Longrightarrow> status p \<noteq> s"
  shows "same_outcome q st (update_status (uuid_str u) s expected mem)
    (pg_update_status q t (\<lambda>d. d) (uuid_str u) s expected st)"
  unfolding update_status_def pg_update_status_def
proof (rule modify_refines [OF assms(1-3)])
  fix r p assume r: "row_by_id (sql_rows q (database st)) u = Some r" and p: "pack_alike p (pg_to_domain q (database st) r)"
  obtain x where "view mem (rsr_name r, rsr_version r) = Some x" "pack_alike x (pg_to_domain q (database st) r)"
    "pack_id x = Some (uuid_str u)" by (rule represents_row [OF rep r])
  then have "rsr_status r \<noteq> s" using differs pack_alike_fields(3) by fastforce
  then have "flushed t r (r\<lparr>rsr_status := s\<rparr>) = r\<lparr>rsr_status := s, rsr_updated_at := Some t, rsr_lock_version := rsr_lock_version r + 1\<rparr>"
    by (simp add: flushed_def dirtyI)
  then show "pack_alike (bump_lock (p\<lparr>status := s\<rparr>))
      (stored_pack_to_domain (versions_of q (database st)) (flushed t r (r\<lparr>rsr_status := s\<rparr>)))"
    using alike_update [OF p, of "\<lambda>x. x\<lparr>status := s, lock_version := lock_version x + 1\<rparr>"]
    by (simp add: stored_pack_upd bump_lock_def pg_to_domain_def)
qed (simp_all add: bump_lock_def)

lemma region_refines:
  assumes "session_laws q" and ok: "repo_ok mem" and rep: "represents q mem (database st)"
    and differs: "\<And>k p. view mem k = Some p \<Longrightarrow> pack_id p = Some (uuid_str u) \<Longrightarrow> region p \<noteq> Some g"
  shows "same_outcome q st (update_metadata (uuid_str u) expected [AttrRegion (Some g)] mem)
    (pg_update_metadata q t (\<lambda>d. d) (uuid_str u) expected [AttrRegion (Some g)] st)"
  unfolding update_metadata_def pg_update_metadata_def foldr_res.simps set_row_attr.simps bindr_simps foldl_Cons foldl_Nil set_attr.simps
proof (rule modify_refines [OF assms(1-3)])
  fix r p assume r: "row_by_id (sql_rows q (database st)) u = Some r" and p: "pack_alike p (pg_to_domain q (database st) r)"
  obtain x where "view mem (rsr_name r, rsr_version r) = Some x" "pack_alike x (pg_to_domain q (database st) r)"
    "pack_id x = Some (uuid_str u)" by (rule represents_row [OF rep r])
  then have "rsr_region r \<noteq> Some g" using differs pack_alike_fields(4) by fastforce
  then have "flushed t r (r\<lparr>rsr_region := Some g\<rparr>) = r\<lparr>rsr_region := Some g, rsr_updated_at := Some t, rsr_lock_version := rsr_lock_version r + 1\<rparr>"
    by (simp add: flushed_def dirtyI)
  then show "pack_alike (bump_lock (p\<lparr>region := Some g\<rparr>))
      (stored_pack_to_domain (versions_of q (database st)) (flushed t r (r\<lparr>rsr_region := Some g\<rparr>)))"
    using alike_update [OF p, of "\<lambda>x. x\<lparr>region := Some g, lock_version := lock_version x + 1\<rparr>"]
    by (simp add: stored_pack_upd bump_lock_def pg_to_domain_def)
qed (simp_all add: bump_lock_def)

lemma delete_refines:
  assumes "session_laws q" and ok: "repo_ok mem" and rep: "represents q mem (database st)"
    and differs: "\<And>k p. view mem k = Some p \<Longrightarrow> pack_id p = Some (uuid_str u) \<Longrightarrow> deleted_at p \<noteq> Some t"
  shows "same_outcome q st (soft_delete t (uuid_str u) expected mem) (pg_soft_delete q t (\<lambda>d. d) (uuid_str u) expected st)"
proof -
  let ?m = "modify_by_id (uuid_str u) expected (\<lambda>p. bump_lock (p\<lparr>status := ARCHIVED, deleted_at := Some t\<rparr>)) mem"
    and ?pg = "pg_modify q t (\<lambda>d. d) (uuid_str u) expected (\<lambda>r. Inr (r\<lparr>rsr_status := ARCHIVED, rsr_deleted_at := Some t\<rparr>)) st"
  have "same_outcome q st ?m ?pg"
  proof (rule modify_refines [OF assms(1-3)])
    fix r p assume r: "row_by_id (sql_rows q (database st)) u = Some r" and p: "pack_alike p (pg_to_domain q (database st) r)"
    obtain x where "view mem (rsr_name r, rsr_version r) = Some x" "pack_alike x (pg_to_domain q (database st) r)"
      "pack_id x = Some (uuid_str u)" by (rule represents_row [OF rep r])
    then have "rsr_deleted_at r \<noteq> Some t" using differs pack_alike_fields(7) by fastforce
    then have "flushed t r (r\<lparr>rsr_status := ARCHIVED, rsr_deleted_at := Some t\<rparr>) =
        r\<lparr>rsr_status := ARCHIVED, rsr_updated_at := Some t, rsr_deleted_at := Some t, rsr_lock_version := rsr_lock_version r + 1\<rparr>"
      by (simp add: flushed_def dirtyI)
    then show "pack_alike (bump_lock (p\<lparr>status := ARCHIVED, deleted_at := Some t\<rparr>))
        (stored_pack_to_domain (versions_of q (database st)) (flushed t r (r\<lparr>rsr_status := ARCHIVED, rsr_deleted_at := Some t\<rparr>)))"
      using alike_update [OF p, of "\<lambda>x. x\<lparr>status := ARCHIVED, deleted_at := Some t, lock_version := lock_version x + 1\<rparr>"]
      by (simp add: stored_pack_upd bump_lock_def pg_to_domain_def)
  qed (simp_all add: bump_lock_def)
  then show ?thesis
    by (cases ?m; cases "fst ?pg"; cases ?pg)
      (auto simp: soft_delete_def pg_soft_delete_def same_outcome_def invalidate_pg_def represents_def)
qed

text \<open>Activation: what it makes of the target, of the active versions and of every other row.\<close>

lemma activation_rows_props:
  assumes laws: "session_laws q" and row: "target \<in> set (sql_rows q d)"
  shows "set (activation_rows n target (sql_rows q d)) \<subseteq> set (sql_rows q d)"
    and "distinct (map rsr_id (activation_rows n target (sql_rows q d)))"
proof -
  show "set (activation_rows n target (sql_rows q d)) \<subseteq> set (sql_rows q d)"
    using row by (auto simp: activation_rows_def)
  have "distinct (map rsr_id (sql_rows q d))" using laws unfolding session_laws_def by blast
  then show "distinct (map rsr_id (activation_rows n target (sql_rows q d)))"
    by (auto simp: activation_rows_def distinct_map_filter)
qed

lemma activation_writes: "\<forall>r \<in> set rs. changes_row (activate_row t target) (\<lambda>r. Changed r (activate_row t target r)) r"
  by (simp add: changes_row_def activate_row_def Let_def)

lemma activate_row_target [simp]:
  "activate_row t target target = target\<lparr>rsr_status := ACTIVE, rsr_activated_at := Some t\<rparr>"
  by (simp add: activate_row_def)

lemma activate_row_other:
  "rsr_id r \<noteq> rsr_id target \<Longrightarrow> rsr_status r = ACTIVE \<Longrightarrow> activate_row t target r = r\<lparr>rsr_status := DEPRECATED\<rparr>"
  by (simp add: activate_row_def)

lemma activated_row:
  assumes p: "pack_alike p (pg_to_domain q d r)" and r: "row_by_id (sql_rows q d) u = Some r"
    and target: "row_by_id (sql_rows q d) w = Some target" "rsr_name target = n" "rsr_version target = v"
    and rep: "represents q mem d" and inactive: "rsr_status target \<noteq> ACTIVE"
  shows "pack_alike (activated t n v p) (stored_pack_to_domain (versions_of q d)
    (if r \<in> set (activation_rows n target (sql_rows q d)) then flushed t r (activate_row t target r) else r))"
proof -
  note f = pack_alike_fields(1-3) [OF p]
  have inr: "r \<in> set (sql_rows q d)" "rsr_id r = Some u" "rsr_id target = Some w"
    using row_by_id_Some [OF r] row_by_id_Some [OF target(1)] by blast+
  consider (target) "r = target" | (active) "r \<noteq> target" "rsr_name r = n" "rsr_status r = ACTIVE"
    | (other) "r \<noteq> target" "rsr_name r \<noteq> n \<or> rsr_status r \<noteq> ACTIVE" by blast
  then show ?thesis
  proof cases
    case target
    have "flushed t r (activate_row t target r) =
        r\<lparr>rsr_status := ACTIVE, rsr_activated_at := Some t, rsr_updated_at := Some t, rsr_lock_version := rsr_lock_version r + 1\<rparr>"
      using target inactive by (simp add: flushed_def dirtyI)
    moreover have "activated t n v p = make_active t p"
      using target assms(4,5) inactive f by (simp add: activated_def deprecate_def)
    ultimately show ?thesis
      using alike_update [OF p, of "\<lambda>x. x\<lparr>status := ACTIVE, activated_at := Some t, lock_version := lock_version x + 1\<rparr>"] target
      by (simp add: stored_pack_upd make_active_def bump_lock_def pg_to_domain_def activation_rows_def)
  next
    case active
    then have ver: "rsr_version r \<noteq> v" "u \<noteq> w"
      using represents_unique [OF rep r target(1)] target r by auto
    then have "activate_row t target r = r\<lparr>rsr_status := DEPRECATED\<rparr>" using active inr by (intro activate_row_other) auto
    then have "flushed t r (activate_row t target r) =
        r\<lparr>rsr_status := DEPRECATED, rsr_updated_at := Some t, rsr_lock_version := rsr_lock_version r + 1\<rparr>"
      using active by (simp add: flushed_def dirtyI status_defs)
    moreover have "activated t n v p = bump_lock (p\<lparr>status := DEPRECATED\<rparr>)"
      using active ver f by (simp add: activated_def deprecate_def)
    moreover have "r \<in> set (activation_rows n target (sql_rows q d))"
      using active inr ver by (simp add: activation_rows_def)
    ultimately show ?thesis
      using alike_update [OF p, of "\<lambda>x. x\<lparr>status := DEPRECATED, lock_version := lock_version x + 1\<rparr>"]
      by (simp add: stored_pack_upd bump_lock_def pg_to_domain_def)
  next
    case other
    have "activated t n v p = p"
    proof (cases "rsr_name r = n")
      case True
      then have "rsr_version r \<noteq> v" using other represents_unique [OF rep r target(1)] target by auto
      then show ?thesis using True other f by (simp add: activated_def deprecate_def)
    qed (use f in \<open>simp add: activated_def\<close>)
    moreover have "r \<notin> set (activation_rows n target (sql_rows q d))" using other by (auto simp: activation_rows_def)
    ultimately show ?thesis using p by (simp add: pg_to_domain_def)
  qed
qed

lemma activation_refines:
  assumes laws: "session_laws q" and ok: "repo_ok mem" and rep: "represents q mem (database st)"
    and inactive: "\<And>p. view mem (n, v) = Some p \<Longrightarrow> status p \<noteq> ACTIVE"
  shows "same_outcome q st (repo_activate t n v expected mem) (pg_activate q t (\<lambda>d. d) n v expected st)"
proof (cases "view mem (n, v)")
  case None
  then have "repo_get mem n v = None" by (simp add: view_def repo_get_def)
  then show ?thesis
    using row_of_version_represented(1) [OF laws rep ok None]
    by (simp add: same_outcome_def repo_activate_def pg_activate_def Let_def)
next
  case (Some p)
  then obtain ref where ref: "map_of (store mem) (n, v) = Some ref" "p = pack_at mem ref" by (auto simp: view_def)
  from row_of_version_represented(2) [OF laws rep ok Some] obtain u target where
    target: "row_of_version n v (sql_rows q (database st)) = Some target" "row_by_id (sql_rows q (database st)) u = Some target"
      "rsr_id target = Some u" "pack_alike p (pg_to_domain q (database st) target)" "pack_id p = Some (uuid_str u)" by blast
  note lock = lock_checks_agree [OF target(4), of expected]
  have nv: "rsr_name target = n" "rsr_version target = v" "target \<in> set (sql_rows q (database st))"
    using row_of_version_in [OF target(1)] by simp_all
  have idle: "rsr_status target \<noteq> ACTIVE" using inactive [OF Some] pack_alike_fields(3) [OF target(4)] by simp
  show ?thesis
  proof (cases "check_row_lock target expected")
    case (Inl e)
    then show ?thesis
      using ref target(1) lock by (simp add: same_outcome_def repo_activate_def pg_activate_def repo_get_def Let_def)
  next
    case (Inr x)
    let ?rs = "activation_rows n target (sql_rows q (database st))"
    let ?G = "\<lambda>r. if r \<in> set ?rs then flushed t r (activate_row t target r) else r"
    obtain mem' where m: "repo_activate t n v expected mem = Inr (ref, mem')"
      using ref lock Inr by (simp add: repo_activate_def repo_get_def Let_def)
    note v' = activate_view [OF ok m]
    note rs = activation_rows_props [OF laws nv(3), of n]
    have pg: "pg_activate q t (\<lambda>d. d) n v expected st =
        invalidate_pg (commit_and_read q t (map (\<lambda>r. Changed r (activate_row t target r)) ?rs) target st)"
      using Inr target(1) by (simp add: pg_activate_def Let_def)
    show ?thesis
    proof (cases "sql_commit q t (map (\<lambda>r. Changed r (activate_row t target r)) ?rs) (database st)")
      case (Committed d')
      have S: "represents q mem' d' \<and>
          (\<forall>u r p. row_by_id (sql_rows q (database st)) u = Some r \<longrightarrow> view mem (rsr_name r, rsr_version r) = Some p \<longrightarrow>
            (\<exists>r'. row_by_id (sql_rows q d') u = Some r' \<and> pack_alike (activated t n v p) (pg_to_domain q d' r')))"
      proof (rule represents_step [OF rep ok])
        show "view mem' = (\<lambda>k. map_option (activated t n v) (view mem k))" using v' by blast
        show "map_option row_core (row_by_id (sql_rows q d') a) =
            map_option row_core (map_option ?G (row_by_id (sql_rows q (database st)) a))" for a
          by (rule commit_changed [OF laws rs activation_writes Committed])
        show "rsr_name (?G r) = rsr_name r" "rsr_version (?G r) = rsr_version r" for r
          by (simp_all add: activate_row_def Let_def)
      qed (rule activated_row [OF _ _ target(2) nv(1,2) rep idle])
      obtain r' where r': "row_by_id (sql_rows q d') u = Some r'" "pack_alike (activated t n v p) (pg_to_domain q d' r')"
        using S target(2) Some nv by fastforce
      have "view mem' (n, v) = Some (pack_at mem' ref)" using v' repo_okD(4) [of mem' "(n, v)" ref] by blast
      then have "pack_at mem' ref = activated t n v p" using v' Some by simp
      then show ?thesis
        using S r' target(3) v' by (simp add: m pg same_outcome_def commit_and_read_def pg_commit_def Committed refreshed invalidate_pg_def)
    next
      case (Failed why)
      then show ?thesis by (simp add: m pg same_outcome_def commit_and_read_def pg_commit_def invalidate_pg_def)
    qed (use loaded_not_stale [OF laws rs activation_writes] in simp)
  qed
qed

text \<open>Saving a new pack, and saving a stored one again with other rules.\<close>

lemma snd_numbered [simp]: "map snd (numbered_rules fs rs) = rs"
  by (simp add: numbered_rules_def comp_def case_prod_unfold)

lemma stored_rules_alike:
  assumes "stored_rules s t (numbered_rules fs rs) = Inr rows"
  shows "mset (map json_normal (map rule_to_domain rows)) = mset (map json_normal rs)"
  using stored_rules_normal [OF assms] by simp

definition new_pack_of :: "rule_pack \<Rightarrow> bool" where
  \<comment> \<open>a pack as the use cases create it\<close>
  "new_pack_of p \<longleftrightarrow> pack_id p = None \<and> created_at p = None \<and> tenant_id p = None \<and> activated_at p = None \<and>
     deleted_at p = None \<and> lock_version p = 1"

definition unused_uuid :: "uuid \<Rightarrow> rule_set_row list \<Rightarrow> bool" where
  "unused_uuid f rs \<longleftrightarrow> (\<forall>r \<in> set rs. rsr_id r \<noteq> Some f \<and> rsr_parent_version_id r \<noteq> Some f)"

lemma domain_other_versions:
  assumes "rsr_parent_version_id r \<noteq> Some f" and "\<And>w. w \<noteq> f \<Longrightarrow> vs' w = vs w"
  shows "stored_pack_to_domain vs' r = stored_pack_to_domain vs r"
proof -
  have "resolve_parent_version vs' (rsr_parent_version_id r) = resolve_parent_version vs (rsr_parent_version_id r)"
    using assms by (auto simp: resolve_parent_version_def split: option.splits)
  then show ?thesis by (simp add: stored_pack_to_domain_def)
qed

lemma new_set_row_fields [simp]:
  "rsr_id (new_set_row f t p par) = Some f" "rsr_created_at (new_set_row f t p par) = Some t"
  by (simp_all add: new_set_row_def)

lemma new_row_alike:
  assumes p: "new_pack_of p" and rows: "stored_rules f t (numbered_rules fs (rules p)) = Inr rows"
    and parent: "resolve_parent_version vs par = parent_version p"
  shows "pack_alike (stamp_pack (uuid_str f) t p) (stored_pack_to_domain vs ((new_set_row f t p par)\<lparr>rsr_rules := rows\<rparr>))"
proof -
  have "stamp_pack (uuid_str f) t p = p\<lparr>pack_id := Some (uuid_str f), created_at := Some t\<rparr>"
    using p by (simp add: stamp_pack_def new_pack_of_def)
  moreover have "(stored_pack_to_domain vs ((new_set_row f t p par)\<lparr>rsr_rules := rows\<rparr>))\<lparr>rules := []\<rparr> =
      p\<lparr>pack_id := Some (uuid_str f), created_at := Some t, rules := []\<rparr>"
    using p parent by (simp add: stored_pack_to_domain_def new_set_row_def new_pack_of_def uuid_opt_str_def)
  ultimately show ?thesis
    using stored_rules_alike [OF rows] by (simp add: pack_alike_def pack_core_def stored_pack_to_domain_def)
qed

lemma represents_added:
  assumes laws: "session_laws q" and ok: "repo_ok mem" and rep: "represents q mem d"
    and fresh: "unused_uuid f (sql_rows q d)" and id: "rsr_id row = Some f"
    and c: "sql_commit q t [Added row] d = Committed d'"
    and view': "view mem' = (view mem)((rsr_name row, rsr_version row) \<mapsto> p)"
    and new: "view mem (rsr_name row, rsr_version row) = None"
    and p: "\<And>vs. (\<And>w. w \<noteq> f \<Longrightarrow> vs w = versions_of q d w) \<Longrightarrow> pack_alike p (stored_pack_to_domain vs row)"
  shows "represents q mem' d' \<and> (\<exists>r'. row_by_id (sql_rows q d') f = Some r' \<and> row_core r' = row_core row)"
proof -
  have no_f: "row_by_id (sql_rows q d) f = None"
    using fresh by (auto simp: row_by_id_def find_None_iff unused_uuid_def)
  have "unit_of_work [Added row]" by (simp add: unit_of_work_def)
  note rows = commit_law(2) [OF laws this c]
  have at_f: "map_option row_core (row_by_id (sql_rows q d') f) = Some (row_core row)"
    using rows [of f] id by (simp add: after_commit_def)
  have other: "map_option row_core (row_by_id (sql_rows q d') w) = map_option row_core (row_by_id (sql_rows q d) w)" if "w \<noteq> f" for w
    using rows [of w] id that by (simp add: after_commit_def)
  have vs: "versions_of q d' w = versions_of q d w" if "w \<noteq> f" for w
    using core_map [OF other [OF that]] by (simp add: versions_of_def)
  obtain row' where row': "row_by_id (sql_rows q d') f = Some row'" "row_core row' = row_core row"
    using at_f by (cases "row_by_id (sql_rows q d') f") auto
  have p': "pack_alike p (pg_to_domain q d' row')"
    using p [OF vs] core_alike [OF row'(2) [symmetric]] pack_alike_trans unfolding pg_to_domain_def by blast
  have old: "pack_alike (pg_to_domain q d r) (pg_to_domain q d' r')"
    if r: "row_by_id (sql_rows q d) w = Some r" and c: "row_core r' = row_core r" for w r r'
  proof -
    have "rsr_parent_version_id r \<noteq> Some f" using row_by_id_Some [OF r] fresh by (auto simp: unused_uuid_def)
    then have "stored_pack_to_domain (versions_of q d') r = stored_pack_to_domain (versions_of q d) r"
      by (rule domain_other_versions) (rule vs)
    then show ?thesis using core_alike [OF c [symmetric], of "versions_of q d'"] by (simp add: pg_to_domain_def)
  qed
  have "represents q mem' d'"
    unfolding represents_def
  proof (intro conjI allI impI)
    fix w r' assume r': "row_by_id (sql_rows q d') w = Some r'"
    show "\<exists>x. view mem' (rsr_name r', rsr_version r') = Some x \<and> pack_alike x (pg_to_domain q d' r')"
    proof (cases "w = f")
      case True
      then have "r' = row'" using r' row'(1) by simp
      then show ?thesis using p' row_core_fields(2,3) [OF row'(2)] by (simp add: view')
    next
      case False
      then obtain r where r: "row_by_id (sql_rows q d) w = Some r" "row_core r' = row_core r"
        using other [OF False] r' by (cases "row_by_id (sql_rows q d) w") auto
      obtain x where "view mem (rsr_name r, rsr_version r) = Some x" "pack_alike x (pg_to_domain q d r)"
        using represents_row [OF rep r(1)] by metis
      then show ?thesis
        using old [OF r] pack_alike_trans row_core_fields(2,3) [OF r(2)] new by (auto simp: view')
    qed
  next
    fix k x assume x: "view mem' k = Some x"
    show "\<exists>u r. row_by_id (sql_rows q d') u = Some r \<and> pack_alike x (pg_to_domain q d' r)"
    proof (cases "k = (rsr_name row, rsr_version row)")
      case True
      then show ?thesis using x row'(1) p' by (auto simp: view')
    next
      case False
      then have "view mem k = Some x" using x by (simp add: view')
      then obtain w r where r: "row_by_id (sql_rows q d) w = Some r" "pack_alike x (pg_to_domain q d r)"
        by (rule represents_pack [OF rep ok])
      then have "w \<noteq> f" using no_f by auto
      then obtain r' where "row_by_id (sql_rows q d') w = Some r'" "row_core r' = row_core r"
        using other [of w] r(1) by (cases "row_by_id (sql_rows q d') w") auto
      then show ?thesis using r old [OF r(1)] pack_alike_trans by blast
    qed
  qed
  then show ?thesis using row' by blast
qed

lemma numbered_storable:
  assumes "\<forall>r \<in> set rs. storable_id (rule_id r)"
  obtains rows where "stored_rules s t (numbered_rules fs rs) = Inr rows"
proof -
  have "\<forall>(f, r) \<in> set (numbered_rules fs rs). storable_id (rule_id r)"
    using assms by (auto simp: numbered_rules_def in_set_enumerate_eq)
  then show thesis using storable_rules [of "numbered_rules fs rs" s t] that by (auto simp: is_ok_iff)
qed

lemma save_new_refines:
  assumes laws: "session_laws q" and ok: "repo_ok mem" and rep: "represents q mem (database st)"
    and new: "view mem (pack_name p, version p) = None" and np: "new_pack_of p"
    and parent: "\<And>v. parent_version p = Some v \<Longrightarrow> view mem (pack_name p, v) \<noteq> None"
    and fresh: "unused_uuid f (sql_rows q (database st))" and rules: "\<forall>r \<in> set (rules p). storable_id (rule_id r)"
    and a: "alloc p mem = (ref, mem1)"
  shows "same_outcome q st (Inr (ref, repo_save (uuid_str f) t ref mem1)) (pg_save q f fs t (\<lambda>d. d) p st)"
proof -
  let ?d = "database st"
  let ?par = "Option.bind (parent_version p) (\<lambda>v. Option.bind (row_of_version (pack_name p) v (sql_rows q ?d)) rsr_id)"
  obtain rows where rows: "stored_rules f t (numbered_rules fs (rules p)) = Inr rows" using numbered_storable [OF rules] .
  let ?row = "(new_set_row f t p ?par)\<lparr>rsr_rules := rows\<rparr>"
  have none: "row_of_version (pack_name p) (version p) (sql_rows q ?d) = None"
    by (rule row_of_version_represented(1) [OF laws rep ok new])
  have un: "unused_id (uuid_str f) mem"
    unfolding unused_id_def
  proof (intro allI impI notI)
    fix k x assume x: "view mem k = Some x" and id: "pack_id x = Some (uuid_str f)"
    obtain w r where r: "row_by_id (sql_rows q ?d) w = Some r" "pack_id x = Some (uuid_str w)" by (rule represents_pack [OF rep ok x])
    then show False using row_by_id_Some [OF r(1)] id fresh by (auto simp: unused_uuid_def)
  qed
  have id: "pack_id p = None" using np by (simp add: new_pack_of_def)
  note sv = save_new_view [OF ok new id un a, of t]
  have cols: "rsr_name ?row = pack_name p" "rsr_version ?row = version p" "rsr_id ?row = Some f" "rsr_created_at ?row = Some t"
    by (simp_all add: new_set_row_def)
  have pg: "pg_save q f fs t (\<lambda>d. d) p st =
      (case pg_commit q t [Added ?row] st of
         (Inl e, st') \<Rightarrow> (Inl e, st')
       | (Inr _, st') \<Rightarrow> (bindr (refresh_row q (database st') ?row) (\<lambda>r.
             Inr (p\<lparr>pack_id := Some (uuid_opt_str (rsr_id r)), created_at := rsr_created_at r\<rparr>)), st'))"
    by (simp add: pg_save_def save_unit_def none rows Let_def)
  show ?thesis
  proof (cases "sql_commit q t [Added ?row] ?d")
    case (Committed d')
    have alike: "pack_alike (stamp_pack (uuid_str f) t p) (stored_pack_to_domain vs ?row)"
      if vs: "\<And>w. w \<noteq> f \<Longrightarrow> vs w = versions_of q ?d w" for vs
    proof (rule new_row_alike [OF np rows])
      show "resolve_parent_version vs ?par = parent_version p"
      proof (cases "parent_version p")
        case (Some v)
        then obtain x where x: "view mem (pack_name p, v) = Some x" using parent by blast
        from row_of_version_represented(2) [OF laws rep ok x] obtain w r where
          r: "row_of_version (pack_name p) v (sql_rows q ?d) = Some r" "row_by_id (sql_rows q ?d) w = Some r" "rsr_id r = Some w" by blast
        then have "w \<noteq> f" using row_by_id_Some [OF r(2)] fresh by (auto simp: unused_uuid_def)
        then have "vs w = Some (rsr_version r)" using vs r(2) by (simp add: versions_of_def)
        moreover have "rsr_version r = v" using row_of_version_in [OF r(1)] by simp
        ultimately show ?thesis using Some r by (simp add: resolve_parent_version_def)
      qed (simp add: resolve_parent_version_def)
    qed
    have "represents q (repo_save (uuid_str f) t ref mem1) d' \<and>
        (\<exists>r'. row_by_id (sql_rows q d') f = Some r' \<and> row_core r' = row_core ?row)"
    proof (rule represents_added [OF laws ok rep fresh cols(3) Committed])
      show "view (repo_save (uuid_str f) t ref mem1) = (view mem)((rsr_name ?row, rsr_version ?row) \<mapsto> stamp_pack (uuid_str f) t p)"
        "view mem (rsr_name ?row, rsr_version ?row) = None"
        unfolding cols by (rule sv(2), rule new)
    qed (rule alike)
    then obtain r' where r': "represents q (repo_save (uuid_str f) t ref mem1) d'" "row_by_id (sql_rows q d') f = Some r'"
      "row_core r' = row_core ?row" by blast
    have "stamp_pack (uuid_str f) t p = p\<lparr>pack_id := Some (uuid_str f), created_at := Some t\<rparr>"
      using np by (simp add: stamp_pack_def new_pack_of_def)
    moreover have "rsr_id r' = Some f" "rsr_created_at r' = Some t"
      using row_core_fields(1,9) [OF r'(3)] cols by simp_all
    ultimately show ?thesis
      using sv r' cols(3)
      by (simp add: pg same_outcome_def pg_commit_def Committed refreshed uuid_opt_str_def)
  next
    case Stale_Data
    then have "list_ex (stale_change (row_by_id (sql_rows q ?d))) [Added ?row]"
      by (intro commit_law(3) [OF laws]) (simp_all add: unit_of_work_def)
    then show ?thesis by simp
  next
    case (Failed why)
    then show ?thesis by (simp add: pg same_outcome_def pg_commit_def)
  qed
qed

lemma save_again_refines:
  assumes laws: "session_laws q" and ok: "repo_ok mem" and rep: "represents q mem (database st)"
    and k: "map_of (store mem) k = Some ref" and p: "p = (pack_at mem ref)\<lparr>rules := rs\<rparr>" and stamped: "created_at p \<noteq> None"
    and px: "pack_alike p px" and rules: "\<forall>r \<in> set (rules px). storable_id (rule_id r)"
  shows "same_outcome q st (Inr (ref, repo_save g t ref (put_pack ref p mem))) (pg_save q f fs t (\<lambda>d. d) px st)"
proof -
  let ?d = "database st"
  note kd = repo_okD [OF ok k]
  have keep: "pack_name p = pack_name (pack_at mem ref)" "version p = version (pack_at mem ref)" "pack_id p = pack_id (pack_at mem ref)"
    by (simp_all add: p)
  have "pack_id p \<noteq> None" using kd(3) keep by simp
  then have "stamp_pack g t p = p" using stamped by (auto simp: stamp_pack_def Let_def)
  note sv = save_again_view [OF ok k keep, of g t, unfolded this]
  have "view mem (pack_name p, version p) = Some (pack_at mem ref)" using kd(2,4) keep by simp
  from row_of_version_represented(2) [OF laws rep ok this] obtain u row where
    row: "row_of_version (pack_name p) (version p) (sql_rows q ?d) = Some row" "row_by_id (sql_rows q ?d) u = Some row"
      "rsr_id row = Some u" "pack_alike (pack_at mem ref) (pg_to_domain q ?d row)" "pack_id (pack_at mem ref) = Some (uuid_str u)"
    by blast
  have inr: "row \<in> set (sql_rows q ?d)" using row_by_id_Some [OF row(2)] by blast
  obtain rows where rows: "stored_rules (row_uuid row) t (numbered_rules fs (rules px)) = Inr rows" using numbered_storable [OF rules] .
  note fx = pack_alike_fields [OF px] and fr = pack_alike_fields [OF row(4)]
  have cols: "status px = rsr_status row" "region px = rsr_region row" "created_by px = rsr_created_by row"
    "pack_name px = pack_name p" "version px = version p"
    using fx fr by (simp_all add: p)
  let ?row = "row\<lparr>rsr_rules := rows\<rparr>" and ?h = "\<lambda>r. r\<lparr>rsr_rules := rows\<rparr>"
  have "row\<lparr>rsr_status := status px, rsr_region := region px, rsr_created_by := created_by px, rsr_rules := rows\<rparr> = ?row"
    unfolding cols by simp
  then have unit: "save_unit f fs t px (sql_rows q ?d) = Inr (Replaced row ?row, ?row)"
    by (simp add: save_unit_def cols(4,5) row(1) rows Let_def)
  have pg: "pg_save q f fs t (\<lambda>d. d) px st =
      (case pg_commit q t [Replaced row ?row] st of
         (Inl e, st') \<Rightarrow> (Inl e, st')
       | (Inr _, st') \<Rightarrow> (bindr (refresh_row q (database st') ?row) (\<lambda>r.
             Inr (px\<lparr>pack_id := Some (uuid_opt_str (rsr_id r)), created_at := rsr_created_at r\<rparr>)), st'))"
    by (simp add: pg_save_def unit)
  have flush: "flushed t row ?row = ?row" by (simp add: flushed_def dirty_def)
  show ?thesis
  proof (cases "sql_commit q t [Replaced row ?row] ?d")
    case (Committed d')
    let ?F = "\<lambda>x. if pack_id x = Some (uuid_str u) then p else x" and ?G = "\<lambda>r. if r = row then ?row else r"
    have S: "represents q (repo_save g t ref (put_pack ref p mem)) d' \<and>
        (\<forall>a r x. row_by_id (sql_rows q ?d) a = Some r \<longrightarrow> view mem (rsr_name r, rsr_version r) = Some x \<longrightarrow>
          (\<exists>r'. row_by_id (sql_rows q d') a = Some r' \<and> pack_alike (?F x) (pg_to_domain q d' r')))"
    proof (rule represents_step [OF rep ok])
      show "view (repo_save g t ref (put_pack ref p mem)) = (\<lambda>l. map_option ?F (view mem l))"
      proof
        fix l show "view (repo_save g t ref (put_pack ref p mem)) l = map_option ?F (view mem l)"
          using repo_ok_ids [OF ok kd(4), of l] kd(4) row(5) by (cases "view mem l") (auto simp: sv(2))
      qed
      show "map_option row_core (row_by_id (sql_rows q d') a) = map_option row_core (map_option ?G (row_by_id (sql_rows q ?d) a))" for a
        using commit_changed [OF laws, of "[row]" ?d ?h "\<lambda>r. Replaced r (?h r)" t d' a] inr Committed flush
        by (cases "row_by_id (sql_rows q ?d) a") (auto simp: changes_row_def)
      show "rsr_name (?G r) = rsr_name r" "rsr_version (?G r) = rsr_version r" for r by simp_all
      fix a r x assume r: "row_by_id (sql_rows q ?d) a = Some r" and x: "pack_alike x (pg_to_domain q ?d r)"
      have id: "rsr_id r = Some a" using row_by_id_Some [OF r] by simp
      then have pid: "pack_id x = Some (uuid_str a)" using pack_alike_fields(5) [OF x] by (simp add: uuid_opt_str_def)
      have "pack_alike p (stored_pack_to_domain (versions_of q ?d) ?row)"
      proof -
        have "p\<lparr>rules := []\<rparr> = (pack_at mem ref)\<lparr>rules := []\<rparr>" by (simp add: p)
        moreover have "(pack_at mem ref)\<lparr>rules := []\<rparr> = (pg_to_domain q ?d row)\<lparr>rules := []\<rparr>"
          using row(4) by (simp add: pack_alike_def pack_core_def)
        moreover have "(stored_pack_to_domain (versions_of q ?d) ?row)\<lparr>rules := []\<rparr> = (pg_to_domain q ?d row)\<lparr>rules := []\<rparr>"
          by (simp add: stored_pack_to_domain_def pg_to_domain_def)
        moreover have "mset (map json_normal (rules p)) = mset (map json_normal (rules px))"
          using px by (simp add: pack_alike_def pack_core_def)
        ultimately show ?thesis
          using stored_rules_alike [OF rows] by (simp add: pack_alike_def pack_core_def stored_pack_to_domain_def)
      qed
      then show "pack_alike (?F x) (stored_pack_to_domain (versions_of q ?d) (?G r))"
        using r x row(2,3) id pid by (cases "a = u") (auto simp: pg_to_domain_def)
    qed
    then obtain r' where r': "row_by_id (sql_rows q d') u = Some r'" "pack_alike p (pg_to_domain q d' r')"
      using row(2,5) fr(1,2) kd(2,4) by fastforce
    have "px\<lparr>pack_id := Some (uuid_opt_str (rsr_id r')), created_at := rsr_created_at r'\<rparr> = px"
      using pack_alike_fields(5,10) [OF r'(2)] fx(5,10) by (cases px) simp
    then show ?thesis
      using S r' row(3) sv px by (simp add: pg same_outcome_def pg_commit_def Committed refreshed)
  next
    case Stale_Data
    then show ?thesis using loaded_not_stale [OF laws, of "[row]" ?d ?h "\<lambda>r. Replaced r (?h r)" t] inr by (simp add: changes_row_def)
  next
    case (Failed why)
    then show ?thesis by (simp add: pg same_outcome_def pg_commit_def)
  qed
qed

section \<open>Queries\<close>

lemma get_agrees:
  assumes "session_laws q" and "repo_ok mem" and "represents q mem (database st)"
  shows "rel_option pack_alike (map_option (pack_at mem) (repo_get mem n v)) (pg_get q st n v)"
proof -
  have g: "map_option (pack_at mem) (repo_get mem n v) = view mem (n, v)" by (simp add: view_def repo_get_def)
  show ?thesis
  proof (cases "view mem (n, v)")
    case None
    then show ?thesis unfolding g using row_of_version_represented(1) [OF assms(1,3,2) None] by (simp add: pg_get_def)
  next
    case (Some p)
    from row_of_version_represented(2) [OF assms(1,3,2) Some] show ?thesis unfolding g Some by (auto simp: pg_get_def)
  qed
qed

text \<open>By id the database hides what was archived; the in-memory repository does not.\<close>

lemma get_by_id_agrees:
  assumes laws: "session_laws q" and ok: "repo_ok mem" and rep: "represents q mem (database st)"
  shows "\<exists>x. pg_get_by_id q st (uuid_str u) = Inr x \<and>
    rel_option pack_alike (Option.bind (repo_get_by_id mem (uuid_str u))
      (\<lambda>r. if status (pack_at mem r) = ARCHIVED then None else Some (pack_at mem r))) x"
proof -
  let ?find = "find (\<lambda>r. rsr_id r = Some u \<and> rsr_status r \<noteq> ARCHIVED) (sql_rows q (database st))"
  have found: "?find = (case row_by_id (sql_rows q (database st)) u of None \<Rightarrow> None | Some r \<Rightarrow> if rsr_status r = ARCHIVED then None else Some r)"
  proof (cases "row_by_id (sql_rows q (database st)) u")
    case None
    then have "?find = None" by (auto simp: row_by_id_def find_None_iff)
    then show ?thesis using None by simp
  next
    case (Some r)
    have uniq: "s = r" if "s \<in> set (sql_rows q (database st))" "rsr_id s = Some u" for s
      using row_by_id_member [OF laws that(1)] that(2) Some by (metis option.inject)
    show ?thesis
    proof (cases ?find)
      case None
      then show ?thesis using row_by_id_Some [OF Some] Some by (auto simp: find_None_iff)
    next
      case (Some s)
      then have "s \<in> set (sql_rows q (database st))" "rsr_id s = Some u" "rsr_status s \<noteq> ARCHIVED"
        by (auto simp: find_Some_iff)
      with uniq show ?thesis using Some \<open>row_by_id _ u = Some r\<close> by simp
    qed
  qed
  have pg: "pg_get_by_id q st (uuid_str u) = Inr (map_option (pg_to_domain q (database st)) ?find)"
    by (simp add: pg_get_by_id_def key_read [OF laws])
  show ?thesis
  proof (cases "repo_get_by_id mem (uuid_str u)")
    case None
    have "row_by_id (sql_rows q (database st)) u = None"
    proof (rule ccontr)
      assume "row_by_id (sql_rows q (database st)) u \<noteq> None"
      then obtain r where "row_by_id (sql_rows q (database st)) u = Some r" by blast
      from represents_row [OF rep this] get_by_id_view(2) [OF ok] None show False by metis
    qed
    then show ?thesis by (simp add: pg found None)
  next
    case (Some ref)
    obtain k where k: "view mem k = Some (pack_at mem ref)" "pack_id (pack_at mem ref) = Some (uuid_str u)"
      using get_by_id_view(1) [OF ok Some] by blast
    obtain w row where row: "row_by_id (sql_rows q (database st)) w = Some row"
      "pack_alike (pack_at mem ref) (pg_to_domain q (database st) row)" "pack_id (pack_at mem ref) = Some (uuid_str w)"
      by (rule represents_pack [OF rep ok k(1)])
    have "row_by_id (sql_rows q (database st)) u = Some row" using row(1,3) k(2) by simp
    then show ?thesis using row(2) pack_alike_fields(3) [OF row(2)] by (simp add: pg found Some)
  qed
qed

lemma refs_distinct: "repo_ok mem \<Longrightarrow> distinct (refs mem)"
proof -
  assume ok: "repo_ok mem"
  then have d: "distinct (map fst (store mem))" by (simp add: repo_ok_def dict_ok_def)
  have "inj_on snd (set (store mem))"
  proof (rule inj_onI)
    fix x y assume x: "x \<in> set (store mem)" and y: "y \<in> set (store mem)" and e: "snd x = snd y"
    have "map_of (store mem) (fst z) = Some (snd z)" if "z \<in> set (store mem)" for z
      using map_of_is_SomeI [OF d, of "fst z" "snd z"] that by simp
    from this [OF x] this [OF y] have "fst x = fst y" using repo_ok_inj [OF ok] e by metis
    then show "x = y" using e by (simp add: prod_eq_iff)
  qed
  then show "distinct (refs mem)" using d by (simp add: refs_def distinct_map)
qed

lemma list_versions_agrees:
  assumes laws: "session_laws q" and ok: "repo_ok mem" and rep: "represents q mem (database st)"
  shows "list_all2 pack_alike (map (pack_at mem) (list_versions mem n)) (pg_list_versions q st n)"
proof -
  let ?rs = "sql_rows q (database st)"
  let ?as = "list_versions mem n" and ?bs = "sort_key rsr_version (filter (\<lambda>r. rsr_name r = n) ?rs)"
  have a: "r \<in> set ?as \<Longrightarrow> view mem (n, version (pack_at mem r)) = Some (pack_at mem r) \<and>
      map_of (store mem) (n, version (pack_at mem r)) = Some r" for r
    using ref_has_key [OF ok] by (force simp: list_versions_def view_def)
  have b: "\<exists>p. view mem (n, rsr_version r) = Some p \<and> pack_alike p (pg_to_domain q (database st) r)" if "r \<in> set ?bs" for r
  proof -
    have "r \<in> set ?rs" "rsr_name r = n" using that by simp_all
    then show ?thesis using row_by_id_member [OF laws, of r] represents_row [OF rep] by metis
  qed
  have "inj_on (\<lambda>r. version (pack_at mem r)) (set ?as)" using a by (intro inj_onI) (metis option.inject)
  then have da: "distinct (map (\<lambda>r. version (pack_at mem r)) ?as)"
    using refs_distinct [OF ok] by (simp add: distinct_map list_versions_def)
  have "inj_on rsr_version (set ?bs)"
  proof (rule inj_onI)
    fix r s assume rs: "r \<in> set ?bs" "s \<in> set ?bs" "rsr_version r = rsr_version s"
    then have m: "r \<in> set ?rs" "s \<in> set ?rs" "rsr_name r = n" "rsr_name s = n" by simp_all
    obtain u where u: "row_by_id ?rs u = Some r" by (rule row_by_id_member [OF laws m(1)])
    obtain w where w: "row_by_id ?rs w = Some s" by (rule row_by_id_member [OF laws m(2)])
    show "r = s" using represents_unique [OF rep u w] rs m by simp
  qed
  moreover have "distinct ?rs" using laws unfolding session_laws_def by (metis distinct_map)
  ultimately have db: "distinct (map rsr_version ?bs)" by (simp add: distinct_map)
  have "set (map (\<lambda>r. version (pack_at mem r)) ?as) = set (map rsr_version ?bs)"
  proof (intro equalityI subsetI)
    fix v assume "v \<in> set (map (\<lambda>r. version (pack_at mem r)) ?as)"
    then obtain p where p: "view mem (n, v) = Some p" using a by auto
    from row_of_version_represented(2) [OF laws rep ok p] obtain r where "row_of_version n v ?rs = Some r" by blast
    from row_of_version_in [OF this] show "v \<in> set (map rsr_version ?bs)" by force
  next
    fix v assume "v \<in> set (map rsr_version ?bs)"
    then obtain p where p: "view mem (n, v) = Some p" using b by auto
    then obtain r where r: "map_of (store mem) (n, v) = Some r" "p = pack_at mem r" by (auto simp: view_def)
    then have "r \<in> set ?as" "v = version (pack_at mem r)"
      using view_key [OF ok p] key_has_ref [OF r(1)] by (auto simp: list_versions_def)
    then show "v \<in> set (map (\<lambda>r. version (pack_at mem r)) ?as)" by simp
  qed
  then have eq: "map (\<lambda>r. version (pack_at mem r)) ?as = map rsr_version ?bs"
    using da db by (intro sorted_distinct_set_unique) (simp_all add: list_versions_def)
  show ?thesis
    unfolding pg_list_versions_def list_all2_conv_all_nth length_map
  proof (intro conjI allI impI)
    show len: "length ?as = length ?bs" using arg_cong [OF eq, of length] by simp
    fix i assume i: "i < length ?as"
    then have v: "version (pack_at mem (?as ! i)) = rsr_version (?bs ! i)"
      using arg_cong [OF eq, of "\<lambda>xs. xs ! i"] len by simp
    have "?as ! i \<in> set ?as" "?bs ! i \<in> set ?bs" using i len by (simp, metis nth_mem)
    then obtain p where "view mem (n, rsr_version (?bs ! i)) = Some p" "pack_alike p (pg_to_domain q (database st) (?bs ! i))"
      "p = pack_at mem (?as ! i)" using a [of "?as ! i"] b [of "?bs ! i"] v by auto
    then show "pack_alike (map (pack_at mem) ?as ! i) (map (pg_to_domain q (database st)) ?bs ! i)"
      using i len by simp
  qed
qed

section \<open>An example session\<close>

text \<open>A table that is a list of rows with distinct ids, and a commit that enforces just that.\<close>

definition keyed_rows :: "rule_set_row list \<Rightarrow> bool" where
  "keyed_rows rs \<longleftrightarrow> distinct (map rsr_id rs) \<and> None \<notin> set (map rsr_id rs)"

definition list_rows :: "rule_set_row list \<Rightarrow> rule_set_row list" where
  "list_rows d = (if keyed_rows d then d else [])"

definition flush_unit :: "instant \<Rightarrow> row_change list \<Rightarrow> rule_set_row \<Rightarrow> rule_set_row" where
  "flush_unit t chs r = (case find (\<lambda>c. change_id c = rsr_id r) chs of
     Some (Changed old new) \<Rightarrow> flush_into t (Changed old new) r
   | Some (Replaced old new) \<Rightarrow> flush_into t (Replaced old new) r
   | _ \<Rightarrow> r)"

definition added_rows :: "row_change list \<Rightarrow> rule_set_row list" where
  "added_rows chs = concat (map (\<lambda>c. case c of Added r \<Rightarrow> [r] | _ \<Rightarrow> []) chs)"

definition list_session :: "rule_set_row list sql_session" where
  "list_session = \<lparr>sql_rows = list_rows, sql_key = uuid_parse, sql_collate = (\<lambda>s. s),
     sql_commit = (\<lambda>t chs d.
       if list_ex (stale_change (row_by_id (list_rows d))) chs then Stale_Data
       else let d' = map (flush_unit t chs) (list_rows d) @ added_rows chs
            in if keyed_rows d' then Committed d' else Failed ''constraint'')\<rparr>"

lemma row_by_id_append: "row_by_id (xs @ ys) u = (case row_by_id xs u of None \<Rightarrow> row_by_id ys u | Some r \<Rightarrow> Some r)"
  by (induction xs) (auto simp: row_by_id_def)

lemma row_by_id_map: "(\<And>r. r \<in> set xs \<Longrightarrow> rsr_id (g r) = rsr_id r) \<Longrightarrow> row_by_id (map g xs) u = map_option g (row_by_id xs u)"
  by (induction xs) (auto simp: row_by_id_def)

lemma flush_unit_id:
  assumes "list_all same_identity chs"
  shows "rsr_id (flush_unit t chs r) = rsr_id r"
proof (cases "find (\<lambda>c. change_id c = rsr_id r) chs")
  case (Some c)
  then have c: "c \<in> set chs" "change_id c = rsr_id r" by (auto simp: find_Some_iff)
  with assms show ?thesis
    by (cases c) (auto simp: flush_unit_def Some update_row_def list_all_iff)
qed (simp add: flush_unit_def)

lemma added_row:
  assumes "unit_of_work chs"
  shows "row_by_id (added_rows chs) u =
    (case find (\<lambda>c. change_id c = Some u) chs of Some (Added r) \<Rightarrow> Some r | _ \<Rightarrow> None)"
  using assms
proof (induction chs)
  case (Cons c chs)
  have ih: "row_by_id (added_rows chs) u = (case find (\<lambda>c. change_id c = Some u) chs of Some (Added r) \<Rightarrow> Some r | _ \<Rightarrow> None)"
    using Cons by (simp add: unit_of_work_def)
  show ?case
  proof (cases "change_id c = Some u")
    case True
    then have "find (\<lambda>c. change_id c = Some u) chs = None"
      using Cons.prems by (force simp: unit_of_work_def find_None_iff)
    then show ?thesis using True ih by (cases c) (auto simp: added_rows_def row_by_id_def)
  next
    case False
    then show ?thesis using ih by (cases c) (auto simp: added_rows_def row_by_id_def)
  qed
qed (simp add: added_rows_def row_by_id_def)

lemma list_session_laws: "session_laws list_session"
  unfolding session_laws_def
proof (intro conjI allI impI)
  fix d show "distinct (map rsr_id (sql_rows list_session d))" "None \<notin> rsr_id ` set (sql_rows list_session d)"
    by (auto simp: list_session_def list_rows_def keyed_rows_def)
next
  fix u show "sql_key list_session (uuid_str u) = Inr u" by (simp add: list_session_def)
next
  fix t chs d assume unit: "unit_of_work chs"
  let ?rs = "list_rows d" and ?d' = "map (flush_unit t chs) (list_rows d) @ added_rows chs"
  show "case sql_commit list_session t chs d of
      Committed d' \<Rightarrow> list_all (\<lambda>c. \<not> stale_change (row_by_id (sql_rows list_session d)) c) chs \<and>
        (\<forall>u. map_option row_core (row_by_id (sql_rows list_session d') u) =
           map_option row_core (after_commit t chs (row_by_id (sql_rows list_session d)) u))
    | Stale_Data \<Rightarrow> list_ex (stale_change (row_by_id (sql_rows list_session d))) chs
    | Failed m \<Rightarrow> True"
  proof (cases "list_ex (stale_change (row_by_id ?rs)) chs \<or> \<not> keyed_rows ?d'")
    case True
    then show ?thesis by (auto simp: list_session_def Let_def)
  next
    case False
    have m: "row_by_id (map (flush_unit t chs) ?rs) u = map_option (flush_unit t chs) (row_by_id ?rs u)" for u
      by (rule row_by_id_map) (rule flush_unit_id [OF unit_identity [OF unit]])
    have "row_by_id ?d' u = after_commit t chs (row_by_id ?rs) u" for u
    proof (cases "find (\<lambda>c. change_id c = Some u) chs")
      case None
      then show ?thesis
        using row_by_id_Some [of ?rs u]
        by (cases "row_by_id ?rs u") (simp_all add: row_by_id_append m added_row [OF unit] after_commit_def flush_unit_def)
    next
      case (Some c)
      note rows = row_by_id_append m added_row [OF unit] after_commit_def
      show ?thesis
      proof (cases c)
        case (Added r)
        then have r: "r \<in> set (added_rows chs)" "rsr_id r = Some u"
          using row_by_id_Some [of "added_rows chs" u] added_row [OF unit, of u] Some by simp_all
        have "row_by_id ?rs u = None"
        proof (rule ccontr)
          assume "row_by_id ?rs u \<noteq> None"
          then obtain s where "s \<in> set ?rs" "rsr_id s = Some u" using row_by_id_Some by blast
          then have "Some u \<in> set (map rsr_id (map (flush_unit t chs) ?rs))"
            using flush_unit_id [OF unit_identity [OF unit]] by (force simp: image_iff)
          moreover have "Some u \<in> set (map rsr_id (added_rows chs))" using r by (metis image_eqI list.set_map)
          ultimately show False using False unfolding keyed_rows_def map_append distinct_append by blast
        qed
        then show ?thesis using Some Added by (simp add: rows)
      next
        case (Changed old new)
        then show ?thesis
          using Some row_by_id_Some [of ?rs u] by (cases "row_by_id ?rs u") (simp_all add: rows flush_unit_def)
      next
        case (Replaced old new)
        then show ?thesis
          using Some row_by_id_Some [of ?rs u] by (cases "row_by_id ?rs u") (simp_all add: rows flush_unit_def)
      qed
    qed
    moreover have "list_all (\<lambda>c. \<not> stale_change (row_by_id ?rs) c) chs"
      using False by (auto simp: list_ex_iff list_all_iff)
    ultimately show ?thesis using False by (simp add: list_session_def Let_def list_rows_def)
  qed
qed

section \<open>The contract\<close>

text \<open>When a save inserts a pack that a use case created, and when it stores changed rules.\<close>

definition inserts :: "'db sql_session \<Rightarrow> pack_repo \<Rightarrow> 'db \<Rightarrow> uuid \<Rightarrow> rule_pack \<Rightarrow> bool" where
  "inserts q mem d f p \<longleftrightarrow> view mem (pack_name p, version p) = None \<and> new_pack_of p \<and>
     (\<forall>v. parent_version p = Some v \<longrightarrow> view mem (pack_name p, v) \<noteq> None) \<and>
     unused_uuid f (sql_rows q d) \<and> list_all (\<lambda>r. storable_id (rule_id r)) (rules p)"

definition stores_rules :: "pack_repo \<Rightarrow> ref \<Rightarrow> rule_pack \<Rightarrow> rule_pack \<Rightarrow> bool" where
  "stores_rules mem ref p px \<longleftrightarrow> (\<exists>k. map_of (store mem) k = Some ref) \<and>
     p = (pack_at mem ref)\<lparr>rules := rules p\<rparr> \<and> created_at p \<noteq> None \<and> pack_alike p px \<and>
     list_all (\<lambda>r. storable_id (rule_id r)) (rules px)"

definition with_id :: "pack_repo \<Rightarrow> uuid \<Rightarrow> rule_pack \<Rightarrow> bool" where
  "with_id mem u p \<longleftrightarrow> pack_id p = Some (uuid_str u) \<and> (\<exists>k. view mem k = Some p)"

text \<open>
  Property C3: the relational repository refines the in-memory one. From a state where
  the rows represent the stored packs, the same activation, change of status or of region,
  deletion, insertion of a new pack or save of changed rules is refused by both with the same
  error, or answered by both with the same pack and leaves the rows representing the packs,
  unless the database itself fails and nothing changes; provided the operation really changes
  the row, since only then SQL counts the lock version up. Lookups by version and version lists
  agree, and lookups by id agree up to archived packs, which the database hides.
\<close>
theorem postgres_refines_memory:
  assumes "session_laws q" and "repo_ok mem" and "represents q mem (database st)"
  shows "((\<forall>p. view mem (n, v) = Some p \<longrightarrow> status p \<noteq> ACTIVE) \<longrightarrow>
      same_outcome q st (repo_activate t n v e mem) (pg_activate q t (\<lambda>d. d) n v e st)) \<and>
    ((\<forall>p. with_id mem u p \<longrightarrow> status p \<noteq> s) \<longrightarrow>
      same_outcome q st (update_status (uuid_str u) s e mem) (pg_update_status q t (\<lambda>d. d) (uuid_str u) s e st)) \<and>
    ((\<forall>p. with_id mem u p \<longrightarrow> region p \<noteq> Some g) \<longrightarrow>
      same_outcome q st (update_metadata (uuid_str u) e [AttrRegion (Some g)] mem)
        (pg_update_metadata q t (\<lambda>d. d) (uuid_str u) e [AttrRegion (Some g)] st)) \<and>
    ((\<forall>p. with_id mem u p \<longrightarrow> deleted_at p \<noteq> Some t) \<longrightarrow>
      same_outcome q st (soft_delete t (uuid_str u) e mem) (pg_soft_delete q t (\<lambda>d. d) (uuid_str u) e st)) \<and>
    (inserts q mem (database st) u p \<longrightarrow> alloc p mem = (ref, mem1) \<longrightarrow>
      same_outcome q st (Inr (ref, repo_save (uuid_str u) t ref mem1)) (pg_save q u fs t (\<lambda>d. d) p st)) \<and>
    (stores_rules mem ref p px \<longrightarrow>
      same_outcome q st (Inr (ref, repo_save i t ref (put_pack ref p mem))) (pg_save q u fs t (\<lambda>d. d) px st)) \<and>
    rel_option pack_alike (map_option (pack_at mem) (repo_get mem n v)) (pg_get q st n v) \<and>
    list_all2 pack_alike (map (pack_at mem) (list_versions mem n)) (pg_list_versions q st n) \<and>
    (\<exists>x. pg_get_by_id q st (uuid_str u) = Inr x \<and>
      rel_option pack_alike (Option.bind (repo_get_by_id mem (uuid_str u))
        (\<lambda>r. if status (pack_at mem r) = ARCHIVED then None else Some (pack_at mem r))) x)"
proof (intro conjI impI)
  assume "inserts q mem (database st) u p" and a: "alloc p mem = (ref, mem1)"
  then show "same_outcome q st (Inr (ref, repo_save (uuid_str u) t ref mem1)) (pg_save q u fs t (\<lambda>d. d) p st)"
    by (intro save_new_refines [OF assms _ _ _ _ _ a]) (auto simp: inserts_def list_all_iff)
next
  assume "stores_rules mem ref p px"
  then obtain k where k: "map_of (store mem) k = Some ref" "p = (pack_at mem ref)\<lparr>rules := rules p\<rparr>" "created_at p \<noteq> None"
    "pack_alike p px" "\<forall>r \<in> set (rules px). storable_id (rule_id r)"
    by (auto simp: stores_rules_def list_all_iff)
  show "same_outcome q st (Inr (ref, repo_save i t ref (put_pack ref p mem))) (pg_save q u fs t (\<lambda>d. d) px st)"
    by (rule save_again_refines [OF assms k])
next
  assume "\<forall>p. view mem (n, v) = Some p \<longrightarrow> status p \<noteq> ACTIVE"
  then show "same_outcome q st (repo_activate t n v e mem) (pg_activate q t (\<lambda>d. d) n v e st)"
    by (intro activation_refines [OF assms]) blast
next
  assume "\<forall>p. with_id mem u p \<longrightarrow> status p \<noteq> s"
  then show "same_outcome q st (update_status (uuid_str u) s e mem) (pg_update_status q t (\<lambda>d. d) (uuid_str u) s e st)"
    by (intro status_refines [OF assms]) (auto simp: with_id_def)
next
  assume "\<forall>p. with_id mem u p \<longrightarrow> region p \<noteq> Some g"
  then show "same_outcome q st (update_metadata (uuid_str u) e [AttrRegion (Some g)] mem)
      (pg_update_metadata q t (\<lambda>d. d) (uuid_str u) e [AttrRegion (Some g)] st)"
    by (intro region_refines [OF assms]) (auto simp: with_id_def)
next
  assume "\<forall>p. with_id mem u p \<longrightarrow> deleted_at p \<noteq> Some t"
  then show "same_outcome q st (soft_delete t (uuid_str u) e mem) (pg_soft_delete q t (\<lambda>d. d) (uuid_str u) e st)"
    by (intro delete_refines [OF assms]) (auto simp: with_id_def)
qed (rule get_agrees [OF assms], rule list_versions_agrees [OF assms], rule get_by_id_agrees [OF assms])

text \<open>The example: a pack with one rule is inserted into the empty database.\<close>

definition w_pg :: "rule_set_row list pg_repo" where
  "w_pg = \<lparr>database = [], pg_cache = new_cache (Fin 10)\<rparr>"

definition w_new :: rule_pack where
  "w_new = new_pack ''noc'' 1 PUBLISHED None [w_rule ''R1'' 5 []]"

definition w_saved :: "rule_pack res \<times> rule_set_row list pg_repo" where
  "w_saved = pg_save list_session 7 (\<lambda>i. 8) 5 (\<lambda>d. d) w_new w_pg"

lemma list_session_rows: "keyed_rows d \<Longrightarrow> sql_rows list_session d = d"
  by (simp add: list_session_def list_rows_def)

lemma list_session_changes:
  assumes d: "keyed_rows d" and sub: "set rs \<subseteq> set d" and dist: "distinct (map rsr_id rs)"
    and w: "\<forall>r \<in> set rs. changes_row g c r"
  shows "sql_commit list_session t (map c rs) d = Committed (map (\<lambda>r. if r \<in> set rs then flushed t r (g r) else r) d)"
proof -
  note unit = unit_of_writes [OF dist w]
  have "flush_unit t (map c rs) r = (if r \<in> set rs then flushed t r (g r) else r)" if r: "r \<in> set d" for r
  proof (cases "find (\<lambda>c. change_id c = rsr_id r) (map c rs)")
    case None
    then have "r \<notin> set rs" using change_id_written [OF w] by (auto simp: find_None_iff)
    then show ?thesis using None by (simp add: flush_unit_def)
  next
    case (Some ch)
    then obtain s where s: "s \<in> set rs" "ch = c s" "rsr_id s = rsr_id r" using find_map_Some [OF Some] change_id_written [OF w] by fastforce
    then have "s = r" using sub r d by (metis inj_onD subsetD distinct_map keyed_rows_def)
    then have "r \<in> set rs" "flush_into t ch r = flushed t r (g r)" "\<exists>new. ch = Changed r new \<or> ch = Replaced r new"
      using s w changes_rowD(4,5) by blast+
    then show ?thesis using Some by (auto simp: flush_unit_def simp del: flush_into.simps)
  qed
  then have m: "map (flush_unit t (map c rs)) d = map (\<lambda>r. if r \<in> set rs then flushed t r (g r) else r) d" by simp
  have "map rsr_id (map (flush_unit t (map c rs)) d) = map rsr_id d" using flush_unit_id [OF unit_identity [OF unit]] by simp
  then have k: "keyed_rows (map (flush_unit t (map c rs)) d)" using d unfolding keyed_rows_def by argo
  have "\<exists>new. c r = Changed r new \<or> c r = Replaced r new" if "r \<in> set rs" for r using w that changes_rowD(5) by blast
  then have none: "added_rows (map c rs) = []" by (force simp: added_rows_def)
  have "\<not> list_ex (stale_change (row_by_id (list_rows d))) (map c rs)"
    using loaded_not_stale [OF list_session_laws, of rs d g c t] sub dist w list_session_rows [OF d]
    by (auto simp: list_session_def Let_def split: if_splits)
  then have "sql_commit list_session t (map c rs) d = Committed (map (flush_unit t (map c rs)) d)"
    using d k none by (simp add: list_session_def list_rows_def Let_def del: map_map list.map_comp)
  then show ?thesis unfolding m .
qed

lemma w_saved_row:
  obtains r where "w_saved = (Inr (w_new\<lparr>pack_id := Some (uuid_str 7), created_at := Some 5\<rparr>),
      w_pg\<lparr>database := [(new_set_row 7 5 w_new None)\<lparr>rsr_rules := [r]\<rparr>]\<rparr>)"
proof -
  obtain r0 where r0: "rule_to_orm (w_rule ''R1'' 5 []) 7 = Inr r0"
    by (simp add: rule_to_orm_def given_id_def w_rule_def)
  let ?r = "insert_rule_row 8 5 r0"
  let ?row = "(new_set_row 7 5 w_new None)\<lparr>rsr_rules := [?r]\<rparr>"
  have "stored_rules 7 5 (numbered_rules (\<lambda>i. 8) (rules w_new)) = Inr [?r]"
    by (simp add: stored_rules_def numbered_rules_def w_new_def new_pack_def r0)
  then have unit: "save_unit 7 (\<lambda>i. 8) 5 w_new [] = Inr (Added ?row, ?row)"
    by (simp add: save_unit_def row_of_version_def w_new_def new_pack_def Let_def)
  have keyed: "keyed_rows []" "keyed_rows [?row]" by (simp_all add: keyed_rows_def new_set_row_def)
  note rows = this [THEN list_session_rows]
  have "sql_commit list_session 5 [Added ?row] [] = Committed [?row]"
    using keyed by (simp add: list_session_def list_rows_def added_rows_def)
  then have "w_saved = (Inr (w_new\<lparr>pack_id := Some (uuid_str 7), created_at := Some 5\<rparr>), w_pg\<lparr>database := [?row]\<rparr>)"
    by (simp add: w_saved_def pg_save_def w_pg_def rows unit pg_commit_def refresh_row_def row_by_id_def uuid_opt_str_def)
  then show thesis by (rule that)
qed

lemma postgres_refines_memory_witness:
  "\<exists>mem1 p1. alloc w_new empty_repo = (0, mem1) \<and> w_saved = (Inr p1, snd w_saved) \<and>
     pack_alike (pack_at (repo_save (uuid_str 7) 5 0 mem1) 0) p1 \<and>
     represents list_session (repo_save (uuid_str 7) 5 0 mem1) (database (snd w_saved))"
proof -
  obtain mem1 where a: "alloc w_new empty_repo = (0, mem1)" by (simp add: alloc_def empty_repo_def)
  have ok: "repo_ok empty_repo" by (simp add: repo_ok_def empty_repo_def view_def dict_ok_def)
  have rows: "sql_rows list_session [] = []" by (simp add: list_session_rows keyed_rows_def)
  then have rep: "represents list_session empty_repo (database w_pg)"
    by (simp add: represents_def w_pg_def row_by_id_def view_def empty_repo_def)
  have ins: "inserts list_session empty_repo (database w_pg) 7 w_new"
    by (simp add: inserts_def view_def empty_repo_def w_new_def new_pack_def new_pack_of_def w_pg_def rows unused_uuid_def w_rule_def storable_id_def)
  have out: "same_outcome list_session w_pg (Inr (0, repo_save (uuid_str 7) 5 0 mem1)) w_saved"
    unfolding w_saved_def
    using postgres_refines_memory [OF list_session_laws ok rep, THEN conjunct2, THEN conjunct2, THEN conjunct2, THEN conjunct2,
        THEN conjunct1, rule_format, OF ins a] .
  obtain r where w: "w_saved = (Inr (w_new\<lparr>pack_id := Some (uuid_str 7), created_at := Some 5\<rparr>),
      w_pg\<lparr>database := [(new_set_row 7 5 w_new None)\<lparr>rsr_rules := [r]\<rparr>]\<rparr>)" by (rule w_saved_row)
  show ?thesis using out a unfolding w same_outcome_def by simp
qed

end
