(* ===== verification/Db_Races.thy ===== *)
theory Db_Races
  imports Db_Pack_Properties
begin

text \<open>
  Sessions that overlap: what the lock version of a row protects (the row it is on), and what
  it does not (the rules of the pack, the versions that become active together), and the
  policy an evaluation finds after a roll-back.
\<close>

section \<open>A commit based on an outdated row\<close>

definition refused :: "'db pg_repo \<Rightarrow> rule_pack res \<times> 'db pg_repo \<Rightarrow> bool" where
  \<comment> \<open>an error, and nothing written to \<open>st\<close>\<close>
  "refused st out \<longleftrightarrow> snd out = st \<and> (fst out = Inl lost_race \<or> (\<exists>why. fst out = Inl (DatabaseError why)))"

definition outdated :: "'db sql_session \<Rightarrow> 'db \<Rightarrow> rule_set_row \<Rightarrow> bool" where
  \<comment> \<open>the row has another lock version by now, or is gone\<close>
  "outdated q d row \<longleftrightarrow>
     map_option rsr_lock_version (Option.bind (rsr_id row) (row_by_id (sql_rows q d))) \<noteq> Some (rsr_lock_version row)"

lemma stale_commit_refused:
  assumes laws: "session_laws q" and dist: "distinct (map rsr_id rs)" and w: "\<forall>r \<in> set rs. changes_row g c r"
    and r: "r \<in> set rs" "outdated q (database st) r" "dirty r (g r)"
  shows "refused st (commit_and_read q t (map c rs) row st)"
proof -
  have "stale_change (row_by_id (sql_rows q (database st))) (c r)"
    using w r changes_rowD(3) by (auto simp: stale_row_def outdated_def)
  then have "\<not> list_all (\<lambda>ch. \<not> stale_change (row_by_id (sql_rows q (database st))) ch) (map c rs)"
    using r(1) by (auto simp: list_all_iff)
  then have "\<nexists>d'. sql_commit q t (map c rs) (database st) = Committed d'"
    using commit_law(1) [OF laws unit_of_writes [OF dist w]] by blast
  then show ?thesis
    by (auto simp: refused_def commit_and_read_def pg_commit_def split: committed.splits)
qed

lemma modify_outdated_refused:
  assumes laws: "session_laws q" and load: "session_get q i (database st) = Inr (Some row)"
    and out: "outdated q (others (database st)) row" and lock: "check_row_lock row e = Inr ()"
    and keep: "rsr_id (h row) = rsr_id row" "rsr_rules (h row) = rsr_rules row" and dirty: "dirty row (h row)"
  shows "refused (st\<lparr>database := others (database st)\<rparr>) (pg_modify q t others i e (\<lambda>r. Inr (h r)) st)"
  using stale_commit_refused [OF laws, of "[row]" h "\<lambda>r. Changed r (h r)" row "st\<lparr>database := others (database st)\<rparr>" t row]
  by (simp add: pg_modify_def load lock out dirty keep changes_row_def)

lemma refused_invalidate: "refused st out \<Longrightarrow> refused st (invalidate_pg out)"
  by (cases out) (auto simp: refused_def invalidate_pg_def)

lemma activate_outdated_refused:
  assumes laws: "session_laws q" and load: "row_of_version n v (sql_rows q (database st)) = Some target"
    and lock: "check_row_lock target e = Inr ()"
    and r: "r \<in> set (activation_rows n target (sql_rows q (database st)))" "outdated q (others (database st)) r"
      "dirty r (activate_row t target r)"
  shows "refused (st\<lparr>database := others (database st)\<rparr>) (pg_activate q t others n v e st)"
proof -
  have "target \<in> set (sql_rows q (database st))" using row_of_version_in [OF load] by blast
  note rs = activation_rows_props [OF laws this, of n]
  have "refused (st\<lparr>database := others (database st)\<rparr>) (commit_and_read q t
      (map (\<lambda>r. Changed r (activate_row t target r)) (activation_rows n target (sql_rows q (database st)))) target
      (st\<lparr>database := others (database st)\<rparr>))"
    by (rule stale_commit_refused [OF laws rs(2) activation_writes r(1)]) (use r in simp_all)
  then show ?thesis by (simp add: pg_activate_def load lock refused_invalidate)
qed


text \<open>The example: another session deprecates the pack before the commit.\<close>

definition w_set :: "uuid \<Rightarrow> int \<Rightarrow> string \<Rightarrow> rule_set_row" where
  "w_set u v s = new_set_row u 1 (new_pack ''noc'' v s None []) None"

lemma w_set_fields [simp]:
  "rsr_id (w_set u v s) = Some u" "rsr_name (w_set u v s) = ''noc''" "rsr_version (w_set u v s) = v"
  "rsr_status (w_set u v s) = s" "rsr_region (w_set u v s) = None" "rsr_lock_version (w_set u v s) = 1"
  "rsr_deleted_at (w_set u v s) = None" "rsr_rules (w_set u v s) = []"
  by (simp_all add: w_set_def new_set_row_def new_pack_def)

definition w_state :: "rule_set_row list \<Rightarrow> rule_set_row list pg_repo" where
  "w_state d = \<lparr>database = d, pg_cache = new_cache (Fin 10)\<rparr>"

lemma database_w_state [simp]: "database (w_state d) = d"
  by (simp add: w_state_def)

definition w_deprecates :: "rule_set_row list \<Rightarrow> rule_set_row list" where
  "w_deprecates d = database (snd (pg_update_status list_session 5 (\<lambda>d. d) (uuid_str 1) DEPRECATED None (w_state d)))"

lemma w_deprecated:
  "w_deprecates [w_set 1 1 PUBLISHED] = [flushed 5 (w_set 1 1 PUBLISHED) ((w_set 1 1 PUBLISHED)\<lparr>rsr_status := DEPRECATED\<rparr>)]"
proof -
  let ?r = "w_set 1 1 PUBLISHED" and ?h = "\<lambda>r. r\<lparr>rsr_status := DEPRECATED\<rparr>"
  have k: "keyed_rows [?r]" by (simp add: keyed_rows_def)
  have "sql_commit list_session 5 [Changed ?r (?h ?r)] [?r] = Committed [flushed 5 ?r (?h ?r)]"
    using list_session_changes [OF k, of "[?r]" ?h "\<lambda>r. Changed r (?h r)" 5] by (simp add: changes_row_def)
  moreover have "session_get list_session (uuid_str 1) [?r] = Inr (Some ?r)"
    by (simp add: session_get_def key_read [OF list_session_laws] list_session_rows [OF k] row_by_id_def)
  ultimately show ?thesis
    by (simp add: w_deprecates_def pg_update_status_def pg_modify_def check_row_lock_def commit_and_read_def pg_commit_def)
qed


section \<open>Two activations at once\<close>

text \<open>What the rows of a finished activation are, and that one on its own is not refused.\<close>

lemma activation_committed:
  assumes laws: "session_laws q" and load: "row_of_version n v (sql_rows q (database st)) = Some target"
    and act: "pg_activate q t (\<lambda>d. d) n v e st = (Inr p, st')"
  shows "map_option row_core (row_by_id (sql_rows q (database st')) u) =
    map_option row_core (map_option (\<lambda>r. if r \<in> set (activation_rows n target (sql_rows q (database st)))
      then flushed t r (activate_row t target r) else r) (row_by_id (sql_rows q (database st)) u))"
proof -
  have t: "target \<in> set (sql_rows q (database st))" using row_of_version_in [OF load] by blast
  note rs = activation_rows_props [OF laws t, of n]
  obtain d' where "sql_commit q t (map (\<lambda>r. Changed r (activate_row t target r)) (activation_rows n target (sql_rows q (database st))))
      (database st) = Committed d'" "database st' = d'"
    using act by (auto simp: pg_activate_def load invalidate_pg_def commit_and_read_def pg_commit_def
        split: sum.splits prod.splits committed.splits)
  with commit_changed [OF laws rs activation_writes] show ?thesis by blast
qed

lemma lifecycle_commit:
  assumes laws: "session_laws q" and av: "available q" and dist: "distinct (map rsr_id rs)"
    and now: "\<forall>r \<in> set rs. \<not> outdated q d r"
  shows "\<exists>d'. sql_commit q t (map (\<lambda>r. Changed r (activate_row t target r)) rs) d = Committed d'"
proof -
  let ?chs = "map (\<lambda>r. Changed r (activate_row t target r)) rs"
  have "list_all lifecycle_change ?chs" by (auto simp: list_all_iff activate_row_def Let_def)
  then have "sql_commit q t ?chs d \<noteq> Failed m" for m using av unfolding available_def by blast
  moreover have "\<not> list_ex (stale_change (row_by_id (sql_rows q d))) ?chs"
    using now by (auto simp: list_ex_iff stale_row_def outdated_def)
  then have "sql_commit q t ?chs d \<noteq> Stale_Data"
    using commit_law(3) [OF laws unit_of_writes [OF dist activation_writes]] by blast
  ultimately show ?thesis by (cases "sql_commit q t ?chs d") auto
qed

lemma core_lock: "map_option row_core x = map_option row_core y \<Longrightarrow> map_option rsr_lock_version x = map_option rsr_lock_version y"
  by (cases x; cases y; simp; elim row_core_fields(6))

definition active_row :: "'db sql_session \<Rightarrow> 'db \<Rightarrow> string \<Rightarrow> rule_set_row \<Rightarrow> bool" where
  \<comment> \<open>the row that was loaded is an active version of the name by now\<close>
  "active_row q d n row \<longleftrightarrow>
     (\<exists>r. Option.bind (rsr_id row) (row_by_id (sql_rows q d)) = Some r \<and> rsr_name r = n \<and> rsr_status r = ACTIVE)"

text \<open>
  Property C9: the lock versions do not keep one version active per name. When no version is
  active and two sessions activate two versions, the one that commits second loaded only its own
  row, so nothing is outdated: both succeed and both versions are active, whatever lock versions
  the callers expected. When another version was active both deprecate it, and the second is refused.
\<close>
theorem concurrent_activations:
  assumes laws: "session_laws q" and av: "available q"
    and a: "row_of_version n v (sql_rows q (database st)) = Some a" and b: "row_of_version n w (sql_rows q (database st)) = Some b"
    and vw: "v \<noteq> w" and lock: "check_row_lock a e = Inr ()"
    and first: "pg_activate q t' (\<lambda>d. d) n w e' st = (Inr p', st')" and others: "others (database st) = database st'"
  shows "((\<forall>r \<in> set (sql_rows q (database st)). rsr_name r = n \<longrightarrow> rsr_status r \<noteq> ACTIVE) \<longrightarrow>
      (\<exists>p'' st''. pg_activate q t others n v e st = (Inr p'', st'') \<and>
        active_row q (database st'') n a \<and> active_row q (database st'') n b)) \<and>
    ((\<exists>r \<in> set (sql_rows q (database st)). rsr_name r = n \<and> rsr_status r = ACTIVE \<and> rsr_id r \<notin> {rsr_id a, rsr_id b}) \<longrightarrow>
      refused (st\<lparr>database := database st'\<rparr>) (pg_activate q t others n v e st))"
proof (intro conjI impI)
  let ?rs = "sql_rows q (database st)"
  note ra = row_of_version_in [OF a] and rb = row_of_version_in [OF b]
  obtain ua where ua: "rsr_id a = Some ua" "row_by_id ?rs ua = Some a" using row_by_id_member [OF laws] ra by blast
  obtain ub where ub: "rsr_id b = Some ub" "row_by_id ?rs ub = Some b" using row_by_id_member [OF laws] rb by blast
  have ab: "ua \<noteq> ub" using ua ub ra rb vw by auto
  note after = activation_committed [OF laws b first]
  {
    assume idle: "\<forall>r \<in> set ?rs. rsr_name r = n \<longrightarrow> rsr_status r \<noteq> ACTIVE"
    then have rows: "activation_rows n b ?rs = [b]" "activation_rows n a ?rs = [a]"
      by (auto simp: activation_rows_def filter_empty_conv)
    have core_a: "map_option row_core (row_by_id (sql_rows q (database st')) ua) = Some (row_core a)"
      using after [of ua] ua ub ab by (auto simp: rows)
    have core_b: "map_option row_core (row_by_id (sql_rows q (database st')) ub) = Some (row_core (flushed t' b (activate_row t' b b)))"
      using after [of ub] ub by (simp add: rows)
    have "\<not> outdated q (database st') a" using core_lock [of _ "Some a"] core_a ua by (simp add: outdated_def)
    then obtain d where d: "sql_commit q t (map (\<lambda>r. Changed r (activate_row t a r)) [a]) (database st') = Committed d"
      using lifecycle_commit [OF laws av, of "[a]" "database st'" t a] by auto
    have unit: "unit_of_work (map (\<lambda>r. Changed r (activate_row t a r)) [a])"
      by (rule unit_of_writes [OF _ activation_writes]) simp
    note two = commit_law(2) [OF laws unit d]
    obtain a' where a': "row_by_id (sql_rows q (database st')) ua = Some a'" "row_core a' = row_core a"
      using core_a by (cases "row_by_id (sql_rows q (database st')) ua") auto
    have "rsr_status (activate_row t a a) \<noteq> rsr_status a" using idle ra by auto
    then have "dirty a (activate_row t a a)" by (rule dirtyI)
    then obtain a'' where a'': "row_by_id (sql_rows q d) ua = Some a''" "row_core a'' = row_core (flush_into t (Changed a (activate_row t a a)) a')"
      "rsr_name (flush_into t (Changed a (activate_row t a a)) a') = n"
      "rsr_status (flush_into t (Changed a (activate_row t a a)) a') = ACTIVE"
      using two [of ua] ua(1) a' ra by (cases "row_by_id (sql_rows q d) ua") (auto simp: after_commit_def update_row_def)
    obtain b'' where b'': "row_by_id (sql_rows q d) ub = Some b''" "row_core b'' = row_core (flushed t' b (activate_row t' b b))"
      using two [of ub] core_b ua(1) ab by (cases "row_by_id (sql_rows q d) ub") (auto simp: after_commit_def)
    have "active_row q d n a" "active_row q d n b"
      using a'' b'' ua ub rb row_core_fields(2,4) [OF a''(2)] row_core_fields(2,4) [OF b''(2)]
      by (simp_all add: active_row_def)
    moreover have "\<exists>p''. pg_activate q t others n v e st =
        (Inr p'', st\<lparr>database := d, pg_cache := cache_invalidate (pg_cache st)\<rparr>)"
      using d a'' ua(1) by (simp add: pg_activate_def a lock rows others commit_and_read_def pg_commit_def invalidate_pg_def refresh_row_def)
    ultimately show "\<exists>p'' st''. pg_activate q t others n v e st = (Inr p'', st'') \<and>
        active_row q (database st'') n a \<and> active_row q (database st'') n b" by fastforce
  next
    assume "\<exists>r \<in> set ?rs. rsr_name r = n \<and> rsr_status r = ACTIVE \<and> rsr_id r \<notin> {rsr_id a, rsr_id b}"
    then obtain r where r: "r \<in> set ?rs" "rsr_name r = n" "rsr_status r = ACTIVE" "rsr_id r \<noteq> rsr_id a" "rsr_id r \<noteq> rsr_id b" by blast
    obtain u where u: "rsr_id r = Some u" "row_by_id ?rs u = Some r" using row_by_id_member [OF laws r(1)] by blast
    have "r \<in> set (activation_rows n b ?rs)" "r \<in> set (activation_rows n a ?rs)" using r by (simp_all add: activation_rows_def)
    moreover have dirty: "dirty r (activate_row t'' c r)" if "rsr_id r \<noteq> rsr_id c" for t'' c
      using that r by (simp add: activate_row_other dirtyI status_defs)
    moreover have "rsr_lock_version (flushed t' r (activate_row t' b r)) = rsr_lock_version r + 1"
      using dirty [OF r(5)] by (simp add: flushed_def)
    ultimately have "outdated q (database st') r"
      using core_lock [OF after [of u]] u by (auto simp: outdated_def)
    then have "refused (st\<lparr>database := others (database st)\<rparr>) (pg_activate q t others n v e st)"
      using \<open>r \<in> set (activation_rows n a ?rs)\<close> dirty [OF r(4)] others
      by (intro activate_outdated_refused [where others = others and st = st, OF laws a lock]) simp_all
    then show "refused (st\<lparr>database := database st'\<rparr>) (pg_activate q t others n v e st)" by (simp add: others)
  }
qed

text \<open>The example: two published versions, activated by two sessions.\<close>

lemma activation_succeeds:
  assumes laws: "session_laws q" and av: "available q"
    and load: "row_of_version n v (sql_rows q (database st)) = Some target" and lock: "check_row_lock target e = Inr ()"
  shows "\<exists>p st'. pg_activate q t (\<lambda>d. d) n v e st = (Inr p, st')"
proof -
  let ?rs = "activation_rows n target (sql_rows q (database st))"
  have t: "target \<in> set (sql_rows q (database st))" using row_of_version_in [OF load] by blast
  obtain u where u: "rsr_id target = Some u" "row_by_id (sql_rows q (database st)) u = Some target" by (rule row_by_id_member [OF laws t])
  note rs = activation_rows_props [OF laws t, of n]
  have "\<not> outdated q (database st) r" if r: "r \<in> set ?rs" for r
  proof -
    have "r \<in> set (sql_rows q (database st))" using rs(1) r by blast
    then obtain w where "rsr_id r = Some w" "row_by_id (sql_rows q (database st)) w = Some r" by (rule row_by_id_member [OF laws])
    then show ?thesis by (simp add: outdated_def)
  qed
  then obtain d where d: "sql_commit q t (map (\<lambda>r. Changed r (activate_row t target r)) ?rs) (database st) = Committed d"
    using lifecycle_commit [OF laws av rs(2)] by blast
  have "row_by_id (sql_rows q d) u \<noteq> None"
    using commit_changed [OF laws rs activation_writes d, of u] u(2) by auto
  then show ?thesis
    using u(1) d by (auto simp: pg_activate_def load lock commit_and_read_def pg_commit_def invalidate_pg_def refresh_row_def)
qed

lemma available_list_session: "available list_session"
  unfolding available_def
proof (intro allI impI)
  fix t chs d m assume l: "list_all lifecycle_change chs"
  have same: "same_identity c \<and> added_rows [c] = []" if "lifecycle_change c" for c
  proof (cases c)
    case (Changed old new)
    have "rsr_id new = rsr_id old" using arg_cong [OF that [unfolded Changed lifecycle_change.simps], of rsr_id] by simp
    then show ?thesis using Changed by (simp add: added_rows_def)
  qed (use that in auto)
  then have id: "list_all same_identity chs" using l by (auto simp: list_all_iff)
  have "added_rows chs = concat (map (\<lambda>c. added_rows [c]) chs)" by (simp add: added_rows_def)
  then have none: "added_rows chs = []" using l same by (auto simp: list_all_iff)
  have k: "keyed_rows (list_rows d)" by (cases "keyed_rows d") (simp_all add: list_rows_def, simp add: keyed_rows_def)
  have "map rsr_id (map (flush_unit t chs) (list_rows d)) = map rsr_id (list_rows d)"
    using flush_unit_id [OF id] by simp
  then have "keyed_rows (map (flush_unit t chs) (list_rows d))" using k unfolding keyed_rows_def by argo
  then show "sql_commit list_session t chs d \<noteq> Failed m"
    using none by (simp add: list_session_def Let_def)
qed

lemma concurrent_activations_witness:
  "\<exists>p' st' p'' st''.
     pg_activate list_session 5 (\<lambda>d. d) ''noc'' 1 (Some 1) (w_state [w_set 1 1 PUBLISHED, w_set 2 2 PUBLISHED]) = (Inr p', st') \<and>
     pg_activate list_session 6 (\<lambda>d. database st') ''noc'' 2 (Some 1) (w_state [w_set 1 1 PUBLISHED, w_set 2 2 PUBLISHED]) = (Inr p'', st'') \<and>
     active_row list_session (database st'') ''noc'' (w_set 1 1 PUBLISHED) \<and>
     active_row list_session (database st'') ''noc'' (w_set 2 2 PUBLISHED)"
proof -
  let ?a = "w_set 2 2 PUBLISHED" and ?b = "w_set 1 1 PUBLISHED"
  let ?st = "w_state [?b, ?a]"
  have k: "sql_rows list_session (database ?st) = [?b, ?a]" by (simp add: list_session_rows keyed_rows_def)
  have a: "row_of_version ''noc'' 2 (sql_rows list_session (database ?st)) = Some ?a"
    and b: "row_of_version ''noc'' 1 (sql_rows list_session (database ?st)) = Some ?b"
    unfolding k by (simp_all add: row_of_version_def)
  have lock: "check_row_lock ?a (Some 1) = Inr ()" "check_row_lock ?b (Some 1) = Inr ()" by (simp_all add: check_row_lock_def)
  obtain p' st' where first: "pg_activate list_session 5 (\<lambda>d. d) ''noc'' 1 (Some 1) ?st = (Inr p', st')"
    using activation_succeeds [OF list_session_laws available_list_session b lock(2)] by blast
  have idle: "\<forall>r \<in> set (sql_rows list_session (database ?st)). rsr_name r = ''noc'' \<longrightarrow> rsr_status r \<noteq> ACTIVE"
    unfolding k by (simp add: status_defs)
  from concurrent_activations [where others = "\<lambda>d. database st'" and t = 6, OF list_session_laws available_list_session a b _ lock(1) first,
      THEN conjunct1, THEN mp, OF _ _ idle]
  show ?thesis using first by fastforce
qed

section \<open>Edits of rules\<close>

text \<open>What a save raises before the commit: a text that is no UUID.\<close>

lemma stored_rules_error: "stored_rules s t frs = Inl e \<Longrightarrow> \<exists>m. e = ValueError m"
proof (induction frs)
  case (Cons fr frs)
  have "\<exists>m. e = ValueError m" if "rule_to_orm r s = Inl e" for r
    using that by (auto simp: rule_to_orm_def given_id_def to_uuid_def uuid_parse_def py_int16_def bindr_eq_Inl Let_def
        split: option.splits if_splits prod.splits)
  with Cons show ?case by (cases fr) (auto simp: stored_rules_def bindr_eq_Inl)
qed (simp add: stored_rules_def)


text \<open>The example: the pack is deprecated between the load and the commit of the save.\<close>

definition w_edited :: rule_pack where
  "w_edited = new_pack ''noc'' 1 PUBLISHED None [w_rule ''R1'' 5 []]"


section \<open>What an evaluation finds after an activation\<close>

text \<open>The only active row of the name is the one that was activated, with its rules.\<close>

lemma active_after_activation:
  assumes laws: "session_laws q" and load: "row_of_version n v (sql_rows q (database st)) = Some target"
    and act: "pg_activate q t (\<lambda>d. d) n v e st = (Inr p, st')"
  shows "\<exists>r \<in> set (sql_rows q (database st')). rsr_name r = n \<and> rsr_version r = v \<and> rsr_status r = ACTIVE \<and>
      rsr_region r = rsr_region target"
    and "r' \<in> set (sql_rows q (database st')) \<Longrightarrow> rsr_name r' = n \<Longrightarrow> rsr_status r' = ACTIVE \<Longrightarrow>
      rsr_version r' = v \<and> rsr_deleted_at r' = rsr_deleted_at target \<and>
      mset (map rule_to_domain (rsr_rules r')) = mset (map rule_to_domain (rsr_rules target))"
proof -
  let ?rs = "sql_rows q (database st)" and ?rs' = "sql_rows q (database st')"
  note after = activation_committed [OF laws load act]
  note tr = row_of_version_in [OF load]
  obtain u where u: "rsr_id target = Some u" "row_by_id ?rs u = Some target" using row_by_id_member [OF laws] tr by blast
  have tin: "target \<in> set (activation_rows n target ?rs)" by (simp add: activation_rows_def)
  obtain r where r: "row_by_id ?rs' u = Some r" "row_core r = row_core (flushed t target (activate_row t target target))"
    using after [of u] u tin by (cases "row_by_id ?rs' u") auto
  then show "\<exists>r \<in> set ?rs'. rsr_name r = n \<and> rsr_version r = v \<and> rsr_status r = ACTIVE \<and> rsr_region r = rsr_region target"
    using row_by_id_Some [OF r(1)] row_core_fields(2,3,4,5) [OF r(2)] tr by (intro bexI [of _ r]) simp_all
  assume r': "r' \<in> set ?rs'" "rsr_name r' = n" "rsr_status r' = ACTIVE"
  obtain w where w: "row_by_id ?rs' w = Some r'" using row_by_id_member [OF laws r'(1)] by blast
  then obtain s where s: "row_by_id ?rs w = Some s"
    "row_core r' = row_core (if s \<in> set (activation_rows n target ?rs) then flushed t s (activate_row t target s) else s)"
    using after [of w] by (cases "row_by_id ?rs w") auto
  note sin = row_by_id_Some [OF s(1)]
  note f = row_core_fields(2,3,4,7) [OF s(2)]
  have st: "s = target"
  proof (rule ccontr)
    assume ne: "s \<noteq> target"
    then have id: "rsr_id s \<noteq> rsr_id target" using s(1) sin u by auto
    have name: "rsr_name s = n" using f(1) r'(2) by (simp add: activate_row_def Let_def split: if_splits)
    show False
    proof (cases "rsr_status s = ACTIVE")
      case True
      then have "s \<in> set (activation_rows n target ?rs)" using name id sin by (simp add: activation_rows_def)
      then show False using f(3) r'(3) activate_row_other [OF id True] by (simp add: status_defs)
    next
      case False
      then have "s \<notin> set (activation_rows n target ?rs)" using ne by (simp add: activation_rows_def)
      then show False using f(3) r'(3) False by simp
    qed
  qed
  have "row_core r' = row_core (flushed t target (activate_row t target target))" using s(2) tin st by simp
  then have "mset (map rule_to_domain (rsr_rules r')) = mset (map rule_to_domain (rsr_rules target))"
    unfolding row_core_def prod.inject by simp
  then show "rsr_version r' = v \<and> rsr_deleted_at r' = rsr_deleted_at target \<and>
      mset (map rule_to_domain (rsr_rules r')) = mset (map rule_to_domain (rsr_rules target))"
    using f(2,4) tin st tr by simp
qed

text \<open>
  Property C10: after an activation the repository has an active version in the region of the
  activated one, and what an evaluation loads depends on the deletion mark: a version that was
  never deleted is served, with its rules; a deleted one can be activated (a roll-back does not
  look at the status) but stays marked, and since every other version of the name was deprecated,
  evaluations find no policy in any region.
\<close>
theorem activation_takes_effect_unless_deleted:
  assumes laws: "session_laws q" and load: "row_of_version n v (sql_rows q (database st)) = Some target"
    and act: "pg_activate q t (\<lambda>d. d) n v e st = (Inr p, st')"
  shows "pg_get_active q st' n (rsr_region target) \<noteq> None \<and>
    (rsr_deleted_at target = None \<longrightarrow> (\<exists>x. load_from_db q n (rsr_region target) (database st') = Inr x \<and> version x = v \<and>
        mset (rules x) = mset (map rule_to_domain (rsr_rules target)))) \<and>
    (rsr_deleted_at target \<noteq> None \<longrightarrow> (\<forall>reg. load_from_db q n reg (database st') = Inl (no_active_policy n reg)))"
proof (intro conjI impI allI)
  let ?rs' = "sql_rows q (database st')"
  note after = active_after_activation [OF laws load act]
  obtain r where r: "r \<in> set ?rs'" "rsr_name r = n" "rsr_version r = v" "rsr_status r = ACTIVE" "rsr_region r = rsr_region target"
    using after(1) by blast
  then show "pg_get_active q st' n (rsr_region target) \<noteq> None"
    by (auto simp: pg_get_active_def find_None_iff)
  let ?P = "\<lambda>reg r. rsr_name r = n \<and> rsr_status r = ACTIVE \<and> rsr_region r = reg \<and> rsr_deleted_at r = None"
  {
    assume "rsr_deleted_at target = None"
    then have "find (?P (rsr_region target)) ?rs' \<noteq> None" using r after(2) [OF r(1,2,4)] by (auto simp: find_None_iff)
    then obtain x where x: "find (?P (rsr_region target)) ?rs' = Some x" by blast
    then have "x \<in> set ?rs' \<and> rsr_name x = n \<and> rsr_status x = ACTIVE" by (auto simp: find_Some_iff)
    then have "rsr_version x = v" "mset (map rule_to_domain (rsr_rules x)) = mset (map rule_to_domain (rsr_rules target))"
      using after(2) [of x] by blast+
    then show "\<exists>x. load_from_db q n (rsr_region target) (database st') = Inr x \<and> version x = v \<and>
        mset (rules x) = mset (map rule_to_domain (rsr_rules target))"
      using x by (simp add: load_from_db_def pg_to_domain_def stored_pack_to_domain_def)
  next
    fix reg assume "rsr_deleted_at target \<noteq> None"
    then have "find (?P reg) ?rs' = None" using after(2) by (force simp: find_None_iff)
    then show "load_from_db q n reg (database st') = Inl (no_active_policy n reg)" by (simp add: load_from_db_def)
  }
qed

lemma activation_takes_effect_unless_deleted_witness:
  "\<exists>p st'. pg_activate list_session 9 (\<lambda>d. d) ''noc'' 1 None (w_state [(w_set 1 1 ARCHIVED)\<lparr>rsr_deleted_at := Some 4\<rparr>]) = (Inr p, st') \<and>
     pg_get_active list_session st' ''noc'' None \<noteq> None \<and>
     load_from_db list_session ''noc'' None (database st') = Inl (no_active_policy ''noc'' None)"
proof -
  let ?r = "(w_set 1 1 ARCHIVED)\<lparr>rsr_deleted_at := Some 4\<rparr>"
  have load: "row_of_version ''noc'' 1 (sql_rows list_session (database (w_state [?r]))) = Some ?r"
    by (simp add: list_session_rows keyed_rows_def row_of_version_def)
  have "check_row_lock ?r None = Inr ()" by (simp add: check_row_lock_def)
  then obtain p st' where act: "pg_activate list_session 9 (\<lambda>d. d) ''noc'' 1 None (w_state [?r]) = (Inr p, st')"
    using activation_succeeds [OF list_session_laws available_list_session load] by blast
  from activation_takes_effect_unless_deleted [OF list_session_laws load act] act show ?thesis by auto
qed

end
