(* ===== verification/Lifecycle_Safety.thy ===== *)
theory Lifecycle_Safety
  imports Lifecycle
begin

text \<open>
  The rule pack platform as a state machine: one transition per use case that succeeds, the
  reachable states, and what holds in them. Renaming a draft and rolling back are kept apart
  as kinds of transition, since the guarantees differ with and without them.
\<close>

section \<open>Transitions\<close>

datatype kind = KCreate | KImport | KUpdate | KRename | KDelete | KPublish | KActivate | KRollback | KRule

inductive step :: "kind \<Rightarrow> platform \<Rightarrow> platform \<Rightarrow> bool" where
  create: "unused_id (fresh c) (repo pl) \<Longrightarrow> create_rule_pack c n reg ten rs pl = (r, pl') \<Longrightarrow> step KCreate pl pl'"
| imported: "unused_id (fresh c) (repo pl) \<Longrightarrow> import_rule_pack c d pl = Inr (r, pl') \<Longrightarrow> step KImport pl pl'"
| updated: "update_rule_pack c i ex attrs pl = Inr (r, pl') \<Longrightarrow> list_all (\<lambda>a. \<forall>n. a \<noteq> AttrName n) attrs \<Longrightarrow> step KUpdate pl pl'"
| renamed: "update_rule_pack c i ex attrs pl = Inr (r, pl') \<Longrightarrow> step KRename pl pl'"
| deleted: "soft_delete_rule_pack c i ex pl = Inr (r, pl') \<Longrightarrow> step KDelete pl pl'"
| published: "publish_rule_pack c i pl = Inr (r, pl') \<Longrightarrow> step KPublish pl pl'"
| activated: "activate_rule_pack c i ex pl = Inr (r, pl') \<Longrightarrow> step KActivate pl pl'"
| rolled_back: "rollback_rule_pack c n v ex pl = Inr (r, pl') \<Longrightarrow> step KRollback pl pl'"
| rule_created: "create_rule c f i d pl = Inr (x, pl') \<Longrightarrow> step KRule pl pl'"
| rule_updated: "update_rule c i d pl = Inr (x, pl') \<Longrightarrow> step KRule pl pl'"
| rule_deleted: "delete_rule c i pl = Inr (x, pl') \<Longrightarrow> step KRule pl pl'"

inductive_cases stepE: "step k pl pl'"

text \<open>The states reached from an empty repository by transitions of the given kinds.\<close>

inductive reach :: "kind set \<Rightarrow> platform \<Rightarrow> bool" for K where
  init: "reach K \<lparr>repo = empty_repo, audit = a, events = e\<rparr>"
| more_steps: "reach K pl \<Longrightarrow> k \<in> K \<Longrightarrow> step k pl pl' \<Longrightarrow> reach K pl'"

section \<open>Effects on the view\<close>

text \<open>The ways a transition other than a renaming changes the packs that can be looked up.\<close>

definition changes_one :: "pack_repo \<Rightarrow> pack_repo \<Rightarrow> (rule_pack \<Rightarrow> rule_pack \<Rightarrow> bool) \<Rightarrow> bool" where
  "changes_one rp rp' R \<longleftrightarrow>
     repo_ok rp' \<and> (\<exists>k p p'. view rp k = Some p \<and> R p p' \<and> pack_name p' = pack_name p \<and> view rp' = (view rp)(k \<mapsto> p'))"

definition adds_draft :: "pack_repo \<Rightarrow> pack_repo \<Rightarrow> bool" where
  "adds_draft rp rp' \<longleftrightarrow>
     repo_ok rp' \<and> (\<exists>k p. view rp k = None \<and> status p = DRAFT \<and> view rp' = (view rp)(k \<mapsto> p))"

definition activates :: "pack_repo \<Rightarrow> pack_repo \<Rightarrow> (rule_pack \<Rightarrow> bool) \<Rightarrow> bool" where
  "activates rp rp' P \<longleftrightarrow>
     repo_ok rp' \<and> (\<exists>n v p t. view rp (n, v) = Some p \<and> P p \<and>
        view rp' = (\<lambda>k. map_option (Pack_Repository.activated t n v) (view rp k)))"

lemma changes_oneI:
  assumes ok: "repo_ok rp" and m: "modify_by_id i ex f rp = Inr (r, rp')"
    and keep: "\<And>p. pack_name (f p) = pack_name p" "\<And>p. version (f p) = version p" "\<And>p. pack_id (f p) = pack_id p"
    and R: "\<And>r. repo_get_by_id rp i = Some r \<Longrightarrow> R (pack_at rp r) (f (pack_at rp r))"
  shows "changes_one rp rp' R"
proof -
  have "repo_get_by_id rp i = Some r"
    using m by (auto simp: modify_by_id_def bindr_eq_Inr split: option.splits)
  with modify_by_id_view [OF ok m keep] R [of r] keep(1) show ?thesis
    unfolding changes_one_def by metis
qed

lemma set_attr_keep:
  "list_all (\<lambda>a. \<forall>n. a \<noteq> AttrName n) attrs \<Longrightarrow>
   pack_name (foldl set_attr p attrs) = pack_name p \<and> version (foldl set_attr p attrs) = version p \<and>
   pack_id (foldl set_attr p attrs) = pack_id p \<and> status (foldl set_attr p attrs) = status p \<and>
   rules (foldl set_attr p attrs) = rules p"
proof (induction attrs arbitrary: p)
  case (Cons a attrs)
  then show ?case by (cases a) auto
qed simp

lemma latest_version_bound:
  assumes ok: "repo_ok rp" and v: "view rp (n, v) = Some p"
  shows "\<exists>m. latest_version rp n = Some m \<and> v \<le> m"
proof -
  obtain r where r: "map_of (store rp) (n, v) = Some r" using v by (auto simp: view_def)
  note d = repo_okD [OF ok r]
  have "r \<in> set (list_versions rp n)" using key_has_ref [OF r] d(2) by (simp add: list_versions_def)
  then have mem: "v \<in> set (map (\<lambda>r. version (pack_at rp r)) (list_versions rp n))" using d(2) by force
  then obtain w ws where ws: "map (\<lambda>r. version (pack_at rp r)) (list_versions rp n) = w # ws"
    by (cases "map (\<lambda>r. version (pack_at rp r)) (list_versions rp n)") auto
  then show ?thesis using mem max_by_ge [of v w ws "\<lambda>x. x"] by (simp add: latest_version_def)
qed

lemma next_version_unused:
  assumes "repo_ok rp"
  shows "view rp (n, (case latest_version rp n of None \<Rightarrow> 1 | Some v \<Rightarrow> v + 1)) = None"
    and "view rp (n, (case latest_version rp n of None \<Rightarrow> 0 | Some v \<Rightarrow> v) + 1) = None"
  using latest_version_bound [OF assms, of n] by (fastforce split: option.splits)+

lemma adds_draftI:
  assumes ok: "repo_ok rp" and new: "view rp (pack_name p, version p) = None" and p: "pack_id p = None" "status p = DRAFT"
    and fresh: "unused_id f rp" and a: "alloc p rp = (r, rp1)"
  shows "adds_draft rp (repo_save f t r rp1)"
  using save_new_view(1,2) [OF ok new p(1) fresh a] new p(2) unfolding adds_draft_def
  by (intro conjI exI [of _ "(pack_name p, version p)"] exI [of _ "stamp_pack f t p"]) auto

lemma new_pack_fields [simp]:
  "pack_name (new_pack n v s g rs) = n" "version (new_pack n v s g rs) = v" "status (new_pack n v s g rs) = s"
  "pack_id (new_pack n v s g rs) = None" "rules (new_pack n v s g rs) = rs" "lock_version (new_pack n v s g rs) = 1"
  by (simp_all add: new_pack_def)

lemma create_adds_draft:
  assumes ok: "repo_ok (repo pl)" and f: "unused_id (fresh c) (repo pl)"
    and m: "create_rule_pack c n reg ten rs pl = (r, pl')"
  shows "adds_draft (repo pl) (repo pl')"
proof -
  let ?p = "(new_pack n (case latest_version (repo pl) n of None \<Rightarrow> 1 | Some v \<Rightarrow> v + 1) DRAFT reg rs)
    \<lparr>tenant_id := ten, created_by := actor c, parent_version := latest_version (repo pl) n\<rparr>"
  obtain r1 rp1 where a: "alloc ?p (repo pl) = (r1, rp1)" by fastforce
  have "repo pl' = repo_save (fresh c) (now c) r1 rp1"
    using m a by (auto simp: create_rule_pack_def Let_def)
  moreover have "view (repo pl) (pack_name ?p, version ?p) = None" using next_version_unused(1) [OF ok] by simp
  ultimately show ?thesis using adds_draftI [OF ok _ _ _ f a] by simp
qed

lemma import_adds_draft:
  assumes ok: "repo_ok (repo pl)" and f: "unused_id (fresh c) (repo pl)"
    and m: "import_rule_pack c d pl = Inr (r, pl')"
  shows "adds_draft (repo pl) (repo pl')"
proof -
  obtain n requested rs reg ten where
    free: "\<not> (requested \<noteq> None \<and> repo_get (repo pl) n (the requested) \<noteq> None)"
    and s: "save_imported c n requested rs reg ten pl = (r, pl')"
    using m by (auto simp: import_rule_pack_def bindr_eq_Inr split: if_splits) blast+
  let ?p = "(new_pack n (import_version requested (latest_version (repo pl) n)) DRAFT reg rs)
    \<lparr>tenant_id := ten, created_by := actor c, parent_version := latest_version (repo pl) n\<rparr>"
  obtain r1 rp1 where a: "alloc ?p (repo pl) = (r1, rp1)" by fastforce
  have "repo pl' = repo_save (fresh c) (now c) r1 rp1"
    using s a by (auto simp: save_imported_def Let_def)
  moreover have "view (repo pl) (n, import_version requested (latest_version (repo pl) n)) = None"
    using free next_version_unused(2) [OF ok, of n]
    by (cases requested) (auto simp: repo_get_def view_def import_version_def)
  ultimately show ?thesis using adds_draftI [OF ok _ _ _ f a] by simp
qed


section \<open>Every transition\<close>

lemma update_changes_one:
  assumes ok: "repo_ok (repo pl)" and m: "update_rule_pack c i ex attrs pl = Inr (r, pl')"
    and keep: "list_all (\<lambda>a. \<forall>n. a \<noteq> AttrName n) attrs"
  shows "changes_one (repo pl) (repo pl') (\<lambda>p p'. status p = DRAFT \<and> status p' = DRAFT)"
proof -
  obtain r1 rp where g: "repo_get_by_id (repo pl) i = Some r1" and s: "status (pack_at (repo pl) r1) = DRAFT"
    and u: "update_metadata i ex attrs (repo pl) = Inr (r, rp)" and pl': "repo pl' = rp"
    using m by (auto simp: update_rule_pack_def Let_def bindr_eq_Inr split: option.splits if_splits)
  show ?thesis unfolding pl'
    by (rule changes_oneI [OF ok u [unfolded update_metadata_def]])
      (use set_attr_keep [OF keep] g s in \<open>auto simp: bump_lock_def\<close>)
qed

lemma delete_changes_one:
  assumes ok: "repo_ok (repo pl)" and m: "soft_delete_rule_pack c i ex pl = Inr (r, pl')"
  shows "changes_one (repo pl) (repo pl') (\<lambda>p p'. status p \<noteq> ACTIVE \<and> status p' = ARCHIVED)"
proof -
  obtain r1 rp where g: "repo_get_by_id (repo pl) i = Some r1" and s: "status (pack_at (repo pl) r1) \<noteq> ACTIVE"
    and u: "modify_by_id i ex (\<lambda>p. bump_lock (p\<lparr>status := ARCHIVED, deleted_at := Some (now c)\<rparr>)) (repo pl) = Inr (r, rp)"
    and pl': "repo pl' = rp\<lparr>active_cache := cache_invalidate (active_cache rp)\<rparr>"
    using m by (auto simp: soft_delete_rule_pack_def soft_delete_def Let_def bindr_eq_Inr split: option.splits if_splits)
  have "changes_one (repo pl) rp (\<lambda>p p'. status p \<noteq> ACTIVE \<and> status p' = ARCHIVED)"
    by (rule changes_oneI [OF ok u]) (use g s in \<open>auto simp: bump_lock_def\<close>)
  then show ?thesis by (simp add: pl' changes_one_def)
qed

lemma publish_changes_one:
  assumes ok: "repo_ok (repo pl)" and m: "publish_rule_pack c i pl = Inr (r, pl')"
  shows "changes_one (repo pl) (repo pl') (\<lambda>p p'. status p = DRAFT \<and> status p' = PUBLISHED \<and> is_valid p \<and> rules p' = rules p)"
proof -
  obtain r1 rp where g: "repo_get_by_id (repo pl) i = Some r1" and s: "can_transition (status (pack_at (repo pl) r1)) PUBLISHED"
    and v: "is_valid (pack_at (repo pl) r1)"
    and u: "update_status i PUBLISHED None (repo pl) = Inr (r, rp)" and pl': "repo pl' = rp"
    using m by (auto simp: publish_rule_pack_def Let_def bindr_eq_Inr split: option.splits if_splits)
  have d: "status (pack_at (repo pl) r1) = DRAFT" using s by (auto simp: can_transition_cases status_defs)
  show ?thesis unfolding pl'
    by (rule changes_oneI [OF ok u [unfolded update_status_def]]) (use g d v in \<open>auto simp: bump_lock_def\<close>)
qed

lemma activate_activates:
  assumes ok: "repo_ok (repo pl)" and m: "activate_rule_pack c i ex pl = Inr (r, pl')"
  shows "activates (repo pl) (repo pl') (\<lambda>p. can_transition (status p) ACTIVE)"
proof -
  obtain r1 rp where g: "repo_get_by_id (repo pl) i = Some r1" and s: "can_transition (status (pack_at (repo pl) r1)) ACTIVE"
    and u: "repo_activate (now c) (pack_name (pack_at (repo pl) r1)) (version (pack_at (repo pl) r1)) ex (repo pl) = Inr (r, rp)"
    and pl': "repo pl' = rp"
    using m by (auto simp: activate_rule_pack_def Let_def bindr_eq_Inr split: option.splits if_splits)
  obtain k where "view (repo pl) k = Some (pack_at (repo pl) r1)" using get_by_id_view(1) [OF ok g] by blast
  with view_key [OF ok this] activate_view [OF ok u] s show ?thesis
    unfolding activates_def pl' by (metis prod.collapse)
qed

lemma rollback_activates:
  assumes ok: "repo_ok (repo pl)" and m: "rollback_rule_pack c n v ex pl = Inr (r, pl')"
  shows "activates (repo pl) (repo pl') (\<lambda>_. True)"
proof -
  obtain parent rp where u: "repo_activate (now c) n parent None (repo pl) = Inr (r, rp)" and pl': "repo pl' = rp"
    using m by (auto simp: rollback_rule_pack_def Let_def bindr_eq_Inr split: option.splits if_splits)
  from activate_view [OF ok u] show ?thesis unfolding activates_def pl' by blast
qed

lemma save_rules_changes_one:
  assumes ok: "repo_ok rp" and r: "r \<in> set (refs rp)" and s: "status (pack_at rp r) = DRAFT"
  shows "changes_one rp (repo_save f t r (put_pack r ((pack_at rp r)\<lparr>rules := xs\<rparr>) rp)) (\<lambda>p p'. status p = DRAFT \<and> status p' = DRAFT)"
proof -
  note k = ref_has_key [OF ok r]
  show ?thesis
    using save_again_view(1,2) [OF ok k, of "(pack_at rp r)\<lparr>rules := xs\<rparr>" f t] repo_okD(4) [OF ok k] s
    unfolding changes_one_def
    by (intro conjI exI [of _ "(pack_name (pack_at rp r), version (pack_at rp r))"] exI [of _ "pack_at rp r"]
        exI [of _ "stamp_pack f t ((pack_at rp r)\<lparr>rules := xs\<rparr>)"]) simp_all
qed

lemma get_by_id_ref: "repo_get_by_id rp i = Some r \<Longrightarrow> r \<in> set (refs rp)"
  by (auto simp: repo_get_by_id_def find_Some_iff)

lemma find_rule_ref: "find_rule rp i = Some (r, x) \<Longrightarrow> r \<in> set (refs rp)"
  using page_subset by (fastforce simp: find_rule_def find_Some_iff repo_list_all_def dest!: nth_mem)

lemma rule_step_changes_one:
  assumes ok: "repo_ok (repo pl)" and s: "step KRule pl pl'"
  shows "changes_one (repo pl) (repo pl') (\<lambda>p p'. status p = DRAFT \<and> status p' = DRAFT)"
  using s
proof (cases rule: step.cases)
  case (rule_created c f i d x)
  then show ?thesis using save_rules_changes_one [OF ok] get_by_id_ref
    by (auto simp: create_rule_def Let_def bindr_eq_Inr split: option.splits if_splits)
next
  case (rule_updated c i d x)
  then show ?thesis using save_rules_changes_one [OF ok] find_rule_ref
    by (auto simp: update_rule_def Let_def bindr_eq_Inr split: option.splits if_splits)
next
  case (rule_deleted c i x)
  then show ?thesis using save_rules_changes_one [OF ok] find_rule_ref
    by (auto simp: delete_rule_def Let_def bindr_eq_Inr split: option.splits if_splits)
qed


text \<open>The three effects, with the relation of the old to the new pack for each kind of change.\<close>

definition edits :: "rule_pack \<Rightarrow> rule_pack \<Rightarrow> bool" where
  "edits p p' \<longleftrightarrow> (status p = DRAFT \<and> status p' = DRAFT) \<or> (status p \<noteq> ACTIVE \<and> status p' = ARCHIVED) \<or>
     (status p = DRAFT \<and> status p' = PUBLISHED \<and> is_valid p \<and> rules p' = rules p)"

lemma changes_one_mono: "changes_one rp rp' R \<Longrightarrow> (\<And>p p'. R p p' \<Longrightarrow> S p p') \<Longrightarrow> changes_one rp rp' S"
  unfolding changes_one_def by blast

lemma step_effect:
  assumes ok: "repo_ok (repo pl)" and s: "step k pl pl'" and k: "k \<noteq> KRename"
  shows "adds_draft (repo pl) (repo pl') \<or> changes_one (repo pl) (repo pl') edits \<or>
    activates (repo pl) (repo pl') (\<lambda>p. k = KRollback \<or> can_transition (status p) ACTIVE)"
proof -
  have e: "changes_one (repo pl) (repo pl') edits" if "step KRule pl pl'"
    using rule_step_changes_one [OF ok that] by (rule changes_one_mono) (simp add: edits_def)
  show ?thesis
    using s k
  proof (cases rule: step.cases)
    case (updated c i ex attrs r)
    then have "changes_one (repo pl) (repo pl') (\<lambda>p p'. status p = DRAFT \<and> status p' = DRAFT)"
      by (intro update_changes_one [OF ok])
    then have "changes_one (repo pl) (repo pl') edits" by (rule changes_one_mono) (simp add: edits_def)
    then show ?thesis by blast
  next
    case (deleted c i ex r)
    have "changes_one (repo pl) (repo pl') edits"
      using delete_changes_one [OF ok deleted(2)] by (rule changes_one_mono) (simp add: edits_def)
    then show ?thesis by blast
  next
    case (published c i r)
    have "changes_one (repo pl) (repo pl') edits"
      using publish_changes_one [OF ok published(2)] by (rule changes_one_mono) (simp add: edits_def)
    then show ?thesis by blast
  next
    case (activated c i ex r)
    then show ?thesis using activate_activates [OF ok activated(2)] unfolding activates_def by blast
  next
    case (rolled_back c n v ex r)
    then show ?thesis using rollback_activates [OF ok rolled_back(2)] unfolding activates_def by blast
  next
    case (create c n reg ten rs r)
    then show ?thesis using create_adds_draft [OF ok] by blast
  next
    case (imported c d r)
    then show ?thesis using import_adds_draft [OF ok] by blast
  qed (use s e in blast)+
qed

lemma step_repo_ok: "repo_ok (repo pl) \<Longrightarrow> step k pl pl' \<Longrightarrow> k \<noteq> KRename \<Longrightarrow> repo_ok (repo pl')"
  using step_effect unfolding adds_draft_def changes_one_def activates_def by blast

section \<open>At most one active version\<close>

definition one_active :: "pack_repo \<Rightarrow> bool" where
  "one_active rp \<longleftrightarrow> (\<forall>k l p q. view rp k = Some p \<and> view rp l = Some q \<and> status p = ACTIVE \<and> status q = ACTIVE \<and>
     pack_name p = pack_name q \<longrightarrow> k = l)"

lemma activated_active:
  "status (Pack_Repository.activated t n v p) = ACTIVE \<Longrightarrow> pack_name p = n \<Longrightarrow> version p = v"
  by (auto simp: Pack_Repository.activated_def split: if_splits)

lemma activated_other: "pack_name p \<noteq> n \<Longrightarrow> Pack_Repository.activated t n v p = p"
  by (simp add: Pack_Repository.activated_def)

lemma one_active_add:
  assumes "one_active rp" and "view rp' = (view rp)(k \<mapsto> p)" and "status p \<noteq> ACTIVE"
  shows "one_active rp'"
  unfolding one_active_def
proof (intro allI impI, elim conjE)
  fix l m q q'
  assume v: "view rp' l = Some q" "view rp' m = Some q'" and a: "status q = ACTIVE" "status q' = ACTIVE" "pack_name q = pack_name q'"
  have "l \<noteq> k" "m \<noteq> k" using v a assms(2,3) by auto
  then have "view rp l = Some q" "view rp m = Some q'" using v assms(2) by simp_all
  then show "l = m" using assms(1) a unfolding one_active_def by blast
qed

lemma one_active_activates:
  assumes ok: "repo_ok rp" and one: "one_active rp"
    and v: "view rp' = (\<lambda>k. map_option (Pack_Repository.activated t n v) (view rp k))"
  shows "one_active rp'"
  unfolding one_active_def
proof (intro allI impI, elim conjE)
  fix k l p q
  assume "view rp' k = Some p" "view rp' l = Some q" and a: "status p = ACTIVE" "status q = ACTIVE" "pack_name p = pack_name q"
  then obtain p0 q0 where p0: "view rp k = Some p0" "p = Pack_Repository.activated t n v p0"
    and q0: "view rp l = Some q0" "q = Pack_Repository.activated t n v q0" by (auto simp: v)
  note keys = view_key [OF ok p0(1)] view_key [OF ok q0(1)]
  show "k = l"
  proof (cases "pack_name p0 = n")
    case True
    have nq: "pack_name q0 = n" using True a(3) p0(2) q0(2) by simp
    have "version p0 = v" "version q0 = v"
      using activated_active [OF a(1) [unfolded p0(2)] True] activated_active [OF a(2) [unfolded q0(2)] nq] .
    then show ?thesis using keys True nq by simp
  next
    case False
    then have "p = p0" "q = q0" using a(3) p0(2) q0(2) activated_other by auto
    then show ?thesis using one p0(1) q0(1) a unfolding one_active_def by blast
  qed
qed

lemma edits_not_active: "edits p p' \<Longrightarrow> status p' \<noteq> ACTIVE"
  by (auto simp: edits_def status_defs)

lemma one_active_step:
  assumes "repo_ok (repo pl)" and "one_active (repo pl)" and "step k pl pl'" and "k \<noteq> KRename"
  shows "one_active (repo pl')"
  using step_effect [OF assms(1,3,4)]
proof (elim disjE)
  assume "adds_draft (repo pl) (repo pl')"
  then show ?thesis using one_active_add [OF assms(2)] by (auto simp: adds_draft_def status_defs)
next
  assume "changes_one (repo pl) (repo pl') edits"
  then show ?thesis using one_active_add [OF assms(2)] edits_not_active unfolding changes_one_def by blast
next
  assume "activates (repo pl) (repo pl') (\<lambda>p. k = KRollback \<or> can_transition (status p) ACTIVE)"
  then show ?thesis using one_active_activates [OF assms(1,2)] unfolding activates_def by blast
qed

lemma empty_view [simp]: "view empty_repo = (\<lambda>_. None)"
  by (rule ext) (simp add: view_def empty_repo_def)

lemma empty_ok: "repo_ok empty_repo \<and> one_active empty_repo"
  by (simp add: repo_ok_def one_active_def) (simp add: empty_repo_def)

lemma reach_ok: "reach K pl \<Longrightarrow> KRename \<notin> K \<Longrightarrow> repo_ok (repo pl) \<and> one_active (repo pl)"
proof (induction rule: reach.induct)
  case (init a e)
  then show ?case using empty_ok by simp
next
  case (more_steps pl k pl')
  then show ?case using step_repo_ok one_active_step by blast
qed

text \<open>
  Property C1: however the use cases interleave, roll-backs included and renaming of drafts
  apart, every stored pack is found under its own name and version and under an id of its
  own, and at most one version of a name is active.
\<close>
theorem one_active_version_per_name:
  assumes "reach K pl" and "KRename \<notin> K"
    and "view (repo pl) k = Some p" and "view (repo pl) l = Some q"
  shows "k = (pack_name p, version p) \<and> (pack_id p = pack_id q \<longrightarrow> k = l) \<and>
    (status p = ACTIVE \<and> status q = ACTIVE \<and> pack_name p = pack_name q \<longrightarrow> k = l)"
  using reach_ok [OF assms(1,2)] view_key [OF _ assms(3)] repo_ok_ids [OF _ assms(3,4)] assms(3,4)
  unfolding one_active_def by blast

section \<open>Only validated packs go live\<close>

definition gate_ok :: "rule_pack \<Rightarrow> bool" where
  "gate_ok p \<longleftrightarrow> status p \<in> {DRAFT, ARCHIVED} \<or> (status p \<in> {PUBLISHED, ACTIVE, DEPRECATED} \<and> is_valid p)"

definition gated :: "pack_repo \<Rightarrow> bool" where
  "gated rp \<longleftrightarrow> (\<forall>k p. view rp k = Some p \<longrightarrow> gate_ok p)"

lemma gated_upd: "gated rp \<Longrightarrow> view rp' = (view rp)(k \<mapsto> p) \<Longrightarrow> gate_ok p \<Longrightarrow> gated rp'"
  unfolding gated_def by simp

lemma is_valid_rules: "rules p = rules q \<Longrightarrow> is_valid p = is_valid q"
  by (simp add: is_valid_def validate_rule_pack_def check_rule_def check_conflict_def by_code_def cong: map_cong)

lemma gate_ok_activated:
  assumes "gate_ok p" and "pack_name p = n \<and> version p = v \<longrightarrow> is_valid p"
  shows "gate_ok (Pack_Repository.activated t n v p)"
proof -
  let ?q = "Pack_Repository.activated t n v p"
  have valid: "is_valid ?q = is_valid p" by (rule is_valid_rules) simp
  consider "pack_name p \<noteq> n" | "pack_name p = n" "version p = v" | "pack_name p = n" "version p \<noteq> v" by blast
  then show ?thesis
  proof cases
    case 1
    then show ?thesis using assms(1) by (simp add: activated_other)
  next
    case 2
    then have "status ?q = ACTIVE" by (simp add: Pack_Repository.activated_def)
    then show ?thesis using assms(2) 2 valid by (simp add: gate_ok_def)
  next
    case 3
    then have "status ?q = (if status p = ACTIVE then DEPRECATED else status p)"
      by (simp add: Pack_Repository.activated_def deprecate_def bump_lock_def)
    then show ?thesis using assms(1) valid by (auto simp: gate_ok_def status_defs split: if_splits)
  qed
qed

lemma gate_ok_edits: "edits p p' \<Longrightarrow> gate_ok p'"
  using is_valid_rules [of p' p] by (auto simp: edits_def gate_ok_def)

lemma gate_ok_valid: "gate_ok p \<Longrightarrow> can_transition (status p) ACTIVE \<Longrightarrow> is_valid p"
  by (auto simp: gate_ok_def can_transition_cases status_defs)

lemma gated_step:
  assumes ok: "repo_ok (repo pl)" and g: "gated (repo pl)" and s: "step k pl pl'" and k: "k \<noteq> KRename" "k \<noteq> KRollback"
  shows "gated (repo pl')"
  using step_effect [OF ok s k(1)]
proof (elim disjE)
  assume "adds_draft (repo pl) (repo pl')"
  then show ?thesis using gated_upd [OF g] unfolding adds_draft_def by (auto simp: gate_ok_def)
next
  assume "changes_one (repo pl) (repo pl') edits"
  then show ?thesis using gated_upd [OF g] gate_ok_edits unfolding changes_one_def by blast
next
  assume "activates (repo pl) (repo pl') (\<lambda>p. k = KRollback \<or> can_transition (status p) ACTIVE)"
  then obtain n v p t where p: "view (repo pl) (n, v) = Some p" "can_transition (status p) ACTIVE"
    and v': "view (repo pl') = (\<lambda>k. map_option (Pack_Repository.activated t n v) (view (repo pl) k))"
    using k(2) unfolding activates_def by blast
  have valid: "is_valid p" using p g gate_ok_valid unfolding gated_def by blast
  show ?thesis unfolding gated_def
  proof (intro allI impI)
    fix l q assume "view (repo pl') l = Some q"
    then obtain q0 where q0: "view (repo pl) l = Some q0" "q = Pack_Repository.activated t n v q0" by (auto simp: v')
    have "pack_name q0 = n \<and> version q0 = v \<longrightarrow> is_valid q0"
      using view_key [OF ok q0(1)] q0(1) p(1) valid by auto
    moreover have "gate_ok q0" using g q0(1) unfolding gated_def by blast
    ultimately show "gate_ok q" unfolding q0(2) by (intro gate_ok_activated)
  qed
qed

lemma reach_gated: "reach K pl \<Longrightarrow> KRename \<notin> K \<Longrightarrow> KRollback \<notin> K \<Longrightarrow> gated (repo pl)"
proof (induction rule: reach.induct)
  case (init a e)
  then show ?case by (simp add: gated_def)
next
  case (more_steps pl k pl')
  then show ?case using gated_step [of pl k pl'] reach_ok [of K pl] by blast
qed



text \<open>A run of the platform for the examples: a draft with one rule, published and activated.\<close>

definition w_call :: "string \<Rightarrow> call" where
  "w_call f = \<lparr>actor = ''kim'', reason = None, correlation = None, now = 0, fresh = f, fresh_audit = ''a''\<rparr>"

definition w_empty :: platform where
  "w_empty = \<lparr>repo = empty_repo, audit = Some [], events = Some []\<rparr>"

definition w_created :: platform where
  "w_created = snd (create_rule_pack (w_call ''id1'') ''p'' None None [w_rule ''R1'' 5 []] w_empty)"

definition w_published :: platform where
  "w_published = snd (projr (publish_rule_pack (w_call ''x'') ''id1'' w_created))"

definition w_active :: platform where
  "w_active = snd (projr (activate_rule_pack (w_call ''x'') ''id1'' None w_published))"

lemma create_step: "unused_id (fresh c) (repo pl) \<Longrightarrow> step KCreate pl (snd (create_rule_pack c n reg ten rs pl))"
  by (rule step.create [OF _ prod.collapse [symmetric]])

lemma w_active_reach: "reach {KCreate, KPublish, KActivate} w_active"
proof -
  have "reach {KCreate, KPublish, KActivate} w_empty" unfolding w_empty_def by (rule reach.init)
  moreover have "step KCreate w_empty w_created"
    unfolding w_created_def by (rule create_step) (simp add: unused_id_def w_empty_def)
  moreover have "is_ok (publish_rule_pack (w_call ''x'') ''id1'' w_created)" by code_simp
  then have "step KPublish w_created w_published"
    unfolding w_published_def by (auto simp: is_ok_iff intro: step.published)
  moreover have "is_ok (activate_rule_pack (w_call ''x'') ''id1'' None w_published)" by code_simp
  then have "step KActivate w_published w_active"
    unfolding w_active_def by (auto simp: is_ok_iff intro: step.activated)
  ultimately show ?thesis using reach.more_steps [of "{KCreate, KPublish, KActivate}"] by (metis insertI1 insertI2)
qed

lemma one_active_version_per_name_witness:
  "\<exists>p. view (repo w_active) (''p'', 1) = Some p \<and> status p = ACTIVE \<and> (''p'', 1) = (pack_name p, version p)"
proof -
  have "map_option status (view (repo w_active) (''p'', 1)) = Some ACTIVE" by code_simp
  then obtain p where p: "view (repo w_active) (''p'', 1) = Some p" "status p = ACTIVE" by auto
  from one_active_version_per_name [OF w_active_reach _ p(1) p(1)] p show ?thesis by simp
qed


text \<open>
  The two ways around the publication gate. A roll-back activates the parent
  version whatever its state: here an empty draft that was never published goes live. And a
  draft that is renamed to a name whose version of the same number exists makes activation
  act on the other pack: activating the published pack \<open>id2\<close> leaves it published and puts
  the unpublished, empty draft \<open>id1\<close> live instead.
\<close>
theorem draft_goes_live:
  "(let pl1 = snd (create_rule_pack (w_call ''id1'') ''p'' None None [] w_empty);
        pl2 = snd (create_rule_pack (w_call ''id2'') ''p'' None None [w_rule ''R1'' 5 []] pl1);
        pl3 = snd (projr (publish_rule_pack (w_call ''x'') ''id2'' pl2));
        pl4 = snd (projr (activate_rule_pack (w_call ''x'') ''id2'' None pl3));
        res = rollback_rule_pack (w_call ''x'') ''p'' 2 None pl4;
        v = view (repo (snd (projr res)))
    in is_ok res \<and> map_option status (v (''p'', 1)) = Some ACTIVE \<and> map_option is_valid (v (''p'', 1)) = Some False) \<and>
   (let pl1 = snd (create_rule_pack (w_call ''id1'') ''b'' None None [] w_empty);
        pl2 = snd (create_rule_pack (w_call ''id2'') ''a'' None None [w_rule ''R1'' 5 []] pl1);
        pl3 = snd (projr (update_rule_pack (w_call ''x'') ''id2'' None [AttrName ''b''] pl2));
        pl4 = snd (projr (publish_rule_pack (w_call ''x'') ''id2'' pl3));
        res = activate_rule_pack (w_call ''x'') ''id2'' None pl4;
        rp = repo (snd (projr res))
    in is_ok res \<and> map_option (\<lambda>r. status (pack_at rp r)) (repo_get_by_id rp ''id2'') = Some PUBLISHED \<and>
       map_option (\<lambda>r. (status (pack_at rp r), is_valid (pack_at rp r))) (repo_get_by_id rp ''id1'') = Some (ACTIVE, False))"
  by code_simp

section \<open>Statuses and locks\<close>

lemma moves:
  "can_transition ACTIVE DEPRECATED" "can_transition DRAFT PUBLISHED" "can_transition DRAFT ARCHIVED"
  "can_transition PUBLISHED ARCHIVED" "can_transition DEPRECATED ARCHIVED"
  by (simp_all add: can_transition_cases status_defs)

lemma status_edits:
  assumes "edits p p'" and "gate_ok p"
  shows "status p' = status p \<or> can_transition (status p) (status p')"
proof -
  consider "status p = DRAFT" | "status p = PUBLISHED" | "status p = ACTIVE" | "status p = DEPRECATED" | "status p = ARCHIVED"
    using assms(2) unfolding gate_ok_def by blast
  then show ?thesis using assms(1) moves unfolding edits_def by cases metis+
qed

lemma status_activated:
  assumes "pack_name p = n \<and> version p = v \<longrightarrow> can_transition (status p) ACTIVE"
  shows "status (Pack_Repository.activated t n v p) = status p \<or>
    can_transition (status p) (status (Pack_Repository.activated t n v p))"
proof -
  let ?q = "Pack_Repository.activated t n v p"
  consider "pack_name p \<noteq> n" | "pack_name p = n" "version p = v" | "pack_name p = n" "version p \<noteq> v" by blast
  then show ?thesis
  proof cases
    case 1
    then show ?thesis by (simp add: activated_other)
  next
    case 2
    then have "status ?q = ACTIVE" by (simp add: Pack_Repository.activated_def)
    then show ?thesis using assms 2 by simp
  next
    case 3
    then have q: "status ?q = (if status p = ACTIVE then DEPRECATED else status p)"
      by (simp add: Pack_Repository.activated_def deprecate_def bump_lock_def)
    show ?thesis by (simp add: q moves(1))
  qed
qed



text \<open>
  Optimistic locking prevents lost updates: of two writers that read a draft at
  the same lock version, the one that writes second is refused with a concurrent modification
  error, and the refusal changes nothing.
\<close>
theorem second_writer_is_refused:
  assumes ok: "repo_ok (repo pl)" and keep: "list_all (\<lambda>a. \<forall>n. a \<noteq> AttrName n) attrs"
    and first: "update_rule_pack c1 i (Some n) attrs pl = Inr (r, pl')"
  shows "\<exists>msg. update_rule_pack c2 i (Some n) attrs2 pl' = Inl (ConcurrentModificationError msg)"
proof -
  let ?f = "\<lambda>p. bump_lock (foldl set_attr p attrs)"
  obtain r0 where g: "repo_get_by_id (repo pl) i = Some r0" and s: "status (pack_at (repo pl) r0) = DRAFT"
    and u: "update_metadata i (Some n) attrs (repo pl) = Inr (r, repo pl')"
    using first by (auto simp: update_rule_pack_def Let_def bindr_eq_Inr split: option.splits if_splits)
  obtain k where k: "map_of (store (repo pl)) k = Some r0" using get_by_id_view(1) [OF ok g] by blast
  have lock: "lock_version (pack_at (repo pl) r0) = n"
    using u g by (auto simp: update_metadata_def modify_by_id_def check_lock_def bindr_eq_Inr split: if_splits)
  have rp': "repo pl' = put_pack r0 (?f (pack_at (repo pl) r0)) (repo pl)"
    using u g by (auto simp: update_metadata_def modify_by_id_def bindr_eq_Inr)
  note put = pack_at_put [OF repo_okD(1) [OF ok k], of "?f (pack_at (repo pl) r0)"]
  have at: "pack_at (repo pl') r0 = ?f (pack_at (repo pl) r0)" and refs: "refs (repo pl') = refs (repo pl)"
    and others: "\<And>x. x \<noteq> r0 \<Longrightarrow> pack_at (repo pl') x = pack_at (repo pl) x"
    by (simp_all only: rp' put store_put if_True if_False simp_thms)
  note keep = set_attr_keep [OF keep, of "pack_at (repo pl) r0"]
  have ids: "pack_id (pack_at (repo pl') x) = pack_id (pack_at (repo pl) x)" for x
    using at others keep by (cases "x = r0") (simp_all add: bump_lock_def)
  have "repo_get_by_id (repo pl') i = Some r0"
    using g by (simp add: repo_get_by_id_def ids refs)
  moreover have "status (pack_at (repo pl') r0) = DRAFT" using at s keep by (simp add: bump_lock_def)
  moreover have "lock_version (foldl set_attr p attrs) = lock_version p" for p attrs
  proof (induction attrs arbitrary: p)
    case (Cons a attrs)
    then show ?case by (cases a) auto
  qed simp
  then have "lock_version (pack_at (repo pl') r0) = n + 1" using at lock by (simp add: bump_lock_def)
  ultimately show ?thesis
    by (simp add: update_rule_pack_def update_metadata_def modify_by_id_def check_lock_def)
qed

lemma second_writer_is_refused_witness:
  "\<exists>pl' r msg. update_rule_pack (w_call ''x'') ''id1'' (Some 1) [AttrRegion (Some ''EU'')] w_created = Inr (r, pl') \<and>
     update_rule_pack (w_call ''y'') ''id1'' (Some 1) [AttrTenant (Some ''t2'')] pl' = Inl (ConcurrentModificationError msg)"
proof -
  have "is_ok (update_rule_pack (w_call ''x'') ''id1'' (Some 1) [AttrRegion (Some ''EU'')] w_created)" by code_simp
  then obtain r pl' where u: "update_rule_pack (w_call ''x'') ''id1'' (Some 1) [AttrRegion (Some ''EU'')] w_created = Inr (r, pl')"
    by (auto simp: is_ok_iff)
  have "reach {KCreate} w_created"
  proof -
    have "step KCreate w_empty w_created"
      unfolding w_created_def by (rule create_step) (simp add: unused_id_def w_empty_def)
    moreover have "reach {KCreate} w_empty" unfolding w_empty_def by (rule reach.init)
    ultimately show ?thesis using reach.more_steps [of "{KCreate}"] by (metis insertI1)
  qed
  then have "repo_ok (repo w_created)" using reach_ok by blast
  from second_writer_is_refused [OF this _ u] u show ?thesis by simp
qed

end
