(* ===== verification/Seeding.thy ===== *)
theory Seeding
  imports Lifecycle_Safety
begin

text \<open>
  \<open>seed_active_policy.py\<close>: the seeding of an empty database at start-up. The fixture pack
  of \<open>InMemoryRuleRepository\<close> is an argument.
\<close>

record seed_result =
  sr_seeded :: bool
  sr_activated :: bool
  sr_pack_name :: string
  sr_pack_version :: int

definition seed_active_policy ::
  "rule_pack \<Rightarrow> string \<Rightarrow> string \<Rightarrow> instant \<Rightarrow> pack_repo \<Rightarrow> (seed_result \<times> pack_repo) res" where
  "seed_active_policy fixture rule_set_name f t rp =
     (case repo_get_active rp rule_set_name None of
        Some r \<Rightarrow> Inr (\<lparr>sr_seeded = False, sr_activated = True, sr_pack_name = rule_set_name,
                       sr_pack_version = version (pack_at rp r)\<rparr>, rp)
      | None \<Rightarrow>
          let p = fixture\<lparr>pack_name := rule_set_name\<rparr>;
              (saved, rp) = (case repo_get rp (pack_name p) (version p) of
                 Some r \<Rightarrow> (r, rp)
               | None \<Rightarrow> let (r, rp) = alloc p rp in (r, repo_save f t r rp));
              n = pack_name (pack_at rp saved); v = version (pack_at rp saved)
          in bindr (repo_activate t n v None rp) (\<lambda>(a, rp').
               Inr (\<lparr>sr_seeded = True, sr_activated = True, sr_pack_name = pack_name (pack_at rp' saved),
                     sr_pack_version = version (pack_at rp' a)\<rparr>, rp')))"

lemma get_active_view:
  assumes ok: "repo_ok rp" and v: "view rp k = Some p" and p: "pack_name p = n" "status p = ACTIVE" "region p = g"
  shows "\<exists>r. repo_get_active rp n g = Some r"
proof -
  obtain r where r: "map_of (store rp) k = Some r" "p = pack_at rp r" using v by (auto simp: view_def)
  then have "r \<in> set (refs rp)" "pack_name (pack_at rp r) = n \<and> status (pack_at rp r) = ACTIVE \<and> region (pack_at rp r) = g"
    using key_has_ref p by auto
  then have "repo_get_active rp n g \<noteq> None" by (auto simp: repo_get_active_def find_None_iff)
  then show ?thesis by blast
qed

lemma activated_target:
  "pack_name p = n \<Longrightarrow> version p = v \<Longrightarrow> status (Pack_Repository.activated t n v p) = ACTIVE \<and>
   region (Pack_Repository.activated t n v p) = region p"
  by (simp add: Pack_Repository.activated_def make_active_def bump_lock_def)

lemma activate_present:
  assumes ok: "repo_ok rp" and v: "view rp (n, v) = Some p"
  shows "\<exists>a rp'. repo_activate t n v None rp = Inr (a, rp') \<and> repo_ok rp' \<and>
    view rp' = (\<lambda>k. map_option (Pack_Repository.activated t n v) (view rp k)) \<and>
    (region p = g \<longrightarrow> (\<exists>r. repo_get_active rp' n g = Some r))"
proof -
  obtain r where r: "map_of (store rp) (n, v) = Some r" using v by (auto simp: view_def)
  then obtain a rp' where act: "repo_activate t n v None rp = Inr (a, rp')"
    by (auto simp: repo_activate_def repo_get_def check_lock_def Let_def)
  note w = activate_view [OF ok act]
  have "pack_name p = n" "version p = v" using view_key [OF ok v] by simp_all
  note tgt = activated_target [OF this, of t]
  have "view rp' (n, v) = Some (Pack_Repository.activated t n v p)" using w v by simp
  then have "region p = g \<longrightarrow> (\<exists>r. repo_get_active rp' n g = Some r)"
    using get_active_view [of rp' "(n, v)" _ n g] tgt w \<open>pack_name p = n\<close> by auto
  with act w show ?thesis by blast
qed

text \<open>
  Start-up seeding succeeds and leaves an active pack for no region under the
  rule set's name; once there is one, in particular on every later start, seeding changes
  nothing.
\<close>
theorem seeding_establishes_a_policy_once:
  assumes ok: "repo_ok rp" and f: "unused_id f rp" and fixture: "pack_id fixture = None" "region fixture = None"
    and global: "\<forall>p. view rp (n, version fixture) = Some p \<longrightarrow> region p = None"
  shows "\<exists>res rp'. seed_active_policy fixture n f t rp = Inr (res, rp') \<and> repo_ok rp' \<and>
    (\<exists>r. repo_get_active rp' n None = Some r) \<and>
    (\<forall>f' t'. \<exists>res'. seed_active_policy fixture n f' t' rp' = Inr (res', rp') \<and> \<not> sr_seeded res')"
proof -
  have again: "\<exists>res'. seed_active_policy fixture n f' t' rp' = Inr (res', rp') \<and> \<not> sr_seeded res'"
    if "repo_get_active rp' n None = Some r" for rp' r f' t' using that by (simp add: seed_active_policy_def)
  show ?thesis
  proof (cases "repo_get_active rp n None")
    case (Some r)
    then show ?thesis using again ok by (fastforce simp: seed_active_policy_def)
  next
    case None
    let ?p = "fixture\<lparr>pack_name := n\<rparr>"
    have "\<exists>s rp1 q. (case repo_get rp n (version fixture) of Some r \<Rightarrow> (r, rp)
        | None \<Rightarrow> let (r, rp) = alloc ?p rp in (r, repo_save f t r rp)) = (s, rp1) \<and> repo_ok rp1 \<and>
        pack_name (pack_at rp1 s) = n \<and> version (pack_at rp1 s) = version fixture \<and>
        view rp1 (n, version fixture) = Some q \<and> region q = None"
    proof (cases "repo_get rp n (version fixture)")
      case (Some r)
      then have r: "map_of (store rp) (n, version fixture) = Some r" by (simp add: repo_get_def)
      show ?thesis using Some repo_okD(2,4) [OF ok r] ok global by auto
    next
      case None
      obtain r rp0 where a: "alloc ?p rp = (r, rp0)" by fastforce
      have new: "view rp (pack_name ?p, version ?p) = None" using None by (simp add: repo_get_def view_def)
      have id: "pack_id ?p = None" using fixture by simp
      have reg: "region (stamp_pack f t ?p) = None" using fixture by (simp add: stamp_pack_def Let_def)
      note s = save_new_view [OF ok new id f a, of t]
      show ?thesis unfolding None using a s reg by auto
    qed
    then obtain s rp1 q where s: "(case repo_get rp n (version fixture) of Some r \<Rightarrow> (r, rp)
        | None \<Rightarrow> let (r, rp) = alloc ?p rp in (r, repo_save f t r rp)) = (s, rp1)" "repo_ok rp1"
        "pack_name (pack_at rp1 s) = n" "version (pack_at rp1 s) = version fixture"
        "view rp1 (n, version fixture) = Some q" "region q = None" by blast
    obtain a rp' where act: "repo_activate t n (version fixture) None rp1 = Inr (a, rp')" "repo_ok rp'"
      and g: "\<exists>r. repo_get_active rp' n None = Some r"
      using activate_present [OF s(2,5), of t None] s(6) by blast
    then show ?thesis using None s(1,3,4) again g by (fastforce simp: seed_active_policy_def Let_def)
  qed
qed

lemma seeding_establishes_a_policy_once_witness:
  "\<exists>res rp' r. seed_active_policy (new_pack ''noc-default'' 3 ACTIVE None [w_rule ''R1'' 5 []]) ''live'' ''id1'' 0 empty_repo = Inr (res, rp') \<and>
     repo_get_active rp' ''live'' None = Some r"
proof -
  have "repo_ok empty_repo" "unused_id ''id1'' empty_repo" using empty_ok by (simp_all add: unused_id_def)
  moreover have "pack_id (new_pack ''noc-default'' 3 ACTIVE None [w_rule ''R1'' 5 []]) = None"
    "region (new_pack ''noc-default'' 3 ACTIVE None [w_rule ''R1'' 5 []]) = None" by (simp_all add: new_pack_def)
  ultimately show ?thesis
    using seeding_establishes_a_policy_once [of empty_repo "''id1''" "new_pack ''noc-default'' 3 ACTIVE None [w_rule ''R1'' 5 []]" "''live''" 0]
    by simp blast
qed

text \<open>
  Seeding is not neutral, though: where only a regional version of the rule set is active,
  it deprecates that version, and it activates a stored version of the fixture's number
  whatever its state.
\<close>

lemma seeding_deprecates_a_regional_policy:
  "(let fixture = new_pack ''noc-default'' 3 ACTIVE None [w_rule ''R1'' 5 []];
        eu = (new_pack ''live'' 1 ACTIVE (Some ''EU'') [w_rule ''R1'' 5 []])\<lparr>pack_id := Some ''id0''\<rparr>;
        gone = (new_pack ''live'' 3 ARCHIVED None [])\<lparr>pack_id := Some ''id9''\<rparr>;
        rp = \<lparr>store = [((''live'', 1), 0), ((''live'', 3), 1)], heap = [eu, gone], active_cache = new_cache (Fin 10)\<rparr>;
        rp' = snd (projr (seed_active_policy fixture ''live'' ''id1'' 0 rp))
    in map_option status (view rp' (''live'', 1)) = Some DEPRECATED \<and> map_option status (view rp' (''live'', 3)) = Some ACTIVE)"
  by code_simp

end
