(* ===== verification/Loaders.thy ===== *)
theory Loaders
  imports Rule_Json Resolver_Properties Orchestrator
begin

text \<open>
  The static rule source: the loaders that transpile the rule documents shipped with the
  program into rules (\<open>app/infrastructure/repositories/*_rule_pack_loader.py\<close>), the seed
  repository (\<open>in_memory_rule_repository.py\<close>) and the composite that merges them
  (\<open>composite_rule_repository.py\<close>). A loader takes the decoded document; reading and
  decoding the file is not modelled. As for other documents, a field of another type than
  the rule declares is a \<open>TypeError\<close>.
\<close>

section \<open>Decimal literals\<close>

text \<open>
  \<open>float(text)\<close> on text without surrounding white space: an optional sign, then digits
  with an optional point and an optional exponent, or an infinity or a \<open>NaN\<close>.
\<close>

definition digit_groups :: "string \<Rightarrow> bool" where
  "digit_groups s = list_all (\<lambda>g. g \<noteq> [] \<and> list_all is_digit g) (split_on CHR ''_'' s)"

definition plain_digits :: "string \<Rightarrow> string" where
  "plain_digits s = filter is_digit s"

definition unsigned_float :: "string \<Rightarrow> fl option" where
  "unsigned_float s =
     (if s = ''inf'' \<or> s = ''infinity'' then Some PosInf
      else if s = ''nan'' then Some NaN
      else let mant = takeWhile (\<lambda>c. c \<noteq> CHR ''e'') s; expo = drop (length mant) s;
               whole = takeWhile (\<lambda>c. c \<noteq> CHR ''.'') mant; frac = drop (Suc (length whole)) mant;
               e = (if expo = [] then Inr 0 else py_int (tl expo))
           in if (whole = [] \<or> digit_groups whole) \<and> (frac = [] \<or> digit_groups frac) \<and> (whole \<noteq> [] \<or> frac \<noteq> []) \<and> is_ok e
              then Some (rnd (of_int (int_of_digits (plain_digits whole @ plain_digits frac)) *
                     pow10 (projr e - int (length (plain_digits frac)))))
              else None)"

definition py_float :: "string \<Rightarrow> fl res" where
  "py_float s =
     (let l = py_lower s;
          (neg, body) = (case l of
             c # t \<Rightarrow> if c = CHR ''-'' then (True, t) else if c = CHR ''+'' then (False, t) else (False, l)
           | [] \<Rightarrow> (False, l))
      in case unsigned_float body of
           None \<Rightarrow> Inl (ValueError (''could not convert string to float: '' @ str_repr s))
         | Some x \<Rightarrow> Inr (if neg then (case x of Fin a \<Rightarrow> Fin (- a) | PosInf \<Rightarrow> NegInf | _ \<Rightarrow> x) else x))"

section \<open>The customer SLA pack\<close>

definition sla_operator_map :: "(string \<times> string) list" where
  "sla_operator_map =
     [(''equals'', ''==''), (''notEquals'', ''!=''), (''in'', ''in''), (''greaterThan'', ''>''),
      (''greaterThanOrEqual'', ''>=''), (''lessThan'', ''<''), (''lessThanOrEqual'', ''<='')]"

definition formula_value :: "string \<Rightarrow> val res" where
  \<comment> \<open>\<open>value.partition("*")\<close>: a field name times a number\<close>
  "formula_value s =
     (let field_name = takeWhile (\<lambda>c. c \<noteq> CHR ''*'') s; multiplier = drop (Suc (length field_name)) s
      in bindr (py_float (py_strip multiplier)) (\<lambda>x.
           Inr (PDict [(''*'', PList [PDict [(''var'', PStr (py_strip field_name))], PFloat x])])))"

definition sla_condition_node :: "dict \<Rightarrow> val res" where
  "sla_condition_node cond =
     bindr (get_item cond ''field'') (\<lambda>field.
     bindr (bindr (get_item cond ''operator'') as_str) (\<lambda>operator.
     bindr (get_item cond ''value'') (\<lambda>value.
       case map_of sla_operator_map operator of
         None \<Rightarrow> Inl (ValueError (''Unsupported condition operator '' @ quoted operator @ '' in customer_sla_rules_telecom.json''))
       | Some op \<Rightarrow>
           bindr (case value of PStr s \<Rightarrow> if CHR ''*'' \<in> set s then formula_value s else Inr value | _ \<Rightarrow> Inr value) (\<lambda>value.
             Inr (PDict [(op, PList [PDict [(''var'', field)], value])])))))"

definition conditions_to_jsonlogic :: "dict list \<Rightarrow> string \<Rightarrow> val res" where
  "conditions_to_jsonlogic conds logical_operator =
     bindr (mapr sla_condition_node conds) (\<lambda>ns.
       case ns of
         [n] \<Rightarrow> Inr n
       | _ \<Rightarrow> Inr (PDict [(if py_upper logical_operator = ''AND'' then ''and'' else ''or'', PList ns)]))"

definition as_dicts :: "val \<Rightarrow> dict list res" where
  "as_dicts v = (case v of PList xs \<Rightarrow> mapr as_dict xs | _ \<Rightarrow> Inl TypeError)"

definition text_item :: "dict \<Rightarrow> string \<Rightarrow> string res" where
  "text_item d k = bindr (get_item d k) as_str"

definition plain_rule :: "string \<Rightarrow> string \<Rightarrow> string \<Rightarrow> string \<Rightarrow> int \<Rightarrow> int \<Rightarrow> val \<Rightarrow> dict \<Rightarrow> rule" where
  \<comment> \<open>a rule with every other field at its default\<close>
  "plain_rule code nm descr fam forder weight conds acts =
     \<lparr>rule_code = code, rule_name = nm, rule_description = descr, family = fam, family_order = forder,
      priority_weight = weight, severity_band = None, contribution_score = None, conditions = conds, exceptions = None,
      conflict_group = None, conflicts_with = [], is_suppressor = False, non_suppressible = False, cooldown_minutes = 0,
      actions = acts, mitigations = [], sequencing = None, sla_target = None, rule_status = ''ACTIVE'', enabled = True,
      rule_id = None\<rparr>"

definition match_weight :: "dict \<Rightarrow> int res" where
  \<comment> \<open>\<open>r["onMatch"]["weight"]\<close>\<close>
  "match_weight r = bindr (bindr (get_item r ''onMatch'') as_dict) (\<lambda>m. bindr (get_item m ''weight'') as_int)"

definition sla_rule :: "(string \<times> dict) list \<Rightarrow> string \<Rightarrow> string \<Rightarrow> int \<Rightarrow> int \<Rightarrow> (dict \<Rightarrow> int option res) \<Rightarrow> dict \<Rightarrow> rule res" where
  \<comment> \<open>the part every rule of the pack shares, its fields read in the order of the source\<close>
  "sla_rule by_id i fam forder weight score acts =
     bindr (get_item by_id i) (\<lambda>r.
     bindr (text_item r ''id'') (\<lambda>code.
     bindr (text_item r ''name'') (\<lambda>nm.
     bindr (text_item r ''description'') (\<lambda>descr.
     bindr (score r) (\<lambda>contrib.
     bindr (bindr (get_item r ''conditions'') as_dicts) (\<lambda>conds.
     bindr (text_item r ''logicalOperator'') (\<lambda>lop.
     bindr (conditions_to_jsonlogic conds lop) (\<lambda>c.
       Inr ((plain_rule code nm descr fam forder weight c acts)\<lparr>contribution_score := contrib\<rparr>)))))))))"

definition unscored :: "(string \<times> dict) list \<Rightarrow> string \<Rightarrow> string \<Rightarrow> int \<Rightarrow> int \<Rightarrow> dict \<Rightarrow> rule res" where
  "unscored by_id i fam forder weight acts = sla_rule by_id i fam forder weight (\<lambda>_. Inr None) acts"

definition scored :: "(string \<times> dict) list \<Rightarrow> string \<Rightarrow> string \<Rightarrow> int \<Rightarrow> int \<Rightarrow> dict \<Rightarrow> rule res" where
  "scored by_id i fam forder weight acts =
     sla_rule by_id i fam forder weight (\<lambda>r. bindr (match_weight r) (\<lambda>w. Inr (Some w))) acts"

text \<open>One rule per tier of the weight table.\<close>

definition tier_rules :: "(string \<times> dict) list \<Rightarrow> rule list res" where
  "tier_rules by_id =
     bindr (get_item by_id ''SLA-RULE-002'') (\<lambda>r.
     bindr (bindr (get_item r ''weightTable'') as_dict) (\<lambda>table.
       mapr (\<lambda>(tier, weight).
         bindr (text_item r ''id'') (\<lambda>code.
         bindr (text_item r ''name'') (\<lambda>nm.
         bindr (text_item r ''description'') (\<lambda>descr.
         bindr (as_int weight) (\<lambda>w.
           Inr ((plain_rule (code @ ''-'' @ tier) (nm @ '' ('' @ tier @ '')'') descr ''CUSTOMER_VALUE'' 3 10
                  (PDict [(''=='', PList [PDict [(''var'', PStr ''customerTier'')], PStr tier])]) [])
                \<lparr>contribution_score := Some w\<rparr>)))))) table))"

definition index_by :: "string \<Rightarrow> dict list \<Rightarrow> (string \<times> dict) list res" where
  "index_by k docs = bindr (mapr (\<lambda>d. bindr (text_item d k) (\<lambda>i. Inr (i, d))) docs) (\<lambda>kvs. Inr (dict_update [] kvs))"

definition load_sla_rules :: "dict \<Rightarrow> rule list res" where
  "load_sla_rules raw =
     bindr (bindr (get_item raw ''rules'') as_dicts) (\<lambda>docs.
     bindr (index_by ''id'' docs) (\<lambda>by_id.
     bindr (unscored by_id ''SLA-RULE-008'' ''SAFETY_REGULATORY'' 1 100
       [(''priority'', PStr ''Critical''), (''dispatchEngineer'', PBool True), (''notifyNOC'', PBool True), (''regulatoryOverride'', PBool True)]) (\<lambda>r8.
     bindr (unscored by_id ''SLA-RULE-001'' ''CUSTOMER_VALUE'' 3 88
       [(''priority'', PStr ''Critical''), (''notifyAccountManager'', PBool True)]) (\<lambda>r1.
     bindr (tier_rules by_id) (\<lambda>tiers.
     bindr (scored by_id ''SLA-RULE-003'' ''NETWORK_IMPACT'' 2 15 []) (\<lambda>r3.
     bindr (scored by_id ''SLA-RULE-004'' ''CUSTOMER_VALUE'' 3 20
       [(''priorityBumpOneLevel'', PBool True), (''slaBreachImminent'', PBool True)]) (\<lambda>r4.
     bindr (scored by_id ''SLA-RULE-005'' ''CUSTOMER_VALUE'' 3 10 []) (\<lambda>r5.
     bindr (scored by_id ''SLA-RULE-006'' ''REPETITION_ESCALATION'' 6 10 [(''chronicCustomerFlag'', PBool True)]) (\<lambda>r6.
     bindr (scored by_id ''SLA-RULE-007'' ''SUPPRESSION'' 7 90
       [(''dispatchEngineer'', PBool False), (''customerNotification'', PBool False)]) (\<lambda>r7.
       Inr ([r8\<lparr>severity_band := Some ''Critical'', non_suppressible := True, conflict_group := Some ''priority''\<rparr>,
             r1\<lparr>severity_band := Some ''Critical'', conflict_group := Some ''priority''\<rparr>] @ tiers @
            [r3, r4, r5, r6, r7\<lparr>is_suppressor := True, conflict_group := Some ''dispatch-suppression''\<rparr>])))))))))))"

definition load_sla_matrix :: "dict \<Rightarrow> val" where
  "load_sla_matrix raw = dict_get raw ''slaMatrix'' (PDict [])"

section \<open>The customer request pack\<close>

definition vast_operator_map :: "(string \<times> string) list" where
  "vast_operator_map =
     [(''equals'', ''==''), (''lte'', ''<=''), (''gte'', ''>=''), (''lt'', ''<''), (''gt'', ''>''), (''in'', ''in''),
      (''contains'', ''contains''), (''in_holiday_period'', ''in_holiday_period'')]"

definition priority_overrides :: "(string \<times> int) list" where
  "priority_overrides = [(''CSR-021'', 105)]"

definition vast_condition_node :: "dict \<Rightarrow> val res" where
  "vast_condition_node cond =
     bindr (get_item cond ''field'') (\<lambda>field.
     bindr (text_item cond ''op'') (\<lambda>operator.
       case map_of vast_operator_map operator of
         None \<Rightarrow> Inl (ValueError (''Unsupported condition operator '' @ quoted operator @ '' in customer_sla_rules_vast.json''))
       | Some op \<Rightarrow> bindr (get_item cond ''value'') (\<lambda>value. Inr (PDict [(op, PList [PDict [(''var'', field)], value])]))))"

definition combine :: "string \<Rightarrow> val list \<Rightarrow> val" where
  "combine op ns = (case ns of [n] \<Rightarrow> n | _ \<Rightarrow> PDict [(op, PList ns)])"

definition when_to_jsonlogic :: "dict \<Rightarrow> val res" where
  "when_to_jsonlogic w =
     (if dict_in ''all'' w
      then bindr (bindr (bindr (get_item w ''all'') as_dicts) (mapr vast_condition_node)) (\<lambda>ns. Inr (combine ''and'' ns))
      else if dict_in ''any'' w
      then bindr (bindr (bindr (get_item w ''any'') as_dicts) (mapr vast_condition_node)) (\<lambda>ns. Inr (combine ''or'' ns))
      else Inl (ValueError (''Unsupported '' @ quoted ''when'' @ '' shape: '' @ py_repr (PDict w))))"

definition vast_rule :: "dict \<Rightarrow> rule res" where
  "vast_rule r =
     bindr (text_item r ''rule_id'') (\<lambda>code.
     bindr (text_item r ''name'') (\<lambda>nm.
     bindr (bindr (get_item r ''then'') as_dict) (\<lambda>th.
     bindr (text_item th ''reason'') (\<lambda>descr.
     bindr (bindr (get_item r ''priority'') as_int) (\<lambda>weight.
     bindr (bindr (get_item th ''score_delta'') as_int) (\<lambda>delta.
     bindr (bindr (bindr (get_item r ''when'') as_dict) when_to_jsonlogic) (\<lambda>c.
     bindr (get_item th ''decision'') (\<lambda>dec.
     bindr (get_item th ''action'') (\<lambda>act.
     bindr (as_bool (dict_get r ''enabled'' (PBool True))) (\<lambda>en.
       Inr ((plain_rule code nm descr ''CUSTOMER_REQUEST_WORKFLOW'' 10 (dict_get priority_overrides code weight) c
              [(''customerDecision'', dec), (''customerAction'', act)])
            \<lparr>contribution_score := Some delta, conflict_group := Some ''customer-decision'', enabled := en\<rparr>)))))))))))"

definition load_vast_rules :: "dict \<Rightarrow> rule list res" where
  "load_vast_rules raw = bindr (bindr (get_item raw ''rules'') as_dicts) (mapr vast_rule)"

section \<open>The packs in JsonLogic\<close>

text \<open>\<open>_strip_incident_prefix\<close>, the same function in three of the loaders.\<close>

fun strip_incident_prefix :: "val \<Rightarrow> val" where
  "strip_incident_prefix (PDict d) =
     (case d of
        [(k, PStr s)] \<Rightarrow>
          if k = ''var'' \<and> prefix ''incident.'' s then PDict [(''var'', PStr (drop (length ''incident.'') s))]
          else PDict d
      | _ \<Rightarrow> PDict (map (\<lambda>(k, v). (k, strip_incident_prefix v)) d))"
| "strip_incident_prefix (PList xs) = PList (map strip_incident_prefix xs)"
| "strip_incident_prefix v = v"

definition csr_sla_rule :: "dict \<Rightarrow> rule res" where
  "csr_sla_rule r =
     bindr (bindr (get_item r ''then'') as_dict) (\<lambda>th.
     bindr (text_item r ''ruleId'') (\<lambda>code.
     bindr (text_item r ''name'') (\<lambda>nm.
     bindr (text_item th ''explanation'') (\<lambda>descr.
     bindr (bindr (get_item r ''priority'') as_int) (\<lambda>weight.
     bindr (get_item r ''when'') (\<lambda>w.
     bindr (get_item th ''decision'') (\<lambda>dec.
     bindr (get_item th ''action'') (\<lambda>act.
     bindr (get_item th ''escalationTarget'') (\<lambda>target.
     bindr (get_item th ''priority'') (\<lambda>score.
     bindr (get_item th ''confidence'') (\<lambda>conf.
     bindr (as_bool (dict_get r ''enabled'' (PBool True))) (\<lambda>en.
       Inr ((plain_rule code nm descr ''CUSTOMER_SLA_PRIORITY'' 11 weight (strip_incident_prefix w)
              [(''decision'', dec), (''csrSlaAction'', act), (''escalationTarget'', target),
               (''csrSlaPriorityScore'', score), (''csrSlaConfidence'', conf), (''csrSlaExplanation'', PStr descr)])
            \<lparr>conflict_group := Some ''csr-sla-priority-decision'', enabled := en\<rparr>)))))))))))))"

definition load_csr_sla_rules :: "dict \<Rightarrow> rule list res" where
  "load_csr_sla_rules raw = bindr (bindr (get_item raw ''rules'') as_dicts) (mapr csr_sla_rule)"

definition historical_rule :: "dict \<Rightarrow> rule res" where
  "historical_rule r =
     bindr (bindr (get_item r ''actions'') as_dict) (\<lambda>th.
     bindr (text_item r ''id'') (\<lambda>code.
     bindr (text_item r ''name'') (\<lambda>nm.
     bindr (text_item r ''explain'') (\<lambda>descr.
     bindr (bindr (get_item r ''priority'') as_int) (\<lambda>weight.
     bindr (get_item r ''conditions'') (\<lambda>w.
     bindr (get_item th ''decision'') (\<lambda>dec.
     bindr (get_item th ''priority'') (\<lambda>prio.
     bindr (get_item th ''confidence'') (\<lambda>conf.
     bindr (get_item th ''assignmentGroup'') (\<lambda>grp.
     bindr (get_item th ''escalationLevel'') (\<lambda>lvl.
     bindr (get_item th ''reasonCodes'') (\<lambda>codes.
     bindr (get_item th ''slaBreachRisk'') (\<lambda>risk.
     bindr (as_bool (dict_get r ''enabled'' (PBool True))) (\<lambda>en.
       Inr ((plain_rule code nm descr ''HISTORICAL_OPERATIONAL_PATTERN'' 12 weight (strip_incident_prefix w)
              [(''hisDecision'', dec), (''hisPriority'', prio), (''hisConfidence'', conf), (''hisAssignmentGroup'', grp),
               (''hisEscalationLevel'', lvl), (''hisReasonCodes'', codes), (''hisSlaBreachRisk'', risk)])
            \<lparr>conflict_group := Some ''his-decision'', enabled := en\<rparr>)))))))))))))))"

definition load_historical_pattern_rules :: "dict \<Rightarrow> rule list res" where
  "load_historical_pattern_rules raw = bindr (bindr (get_item raw ''rules'') as_dicts) (mapr historical_rule)"

definition skipped_rule_ids :: "string list" where
  "skipped_rule_ids = [''NET-INF-003'', ''NET-INF-004'', ''NET-INF-005'', ''NET-INF-006'', ''NET-INF-009'', ''NET-INF-011'']"

definition net_inf_rule :: "dict \<Rightarrow> rule list res" where
  \<comment> \<open>one turn of the loop: no rule for a skipped id\<close>
  "net_inf_rule r =
     bindr (text_item r ''ruleId'') (\<lambda>code.
       if code \<in> set skipped_rule_ids then Inr []
       else bindr (bindr (get_item r ''then'') as_dict) (\<lambda>th.
            bindr (text_item r ''name'') (\<lambda>nm.
            bindr (text_item th ''explanation'') (\<lambda>descr.
            bindr (bindr (get_item r ''priority'') as_int) (\<lambda>weight.
            bindr (get_item r ''when'') (\<lambda>w.
            bindr (get_item th ''decision'') (\<lambda>dec.
            bindr (get_item th ''action'') (\<lambda>act.
            bindr (get_item th ''escalationTarget'') (\<lambda>target.
            bindr (get_item th ''priority'') (\<lambda>score.
            bindr (get_item th ''confidence'') (\<lambda>conf.
            bindr (as_bool (dict_get r ''enabled'' (PBool True))) (\<lambda>en.
              Inr [(plain_rule code nm descr ''NETWORK_INFRASTRUCTURE_PATTERN'' 13 weight (strip_incident_prefix w)
                     [(''netInfDecision'', dec), (''netInfAction'', act), (''netInfEscalationTarget'', target),
                      (''netInfPriorityScore'', score), (''netInfConfidence'', conf), (''netInfExplanation'', PStr descr)])
                   \<lparr>conflict_group := Some ''net-inf-decision'', enabled := en\<rparr>]))))))))))))"

definition load_net_inf_rules :: "dict \<Rightarrow> rule list res" where
  "load_net_inf_rules raw =
     bindr (bindr (bindr (get_item raw ''rules'') as_dicts) (mapr net_inf_rule)) (\<lambda>rss. Inr (concat rss))"

section \<open>The native packs and the composite\<close>

definition load_industry_sop_rules :: "dict \<Rightarrow> rule list res" where
  "load_industry_sop_rules raw = bindr (bindr (get_item raw ''rules'') as_dicts) (mapr parse_seed_rule)"

definition in_memory_rule_repository :: "dict \<Rightarrow> rule_pack res" where
  \<comment> \<open>the constructor; \<open>get_active\<close> returns this pack for every region and tenant\<close>
  "in_memory_rule_repository raw =
     bindr (bindr (bindr (get_item raw ''rules'') as_dicts) (mapr parse_seed_rule)) (\<lambda>rs.
     bindr (bindr (get_item raw ''ruleSet'') as_dict) (\<lambda>rset.
     bindr (text_item rset ''name'') (\<lambda>nm.
     bindr (bindr (get_item rset ''version'') as_int) (\<lambda>v.
     bindr (text_item rset ''status'') (\<lambda>st.
     bindr (bindr (get_item rset ''region'') (as_opt as_str)) (\<lambda>reg.
       Inr (new_pack nm v st reg rs)))))))"

definition composite_rule_repository :: "string \<Rightarrow> int \<Rightarrow> string option \<Rightarrow> rule list list \<Rightarrow> rule_pack" where
  "composite_rule_repository nm v reg rule_groups = new_pack nm v ''active'' reg (concat rule_groups)"

definition composite_get_active :: "rule_pack \<Rightarrow> string option \<Rightarrow> string option \<Rightarrow> rule_pack res" where
  "composite_get_active p reg ten = Inr p"

section \<open>What stripping the prefix means\<close>

text \<open>
  The conditions the three packs are written in: variables are named by text, a path
  starting with \<open>incident.\<close> goes on after it and no path is just \<open>incident\<close>; operators
  take lists of such nodes, and literal lists hold scalars.
\<close>

fun scalar :: "val \<Rightarrow> bool" where
  "scalar (PDict d) = False"
| "scalar (PList xs) = False"
| "scalar v = True"

definition plain_path :: "string \<Rightarrow> bool" where
  "plain_path p = (if prefix ''incident.'' p then p \<noteq> ''incident.'' else p \<noteq> [] \<and> hd (split_on CHR ''.'' p) \<noteq> ''incident'')"

fun incident_condition :: "val \<Rightarrow> bool" where
  "incident_condition (PDict d) =
     (case d of
        [(k, v)] \<Rightarrow>
          if k = ''var'' then (case v of PStr p \<Rightarrow> plain_path p | _ \<Rightarrow> False)
          else (case v of PList xs \<Rightarrow> list_all incident_condition xs | _ \<Rightarrow> False)
      | _ \<Rightarrow> False)"
| "incident_condition (PList xs) = list_all scalar xs"
| "incident_condition v = True"

definition under_incident :: "dict \<Rightarrow> dict" where
  \<comment> \<open>the evaluation data with the payload once more under the name the source rules use\<close>
  "under_incident d = dict_set ''incident'' (PDict d) d"

lemma strip_scalars: "list_all scalar xs \<Longrightarrow> map strip_incident_prefix xs = xs"
proof (induction xs)
  case (Cons x xs)
  then show ?case by (cases x) auto
qed simp

lemma split_on_incident: "split_on CHR ''.'' (''incident.'' @ s) = ''incident'' # split_on CHR ''.'' s"
  using split_on_append [of "CHR ''.''" "''incident''" s] by simp

lemma walk_other: "q \<noteq> [] \<Longrightarrow> hd q \<noteq> ''incident'' \<Longrightarrow> walk q (PDict (under_incident d)) = walk q (PDict d)"
  by (cases q) (auto simp: under_incident_def)

lemma strip_var:
  assumes "plain_path p"
  shows "engine_evaluate (strip_incident_prefix (PDict [(''var'', PStr p)])) (PDict d) =
    engine_evaluate (PDict [(''var'', PStr p)]) (PDict (under_incident d))"
proof (cases "prefix ''incident.'' p")
  case True
  then obtain s where p: "p = ''incident.'' @ s" by (auto simp: prefix_def)
  with assms have s: "s \<noteq> []" by (simp add: plain_path_def)
  have "strip_incident_prefix (PDict [(''var'', PStr p)]) = PDict [(''var'', PStr s)]" using p by simp
  moreover have "var_evaluate (PStr p) (PDict (under_incident d)) = Inr (walk (''incident'' # split_on CHR ''.'' s) (PDict (under_incident d)))"
    using p s split_on_incident [of s] by (subst var_evaluate_path) simp_all
  moreover have "\<dots> = Inr (walk (split_on CHR ''.'' s) (PDict d))" by (simp add: under_incident_def)
  ultimately show ?thesis using s by (simp add: engine_var var_evaluate_path)
next
  case False
  then have "p \<noteq> []" "hd (split_on CHR ''.'' p) \<noteq> ''incident''" using assms by (auto simp: plain_path_def)
  moreover have "strip_incident_prefix (PDict [(''var'', PStr p)]) = PDict [(''var'', PStr p)]" using False by simp
  ultimately show ?thesis by (simp add: engine_var var_evaluate_path walk_other)
qed

lemma all_any_map:
  "all_true ev (map f xs) = all_true (ev \<circ> f) xs" "any_true ev (map f xs) = any_true (ev \<circ> f) xs"
  by (induction xs) (simp_all cong: if_cong)

lemma index_map: "bindr (py_index (PList (map f xs)) i) ev = bindr (py_index (PList xs) i) (ev \<circ> f)"
  by (simp add: py_index_def)

lemma operands_map: "operands ev (PList (map f xs)) = operands (ev \<circ> f) (PList xs)"
  by (simp add: operands_def index_map)

lemma run_evaluator_map:
  "e \<noteq> VarEvaluator \<Longrightarrow> run_evaluator e ev (PList (map f xs)) data = run_evaluator e (ev \<circ> f) (PList xs) data'"
  by (cases e) (simp_all add: compare_evaluate_def equals_evaluate_def in_evaluate_def contains_evaluate_def
      multiply_evaluate_def holiday_evaluate_def operands_map index_map py_iter_def all_any_map)

lemma sub_node_list: "sub_node x (PList xs) \<Longrightarrow> x \<in> set xs"
  by (auto simp: sub_node_def py_index_def py_iter_def split: if_splits)

lemma strip_operator:
  assumes "k \<noteq> ''var''" and "\<And>x. x \<in> set xs \<Longrightarrow> engine_evaluate (strip_incident_prefix x) data = engine_evaluate x data'"
  shows "engine_evaluate (strip_incident_prefix (PDict [(k, PList xs)])) data = engine_evaluate (PDict [(k, PList xs)]) data'"
proof (cases "registry_get default_registry k")
  case (Inr e)
  then have "e \<noteq> VarEvaluator" using assms(1) by (auto simp: default_registry_get split: if_splits)
  then have "run_evaluator e (\<lambda>n. engine_evaluate n data) (PList (map strip_incident_prefix xs)) data =
      run_evaluator e ((\<lambda>n. engine_evaluate n data) \<circ> strip_incident_prefix) (PList xs) data'"
    by (rule run_evaluator_map)
  also have "\<dots> = run_evaluator e (\<lambda>n. engine_evaluate n data') (PList xs) data'"
    by (rule run_evaluator_cong) (auto dest: sub_node_list simp: assms(2))
  finally show ?thesis using Inr by (simp add: engine_apply)
qed (simp add: engine_apply)

lemma strip_condition:
  "incident_condition c \<Longrightarrow> engine_evaluate (strip_incident_prefix c) (PDict d) = engine_evaluate c (PDict (under_incident d))"
proof (induction c rule: incident_condition.induct)
  case (1 e)
  have "\<exists>k v. e = [(k, v)]" using 1(2) by (cases e; cases "tl e") (auto split: list.splits prod.splits)
  then obtain k v where e: "e = [(k, v)]" by blast
  show ?case
  proof (cases "k = ''var''")
    case True
    then obtain p where "v = PStr p" "plain_path p" using 1(2) e by (auto split: val.splits)
    then show ?thesis using strip_var True e by simp
  next
    case False
    then obtain xs where xs: "v = PList xs" "list_all incident_condition xs" using 1(2) e by (auto split: val.splits)
    show ?thesis unfolding e xs(1)
      by (rule strip_operator [OF False]) (use 1(1) [OF e refl refl False xs(1)] xs(2) in \<open>simp add: list_all_iff\<close>)
  qed
next
  case (2 xs)
  then show ?case by (simp add: strip_scalars engine_literal)
qed (simp_all add: engine_literal)

text \<open>
  Stripping the \<open>incident.\<close> prefix is faithful: a condition of the packs
  written with that prefix, once stripped, is judged on the flat evaluation data exactly as
  the original would be on data that has the payload under \<open>incident\<close> as well.
\<close>
theorem stripped_condition_is_faithful:
  assumes "incident_condition c"
  shows "is_satisfied_by (strip_incident_prefix c) data = is_satisfied_by c (under_incident data)"
  using strip_condition [OF assms, of data] by (simp add: is_satisfied_by_def)

lemma stripped_condition_is_faithful_witness:
  "is_satisfied_by (strip_incident_prefix
      (PDict [(''and'', PList [PDict [(''=='', PList [PDict [(''var'', PStr ''incident.tier'')], PStr ''GOLD''])]])]))
      [(''tier'', PStr ''GOLD'')] = Inr True"
proof -
  let ?c = "PDict [(''and'', PList [PDict [(''=='', PList [PDict [(''var'', PStr ''incident.tier'')], PStr ''GOLD''])]])]"
  have "incident_condition ?c" by code_simp
  moreover have "is_satisfied_by ?c (under_incident [(''tier'', PStr ''GOLD'')]) = Inr True" by code_simp
  ultimately show ?thesis using stripped_condition_is_faithful [of ?c "[(''tier'', PStr ''GOLD'')]"] by simp
qed

section \<open>Packs with a namespace of their own\<close>

definition namespaced :: "string \<Rightarrow> rule \<Rightarrow> bool" where
  "namespaced ns r \<longleftrightarrow> list_all (\<lambda>(k, v). prefix ns k) (actions r) \<and> mitigations r = []"

lemma namespaced_key: "namespaced ns r \<Longrightarrow> dict_in f (actions r) \<Longrightarrow> prefix ns f"
  by (auto simp: namespaced_def dict_in_fst list_all_iff)

lemma mapr_list_all: "mapr f xs = Inr ys \<Longrightarrow> (\<And>x y. f x = Inr y \<Longrightarrow> P y) \<Longrightarrow> list_all P ys"
  by (induction xs arbitrary: ys) (auto simp: bindr_eq_Inr)

lemma historical_rule_namespaced: "historical_rule r = Inr x \<Longrightarrow> namespaced ''his'' x"
  by (auto simp: historical_rule_def bindr_eq_Inr namespaced_def plain_rule_def)

lemma net_inf_rule_namespaced: "net_inf_rule r = Inr xs \<Longrightarrow> list_all (namespaced ''netInf'') xs"
  by (auto simp: net_inf_rule_def bindr_eq_Inr namespaced_def plain_rule_def split: if_splits)

lemma loaded_namespaced:
  "load_historical_pattern_rules raw = Inr rs \<Longrightarrow> r \<in> set rs \<Longrightarrow> namespaced ''his'' r"
  "load_net_inf_rules raw = Inr rs \<Longrightarrow> r \<in> set rs \<Longrightarrow> namespaced ''netInf'' r"
proof -
  assume "load_historical_pattern_rules raw = Inr rs" "r \<in> set rs"
  then show "namespaced ''his'' r"
    using mapr_list_all [OF _ historical_rule_namespaced]
    by (fastforce simp: load_historical_pattern_rules_def bindr_eq_Inr list_all_iff)
next
  assume "load_net_inf_rules raw = Inr rs" "r \<in> set rs"
  then show "namespaced ''netInf'' r"
    using mapr_list_all [OF _ net_inf_rule_namespaced]
    by (fastforce simp: load_net_inf_rules_def bindr_eq_Inr list_all_iff)
qed

text \<open>A rule that writes none of the given fields does not take part in resolving them.\<close>

lemma resolve_without:
  assumes ok: "rules_ok matched" and m: "resolve matched = Inr (acts, mits, supp)"
    and c: "resolve (filter P matched) = Inr (acts', mits', supp')"
    and silent: "\<And>r g. r \<in> set matched \<Longrightarrow> \<not> P r \<Longrightarrow>
      g \<in> {f, ''priority'', ''priorityFloor'', ''priorityBumpOneLevel''} \<Longrightarrow> \<not> dict_in g (actions r)"
  shows "map_of acts f = map_of acts' f"
proof -
  obtain a s where rf: "resolve_fields (field_writers matched) ([], []) = Inr (a, s)"
    and post: "apply_priority_postprocessing a matched = Inr acts" using m by (auto simp: resolve_def bindr_eq_Inr)
  obtain a' s' where rf': "resolve_fields (field_writers (filter P matched)) ([], []) = Inr (a', s')"
    and post': "apply_priority_postprocessing a' (filter P matched) = Inr acts'" using c by (auto simp: resolve_def bindr_eq_Inr)
  have ok': "rules_ok (filter P matched)" using ok by (simp add: rules_ok_def list_all_iff)
  have writers: "filter (writes g) (filter P matched) = filter (writes g) matched" if "g = f \<or> g = ''priority''" for g
    unfolding filter_filter using silent that by (intro filter_cong) (auto simp: writes_def)
  have base: "map_of a g = map_of a' g" if "g = f \<or> g = ''priority''" for g
    using resolve_fields_get [OF rf dict_ok_field_writers, of g] resolve_fields_get [OF rf' dict_ok_field_writers, of g]
      writers [OF that]
    by (simp add: field_writers_map_of [OF ok] field_writers_map_of [OF ok'])
  have floors: "priority_floors (filter P matched) = priority_floors matched"
    unfolding priority_floors_def filter_filter
    by (intro arg_cong [where f = "map _"] filter_cong) (use silent in auto)
  have bumps: "bump_count (filter P matched) = bump_count matched"
    unfolding bump_count_def filter_filter
  proof (intro arg_cong [where f = length] filter_cong refl)
    fix r assume "r \<in> set matched"
    then have "P r \<or> map_of (actions r) ''priorityBumpOneLevel'' = None"
      using silent [of r "''priorityBumpOneLevel''"] by (cases "P r") (simp_all add: dict_in_def)
    then show "(P r \<and> py_bool (get_none (actions r) ''priorityBumpOneLevel'')) =
        py_bool (get_none (actions r) ''priorityBumpOneLevel'')"
      by (auto simp: get_none_def dict_get_def)
  qed
  show ?thesis
  proof (cases "f = ''priority''")
    case True
    have "get_none a ''priority'' = get_none a' ''priority''" using base by (simp add: get_none_def dict_get_def)
    then show ?thesis
      using post post' base True
      by (auto simp: apply_priority_postprocessing_def floors bumps Let_def bindr_eq_Inr split: if_splits)
  next
    case False
    then show ?thesis using post_other_fields [OF post] post_other_fields [OF post'] base by simp
  qed
qed

lemma merge_mitigations_without:
  assumes "\<And>r. r \<in> set matched \<Longrightarrow> \<not> P r \<Longrightarrow> mitigations r = []"
  shows "merge_mitigations (filter P matched) = merge_mitigations matched"
proof -
  have "foldl (\<lambda>m r. foldl merge_mitigation m (mitigations r)) m (filter P matched) =
      foldl (\<lambda>m r. foldl merge_mitigation m (mitigations r)) m matched" for m
    using assms by (induction matched arbitrary: m) auto
  then show ?thesis by (simp add: merge_mitigations_def)
qed

text \<open>
  The historical and the network infrastructure packs keep to their namespaces:
  whatever rules of them match, every field outside \<open>his...\<close> and \<open>netInf...\<close>, the
  priority included, and all mitigations are resolved as if the rules of the two packs had
  not matched.
\<close>
theorem namespaced_packs_do_not_interfere:
  assumes "load_historical_pattern_rules hraw = Inr his" and "load_net_inf_rules nraw = Inr ninf"
    and "rules_ok matched" and "resolve matched = Inr (acts, mits, supp)"
    and "resolve (filter (\<lambda>r. r \<notin> set his \<and> r \<notin> set ninf) matched) = Inr (acts', mits', supp')"
    and "\<not> prefix ''his'' f" and "\<not> prefix ''netInf'' f"
  shows "map_of acts f = map_of acts' f \<and> mits = mits'"
proof
  have ns: "namespaced ''his'' r \<or> namespaced ''netInf'' r" if "\<not> (r \<notin> set his \<and> r \<notin> set ninf)" for r
    using loaded_namespaced that assms(1,2) by blast
  show "map_of acts f = map_of acts' f"
  proof (rule resolve_without [OF assms(3-5)])
    fix r g assume "\<not> (r \<notin> set his \<and> r \<notin> set ninf)" "g \<in> {f, ''priority'', ''priorityFloor'', ''priorityBumpOneLevel''}"
    moreover have "\<not> prefix ''his'' g" "\<not> prefix ''netInf'' g" using calculation(2) assms(6,7) by auto
    ultimately show "\<not> dict_in g (actions r)" using ns namespaced_key by blast
  qed
  have "merge_mitigations (filter (\<lambda>r. r \<notin> set his \<and> r \<notin> set ninf) matched) = merge_mitigations matched"
    by (rule merge_mitigations_without) (use ns in \<open>auto simp: namespaced_def\<close>)
  then show "mits = mits'" using assms(4,5) by (auto simp: resolve_def bindr_eq_Inr)
qed

text \<open>The example: a historical rule and a base rule match together.\<close>

definition w_historical :: dict where
  "w_historical = [(''rules'', PList [PDict
     [(''id'', PStr ''HIS001''), (''name'', PStr ''n''), (''explain'', PStr ''e''), (''priority'', PInt 900),
      (''conditions'', PDict [(''=='', PList [PDict [(''var'', PStr ''incident.x'')], PInt 1])]),
      (''actions'', PDict [(''decision'', PStr ''watch''), (''priority'', PStr ''P2''), (''confidence'', PInt 1),
        (''assignmentGroup'', PStr ''g''), (''escalationLevel'', PInt 1), (''reasonCodes'', PList []), (''slaBreachRisk'', PBool False)])]])]"

lemma namespaced_packs_do_not_interfere_witness:
  "\<exists>his acts mits supp. load_historical_pattern_rules w_historical = Inr his \<and> length his = 1 \<and>
     resolve (w_rule ''R1'' 5 [(''priority'', PStr ''High'')] # his) = Inr (acts, mits, supp) \<and>
     map_of acts ''priority'' = Some (PStr ''High'')"
proof -
  let ?his = "projr (load_historical_pattern_rules w_historical)" and ?r = "w_rule ''R1'' 5 [(''priority'', PStr ''High'')]"
  have l: "load_historical_pattern_rules w_historical = Inr ?his" and len: "length ?his = 1" by code_simp+
  have nl: "load_net_inf_rules [(''rules'', PList [])] = Inr []" by code_simp
  have ok: "rules_ok (?r # ?his)" by code_simp
  have "is_ok (resolve (?r # ?his))" by code_simp
  then obtain acts mits supp where m: "resolve (?r # ?his) = Inr (acts, mits, supp)" by (auto simp: is_ok_iff)
  have f: "filter (\<lambda>r. r \<notin> set ?his \<and> r \<notin> set []) (?r # ?his) = [?r]" by code_simp
  have core: "resolve [?r] = Inr ([(''priority'', PStr ''High'')], [], [])" by code_simp
  have "map_of acts ''priority'' = map_of [(''priority'', PStr ''High'')] ''priority''"
    using namespaced_packs_do_not_interfere [OF l nl ok m, unfolded f, OF core, of "''priority''"] by simp
  then show ?thesis using l len m by auto
qed

end
