(* ===== verification/Evaluation.thy ===== *)
theory Evaluation
  imports Stores Validation Rule_Json
begin

text \<open>
  The use cases around the pipeline: evaluating one incident
  (\<open>evaluate_incident.py\<close>), the incident resource (\<open>manage_incidents.py\<close>), bulk
  evaluation (\<open>bulk_evaluate.py\<close>) and the distribution of decisions
  (\<open>decision_distribution.py\<close>). The active rule pack comes from a \<open>RuleRepository\<close>,
  here the function from region and tenant to the pack or the exception. An exception of an
  operation that has changed state is returned beside the state. Request documents whose
  \<open>incidentId\<close>, \<open>region\<close> or \<open>tenantId\<close> is not text, or whose \<open>context\<close> is
  not an object, count as a \<open>TypeError\<close> of that document.
\<close>

section \<open>One incident\<close>

type_synonym pack_source = "string option \<Rightarrow> string option \<Rightarrow> rule_pack res"

record evaluator_setup =
  ev_source :: pack_source
  ev_matrix :: "sla_matrix option"
  ev_providers :: "provider list option"

definition with_context :: "provider list option \<Rightarrow> incident \<Rightarrow> incident" where
  "with_context providers inc =
     (case providers of
        None \<Rightarrow> inc
      | Some ps \<Rightarrow>
          let a = aggregate ps inc in
          inc\<lparr>enriched_context := dict_update (merged a) (enriched_context inc),
              context_sources_total := total_sources a,
              context_sources_degraded := int (length (degraded_sources a)),
              degraded_context := (degraded_context inc \<or> is_degraded a)\<rparr>)"

definition evaluate_incident ::
  "evaluator_setup \<Rightarrow> instant \<Rightarrow> incident \<Rightarrow> string option \<Rightarrow> string option \<Rightarrow> decision_store option
    \<Rightarrow> decision res \<times> incident \<times> decision_store option" where
  \<comment> \<open>the decision or the exception, the incident as it was left, the decisions\<close>
  "evaluate_incident ev now inc reg ten ds =
     (let inc = with_context (ev_providers ev) inc in
      case bindr (ev_source ev reg ten) (run (ev_matrix ev) now inc) of
        Inl e \<Rightarrow> (Inl e, inc, ds)
      | Inr d \<Rightarrow> (Inr d, inc, map_option (decision_save d) ds))"

section \<open>The incident resource\<close>

definition create_incident ::
  "evaluator_setup \<Rightarrow> instant \<Rightarrow> string \<Rightarrow> dict \<Rightarrow> string option \<Rightarrow> string option \<Rightarrow> dict option \<Rightarrow> bool
    \<Rightarrow> incident_store \<Rightarrow> decision_store option
    \<Rightarrow> (incident \<times> decision option) res \<times> incident_store \<times> decision_store option" where
  "create_incident ev now i p reg ten ctx do_evaluate is ds =
     (let inc = (new_incident i p (case ctx of None \<Rightarrow> [] | Some c \<Rightarrow> c) False)
            \<lparr>inc_region := reg, inc_tenant := ten, inc_status := ''received'', inc_created_at := Some now\<rparr>;
          is = incident_save now inc is
      in if do_evaluate
         then (case evaluate_incident ev now inc reg ten ds of
                 (Inr d, inc, ds) \<Rightarrow>
                   let inc = inc\<lparr>inc_status := ''evaluated''\<rparr> in (Inr (inc, Some d), incident_save now inc is, ds)
               | (Inl e, inc, ds) \<Rightarrow>
                   let inc = inc\<lparr>inc_status := ''failed''\<rparr> in (Inl e, incident_save now inc is, ds))
         else (Inr (inc, None), is, ds))"

definition get_incident :: "incident_store \<Rightarrow> string \<Rightarrow> incident res" where
  "get_incident is i =
     (case incident_get is i of None \<Rightarrow> Inl (ValueError (''No such incident: '' @ i)) | Some inc \<Rightarrow> Inr inc)"

definition list_incidents :: "incident_store \<Rightarrow> string option \<Rightarrow> nat \<Rightarrow> nat \<Rightarrow> incident list" where
  "list_incidents is stat limit offset = incident_list_all is stat limit offset"

definition without_keys :: "string list \<Rightarrow> dict \<Rightarrow> dict" where
  "without_keys ks d = filter (\<lambda>(k, v). k \<notin> set ks) d"

text \<open>What the loop of the bulk creation reads of one item.\<close>

definition bulk_item :: "dict \<Rightarrow> (string \<times> dict \<times> string option \<times> string option \<times> dict option) res" where
  "bulk_item d =
     bindr (bindr (get_item d ''incidentId'') as_str) (\<lambda>i.
     bindr (as_opt as_str (get_none d ''region'')) (\<lambda>reg.
     bindr (as_opt as_str (get_none d ''tenantId'')) (\<lambda>ten.
     bindr (as_opt as_dict (get_none d ''context'')) (\<lambda>ctx.
       Inr (i, without_keys [''incidentId'', ''region'', ''tenantId'', ''context'', ''evaluate''] d, reg, ten, ctx)))))"

fun bulk_create_incidents ::
  "evaluator_setup \<Rightarrow> instant list \<Rightarrow> bool \<Rightarrow> dict list \<Rightarrow> incident_store \<Rightarrow> decision_store option
    \<Rightarrow> (incident \<times> decision option) list res \<times> incident_store \<times> decision_store option" where
  \<comment> \<open>one instant per item; the incidents created before a failing one stay\<close>
  "bulk_create_incidents ev nows do_evaluate [] is ds = (Inr [], is, ds)"
| "bulk_create_incidents ev nows do_evaluate (d # items) is ds =
     (case bulk_item d of
        Inl e \<Rightarrow> (Inl e, is, ds)
      | Inr (i, p, reg, ten, ctx) \<Rightarrow>
          (case create_incident ev (hd nows) i p reg ten ctx do_evaluate is ds of
             (Inl e, is, ds) \<Rightarrow> (Inl e, is, ds)
           | (Inr x, is, ds) \<Rightarrow>
               (case bulk_create_incidents ev (tl nows) do_evaluate items is ds of
                  (m, is, ds) \<Rightarrow> (bindr m (\<lambda>xs. Inr (x # xs)), is, ds))))"

section \<open>Bulk evaluation\<close>

record bulk_entry =
  be_incident_id :: val
  be_success :: bool
  be_priority :: val
  be_risk_band :: "string option"
  be_error :: "exn option"

record bulk_result =
  br_total :: int
  br_succeeded :: int
  br_failed :: int
  br_execution_time_ms :: fl
  br_average_time_ms :: fl
  br_priority_distribution :: "(val \<times> int) list"
  br_risk_band_distribution :: "(string \<times> int) list"
  br_results :: "bulk_entry list"

text \<open>A counter whose keys are compared with Python's equality; an unhashable key raises.\<close>

fun val_bump :: "val \<Rightarrow> (val \<times> int) list \<Rightarrow> (val \<times> int) list" where
  "val_bump k [] = [(k, 1)]"
| "val_bump k ((l, n) # d) = (if py_eq k l then (l, n + 1) # d else (l, n) # val_bump k d)"

definition count_priority :: "val \<Rightarrow> (val \<times> int) list \<Rightarrow> (val \<times> int) list res" where
  "count_priority v d =
     (let k = (if py_bool v then v else PStr ''Unknown'') in if hashable k then Inr (val_bump k d) else Inl TypeError)"

text \<open>\<open>item.get(k) or dflt\<close> for a text field.\<close>

definition text_or :: "dict \<Rightarrow> string \<Rightarrow> string option \<Rightarrow> string option res" where
  "text_or d k dflt = (let v = get_none d k in if py_bool v then bindr (as_str v) (\<lambda>s. Inr (Some s)) else Inr dflt)"

definition bulk_incident :: "dict \<Rightarrow> string option \<Rightarrow> string option \<Rightarrow> incident res" where
  "bulk_incident d reg ten =
     (if \<not> py_bool (get_none d ''incidentId'')
      then Inl (ValueError ''incidentId is required for every item in a bulk evaluation'')
      else bindr (as_str (get_none d ''incidentId'')) (\<lambda>i.
        let c = get_none d ''context'' in
        bindr (if py_bool c then as_dict c else Inr []) (\<lambda>ctx.
          Inr ((new_incident i
                 (without_keys [''incidentId'', ''region'', ''tenantId'', ''context'', ''degradedContext''] d) ctx
                 (py_bool (dict_get d ''degradedContext'' (PBool False))))
               \<lparr>inc_region := reg, inc_tenant := ten\<rparr>))))"

record bulk_state =
  bs_succeeded :: int
  bs_failed :: int
  bs_priorities :: "(val \<times> int) list"
  bs_bands :: "(string \<times> int) list"
  bs_results :: "bulk_entry list"
  bs_decisions :: "decision_store option"

definition bulk_failed :: "val \<Rightarrow> exn \<Rightarrow> bulk_state \<Rightarrow> bulk_state" where
  "bulk_failed i e st =
     st\<lparr>bs_failed := bs_failed st + 1,
        bs_results := bs_results st @
          [\<lparr>be_incident_id = i, be_success = False, be_priority = PNone, be_risk_band = None, be_error = Some e\<rparr>]\<rparr>"

text \<open>The statements after the evaluation: \<open>succeeded\<close> is counted before the priority is.\<close>

definition bulk_succeeded :: "val \<Rightarrow> decision \<Rightarrow> bulk_state \<Rightarrow> bulk_state" where
  "bulk_succeeded i d st =
     (let st = st\<lparr>bs_succeeded := bs_succeeded st + 1\<rparr> in
      case count_priority (d_priority d) (bs_priorities st) of
        Inl e \<Rightarrow> bulk_failed i e st
      | Inr ps \<Rightarrow>
          st\<lparr>bs_priorities := ps, bs_bands := dict_bump (d_risk_band d) (bs_bands st),
             bs_results := bs_results st @
               [\<lparr>be_incident_id = i, be_success = True, be_priority = d_priority d,
                 be_risk_band = Some (d_risk_band d), be_error = None\<rparr>]\<rparr>)"

definition bulk_read :: "string option \<Rightarrow> string option \<Rightarrow> dict \<Rightarrow> (incident \<times> string option \<times> string option) res" where
  "bulk_read reg ten item =
     bindr (text_or item ''region'' reg) (\<lambda>r.
     bindr (text_or item ''tenantId'' ten) (\<lambda>t.
     bindr (bulk_incident item r t) (\<lambda>inc. Inr (inc, r, t))))"

definition bulk_step :: "evaluator_setup \<Rightarrow> string option \<Rightarrow> string option \<Rightarrow> bulk_state \<Rightarrow> instant \<times> dict \<Rightarrow> bulk_state" where
  "bulk_step ev reg ten st x =
     (case x of (now, item) \<Rightarrow>
        let i = get_none item ''incidentId'' in
        case bulk_read reg ten item of
          Inl e \<Rightarrow> bulk_failed i e st
        | Inr (inc, r, t) \<Rightarrow>
            (case evaluate_incident ev now inc r t (bs_decisions st) of
               (Inl e, _, ds) \<Rightarrow> bulk_failed i e (st\<lparr>bs_decisions := ds\<rparr>)
             | (Inr d, _, ds) \<Rightarrow> bulk_succeeded i d (st\<lparr>bs_decisions := ds\<rparr>)))"

definition bulk_evaluate ::
  "evaluator_setup \<Rightarrow> int \<Rightarrow> string option \<Rightarrow> string option \<Rightarrow> fl \<Rightarrow> (instant \<times> dict) list \<Rightarrow> decision_store option
    \<Rightarrow> (bulk_result \<times> decision_store option) res" where
  \<comment> \<open>the store is \<open>None\<close> for the dry-run use case; the double is the elapsed time in seconds\<close>
  "bulk_evaluate ev max_items reg ten elapsed items ds =
     (if max_items < int (length items)
      then Inl (ValueError (''Bulk evaluate accepts at most '' @ str_of_int max_items @
        '' incidents per request (got '' @ str_of_int (int (length items)) @ '')''))
      else let st = foldl (bulk_step ev reg ten)
                 \<lparr>bs_succeeded = 0, bs_failed = 0, bs_priorities = [], bs_bands = [], bs_results = [], bs_decisions = ds\<rparr> items;
               ms = fl_mul elapsed (Fin 1000)
           in Inr (\<lparr>br_total = int (length items), br_succeeded = bs_succeeded st, br_failed = bs_failed st,
                   br_execution_time_ms = ms,
                   br_average_time_ms = (if items = [] then Fin 0 else fl_div ms (of_nat (length items))),
                   br_priority_distribution = bs_priorities st, br_risk_band_distribution = bs_bands st,
                   br_results = bs_results st\<rparr>, bs_decisions st))"

section \<open>Distribution\<close>

record distribution_result =
  dr_total_decisions :: int
  dr_priority_distribution :: "(val \<times> int) list"
  dr_risk_band_distribution :: "(string \<times> int) list"
  dr_average_risk_score :: fl
  dr_average_confidence_score :: fl
  dr_degraded_context_count :: int

record distribution_state =
  dst_priorities :: "(val \<times> int) list"
  dst_bands :: "(string \<times> int) list"
  dst_degraded :: int
  dst_risk :: int
  dst_confidence :: fl

definition distribution_step :: "decision \<Rightarrow> distribution_state \<Rightarrow> distribution_state res" where
  "distribution_step d st =
     bindr (count_priority (d_priority d) (dst_priorities st)) (\<lambda>ps.
       Inr \<lparr>dst_priorities = ps, dst_bands = dict_bump (d_risk_band d) (dst_bands st),
            dst_degraded = dst_degraded st + (if d_degraded_context d then 1 else 0),
            dst_risk = dst_risk st + d_risk_score d,
            dst_confidence = fl_add (dst_confidence st) (d_confidence_score d)\<rparr>)"

definition decision_distribution :: "decision_store \<Rightarrow> nat \<Rightarrow> distribution_result res" where
  "decision_distribution ds limit =
     (let xs = decision_list_all ds limit 0 in
      if xs = []
      then Inr \<lparr>dr_total_decisions = 0, dr_priority_distribution = [], dr_risk_band_distribution = [],
                dr_average_risk_score = Fin 0, dr_average_confidence_score = Fin 0, dr_degraded_context_count = 0\<rparr>
      else bindr (foldr_res distribution_step xs
                   \<lparr>dst_priorities = [], dst_bands = [], dst_degraded = 0, dst_risk = 0, dst_confidence = Fin 0\<rparr>) (\<lambda>st.
             Inr \<lparr>dr_total_decisions = int (length xs), dr_priority_distribution = dst_priorities st,
                  dr_risk_band_distribution = dst_bands st,
                  dr_average_risk_score = rnd (of_int (dst_risk st) / of_nat (length xs)),
                  dr_average_confidence_score = fl_div (dst_confidence st) (of_nat (length xs)),
                  dr_degraded_context_count = dst_degraded st\<rparr>))"

section \<open>One evaluation\<close>

lemma evaluate_incident_parts:
  "fst (evaluate_incident ev now inc reg ten ds) =
     bindr (ev_source ev reg ten) (run (ev_matrix ev) now (with_context (ev_providers ev) inc))"
  "fst (snd (evaluate_incident ev now inc reg ten ds)) = with_context (ev_providers ev) inc"
  "snd (snd (evaluate_incident ev now inc reg ten ds)) =
     (case fst (evaluate_incident ev now inc reg ten ds) of Inl _ \<Rightarrow> ds | Inr d \<Rightarrow> map_option (decision_save d) ds)"
  by (simp_all add: evaluate_incident_def Let_def split: sum.splits)

lemma with_context_fields [simp]:
  "incident_id (with_context ps inc) = incident_id inc" "payload (with_context ps inc) = payload inc"
  "inc_status (with_context ps inc) = inc_status inc" "inc_created_at (with_context ps inc) = inc_created_at inc"
  "inc_region (with_context ps inc) = inc_region inc" "inc_tenant (with_context ps inc) = inc_tenant inc"
  by (simp_all add: with_context_def Let_def split: option.splits)

lemma explicit_context_wins:
  "dict_ok (enriched_context inc) \<Longrightarrow> map_of (enriched_context inc) k = Some v \<Longrightarrow>
   map_of (enriched_context (with_context ps inc)) k = Some v"
  by (simp add: with_context_def Let_def map_of_dict_update split: option.splits)

lemma run_incident_id: "run matrix now inc p = Inr d \<Longrightarrow> d_incident_id d = incident_id inc"
  by (auto simp: run_def bindr_eq_Inr Let_def split_beta)

lemma incident_get_save:
  "incident_get (incident_save now inc is) i = (if incident_id inc = i then Some (stamp_created now inc) else incident_get is i)"
  by (rule incidents.get_save)

lemma decision_list_save:
  "decision_list_by_incident (decision_save d ds) i =
     decision_list_by_incident ds i @ (if d_incident_id d = i then [d] else [])"
  by (rule decisions.list_save)

text \<open>
  Property C25: submitting an incident for evaluation leaves a record that tells what happened:
  on success the stored incident is \<open>evaluated\<close> and its decision is appended to its
  history, on an exception the stored incident is \<open>failed\<close> and no decision is recorded;
  it is never left \<open>received\<close>. The stored context holds every field the caller gave, with
  the caller's value, and no other incident and no other history changes.
\<close>
theorem incident_record_matches_outcome:
  assumes c: "create_incident ev now i p reg ten ctx True is (Some ds) = (m, is', ds')"
    and ok: "dict_ok (case ctx of None \<Rightarrow> [] | Some c \<Rightarrow> c)"
  shows "(\<exists>inc. incident_get is' i = Some inc \<and> payload inc = p \<and> inc_region inc = reg \<and> inc_tenant inc = ten \<and>
      inc_status inc = (if is_ok m then ''evaluated'' else ''failed'') \<and>
      (\<forall>k v. map_of (case ctx of None \<Rightarrow> [] | Some c \<Rightarrow> c) k = Some v \<longrightarrow> map_of (enriched_context inc) k = Some v) \<and>
      (case m of
         Inl e \<Rightarrow> ds' = Some ds
       | Inr (inc', dec) \<Rightarrow> inc' = inc \<and> (\<exists>d st. dec = Some d \<and> ds' = Some st \<and>
           decision_list_by_incident st i = decision_list_by_incident ds i @ [d] \<and> decision_get st i = Some d \<and>
           (\<forall>j. j \<noteq> i \<longrightarrow> decision_list_by_incident st j = decision_list_by_incident ds j)))) \<and>
    (\<forall>j. j \<noteq> i \<longrightarrow> incident_get is' j = incident_get is j)"
proof -
  let ?inc = "(new_incident i p (case ctx of None \<Rightarrow> [] | Some c \<Rightarrow> c) False)
    \<lparr>inc_region := reg, inc_tenant := ten, inc_status := ''received'', inc_created_at := Some now\<rparr>"
  obtain r inc ds1 where e: "evaluate_incident ev now ?inc reg ten (Some ds) = (r, inc, ds1)" by (metis prod_cases3)
  note parts = evaluate_incident_parts [where ev = ev and now = now and inc = ?inc and reg = reg and ten = ten and ds = "Some ds", unfolded e fst_conv snd_conv]
  have inc: "incident_id inc = i" "payload inc = p" "inc_region inc = reg" "inc_tenant inc = ten" "inc_created_at inc = Some now"
    by (simp_all add: parts(2) new_incident_def)
  have ctx: "map_of (enriched_context inc) k = Some v" if "map_of (case ctx of None \<Rightarrow> [] | Some c \<Rightarrow> c) k = Some v" for k v
    using explicit_context_wins [of ?inc k v "ev_providers ev"] that ok by (simp add: parts(2) new_incident_def)
  show ?thesis
  proof (cases r)
    case (Inl x)
    then have "m = Inl x" "is' = incident_save now (inc\<lparr>inc_status := ''failed''\<rparr>) (incident_save now ?inc is)" "ds' = ds1"
      using c by (simp_all add: create_incident_def e Let_def)
    then show ?thesis using inc ctx parts(3) Inl
      by (auto simp: incident_get_save stamp_created_def new_incident_def)
  next
    case (Inr d)
    then have m: "m = Inr (inc\<lparr>inc_status := ''evaluated''\<rparr>, Some d)" "ds' = ds1"
      "is' = incident_save now (inc\<lparr>inc_status := ''evaluated''\<rparr>) (incident_save now ?inc is)"
      using c by (simp_all add: create_incident_def e Let_def)
    have "d_incident_id d = i"
      using parts(1) [symmetric] Inr by (auto simp: bindr_eq_Inr new_incident_def dest!: run_incident_id)
    then have "decision_list_by_incident (decision_save d ds) j =
        decision_list_by_incident ds j @ (if j = i then [d] else [])" for j
      by (simp add: decision_list_save)
    moreover have "decision_get (decision_save d ds) i = Some d"
      using calculation [of i] by (simp add: decision_get_list)
    moreover have "ds1 = Some (decision_save d ds)" using parts(3) Inr by simp
    ultimately show ?thesis using m inc ctx
      by (auto simp: incident_get_save stamp_created_def new_incident_def)
  qed
qed

text \<open>The example: an empty pack, a caller-supplied context value and no providers.\<close>

definition w_setup :: evaluator_setup where
  "w_setup = \<lparr>ev_source = \<lambda>_ _. Inr (new_pack ''p'' 1 ACTIVE None []), ev_matrix = None, ev_providers = Some []\<rparr>"

lemma incident_record_matches_outcome_witness:
  "\<exists>m is' ds' inc. create_incident w_setup 7 ''I1'' [(''load'', PInt 9)] None None (Some [(''k'', PInt 1)]) True [] (Some []) =
     (m, is', ds') \<and> incident_get is' ''I1'' = Some inc \<and> inc_status inc = ''evaluated'' \<and>
     map_of (enriched_context inc) ''k'' = Some (PInt 1)"
proof -
  let ?c = "create_incident w_setup 7 ''I1'' [(''load'', PInt 9)] None None (Some [(''k'', PInt 1)]) True [] (Some [])"
  obtain m is' ds' where c: "?c = (m, is', ds')" by (metis prod_cases3)
  have "is_ok (fst ?c)" by code_simp
  then have "is_ok m" by (simp add: c)
  with incident_record_matches_outcome [OF c] c show ?thesis by (fastforce simp: dict_ok_def)
qed

section \<open>Bulk evaluation, item by item\<close>

text \<open>
  The reference: what each item evaluates to on its own, with nothing shared between items,
  and the entry reported for it.
\<close>

definition bulk_outcome :: "evaluator_setup \<Rightarrow> string option \<Rightarrow> string option \<Rightarrow> instant \<times> dict \<Rightarrow> decision res" where
  "bulk_outcome ev reg ten x =
     bindr (bulk_read reg ten (snd x)) (\<lambda>(inc, r, t). fst (evaluate_incident ev (fst x) inc r t None))"

definition countable_priority :: "decision \<Rightarrow> bool" where
  "countable_priority d = (py_bool (d_priority d) \<longrightarrow> hashable (d_priority d))"

definition bulk_report :: "evaluator_setup \<Rightarrow> string option \<Rightarrow> string option \<Rightarrow> instant \<times> dict \<Rightarrow> bulk_entry" where
  "bulk_report ev reg ten x =
     (case bulk_outcome ev reg ten x of
        Inl e \<Rightarrow> \<lparr>be_incident_id = get_none (snd x) ''incidentId'', be_success = False, be_priority = PNone,
                  be_risk_band = None, be_error = Some e\<rparr>
      | Inr d \<Rightarrow>
          if countable_priority d
          then \<lparr>be_incident_id = get_none (snd x) ''incidentId'', be_success = True, be_priority = d_priority d,
                be_risk_band = Some (d_risk_band d), be_error = None\<rparr>
          else \<lparr>be_incident_id = get_none (snd x) ''incidentId'', be_success = False, be_priority = PNone,
                be_risk_band = None, be_error = Some TypeError\<rparr>)"

definition bulk_decisions :: "evaluator_setup \<Rightarrow> string option \<Rightarrow> string option \<Rightarrow> (instant \<times> dict) list \<Rightarrow> decision list" where
  "bulk_decisions ev reg ten xs =
     concat (map (\<lambda>x. case bulk_outcome ev reg ten x of Inl _ \<Rightarrow> [] | Inr d \<Rightarrow> [d]) xs)"

lemma evaluate_any_store:
  "evaluate_incident ev now inc reg ten ds =
     (let m = fst (evaluate_incident ev now inc reg ten None)
      in (m, with_context (ev_providers ev) inc, (case m of Inl _ \<Rightarrow> ds | Inr d \<Rightarrow> map_option (decision_save d) ds)))"
  by (simp add: evaluate_incident_def Let_def split: sum.splits)

lemma bulk_step_eq:
  "bulk_step ev reg ten st x =
     (case bulk_outcome ev reg ten x of
        Inl e \<Rightarrow> bulk_failed (get_none (snd x) ''incidentId'') e st
      | Inr d \<Rightarrow> bulk_succeeded (get_none (snd x) ''incidentId'') d (st\<lparr>bs_decisions := map_option (decision_save d) (bs_decisions st)\<rparr>))"
proof -
  obtain now item where x: "x = (now, item)" by fastforce
  show ?thesis
  proof (cases "bulk_read reg ten item")
    case (Inr q)
    obtain inc r t where "q = (inc, r, t)" by (cases q)
    then show ?thesis
      using Inr evaluate_any_store [of ev now inc r t "bs_decisions st"]
      by (cases "fst (evaluate_incident ev now inc r t None)") (simp_all add: x bulk_step_def bulk_outcome_def Let_def)
  qed (simp add: x bulk_step_def bulk_outcome_def Let_def)
qed

lemma sum_val_bump [simp]: "sum_list (map snd (val_bump k d)) = sum_list (map snd d) + 1"
  by (induction k d rule: val_bump.induct) auto

lemma count_priority_eq:
  "count_priority (d_priority d) ps =
     (if countable_priority d then Inr (val_bump (if py_bool (d_priority d) then d_priority d else PStr ''Unknown'') ps)
      else Inl TypeError)"
  by (simp add: count_priority_def countable_priority_def Let_def hashable_def)

lemma bulk_step_fields:
  "bs_results (bulk_step ev reg ten st x) = bs_results st @ [bulk_report ev reg ten x]"
  "bs_succeeded (bulk_step ev reg ten st x) = bs_succeeded st + (if is_ok (bulk_outcome ev reg ten x) then 1 else 0)"
  "bs_failed (bulk_step ev reg ten st x) = bs_failed st + (if be_success (bulk_report ev reg ten x) then 0 else 1)"
  "sum_list (map snd (bs_priorities (bulk_step ev reg ten st x))) =
     sum_list (map snd (bs_priorities st)) + (if be_success (bulk_report ev reg ten x) then 1 else 0)"
  "sum_list (map snd (bs_bands (bulk_step ev reg ten st x))) =
     sum_list (map snd (bs_bands st)) + (if be_success (bulk_report ev reg ten x) then 1 else 0)"
  "bs_decisions (bulk_step ev reg ten st x) =
     map_option (\<lambda>ds. foldl (\<lambda>s d. decision_save d s) ds (bulk_decisions ev reg ten [x])) (bs_decisions st)"
  by (cases "bulk_outcome ev reg ten x";
      simp add: bulk_step_eq bulk_report_def bulk_failed_def bulk_succeeded_def count_priority_eq Let_def
        bulk_decisions_def option.map_ident)+

lemma bulk_loop:
  fixes ev reg ten xs st
  defines "st' \<equiv> foldl (bulk_step ev reg ten) st xs"
  shows "bs_results st' = bs_results st @ map (bulk_report ev reg ten) xs \<and>
    bs_succeeded st' = bs_succeeded st + int (length (filter (\<lambda>x. is_ok (bulk_outcome ev reg ten x)) xs)) \<and>
    bs_failed st' = bs_failed st + int (length (filter (\<lambda>x. \<not> be_success (bulk_report ev reg ten x)) xs)) \<and>
    sum_list (map snd (bs_priorities st')) =
      sum_list (map snd (bs_priorities st)) + int (length (filter (\<lambda>x. be_success (bulk_report ev reg ten x)) xs)) \<and>
    sum_list (map snd (bs_bands st')) =
      sum_list (map snd (bs_bands st)) + int (length (filter (\<lambda>x. be_success (bulk_report ev reg ten x)) xs)) \<and>
    bs_decisions st' = map_option (\<lambda>ds. foldl (\<lambda>s d. decision_save d s) ds (bulk_decisions ev reg ten xs)) (bs_decisions st)"
  unfolding st'_def
proof (induction xs arbitrary: st)
  case (Cons x xs)
  have "bulk_decisions ev reg ten (x # xs) = bulk_decisions ev reg ten [x] @ bulk_decisions ev reg ten xs"
    by (simp add: bulk_decisions_def)
  then show ?case
    using Cons [of "bulk_step ev reg ten st x"] by (simp add: bulk_step_fields option.map_comp comp_def)
qed (simp add: bulk_decisions_def option.map_ident)

text \<open>
  Property C29: a bulk evaluation is the evaluation of each item on its own: the entry of an
  item depends on that item alone, so one bad item never affects another; every decision
  taken is recorded, in the order of the items; the failures counted are the entries without
  success and both distributions count exactly the successes. The batch limit is the only
  way the whole request fails.
\<close>
theorem bulk_is_item_by_item:
  "bulk_evaluate ev max_items reg ten elapsed items ds =
     (if max_items < int (length items)
      then Inl (ValueError (''Bulk evaluate accepts at most '' @ str_of_int max_items @
        '' incidents per request (got '' @ str_of_int (int (length items)) @ '')''))
      else Inr (projr (bulk_evaluate ev max_items reg ten elapsed items ds))) \<and>
   (int (length items) \<le> max_items \<longrightarrow>
     (case projr (bulk_evaluate ev max_items reg ten elapsed items ds) of (r, ds') \<Rightarrow>
        br_results r = map (bulk_report ev reg ten) items \<and>
        br_total r = int (length (br_results r)) \<and>
        br_failed r = int (length (filter (\<lambda>x. \<not> be_success x) (br_results r))) \<and>
        br_succeeded r = int (length (filter (\<lambda>x. is_ok (bulk_outcome ev reg ten x)) items)) \<and>
        sum_list (map snd (br_priority_distribution r)) = br_total r - br_failed r \<and>
        sum_list (map snd (br_risk_band_distribution r)) = br_total r - br_failed r \<and>
        ds' = map_option (\<lambda>s. foldl (\<lambda>s d. decision_save d s) s (bulk_decisions ev reg ten items)) ds))"
proof -
  let ?ok = "\<lambda>x. be_success (bulk_report ev reg ten x)"
  have "length (filter ?ok items) + length (filter (\<lambda>x. \<not> ?ok x) items) = length items"
    by (rule sum_length_filter_compl)
  then have "int (length (filter ?ok items)) = int (length items) - int (length (filter (\<lambda>x. \<not> ?ok x) items))" by linarith
  then show ?thesis
    using bulk_loop [of ev reg ten
      "\<lparr>bs_succeeded = 0, bs_failed = 0, bs_priorities = [], bs_bands = [], bs_results = [], bs_decisions = ds\<rparr>" items]
    by (simp add: bulk_evaluate_def Let_def filter_map comp_def)
qed

lemma bulk_is_item_by_item_witness:
  "\<exists>r ds'. bulk_evaluate w_setup 2000 None None (Fin 1) [(0, [(''incidentId'', PStr ''A'')]), (0, [])] (Some []) = Inr (r, ds') \<and>
     br_results r = map (bulk_report w_setup None None) [(0, [(''incidentId'', PStr ''A'')]), (0, [])] \<and>
     br_total r = 2 \<and> br_failed r = int (length (filter (\<lambda>x. \<not> be_success x) (br_results r)))"
proof -
  let ?items = "[(0, [(''incidentId'', PStr ''A'')]), (0, [])]"
  obtain r ds' where p: "projr (bulk_evaluate w_setup 2000 None None (Fin 1) ?items (Some [])) = (r, ds')" by fastforce
  show ?thesis
    using bulk_is_item_by_item [of w_setup 2000 None None "Fin 1" ?items "Some []"]
    by (intro exI [of _ r] exI [of _ ds']) (simp add: p)
qed

section \<open>The distribution\<close>

lemma distribution_loop:
  assumes "foldr_res distribution_step ds st = Inr st'"
  shows "sum_list (map snd (dst_priorities st')) = sum_list (map snd (dst_priorities st)) + int (length ds) \<and>
    sum_list (map snd (dst_bands st')) = sum_list (map snd (dst_bands st)) + int (length ds) \<and>
    (\<forall>b. dict_get (dst_bands st') b 0 = dict_get (dst_bands st) b 0 + int (length (filter (\<lambda>d. d_risk_band d = b) ds))) \<and>
    dst_degraded st' = dst_degraded st + int (length (filter d_degraded_context ds)) \<and>
    dst_risk st' = dst_risk st + sum_list (map d_risk_score ds)"
  using assms
proof (induction ds arbitrary: st)
  case (Cons d ds)
  then obtain t where t: "distribution_step d st = Inr t" "foldr_res distribution_step ds t = Inr st'"
    by (auto simp: bindr_eq_Inr)
  have s: "sum_list (map snd (dst_priorities t)) = sum_list (map snd (dst_priorities st)) + 1 \<and>
      dst_bands t = dict_bump (d_risk_band d) (dst_bands st) \<and>
      dst_degraded t = dst_degraded st + (if d_degraded_context d then 1 else 0) \<and> dst_risk t = dst_risk st + d_risk_score d"
    using t(1) by (auto simp: distribution_step_def bindr_eq_Inr count_priority_eq split: if_splits)
  show ?case using Cons.IH [OF t(2)] s by auto
qed simp

lemma distribution_ok:
  "is_ok (foldr_res distribution_step ds st) \<longleftrightarrow> list_all countable_priority ds"
proof (induction ds arbitrary: st)
  case (Cons d ds)
  then show ?case by (simp add: distribution_step_def count_priority_eq)
qed simp

text \<open>
  The distribution covers the newest decisions up to the limit, each once: both
  histograms add up to the number of decisions, every band is counted exactly, the average
  risk is the rounded mean of the scores, and the computation raises exactly when one of the
  decisions has a priority that cannot be a dictionary key.
\<close>
theorem distribution_counts_every_decision:
  "(is_ok (decision_distribution ds limit) \<longleftrightarrow> list_all countable_priority (decision_list_all ds limit 0)) \<and>
   (\<forall>r. decision_distribution ds limit = Inr r \<longrightarrow>
      (let xs = decision_list_all ds limit 0 in
        dr_total_decisions r = int (length xs) \<and>
        sum_list (map snd (dr_priority_distribution r)) = int (length xs) \<and>
        sum_list (map snd (dr_risk_band_distribution r)) = int (length xs) \<and>
        (\<forall>b. dict_get (dr_risk_band_distribution r) b 0 = int (length (filter (\<lambda>d. d_risk_band d = b) xs))) \<and>
        dr_degraded_context_count r = int (length (filter d_degraded_context xs)) \<and>
        (xs \<noteq> [] \<longrightarrow> dr_average_risk_score r = rnd (of_int (sum_list (map d_risk_score xs)) / of_nat (length xs)))))"
proof -
  let ?xs = "decision_list_all ds limit 0"
  let ?st = "\<lparr>dst_priorities = [], dst_bands = [], dst_degraded = 0, dst_risk = 0, dst_confidence = Fin 0\<rparr>"
  have 1: "is_ok (decision_distribution ds limit) \<longleftrightarrow> list_all countable_priority ?xs"
    using distribution_ok [of ?xs ?st]
    by (cases "foldr_res distribution_step ?xs ?st") (auto simp: decision_distribution_def Let_def)
  have 2: "\<exists>st. foldr_res distribution_step ?xs ?st = Inr st \<and> dr_total_decisions r = int (length ?xs) \<and>
      dr_priority_distribution r = dst_priorities st \<and> dr_risk_band_distribution r = dst_bands st \<and>
      dr_degraded_context_count r = dst_degraded st \<and>
      (?xs \<noteq> [] \<longrightarrow> dr_average_risk_score r = rnd (of_int (dst_risk st) / of_nat (length ?xs)))"
    if "decision_distribution ds limit = Inr r" for r
    using that by (auto simp: decision_distribution_def Let_def bindr_eq_Inr split: if_splits)
  have 3: "let xs = ?xs in dr_total_decisions r = int (length xs) \<and>
        sum_list (map snd (dr_priority_distribution r)) = int (length xs) \<and>
        sum_list (map snd (dr_risk_band_distribution r)) = int (length xs) \<and>
        (\<forall>b. dict_get (dr_risk_band_distribution r) b 0 = int (length (filter (\<lambda>d. d_risk_band d = b) xs))) \<and>
        dr_degraded_context_count r = int (length (filter d_degraded_context xs)) \<and>
        (xs \<noteq> [] \<longrightarrow> dr_average_risk_score r = rnd (of_int (sum_list (map d_risk_score xs)) / of_nat (length xs)))"
    if given: "decision_distribution ds limit = Inr r" for r
  proof -
    obtain st where st: "foldr_res distribution_step ?xs ?st = Inr st" and r: "dr_total_decisions r = int (length ?xs)"
      "dr_priority_distribution r = dst_priorities st" "dr_risk_band_distribution r = dst_bands st"
      "dr_degraded_context_count r = dst_degraded st"
      "?xs \<noteq> [] \<longrightarrow> dr_average_risk_score r = rnd (of_int (dst_risk st) / of_nat (length ?xs))"
      using 2 [OF given] by blast
    show ?thesis using distribution_loop [OF st] r by (simp add: dict_get_simps Let_def)
  qed
  show ?thesis using 1 3 by blast
qed

text \<open>The example: the distribution of one decision.\<close>

definition w_history :: decision_store where
  "w_history = decision_save (projr (run None 0 (new_incident ''I1'' [] [] False) (new_pack ''p'' 1 ACTIVE None []))) []"

lemma distribution_counts_every_decision_witness:
  "\<exists>r. decision_distribution w_history 10 = Inr r \<and> dr_total_decisions r = 1 \<and>
     sum_list (map snd (dr_risk_band_distribution r)) = 1"
proof -
  have "is_ok (decision_distribution w_history 10) \<and> length (decision_list_all w_history 10 0) = 1" by code_simp
  then obtain r where "decision_distribution w_history 10 = Inr r" "length (decision_list_all w_history 10 0) = 1"
    by (auto simp: is_ok_iff)
  with distribution_counts_every_decision [of w_history 10] show ?thesis by (auto simp: Let_def)
qed

end
