(* ===== verification/Simulation.thy ===== *)
theory Simulation
  imports Evaluation Lifecycle
begin

text \<open>
  Trying rule packs out: which pack a request means (\<open>rule_pack_resolution.py\<close>), what-if
  simulation (\<open>simulate_rules.py\<close>), replay of a stored incident
  (\<open>replay_simulation.py\<close>), comparison of two packs (\<open>compare_rule_packs.py\<close>) and the
  shadow mode (\<open>promote_to_shadow.py\<close>, \<open>jobs/shadow_mode_diff_runner.py\<close>). All of
  them run the pipeline of the real evaluation and return no store: by their types they
  cannot change a decision, an incident or, shadow promotion apart, a pack.
\<close>

section \<open>Which pack is meant\<close>

record pack_reference =
  pr_pack_id :: "string option"
  pr_name :: "string option"
  pr_version :: "int option"

definition no_reference :: pack_reference where
  "no_reference = \<lparr>pr_pack_id = None, pr_name = None, pr_version = None\<rparr>"

definition given :: "string option \<Rightarrow> bool" where
  "given x = (x \<noteq> None \<and> x \<noteq> Some [])"

definition resolve_rule_pack ::
  "pack_source \<Rightarrow> pack_repo option \<Rightarrow> pack_reference \<Rightarrow> string option \<Rightarrow> string option \<Rightarrow> (rule_pack \<times> string) res" where
  "resolve_rule_pack source packs ref reg ten =
     (if given (pr_pack_id ref)
      then (case packs of
              None \<Rightarrow> Inl (ValueError ''rulePackId was given but no rule-pack repository is configured'')
            | Some rp \<Rightarrow>
                (case repo_get_by_id rp (the (pr_pack_id ref)) of
                   None \<Rightarrow> Inl (no_such_pack (the (pr_pack_id ref)))
                 | Some r \<Rightarrow> Inr (pack_at rp r, ''rule_pack'')))
      else if given (pr_name ref)
      then (case pr_version ref of
              Some v \<Rightarrow>
                (case packs of
                   None \<Rightarrow> Inl (ValueError ''rulePackName/rulePackVersion was given but no rule-pack repository is configured'')
                 | Some rp \<Rightarrow>
                     (case repo_get rp (the (pr_name ref)) v of
                        None \<Rightarrow> Inl (ValueError (''No such rule pack: '' @ the (pr_name ref) @ '' v'' @ str_of_int v))
                      | Some r \<Rightarrow> Inr (pack_at rp r, ''rule_pack'')))
            | None \<Rightarrow>
                (case packs of
                   None \<Rightarrow> Inl (ValueError ''rulePackName was given but no rule-pack repository is configured'')
                 | Some rp \<Rightarrow>
                     (case repo_get_active rp (the (pr_name ref)) reg of
                        None \<Rightarrow> Inl (ValueError (''No active rule pack named '' @ quoted (the (pr_name ref)) @
                          '' for region='' @ opt_repr reg))
                      | Some r \<Rightarrow> Inr (pack_at rp r, ''rule_pack''))))
      else bindr (source reg ten) (\<lambda>p. Inr (p, ''hot_path_active'')))"

definition rule_pack_ref_dict :: "rule_pack \<Rightarrow> string \<Rightarrow> dict" where
  "rule_pack_ref_dict p source =
     [(''source'', PStr source), (''id'', opt_val PStr (pack_id p)), (''name'', PStr (pack_name p)),
      (''version'', PInt (version p)), (''status'', PStr (status p)), (''region'', opt_val PStr (region p))]"

section \<open>What if\<close>

definition simulate_rules :: "sla_matrix option \<Rightarrow> instant \<Rightarrow> incident \<Rightarrow> rule_pack \<Rightarrow> decision res" where
  "simulate_rules matrix t0 inc candidate = run matrix t0 inc candidate"

definition what_if ::
  "pack_source \<Rightarrow> pack_repo option \<Rightarrow> sla_matrix option \<Rightarrow> instant \<Rightarrow> incident \<Rightarrow> pack_reference \<Rightarrow> string option \<Rightarrow> string option
    \<Rightarrow> (decision \<times> dict) res" where
  "what_if source packs matrix t0 inc ref reg ten =
     bindr (resolve_rule_pack source packs ref reg ten) (\<lambda>(p, src).
     bindr (simulate_rules matrix t0 inc p) (\<lambda>d. Inr (d, rule_pack_ref_dict p src)))"

section \<open>Replay\<close>

definition matched_codes :: "decision \<Rightarrow> string list" where
  "matched_codes d = map mt_rule_code (d_matched_rules d)"

definition sorted_difference :: "string list \<Rightarrow> string list \<Rightarrow> string list" where
  \<comment> \<open>\<open>sorted(set(xs) - set(ys))\<close>\<close>
  "sorted_difference xs ys = sort (remdups (filter (\<lambda>x. x \<notin> set ys) xs))"

definition code_changes :: "string \<Rightarrow> string list \<Rightarrow> string list" where
  "code_changes label codes = (if codes = [] then [] else [label @ py_repr (PList (map PStr codes))])"

definition decision_diff :: "decision option \<Rightarrow> decision \<Rightarrow> string list" where
  "decision_diff original replayed =
     (case original of
        None \<Rightarrow> []
      | Some d \<Rightarrow>
          (if \<not> py_eq (d_priority d) (d_priority replayed)
           then [''priority: '' @ py_repr (d_priority d) @ '' -> '' @ py_repr (d_priority replayed)] else []) @
          (if d_risk_band d \<noteq> d_risk_band replayed
           then [''riskBand: '' @ str_repr (d_risk_band d) @ '' -> '' @ str_repr (d_risk_band replayed)] else []) @
          (if \<not> py_eq (PDict (d_actions d)) (PDict (d_actions replayed))
           then [''decision actions changed: '' @ py_repr (PDict (d_actions d)) @ '' -> '' @ py_repr (PDict (d_actions replayed))]
           else []) @
          (if set (matched_codes d) \<noteq> set (matched_codes replayed)
           then code_changes ''newly matched rules: '' (sorted_difference (matched_codes replayed) (matched_codes d)) @
                code_changes ''no longer matched rules: '' (sorted_difference (matched_codes d) (matched_codes replayed))
           else []))"

record replay_result =
  rr_incident_id :: string
  rr_original :: "decision option"
  rr_replayed :: decision
  rr_rule_pack_used :: dict
  rr_differs :: bool
  rr_differences :: "string list"

definition or_else :: "string option \<Rightarrow> string option \<Rightarrow> string option" where
  "or_else x y = (if given x then x else y)"

definition replay_simulation ::
  "pack_source \<Rightarrow> pack_repo option \<Rightarrow> sla_matrix option \<Rightarrow> incident_store \<Rightarrow> decision_store \<Rightarrow> instant
    \<Rightarrow> string \<Rightarrow> pack_reference \<Rightarrow> string option \<Rightarrow> string option \<Rightarrow> replay_result res" where
  "replay_simulation source packs matrix is ds t0 i ref reg ten =
     (case incident_get is i of
        None \<Rightarrow> Inl (ValueError (''No persisted incident found for replay: '' @ i))
      | Some inc \<Rightarrow>
          bindr (resolve_rule_pack source packs ref (or_else reg (inc_region inc)) (or_else ten (inc_tenant inc))) (\<lambda>(p, src).
          bindr (run matrix t0 inc p) (\<lambda>replayed.
            let original = decision_get ds i; differences = decision_diff original replayed
            in Inr \<lparr>rr_incident_id = i, rr_original = original, rr_replayed = replayed,
                    rr_rule_pack_used = rule_pack_ref_dict p src, rr_differs = (differences \<noteq> []),
                    rr_differences = differences\<rparr>)))"

section \<open>Comparison\<close>

record pack_diff =
  pd_incident_id :: string
  pd_baseline_priority :: val
  pd_candidate_priority :: val
  pd_baseline_decision :: dict
  pd_candidate_decision :: dict
  pd_differs :: bool

record compare_result =
  cr_baseline :: dict
  cr_candidate :: dict
  cr_total_incidents :: int
  cr_differing_count :: int
  cr_diffs :: "pack_diff list"

definition resolve_incidents :: "int \<Rightarrow> incident_store \<Rightarrow> string list \<Rightarrow> incident list \<Rightarrow> incident list res" where
  "resolve_incidents max_incidents is ids inline =
     bindr (mapr (\<lambda>i. case incident_get is i of
                        None \<Rightarrow> Inl (ValueError (''No persisted incident found for comparison: '' @ i))
                      | Some inc \<Rightarrow> Inr inc) ids) (\<lambda>found.
       let resolved = found @ inline in
       if resolved = []
       then Inl (ValueError ''At least one incident (via incidentIds or inline incidents) is required to compare rule packs'')
       else if max_incidents < int (length resolved)
       then Inl (ValueError (''Comparison accepts at most '' @ str_of_int max_incidents @ '' incidents per request (got '' @
         str_of_int (int (length resolved)) @ '')''))
       else Inr resolved)"

definition decisions_differ :: "decision \<Rightarrow> decision \<Rightarrow> bool" where
  "decisions_differ d e = (\<not> py_eq (d_priority d) (d_priority e) \<or> \<not> py_eq (PDict (d_actions d)) (PDict (d_actions e)))"

definition compare_one :: "sla_matrix option \<Rightarrow> instant \<Rightarrow> rule_pack \<Rightarrow> rule_pack \<Rightarrow> incident \<Rightarrow> pack_diff res" where
  "compare_one matrix t0 baseline candidate inc =
     bindr (run matrix t0 inc baseline) (\<lambda>d.
     bindr (run matrix t0 inc candidate) (\<lambda>e.
       Inr \<lparr>pd_incident_id = incident_id inc, pd_baseline_priority = d_priority d, pd_candidate_priority = d_priority e,
            pd_baseline_decision = d_actions d, pd_candidate_decision = d_actions e, pd_differs = decisions_differ d e\<rparr>))"

definition compare_rule_packs ::
  "pack_source \<Rightarrow> pack_repo option \<Rightarrow> sla_matrix option \<Rightarrow> int \<Rightarrow> incident_store \<Rightarrow> instant \<Rightarrow> string list \<Rightarrow> incident list
    \<Rightarrow> pack_reference \<Rightarrow> pack_reference \<Rightarrow> string option \<Rightarrow> string option \<Rightarrow> compare_result res" where
  "compare_rule_packs source packs matrix max_incidents is t0 ids inline base cand reg ten =
     bindr (resolve_incidents max_incidents is ids inline) (\<lambda>incs.
     bindr (resolve_rule_pack source packs base reg ten) (\<lambda>(bp, bsrc).
     if \<not> (given (pr_pack_id cand) \<or> given (pr_name cand))
     then Inl (ValueError (''A candidate rule pack must be specified (candidateRulePackId, or '' @
       ''candidateRulePackName[+candidateRulePackVersion]) -- comparison needs two packs to compare''))
     else bindr (resolve_rule_pack source packs cand reg ten) (\<lambda>(cp, csrc).
     bindr (mapr (compare_one matrix t0 bp cp) incs) (\<lambda>diffs.
       Inr \<lparr>cr_baseline = rule_pack_ref_dict bp bsrc, cr_candidate = rule_pack_ref_dict cp csrc,
            cr_total_incidents = int (length incs), cr_differing_count = int (length (filter pd_differs diffs)),
            cr_diffs = diffs\<rparr>))))"

section \<open>Shadow mode\<close>

definition SHADOW :: string where "SHADOW = ''shadow''"

record shadow_diff =
  sd_incident_id :: string
  sd_active_decision :: dict
  sd_candidate_decision :: dict
  sd_differs :: bool

definition shadow_one :: "sla_matrix option \<Rightarrow> instant \<Rightarrow> rule_pack \<Rightarrow> rule_pack \<Rightarrow> incident \<Rightarrow> shadow_diff res" where
  "shadow_one matrix t0 active candidate inc =
     bindr (run matrix t0 inc active) (\<lambda>d.
     bindr (run matrix t0 inc candidate) (\<lambda>e.
       Inr \<lparr>sd_incident_id = incident_id inc, sd_active_decision = d_actions d, sd_candidate_decision = d_actions e,
            sd_differs = decisions_differ d e\<rparr>))"

definition promote_to_shadow ::
  "sla_matrix option \<Rightarrow> instant \<Rightarrow> rule_pack \<Rightarrow> rule_pack \<Rightarrow> incident list \<Rightarrow> shadow_diff list res \<times> rule_pack" where
  \<comment> \<open>the differences or the exception, and the candidate as it was left\<close>
  "promote_to_shadow matrix t0 candidate active sample =
     (if \<not> is_valid candidate
      then (Inl (ValueError (''Cannot promote an invalid rule pack to shadow: '' @
              py_repr (PList (map (\<lambda>f. PStr (finding_text f)) (validate_rule_pack candidate))))), candidate)
      else let candidate = candidate\<lparr>status := SHADOW\<rparr>
           in (mapr (shadow_one matrix t0 active candidate) sample, candidate))"

record shadow_summary =
  ss_total_sampled :: int
  ss_changed_count :: int
  ss_changed_incident_ids :: "string list"
  ss_diffs :: "shadow_diff list"

definition shadow_diff_run ::
  "instant \<Rightarrow> rule_pack \<Rightarrow> rule_pack \<Rightarrow> incident list \<Rightarrow> shadow_summary res \<times> rule_pack" where
  \<comment> \<open>the runner builds its use case without an SLA matrix\<close>
  "shadow_diff_run t0 candidate active sample =
     (case promote_to_shadow None t0 candidate active sample of
        (m, candidate) \<Rightarrow>
          (bindr m (\<lambda>diffs. let changed = filter sd_differs diffs in
             Inr \<lparr>ss_total_sampled = int (length diffs), ss_changed_count = int (length changed),
                  ss_changed_incident_ids = map sd_incident_id changed, ss_diffs = diffs\<rparr>), candidate))"

section \<open>Replay and the recorded decision\<close>

text \<open>The pipeline reads neither the clock nor the bookkeeping fields of an incident.\<close>

lemma run_clock:
  "run matrix t1 inc p = bindr (run matrix t0 inc p) (\<lambda>d. Inr (d\<lparr>d_created_at := t1\<rparr>))"
  by (simp add: run_def bindr_assoc Let_def case_prod_unfold)

lemma bookkeeping:
  "policy_evaluate p (inc\<lparr>inc_status := s\<rparr>) = policy_evaluate p inc"
  "compliance_apply p (inc\<lparr>inc_status := s\<rparr>) = compliance_apply p inc"
  "fill_sla matrix (inc\<lparr>inc_status := s\<rparr>) = fill_sla matrix inc"
  "source_count (inc\<lparr>inc_status := s\<rparr>) = source_count inc"
  "degraded_count (inc\<lparr>inc_status := s\<rparr>) = degraded_count inc"
  by (rule ext | simp add: policy_evaluate_def compliance_apply_def as_evaluation_data_def fill_sla_def
      source_count_def degraded_count_def split: option.split)+

lemma run_status [simp]: "run matrix t0 (inc\<lparr>inc_status := s\<rparr>) p = run matrix t0 inc p"
  by (simp add: run_def bookkeeping)

definition self_equal :: "decision \<Rightarrow> bool" where
  \<comment> \<open>no \<open>NaN\<close> gets in the way of comparing the decision\<close>
  "self_equal d = (py_eq (d_priority d) (d_priority d) \<and> py_eq (PDict (d_actions d)) (PDict (d_actions d)))"

lemma decision_diff_self: "self_equal d \<Longrightarrow> decision_diff (Some d) (d\<lparr>d_created_at := t0\<rparr>) = []"
  by (simp add: decision_diff_def self_equal_def matched_codes_def)

text \<open>
  Property C36: a replay tells the truth about the recorded decision: replaying an incident
  that was just evaluated, against the pack that is still the active one, takes the recorded
  decision again and reports no difference (decisions that hold a \<open>NaN\<close> apart).
\<close>
theorem replay_confirms_recorded_decision:
  assumes c: "create_incident ev t0 i p reg ten ctx True is (Some ds) = (Inr (inc, Some d), is', Some ds')"
    and self: "self_equal d"
  shows "\<exists>r. replay_simulation (ev_source ev) packs (ev_matrix ev) is' ds' t1 i no_reference None None = Inr r \<and>
    rr_original r = Some d \<and> rr_replayed r = d\<lparr>d_created_at := t1\<rparr> \<and> \<not> rr_differs r"
proof -
  let ?inc = "(new_incident i p (case ctx of None \<Rightarrow> [] | Some c \<Rightarrow> c) False)
    \<lparr>inc_region := reg, inc_tenant := ten, inc_status := ''received'', inc_created_at := Some t0\<rparr>"
  obtain m inc1 ds1 where e: "evaluate_incident ev t0 ?inc reg ten (Some ds) = (m, inc1, ds1)" by (metis prod_cases3)
  note parts = evaluate_incident_parts [where ev = ev and now = t0 and inc = ?inc and reg = reg and ten = ten and ds = "Some ds",
      unfolded e fst_conv snd_conv]
  have m: "m = Inr d" and inc: "inc = inc1\<lparr>inc_status := ''evaluated''\<rparr>" and ds1: "ds1 = Some ds'"
    and is': "is' = incident_save t0 inc (incident_save t0 ?inc is)"
    using c by (cases m; simp add: create_incident_def e Let_def)+
  have fs: "incident_id inc = i" "inc_region inc = reg" "inc_tenant inc = ten" "inc_created_at inc = Some t0"
    by (simp_all add: inc parts(2) new_incident_def)
  have got: "incident_get is' i = Some inc" using fs by (simp add: is' incident_get_save stamp_created_def)
  obtain pack where pack: "ev_source ev reg ten = Inr pack" "run (ev_matrix ev) t0 inc pack = Inr d"
    using parts(1) [symmetric] m by (auto simp: bindr_eq_Inr inc parts(2))
  have "d_incident_id d = i" using run_incident_id [OF pack(2)] fs by simp
  then have "decision_get ds' i = Some d"
    using parts(3) m ds1 by (simp add: decision_get_list decision_list_save)
  moreover have "run (ev_matrix ev) t1 inc pack = Inr (d\<lparr>d_created_at := t1\<rparr>)"
    using run_clock [of "ev_matrix ev" t1 inc pack t0] pack(2) by simp
  ultimately show ?thesis
    using got pack(1) decision_diff_self [OF self, of t1]
    by (simp add: replay_simulation_def resolve_rule_pack_def no_reference_def given_def or_else_def fs Let_def)
qed

lemma replay_confirms_recorded_decision_witness:
  "\<exists>inc d is' ds' r. create_incident w_setup 7 ''I1'' [(''load'', PInt 9)] None None None True [] (Some []) =
     (Inr (inc, Some d), is', Some ds') \<and>
     replay_simulation (ev_source w_setup) None (ev_matrix w_setup) is' ds' 8 ''I1'' no_reference None None = Inr r \<and>
     rr_replayed r = d\<lparr>d_created_at := 8\<rparr> \<and> \<not> rr_differs r"
proof -
  let ?c = "create_incident w_setup 7 ''I1'' [(''load'', PInt 9)] None None None True [] (Some [])"
  have "is_ok (fst ?c) \<and> snd (projr (fst ?c)) \<noteq> None \<and> self_equal (the (snd (projr (fst ?c)))) \<and> snd (snd ?c) \<noteq> None" by code_simp
  then obtain inc d is' ds' where c: "?c = (Inr (inc, Some d), is', Some ds')" and s: "self_equal d"
    by (cases ?c) (auto simp: is_ok_iff)
  from replay_confirms_recorded_decision [OF c s, of None 8] c show ?thesis by blast
qed

section \<open>Comparison with an extended pack\<close>

lemma compare_one_extended:
  assumes "run matrix t0 inc bp = Inr d" and "self_equal d"
    and "\<forall>r \<in> set extra. neutral (as_evaluation_data inc) r" and "rules cp = rules bp @ extra"
  shows "\<exists>x. compare_one matrix t0 bp cp inc = Inr x \<and> \<not> pd_differs x"
proof -
  have "run matrix t0 inc cp = run matrix t0 inc (bp\<lparr>rules := rules bp @ extra\<rparr>)"
    by (rule run_pack_cong) (simp add: active_rules_def assms(4))
  with run_extra [OF assms(1,3)] assms(1,2) show ?thesis
    by (auto simp: compare_one_def decisions_differ_def self_equal_def)
qed

text \<open>
  A comparison counts real differences only: when the candidate is the baseline
  with further rules that do not apply to any of the compared incidents, the comparison
  succeeds, covers every incident and counts no difference.
\<close>
theorem comparison_ignores_rules_that_do_not_apply:
  assumes incs: "resolve_incidents max_incidents is ids inline = Inr incs"
    and base: "resolve_rule_pack source packs base reg ten = Inr (bp, src)"
    and cand: "resolve_rule_pack source packs cand reg ten = Inr (cp, src')"
      "given (pr_pack_id cand) \<or> given (pr_name cand)" "rules cp = rules bp @ extra"
    and all: "\<forall>inc \<in> set incs. (\<exists>d. run matrix t0 inc bp = Inr d \<and> self_equal d) \<and>
      (\<forall>r \<in> set extra. neutral (as_evaluation_data inc) r)"
  shows "\<exists>r. compare_rule_packs source packs matrix max_incidents is t0 ids inline base cand reg ten = Inr r \<and>
    cr_differing_count r = 0 \<and> cr_total_incidents r = int (length incs) \<and> length (cr_diffs r) = length incs"
proof -
  define g where "g inc = projr (compare_one matrix t0 bp cp inc)" for inc
  have g: "compare_one matrix t0 bp cp inc = Inr (g inc) \<and> \<not> pd_differs (g inc)" if "inc \<in> set incs" for inc
    using compare_one_extended [of matrix t0 inc bp _ extra cp] all that cand(3) by (fastforce simp: g_def)
  then have "mapr (compare_one matrix t0 bp cp) incs = Inr (map g incs)" by (intro mapr_all_Inr) blast
  moreover have "filter pd_differs (map g incs) = []" using g by (auto simp: filter_empty_conv)
  ultimately show ?thesis using incs base cand(1,2) by (simp add: compare_rule_packs_def)
qed

lemma comparison_ignores_rules_that_do_not_apply_witness:
  "\<exists>r rp. repo_get_by_id rp ''id1'' \<noteq> None \<and>
     compare_rule_packs (ev_source w_setup) (Some rp) None 200 [] 0 [] [new_incident ''I1'' [(''load'', PInt 9)] [] False]
       no_reference (no_reference\<lparr>pr_pack_id := Some ''id1''\<rparr>) None None = Inr r \<and> cr_differing_count r = 0"
proof -
  let ?x = "(w_rule ''X1'' 9 [(''priority'', PStr ''Low'')])
        \<lparr>conditions := PDict [(''=='', PList [PDict [(''var'', PStr ''isMaintenance'')], PBool True])]\<rparr>"
  let ?inc = "new_incident ''I1'' [(''load'', PInt 9)] [] False" and ?bp = "new_pack ''p'' 1 ACTIVE None []"
  let ?cp = "(new_pack ''p'' 2 DRAFT None [?x])\<lparr>pack_id := Some ''id1''\<rparr>"
  let ?rp = "\<lparr>store = [((''p'', 2), 0)], heap = [?cp], active_cache = new_cache (Fin 10)\<rparr>"
  let ?cand = "no_reference\<lparr>pr_pack_id := Some ''id1''\<rparr>"
  have 1: "resolve_incidents 200 [] [] [?inc] = Inr [?inc]" by (simp add: resolve_incidents_def)
  have 2: "resolve_rule_pack (ev_source w_setup) (Some ?rp) no_reference None None = Inr (?bp, ''hot_path_active'')"
    by (simp add: resolve_rule_pack_def no_reference_def given_def w_setup_def)
  have get: "repo_get_by_id ?rp ''id1'' = Some 0" by (simp add: repo_get_by_id_def refs_def pack_at_def)
  have 3: "resolve_rule_pack (ev_source w_setup) (Some ?rp) ?cand None None = Inr (?cp, ''rule_pack'')"
    by (simp add: resolve_rule_pack_def no_reference_def given_def get) (simp add: pack_at_def)
  have 4: "given (pr_pack_id ?cand) \<or> given (pr_name ?cand)" by (simp add: given_def)
  have 5: "rules ?cp = rules ?bp @ [?x]" by (simp add: new_pack_def)
  have "is_ok (run None 0 ?inc ?bp) \<and> self_equal (projr (run None 0 ?inc ?bp)) \<and> neutral (as_evaluation_data ?inc) ?x" by code_simp
  then have "\<forall>inc \<in> set [?inc]. (\<exists>d. run None 0 inc ?bp = Inr d \<and> self_equal d) \<and> (\<forall>r \<in> set [?x]. neutral (as_evaluation_data inc) r)"
    by (auto simp: is_ok_iff)
  from comparison_ignores_rules_that_do_not_apply [OF 1 2 3 4 5 this] get show ?thesis by blast
qed

section \<open>After shadow mode\<close>

text \<open>
  Shadow promotion is a dead end. It refuses an invalid pack and leaves it as it
  was; a valid candidate gets the status \<open>shadow\<close>, which the table of transitions does not
  know: a stored pack with that status can be neither published nor activated.
\<close>
theorem shadow_promotion_is_a_dead_end:
  assumes "promote_to_shadow matrix t0 candidate active sample = (m, candidate')"
  shows "(\<not> is_valid candidate \<longrightarrow> candidate' = candidate \<and> \<not> is_ok m) \<and>
    (is_valid candidate \<longrightarrow> candidate' = candidate\<lparr>status := SHADOW\<rparr> \<and> m = mapr (shadow_one matrix t0 active candidate') sample) \<and>
    (is_valid candidate \<and> repo_get_by_id (repo pl) i = Some r \<and> pack_at (repo pl) r = candidate' \<longrightarrow>
      \<not> is_ok (publish_rule_pack c i pl) \<and> \<not> is_ok (activate_rule_pack c i ex pl))"
proof -
  have "\<not> can_transition SHADOW s" for s by (auto simp: can_transition_cases SHADOW_def)
  then show ?thesis
    using assms by (auto simp: promote_to_shadow_def Let_def publish_rule_pack_def activate_rule_pack_def split: if_splits)
qed

definition w_candidate :: rule_pack where
  "w_candidate = (new_pack ''p'' 1 DRAFT None [w_rule ''R1'' 5 []])\<lparr>pack_id := Some ''i''\<rparr>"

definition w_shadowed :: platform where
  \<comment> \<open>a platform that holds the candidate after its promotion\<close>
  "w_shadowed = \<lparr>repo = \<lparr>store = [((''p'', 1), 0)], heap = [w_candidate\<lparr>status := SHADOW\<rparr>], active_cache = new_cache (Fin 10)\<rparr>,
     audit = None, events = None\<rparr>"

lemma shadow_promotion_is_a_dead_end_witness:
  "\<exists>m. promote_to_shadow None 0 w_candidate (new_pack ''q'' 1 ACTIVE None []) [] = (m, w_candidate\<lparr>status := SHADOW\<rparr>) \<and>
     (\<forall>c. \<not> is_ok (publish_rule_pack c ''i'' w_shadowed) \<and> \<not> is_ok (activate_rule_pack c ''i'' None w_shadowed))"
proof -
  obtain m p' where c: "promote_to_shadow None 0 w_candidate (new_pack ''q'' 1 ACTIVE None []) [] = (m, p')" by fastforce
  have valid: "is_valid w_candidate" by code_simp
  note dead_end = shadow_promotion_is_a_dead_end [OF c, of w_shadowed "''i''" 0]
  from valid dead_end have p': "p' = w_candidate\<lparr>status := SHADOW\<rparr>" by blast
  have "repo_get_by_id (repo w_shadowed) ''i'' = Some 0" by code_simp
  moreover have "pack_at (repo w_shadowed) 0 = p'" by (simp add: p' w_shadowed_def pack_at_def)
  ultimately have "\<not> is_ok (publish_rule_pack c ''i'' w_shadowed) \<and> \<not> is_ok (activate_rule_pack c ''i'' None w_shadowed)" for c
    using valid dead_end [of c None] by blast
  then show ?thesis using c p' by blast
qed

end
