(* ===== verification/Ai_Assist.thy ===== *)
theory Ai_Assist
  imports Lifecycle
begin

text \<open>
  AI-assisted authoring: the offline provider (\<open>infrastructure/ai/stub_ai_provider.py\<close>) and
  the use cases that call a provider (\<open>generate_rule_from_description.py\<close>,
  \<open>document_rule.py\<close>, \<open>explain_decision_ai.py\<close>). A provider is a record of functions, so
  the use cases are modelled for every provider. They return texts and drafts and, by their
  types, cannot touch a store, a pack or a decision. Integers are read without Python's limit
  on the number of digits.
\<close>

record ai_provider =
  ai_generate_rule :: "string \<Rightarrow> dict \<Rightarrow> dict res"
  ai_document_rule :: "dict \<Rightarrow> string res"
  ai_explain_decision :: "dict \<Rightarrow> string res"

section \<open>The offline provider\<close>

definition field_keywords :: "(string \<times> string) list" where
  "field_keywords =
     [(''affected users'', ''affectedUsers''), (''affecteduser'', ''affectedUsers''), (''users affected'', ''affectedUsers''),
      (''network load'', ''networkLoad''), (''load'', ''networkLoad''),
      (''historical failures'', ''historicalFailures''), (''past failures'', ''historicalFailures''),
      (''vip'', ''vipCustomersAffected''),
      (''sla tier'', ''slaTier''), (''gold'', ''slaTier''), (''silver'', ''slaTier''), (''bronze'', ''slaTier''),
      (''weather'', ''weatherSeverity''),
      (''maintenance window'', ''maintenanceWindow''), (''maintenance'', ''maintenanceWindow''),
      (''emergency services'', ''emergencyServicesAffected''),
      (''region'', ''region'')]"

definition action_keywords :: "(string \<times> string \<times> val) list" where
  "action_keywords =
     [(''critical'', ''priority'', PStr ''Critical''), (''high priority'', ''priority'', PStr ''High''),
      (''dispatch'', ''dispatchEngineer'', PBool True), (''engineer'', ''dispatchEngineer'', PBool True),
      (''notify noc'', ''notifyNOC'', PBool True), (''notify the noc'', ''notifyNOC'', PBool True),
      (''reroute'', ''rerouteTraffic'', PBool True)]"

text \<open>
  \<open>_THRESHOLD_RE\<close>: a word of comparison, white space, then digits and commas; the leftmost
  match, upper words before lower ones. The operator and the matched digits.
\<close>

definition upper_words :: "string list" where
  "upper_words = [''greater than'', ''more than'', ''over'', ''above'', ''exceeds'', ''exceed'', ''>'']"

definition lower_words :: "string list" where
  "lower_words = [''less than'', ''under'', ''below'', ''<'']"

definition digits_after :: "string \<Rightarrow> string \<Rightarrow> string option" where
  "digits_after s w =
     (if prefix w (py_lower s)
      then let ds = takeWhile (\<lambda>c. is_digit c \<or> c = CHR '','') (dropWhile is_space (drop (length w) s))
           in if ds = [] then None else Some ds
      else None)"

definition first_some :: "('a \<Rightarrow> 'b option) \<Rightarrow> 'a list \<Rightarrow> 'b option" where
  "first_some f xs = foldr (\<lambda>x r. case f x of None \<Rightarrow> r | Some y \<Rightarrow> Some y) xs None"

definition threshold_here :: "string \<Rightarrow> (string \<times> string) option" where
  "threshold_here s =
     (case first_some (digits_after s) upper_words of
        Some ds \<Rightarrow> Some (''>'', ds)
      | None \<Rightarrow> map_option (\<lambda>ds. (''<'', ds)) (first_some (digits_after s) lower_words))"

fun threshold_search :: "string \<Rightarrow> (string \<times> string) option" where
  "threshold_search [] = None"
| "threshold_search (c # s) =
     (case threshold_here (c # s) of Some m \<Rightarrow> Some m | None \<Rightarrow> threshold_search s)"

definition threshold_value :: "string \<Rightarrow> val" where
  \<comment> \<open>the number without its commas, or the text when no digit is left\<close>
  "threshold_value ds =
     (let s = filter (\<lambda>c. c \<noteq> CHR '','') ds in case py_int s of Inr n \<Rightarrow> PInt n | Inl _ \<Rightarrow> PStr s)"

definition known_field :: "string \<Rightarrow> string option" where
  "known_field lowered = map_option snd (find (\<lambda>(k, v). str_in k lowered) field_keywords)"

definition comparison :: "string \<Rightarrow> val \<Rightarrow> val \<Rightarrow> val" where
  "comparison op x y = PDict [(op, PList [x, y])]"

definition draft_conditions :: "string \<Rightarrow> val \<times> string list" where
  \<comment> \<open>the conditions and the assumptions made\<close>
  "draft_conditions description =
     (case (known_field (py_lower description), threshold_search description) of
        (Some f, Some (op, ds)) \<Rightarrow> (comparison op (PDict [(''var'', PStr f)]) (threshold_value ds), [])
      | (Some f, None) \<Rightarrow>
          (comparison ''=='' (PDict [(''var'', PStr f)]) (PBool True),
           [''no explicit threshold found for '' @ quoted f @ ''; assumed a boolean/truthy check''])
      | (None, _) \<Rightarrow>
          (comparison ''=='' (PDict [(''var'', PStr ''incidentType'')]) (PStr ''Tower Down''),
           [''could not identify a specific field/threshold from the description; '' @
            ''defaulted to incidentType == '' @ quoted ''Tower Down'' @
            '' -- REVIEW AND EDIT CONDITIONS before publishing'']))"

definition draft_actions :: "string \<Rightarrow> dict \<times> string list" where
  "draft_actions description =
     (let found = foldl (\<lambda>d (k, f, v). if str_in k (py_lower description) then dict_set f v d else d) [] action_keywords
      in if found = []
         then ([(''priority'', PStr ''Medium'')], [''no explicit action keywords found; defaulted actions to priority=Medium''])
         else (found, []))"

definition stub_generate_rule :: "string \<Rightarrow> dict \<Rightarrow> dict res" where
  "stub_generate_rule description context =
     (let (conds, as1) = draft_conditions description;
          (acts, as2) = draft_actions description;
          fam = (let v = get_none context ''family'' in if py_bool v then v else PStr ''OPERATIONAL_FEASIBILITY'');
          text = py_strip description;
          assumptions = as1 @ as2;
          name = (if take 80 text = [] then ''Untitled rule'' else take 80 text)
      in Inr [(''ruleCode'', PStr ''R-DRAFT-STUB''), (''name'', PStr name),
              (''description'', PStr (if assumptions = [] then text
                 else text @ '' [stub-generated assumptions: '' @ join_with ''; '' assumptions @ '']'')),
              (''family'', fam), (''familyOrder'', PInt 99), (''priorityWeight'', PInt 50), (''severityBand'', PNone),
              (''contributionScore'', PNone), (''conditions'', conds), (''conflictsWith'', PList []),
              (''actions'', PDict acts), (''cooldownMinutes'', PInt 0)])"

text \<open>\<open>_summarize_conditions\<close>\<close>

function summarize_conditions :: "val \<Rightarrow> string" where
  "summarize_conditions (PDict d) =
     (case d of
        [] \<Rightarrow> ''its conditions are met''
      | (op, args) # _ \<Rightarrow>
          (case args of
             PList xs \<Rightarrow>
               if op = ''and'' \<or> op = ''or''
               then join_with (if op = ''and'' then '' and '' else '' or '') (map summarize_conditions xs)
               else (case xs of
                       [l, r] \<Rightarrow> py_str (case l of PDict ld \<Rightarrow> get_none ld ''var'' | _ \<Rightarrow> l) @ '' '' @ op @ '' '' @ py_str r
                     | _ \<Rightarrow> ''the '' @ quoted op @ '' condition is satisfied'')
           | _ \<Rightarrow> ''the '' @ quoted op @ '' condition is satisfied''))"
| "summarize_conditions PNone = ''its conditions are met''"
| "summarize_conditions (PBool b) = ''its conditions are met''"
| "summarize_conditions (PInt i) = ''its conditions are met''"
| "summarize_conditions (PFloat x) = ''its conditions are met''"
| "summarize_conditions (PStr s) = ''its conditions are met''"
| "summarize_conditions (PList xs) = ''its conditions are met''"
  by pat_completeness auto
termination
  by (relation "measure nodes") (auto dest: nodes_mem_list)

definition stub_document_rule :: "dict \<Rightarrow> string res" where
  "stub_document_rule r =
     bindr (as_dict (dict_get r ''actions'' (PDict []))) (\<lambda>acts.
       let summary = join_with '', '' (map (\<lambda>(k, v). k @ ''='' @ py_str v) acts)
       in Inr (py_str (dict_get r ''name'' (PStr ''This rule'')) @ '' belongs to the '' @
            py_str (dict_get r ''family'' (PStr ''an unspecified'')) @ '' rule family. It fires when '' @
            summarize_conditions (dict_get r ''conditions'' (PDict [])) @ ''. When triggered, it sets: '' @
            (if summary = [] then ''no explicit actions'' else summary) @ ''.''))"

definition trace_name :: "dict \<Rightarrow> string res" where
  "trace_name m = as_str (dict_get m ''name'' (dict_get m ''rule_code'' (PStr ''a rule'')))"

definition stub_explain_decision :: "dict \<Rightarrow> string res" where
  "stub_explain_decision facts =
     (let p = get_none facts ''priority'';
          prio = (if py_bool p then py_str p else ''an unclassified priority'');
          band = py_str (dict_get facts ''riskBand'' (PStr ''an unknown''))
      in bindr (case dict_get facts ''matchedRules'' (PList []) of PList xs \<Rightarrow> mapr as_dict xs | _ \<Rightarrow> Inl TypeError) (\<lambda>matched.
         bindr (mapr trace_name (take 3 matched)) (\<lambda>names.
           let more_text = (if 3 < length matched then '' and '' @ str_of_int (int (length matched) - 3) @ '' other rule(s)'' else [])
           in Inr (if matched = []
              then ''This incident was assigned '' @ prio @ '' priority. No specific business rule matched, '' @
                ''so it has been routed for manual review.''
              else ''This incident was assigned '' @ prio @ '' priority, primarily because of: '' @
                join_with '', '' names @ more_text @ ''. The overall risk level was assessed as '' @ band @
                '', which reflects the combination of factors involved but did not itself determine the priority '' @
                ''-- the matched business rules did.''))))"

definition stub_provider :: ai_provider where
  "stub_provider = \<lparr>ai_generate_rule = stub_generate_rule, ai_document_rule = stub_document_rule,
     ai_explain_decision = stub_explain_decision\<rparr>"

section \<open>The use cases\<close>

definition prompt_context :: "string option \<Rightarrow> string option \<Rightarrow> dict option \<Rightarrow> dict" where
  \<comment> \<open>the entries that are not \<open>None\<close>\<close>
  "prompt_context fam reg sample =
     filter (\<lambda>(k, v). v \<noteq> PNone)
       [(''family'', opt_val PStr fam), (''region'', opt_val PStr reg), (''samplePayload'', opt_val PDict sample)]"

definition complete_draft :: "string option \<Rightarrow> dict \<Rightarrow> dict" where
  "complete_draft fam d =
     (let d = dict_setdefault ''ruleCode'' (PStr ''R-DRAFT'') d;
          d = dict_setdefault ''actions'' (PDict []) d;
          d = dict_setdefault ''conflictsWith'' (PList []) d;
          d = dict_setdefault ''familyOrder'' (PInt 99) d;
          d = dict_setdefault ''priorityWeight'' (PInt 50) d;
          d = dict_setdefault ''cooldownMinutes'' (PInt 0) d
      in case fam of None \<Rightarrow> d | Some f \<Rightarrow> if f = [] then d else dict_setdefault ''family'' (PStr f) d)"

definition generate_rule_from_description ::
  "ai_provider \<Rightarrow> rule list \<Rightarrow> string \<Rightarrow> string option \<Rightarrow> string option \<Rightarrow> dict option \<Rightarrow> (dict \<times> finding list) res" where
  "generate_rule_from_description ai siblings description fam reg sample =
     (if py_strip description = [] then Inl (ValueError ''A rule description is required'')
      else bindr (ai_generate_rule ai description (prompt_context fam reg sample)) (\<lambda>d.
        let draft = complete_draft fam d in
        bindr (validate_rule siblings draft) (\<lambda>findings. Inr (draft, findings))))"

definition document_rule_use_case :: "ai_provider \<Rightarrow> dict \<Rightarrow> string res" where
  "document_rule_use_case ai r = ai_document_rule ai r"

definition trace_dict :: "matched_rule_trace \<Rightarrow> dict" where
  "trace_dict m =
     [(''rule_code'', PStr (mt_rule_code m)), (''name'', PStr (mt_name m)), (''family'', PStr (mt_family m)),
      (''priority_weight'', PInt (mt_priority_weight m)), (''severity_band'', opt_val PStr (mt_severity_band m)),
      (''contribution_score'', opt_val PInt (mt_contribution_score m))]"

definition decision_facts :: "decision \<Rightarrow> dict" where
  "decision_facts d =
     [(''incidentId'', PStr (d_incident_id d)), (''priority'', d_priority d), (''riskScore'', PInt (d_risk_score d)),
      (''riskBand'', PStr (d_risk_band d)), (''decision'', PDict (d_actions d)),
      (''matchedRules'', PList (map (\<lambda>m. PDict (trace_dict m)) (d_matched_rules d))),
      (''confidenceScore'', PFloat (d_confidence_score d)), (''degradedContext'', PBool (d_degraded_context d))]"

definition explain_decision_ai :: "ai_provider \<Rightarrow> decision \<Rightarrow> string res" where
  "explain_decision_ai ai d = ai_explain_decision ai (decision_facts d)"

section \<open>What a draft is\<close>

lemma threshold_operator: "threshold_search s = Some (op, ds) \<Longrightarrow> op = ''>'' \<or> op = ''<''"
  by (induction s) (auto simp: threshold_here_def split: option.splits)

lemma threshold_value_leaf: "wf_condition (threshold_value ds)"
  by (simp add: threshold_value_def Let_def split: sum.splits)

lemma draft_conditions_shape:
  "\<exists>op f v. fst (draft_conditions s) = comparison op (PDict [(''var'', PStr f)]) v \<and> op \<in> {''>'', ''<'', ''==''} \<and> wf_condition v"
proof (cases "known_field (py_lower s)")
  case None
  then show ?thesis by (simp add: draft_conditions_def) (metis wf_condition.simps(6))
next
  case (Some f)
  show ?thesis
  proof (cases "threshold_search s")
    case None
    then show ?thesis using Some by (simp add: draft_conditions_def) (metis wf_condition.simps(3))
  next
    case (Some m)
    obtain op ds where m: "m = (op, ds)" by fastforce
    then have "op = ''>'' \<or> op = ''<''" using Some threshold_operator by simp
    then show ?thesis using Some m \<open>known_field (py_lower s) = Some f\<close> threshold_value_leaf [of ds]
      by (auto simp: draft_conditions_def)
  qed
qed

lemma comparison_wf:
  assumes "op \<in> {''>'', ''<'', ''==''}" and "wf_condition v"
  shows "wf_condition (comparison op (PDict [(''var'', PStr f)]) v)" "specificity (comparison op (PDict [(''var'', PStr f)]) v) = Inr 1"
  using assms by (auto simp: comparison_def specificity_def default_registry_get)

lemma setdefault_kept: "map_of d k = Some v \<Longrightarrow> map_of (dict_setdefault k' w d) k = Some v"
  by (auto simp: dict_setdefault_def)

lemma setdefault_present: "dict_in k d \<Longrightarrow> dict_setdefault k v d = d"
  by (simp add: dict_setdefault_def)

lemma complete_draft_keeps: "map_of d k = Some v \<Longrightarrow> map_of (complete_draft fam d) k = Some v"
  by (auto simp: complete_draft_def Let_def setdefault_kept split: option.split)

lemma prompt_family: "get_none (prompt_context fam reg sample) ''family'' = opt_val PStr fam"
  by (cases fam; cases reg; cases sample) (simp_all add: prompt_context_def opt_val_def get_none_def dict_get_def)

lemma stub_draft_fields:
  assumes "stub_generate_rule description (prompt_context fam reg sample) = Inr d"
  shows "\<exists>r. complete_draft fam d = d \<and> rule_from_json d = Inr r \<and> conditions r = fst (draft_conditions description) \<and>
    conflicts_with r = [] \<and> \<not> is_suppressor r \<and> \<not> non_suppressible r"
proof -
  let ?v = "let v = opt_val PStr fam in if py_bool v then v else PStr ''OPERATIONAL_FEASIBILITY''"
  have "\<exists>g. ?v = PStr g" by (cases fam) (simp_all add: opt_val_def)
  then obtain g where g: "?v = PStr g" by blast
  obtain nm ds acts where d: "d = [(''ruleCode'', PStr ''R-DRAFT-STUB''), (''name'', PStr nm), (''description'', PStr ds),
      (''family'', PStr g), (''familyOrder'', PInt 99), (''priorityWeight'', PInt 50), (''severityBand'', PNone),
      (''contributionScore'', PNone), (''conditions'', fst (draft_conditions description)), (''conflictsWith'', PList []),
      (''actions'', PDict acts), (''cooldownMinutes'', PInt 0)]"
    using assms unfolding stub_generate_rule_def prompt_family case_prod_unfold Let_def g [unfolded Let_def] by blast
  have "list_all (\<lambda>k. dict_in k d)
      [''ruleCode'', ''actions'', ''conflictsWith'', ''familyOrder'', ''priorityWeight'', ''cooldownMinutes'', ''family'']"
    by (simp add: d dict_in_fst)
  then have "complete_draft fam d = d"
    by (simp add: complete_draft_def setdefault_present Let_def split: option.split)
  moreover have "\<exists>r. rule_from_json d = Inr r \<and> conditions r = fst (draft_conditions description) \<and>
      conflicts_with r = [] \<and> \<not> is_suppressor r \<and> \<not> non_suppressible r"
    unfolding d
    by (simp add: rule_from_json_def get_item_def get_none_def dict_get_def as_str_def as_int_def as_opt_def as_strs_def
        as_bool_def as_dict_def)
  ultimately show ?thesis by blast
qed

text \<open>
  Property C27: a draft written by an AI provider is only ever a proposal with an honest
  verdict: whatever the provider, a blank description is refused, no field the provider wrote
  is changed and the verdict is that of the rule validator on the draft returned. The
  offline provider answers every other description with a draft that validates, suppresses
  nothing, protects nothing, and whose condition never raises on any incident.
\<close>
theorem ai_drafts_are_checked_proposals:
  "(py_strip description = [] \<longrightarrow> \<not> is_ok (generate_rule_from_description ai siblings description fam reg sample)) \<and>
   (\<forall>draft findings. generate_rule_from_description ai siblings description fam reg sample = Inr (draft, findings) \<longrightarrow>
      validate_rule siblings draft = Inr findings \<and>
      (\<exists>d. ai_generate_rule ai description (prompt_context fam reg sample) = Inr d \<and>
         (\<forall>k v. map_of d k = Some v \<longrightarrow> map_of draft k = Some v))) \<and>
   (py_strip description \<noteq> [] \<longrightarrow>
      (\<exists>draft r. generate_rule_from_description stub_provider [] description fam reg sample = Inr (draft, []) \<and>
         rule_from_json draft = Inr r \<and> \<not> is_suppressor r \<and> \<not> non_suppressible r \<and>
         (\<forall>data. \<exists>b. is_satisfied_by (conditions r) data = Inr b)))"
proof (intro conjI impI)
  show "py_strip description = [] \<Longrightarrow> \<not> is_ok (generate_rule_from_description ai siblings description fam reg sample)"
    by (simp add: generate_rule_from_description_def)
  show "\<forall>draft findings. generate_rule_from_description ai siblings description fam reg sample = Inr (draft, findings) \<longrightarrow>
      validate_rule siblings draft = Inr findings \<and>
      (\<exists>d. ai_generate_rule ai description (prompt_context fam reg sample) = Inr d \<and>
         (\<forall>k v. map_of d k = Some v \<longrightarrow> map_of draft k = Some v))"
    by (auto simp: generate_rule_from_description_def bindr_eq_Inr Let_def complete_draft_keeps split: if_splits)
  assume nonblank: "py_strip description \<noteq> []"
  obtain d where d: "stub_generate_rule description (prompt_context fam reg sample) = Inr d"
    by (simp add: stub_generate_rule_def case_prod_unfold Let_def)
  from stub_draft_fields [OF d] obtain r where r: "complete_draft fam d = d" "rule_from_json d = Inr r"
    "conditions r = fst (draft_conditions description)" "conflicts_with r = []" "\<not> is_suppressor r" "\<not> non_suppressible r" by blast
  obtain op f v where c: "conditions r = comparison op (PDict [(''var'', PStr f)]) v" "op \<in> {''>'', ''<'', ''==''}" "wf_condition v"
    using draft_conditions_shape [of description] r(3) by auto
  have "validate_rule [] d = Inr []"
    using comparison_wf(2) [OF c(2,3)] c(1) r by (simp add: validate_rule_def validate_rule_pack_def check_rule_def new_pack_def)
  then have "generate_rule_from_description stub_provider [] description fam reg sample = Inr (d, [])"
    using nonblank d r(1) by (simp add: generate_rule_from_description_def stub_provider_def)
  moreover have "\<exists>b. is_satisfied_by (conditions r) data = Inr b" for data
    using wf_evaluate_ok [OF comparison_wf(1) [OF c(2,3), of f], of "PDict data"] c(1)
    by (auto simp: is_satisfied_by_def engine_evaluate_def)
  ultimately show "\<exists>draft r. generate_rule_from_description stub_provider [] description fam reg sample = Inr (draft, []) \<and>
      rule_from_json draft = Inr r \<and> \<not> is_suppressor r \<and> \<not> non_suppressible r \<and>
      (\<forall>data. \<exists>b. is_satisfied_by (conditions r) data = Inr b)"
    using r by blast
qed

lemma ai_drafts_are_checked_proposals_witness:
  "\<exists>draft r. generate_rule_from_description stub_provider [] ''Dispatch when network load exceeds 90'' None None None = Inr (draft, []) \<and>
     rule_from_json draft = Inr r \<and> \<not> is_suppressor r"
proof -
  have "py_strip ''Dispatch when network load exceeds 90'' \<noteq> []" by code_simp
  with ai_drafts_are_checked_proposals [of "''Dispatch when network load exceeds 90''" stub_provider "[]" None None None]
  show ?thesis by blast
qed

text \<open>What the offline provider makes of a description.\<close>

lemma stub_example:
  "fst (draft_conditions ''Dispatch when network load exceeds 90'') =
     PDict [(''>'', PList [PDict [(''var'', PStr ''networkLoad'')], PInt 90])]"
  "fst (draft_actions ''Dispatch when network load exceeds 90'') = [(''dispatchEngineer'', PBool True)]"
  by code_simp+

end
