(* ===== verification/Api_Schemas.thy ===== *)
theory Api_Schemas
  imports Simulation Ai_Assist Security Lifecycle_Safety
begin

text \<open>
  The request and response shapes of the HTTP interface: the request classes of
  \<open>interfaces/api/schemas.py\<close> as records of their declared fields, and the response
  dictionaries of \<open>serializers.py\<close>. A request is what the schema library hands to a
  handler: parsing, coercion and the rejection of a body that does not fit the declared types
  happen before. \<open>model_dump\<close> lists the declared fields in their order, then the extra
  ones. The text of an instant (\<open>isoformat\<close>) is an argument.
\<close>

section \<open>Requests\<close>

definition model_dump :: "string list \<Rightarrow> bool \<Rightarrow> dict \<Rightarrow> dict" where
  \<comment> \<open>the fields of a model without the excluded ones and, on demand, without those that are \<open>None\<close>\<close>
  "model_dump exclude exclude_none d = filter (\<lambda>(k, v). k \<notin> set exclude \<and> (exclude_none \<longrightarrow> v \<noteq> PNone)) d"

record incident_evaluate_request =
  er_incidentId :: string
  er_towerId :: "string option"
  er_region :: "string option"
  er_incidentType :: "string option"
  er_assetTier :: "string option"
  er_affectedUsers :: "int option"
  er_vipCustomersAffected :: "bool option"
  er_networkLoad :: "fl option"
  er_slaTier :: "string option"
  er_maintenanceWindow :: "bool option"
  er_weatherSeverity :: "string option"
  er_historicalFailures :: "int option"
  er_emergencyServicesAffected :: "bool option"
  er_emergencyAlertSystemAffected :: "bool option"
  er_packetLossPercent :: "fl option"
  er_trafficSpikePercent :: "fl option"
  er_anomalyFlag :: "bool option"
  er_physicalTamperingDetected :: "bool option"
  er_unauthorizedAccessDetected :: "bool option"
  er_context :: "dict option"
  er_degradedContext :: "bool option"
  er_extra :: dict

definition evaluate_request_fields :: "incident_evaluate_request \<Rightarrow> dict" where
  "evaluate_request_fields q =
     [(''incidentId'', PStr (er_incidentId q)), (''towerId'', opt_val PStr (er_towerId q)),
      (''region'', opt_val PStr (er_region q)), (''incidentType'', opt_val PStr (er_incidentType q)),
      (''assetTier'', opt_val PStr (er_assetTier q)), (''affectedUsers'', opt_val PInt (er_affectedUsers q)),
      (''vipCustomersAffected'', opt_val PBool (er_vipCustomersAffected q)),
      (''networkLoad'', opt_val PFloat (er_networkLoad q)), (''slaTier'', opt_val PStr (er_slaTier q)),
      (''maintenanceWindow'', opt_val PBool (er_maintenanceWindow q)),
      (''weatherSeverity'', opt_val PStr (er_weatherSeverity q)),
      (''historicalFailures'', opt_val PInt (er_historicalFailures q)),
      (''emergencyServicesAffected'', opt_val PBool (er_emergencyServicesAffected q)),
      (''emergencyAlertSystemAffected'', opt_val PBool (er_emergencyAlertSystemAffected q)),
      (''packetLossPercent'', opt_val PFloat (er_packetLossPercent q)),
      (''trafficSpikePercent'', opt_val PFloat (er_trafficSpikePercent q)),
      (''anomalyFlag'', opt_val PBool (er_anomalyFlag q)),
      (''physicalTamperingDetected'', opt_val PBool (er_physicalTamperingDetected q)),
      (''unauthorizedAccessDetected'', opt_val PBool (er_unauthorizedAccessDetected q)),
      (''context'', opt_val PDict (er_context q)), (''degradedContext'', opt_val PBool (er_degradedContext q))] @ er_extra q"

record incident_create_request =
  ic_incidentId :: string
  ic_region :: "string option"
  ic_tenantId :: "string option"
  ic_context :: "dict option"
  ic_evaluate :: bool
  ic_extra :: dict

definition create_request_fields :: "incident_create_request \<Rightarrow> dict" where
  "create_request_fields q =
     [(''incidentId'', PStr (ic_incidentId q)), (''region'', opt_val PStr (ic_region q)),
      (''tenantId'', opt_val PStr (ic_tenantId q)), (''context'', opt_val PDict (ic_context q)),
      (''evaluate'', PBool (ic_evaluate q))] @ ic_extra q"

record incident_bulk_create_request =
  ib_incidents :: "incident_create_request list"
  ib_evaluate :: bool

record create_rule_request =
  cq_ruleCode :: string
  cq_name :: string
  cq_description :: string
  cq_family :: string
  cq_familyOrder :: int
  cq_priorityWeight :: int
  cq_severityBand :: "string option"
  cq_contributionScore :: "int option"
  cq_conditions :: dict
  cq_exceptions :: "dict option"
  cq_conflictGroup :: "string option"
  cq_conflictsWith :: "string list"
  cq_isSuppressor :: bool
  cq_nonSuppressible :: bool
  cq_cooldownMinutes :: int
  cq_actions :: dict
  cq_mitigations :: dict
  cq_sequencing :: "dict option"
  cq_slaTarget :: "string option"
  cq_enabled :: bool

definition create_rule_fields :: "create_rule_request \<Rightarrow> dict" where
  "create_rule_fields q =
     [(''ruleCode'', PStr (cq_ruleCode q)), (''name'', PStr (cq_name q)), (''description'', PStr (cq_description q)),
      (''family'', PStr (cq_family q)), (''familyOrder'', PInt (cq_familyOrder q)),
      (''priorityWeight'', PInt (cq_priorityWeight q)), (''severityBand'', opt_val PStr (cq_severityBand q)),
      (''contributionScore'', opt_val PInt (cq_contributionScore q)), (''conditions'', PDict (cq_conditions q)),
      (''exceptions'', opt_val PDict (cq_exceptions q)), (''conflictGroup'', opt_val PStr (cq_conflictGroup q)),
      (''conflictsWith'', PList (map PStr (cq_conflictsWith q))), (''isSuppressor'', PBool (cq_isSuppressor q)),
      (''nonSuppressible'', PBool (cq_nonSuppressible q)), (''cooldownMinutes'', PInt (cq_cooldownMinutes q)),
      (''actions'', PDict (cq_actions q)), (''mitigations'', PDict (cq_mitigations q)),
      (''sequencing'', opt_val PDict (cq_sequencing q)), (''slaTarget'', opt_val PStr (cq_slaTarget q)),
      (''enabled'', PBool (cq_enabled q))]"

record update_rule_request =
  uq_name :: "string option"
  uq_description :: "string option"
  uq_family :: "string option"
  uq_familyOrder :: "int option"
  uq_priorityWeight :: "int option"
  uq_severityBand :: "string option"
  uq_contributionScore :: "int option"
  uq_conditions :: "dict option"
  uq_exceptions :: "dict option"
  uq_conflictGroup :: "string option"
  uq_conflictsWith :: "string list option"
  uq_isSuppressor :: "bool option"
  uq_nonSuppressible :: "bool option"
  uq_cooldownMinutes :: "int option"
  uq_actions :: "dict option"
  uq_mitigations :: "dict option"
  uq_sequencing :: "dict option"
  uq_slaTarget :: "string option"
  uq_enabled :: "bool option"

definition update_rule_fields :: "update_rule_request \<Rightarrow> dict" where
  "update_rule_fields q =
     [(''name'', opt_val PStr (uq_name q)), (''description'', opt_val PStr (uq_description q)),
      (''family'', opt_val PStr (uq_family q)), (''familyOrder'', opt_val PInt (uq_familyOrder q)),
      (''priorityWeight'', opt_val PInt (uq_priorityWeight q)), (''severityBand'', opt_val PStr (uq_severityBand q)),
      (''contributionScore'', opt_val PInt (uq_contributionScore q)), (''conditions'', opt_val PDict (uq_conditions q)),
      (''exceptions'', opt_val PDict (uq_exceptions q)), (''conflictGroup'', opt_val PStr (uq_conflictGroup q)),
      (''conflictsWith'', opt_val (\<lambda>xs. PList (map PStr xs)) (uq_conflictsWith q)),
      (''isSuppressor'', opt_val PBool (uq_isSuppressor q)), (''nonSuppressible'', opt_val PBool (uq_nonSuppressible q)),
      (''cooldownMinutes'', opt_val PInt (uq_cooldownMinutes q)), (''actions'', opt_val PDict (uq_actions q)),
      (''mitigations'', opt_val PDict (uq_mitigations q)), (''sequencing'', opt_val PDict (uq_sequencing q)),
      (''slaTarget'', opt_val PStr (uq_slaTarget q)), (''enabled'', opt_val PBool (uq_enabled q))]"

record create_rule_pack_request =
  pq_name :: string
  pq_region :: "string option"
  pq_tenantId :: "string option"
  pq_rules :: "create_rule_request list"

record update_rule_pack_request =
  upq_name :: "string option"
  upq_region :: "string option"
  upq_tenantId :: "string option"
  upq_expectedLockVersion :: "int option"

record import_rule_pack_request =
  iq_name :: string
  iq_version :: "int option"
  iq_region :: "string option"
  iq_tenantId :: "string option"
  iq_rules :: "create_rule_request list"

definition import_fields :: "import_rule_pack_request \<Rightarrow> dict" where
  "import_fields q =
     [(''name'', PStr (iq_name q)), (''version'', opt_val PInt (iq_version q)), (''region'', opt_val PStr (iq_region q)),
      (''tenantId'', opt_val PStr (iq_tenantId q)), (''rules'', PList (map (\<lambda>r. PDict (create_rule_fields r)) (iq_rules q)))]"

text \<open>Rolling back, activating and deleting take the same two fields.\<close>

record reason_request =
  rq_reason :: "string option"
  rq_expectedLockVersion :: "int option"

record generate_rule_request =
  gq_description :: string
  gq_family :: "string option"
  gq_region :: "string option"
  gq_samplePayload :: "dict option"

record document_rule_request =
  dq_ruleId :: "string option"
  dq_rule :: "create_rule_request option"

record simulate_request =
  sq_incident :: incident_evaluate_request
  sq_pack :: pack_reference
  sq_region :: "string option"
  sq_tenantId :: "string option"

record replay_simulation_request =
  rsq_incidentId :: string
  rsq_pack :: pack_reference

record compare_rule_packs_request =
  cpq_incidentIds :: "string list"
  cpq_incidents :: "incident_evaluate_request list"
  cpq_baseline :: pack_reference
  cpq_candidate :: pack_reference
  cpq_region :: "string option"
  cpq_tenantId :: "string option"

record bulk_evaluate_request =
  beq_incidents :: "incident_evaluate_request list"
  beq_persist :: bool
  beq_region :: "string option"
  beq_tenantId :: "string option"

section \<open>Responses\<close>

definition rejected_dict :: "rejected_rule_trace \<Rightarrow> dict" where
  "rejected_dict r = [(''rule_code'', PStr (rj_rule_code r)), (''name'', PStr (rj_name r)), (''reason'', PStr (rj_reason r))]"

definition suppression_dict :: "suppression \<Rightarrow> dict" where
  "suppression_dict s = [(''rule_code'', PStr (s_rule_code s)), (''field'', PStr (s_field s)), (''reason'', PStr (s_reason s))]"

definition constraint_dict :: "constraint \<Rightarrow> dict" where
  "constraint_dict c = [(''rule_code'', PStr (c_rule_code c)), (''name'', PStr (c_name c)), (''applied'', PDict (c_applied c))]"

definition optional_field :: "string \<Rightarrow> string option \<Rightarrow> dict" where
  "optional_field k v = (case v of None \<Rightarrow> [] | Some s \<Rightarrow> [(k, PStr s)])"

definition plan_step_dict :: "plan_step \<Rightarrow> dict" where
  "plan_step_dict s =
     [(''order'', PInt (ps_order s)), (''action'', ps_action s), (''type'', ps_type s)] @
     optional_field ''condition'' (ps_condition s) @ optional_field ''source'' (ps_source s)"

definition dicts :: "('a \<Rightarrow> dict) \<Rightarrow> 'a list \<Rightarrow> val" where
  "dicts f xs = PList (map (\<lambda>x. PDict (f x)) xs)"

definition decision_to_dict :: "decision \<Rightarrow> string option \<Rightarrow> dict" where
  "decision_to_dict d ai_explanation =
     [(''incidentId'', PStr (d_incident_id d)), (''priority'', d_priority d), (''riskScore'', PInt (d_risk_score d)),
      (''riskBand'', PStr (d_risk_band d)), (''decision'', PDict (d_actions d)), (''mitigations'', PDict (d_mitigations d)),
      (''executionPlan'', dicts plan_step_dict (d_execution_plan d)), (''matchedRules'', dicts trace_dict (d_matched_rules d)),
      (''rejectedRules'', dicts rejected_dict (d_rejected_rules d)),
      (''suppressedRules'', dicts suppression_dict (d_suppressed_rules d)),
      (''complianceConstraints'', dicts constraint_dict (d_compliance_constraints d)),
      (''confidenceScore'', PFloat (d_confidence_score d)), (''degradedContext'', PBool (d_degraded_context d)),
      (''aiExplanation'', opt_val PStr ai_explanation), (''explanation'', PStr (d_explanation d))]"

definition rule_to_dict :: "rule \<Rightarrow> dict" where
  "rule_to_dict r =
     [(''id'', opt_val PStr (rule_id r)), (''ruleCode'', PStr (rule_code r)), (''name'', PStr (rule_name r)),
      (''description'', PStr (rule_description r)), (''family'', PStr (family r)), (''familyOrder'', PInt (family_order r)),
      (''priorityWeight'', PInt (priority_weight r)), (''severityBand'', opt_val PStr (severity_band r)),
      (''contributionScore'', opt_val PInt (contribution_score r)), (''conditions'', conditions r),
      (''exceptions'', opt_val (\<lambda>t. t) (exceptions r)), (''conflictGroup'', opt_val PStr (conflict_group r)),
      (''conflictsWith'', PList (map PStr (conflicts_with r))), (''isSuppressor'', PBool (is_suppressor r)),
      (''nonSuppressible'', PBool (non_suppressible r)), (''cooldownMinutes'', PInt (cooldown_minutes r)),
      (''actions'', PDict (actions r)), (''mitigations'', PDict (mitigations r)),
      (''sequencing'', opt_val PDict (sequencing r)), (''slaTarget'', opt_val PStr (sla_target r)),
      (''ruleStatus'', PStr (rule_status r)), (''enabled'', PBool (enabled r))]"

type_synonym isoformat = "instant \<Rightarrow> string"

definition rule_pack_to_dict :: "isoformat \<Rightarrow> rule_pack \<Rightarrow> dict" where
  "rule_pack_to_dict isoformat p =
     [(''id'', opt_val PStr (pack_id p)), (''name'', PStr (pack_name p)), (''version'', PInt (version p)),
      (''status'', PStr (status p)), (''region'', opt_val PStr (region p)), (''tenantId'', opt_val PStr (tenant_id p)),
      (''parentVersion'', opt_val PInt (parent_version p)), (''createdBy'', PStr (created_by p)),
      (''ruleCount'', PInt (int (length (rules p)))),
      (''activatedAt'', opt_val (\<lambda>t. PStr (isoformat t)) (activated_at p)), (''lockVersion'', PInt (lock_version p))]"

definition incident_to_dict :: "isoformat \<Rightarrow> incident \<Rightarrow> decision option \<Rightarrow> string option \<Rightarrow> dict" where
  "incident_to_dict isoformat inc d ai_explanation =
     [(''incidentId'', PStr (incident_id inc)), (''status'', PStr (inc_status inc)), (''region'', opt_val PStr (inc_region inc)),
      (''tenantId'', opt_val PStr (inc_tenant inc)), (''payload'', PDict (payload inc)),
      (''createdAt'', opt_val (\<lambda>t. PStr (isoformat t)) (inc_created_at inc)),
      (''decision'', opt_val (\<lambda>x. PDict (decision_to_dict x ai_explanation)) d)]"

definition what_if_result_to_dict :: "decision \<times> dict \<Rightarrow> dict" where
  "what_if_result_to_dict r =
     [(''decision'', PDict (decision_to_dict (fst r) None)), (''rulePackUsed'', PDict (snd r)), (''persisted'', PBool False)]"

definition replay_result_to_dict :: "replay_result \<Rightarrow> dict" where
  "replay_result_to_dict r =
     [(''incidentId'', PStr (rr_incident_id r)),
      (''originalDecision'', opt_val (\<lambda>d. PDict (decision_to_dict d None)) (rr_original r)),
      (''replayedDecision'', PDict (decision_to_dict (rr_replayed r) None)), (''rulePackUsed'', PDict (rr_rule_pack_used r)),
      (''differs'', PBool (rr_differs r)), (''differences'', PList (map PStr (rr_differences r)))]"

definition pack_diff_dict :: "pack_diff \<Rightarrow> dict" where
  "pack_diff_dict d =
     [(''incidentId'', PStr (pd_incident_id d)), (''baselinePriority'', pd_baseline_priority d),
      (''candidatePriority'', pd_candidate_priority d), (''baselineDecision'', PDict (pd_baseline_decision d)),
      (''candidateDecision'', PDict (pd_candidate_decision d)), (''differs'', PBool (pd_differs d))]"

definition compare_result_to_dict :: "compare_result \<Rightarrow> dict" where
  "compare_result_to_dict r =
     [(''baseline'', PDict (cr_baseline r)), (''candidate'', PDict (cr_candidate r)),
      (''totalIncidents'', PInt (cr_total_incidents r)), (''differingCount'', PInt (cr_differing_count r)),
      (''diffs'', dicts pack_diff_dict (cr_diffs r))]"

end
