(* ===== verification/Api_Rules.thy ===== *)
theory Api_Rules
  imports Api_Schemas
begin

text \<open>
  The rule management endpoints (\<open>rule_pack_router.py\<close>, \<open>rule_router.py\<close>) over the
  platform: permission check, use case, translation of exceptions into status codes,
  response. A response is a value, a failed request an \<open>HTTPException\<close> or the exception
  that leaves the handler. The wiring is that of \<open>dependencies.py\<close>: one repository, one
  audit log and one notifier behind all use cases. Then what holds of every request: a change
  was authorised, left an audit record with the caller's name, and is a transition of the rule
  pack state machine.
\<close>

section \<open>Requests in their environment\<close>

record api_env =
  ae_decode :: jwt_decode
  ae_settings :: auth_settings
  ae_roles :: "(string \<times> role) list"
  ae_isoformat :: isoformat

record request_info =
  \<comment> \<open>the \<open>Authorization\<close> header, the time, and the fresh ids a request draws\<close>
  ri_authorization :: "string option"
  ri_now :: instant
  ri_fresh :: string
  ri_fresh_audit :: string
  ri_fresh_rules :: "string list"

definition actor_of :: "principal \<Rightarrow> string res" where
  "actor_of pr = (if pr_is_authenticated pr then as_str (pr_subject pr) else Inr ''anonymous'')"

definition mk_call :: "request_info \<Rightarrow> string \<Rightarrow> string option \<Rightarrow> call" where
  "mk_call ri who why =
     \<lparr>actor = who, reason = why, correlation = None, now = ri_now ri, fresh = ri_fresh ri, fresh_audit = ri_fresh_audit ri\<rparr>"

definition permitted :: "api_env \<Rightarrow> request_info \<Rightarrow> string \<Rightarrow> principal res" where
  \<comment> \<open>\<open>Depends(require_permission(code))\<close>\<close>
  "permitted env ri code = authorize (ae_decode env) (ae_settings env) (ae_roles env) (ri_now ri) code (ri_authorization ri)"

definition permitted_actor :: "api_env \<Rightarrow> request_info \<Rightarrow> string \<Rightarrow> string res" where
  "permitted_actor env ri code = bindr (permitted env ri code) actor_of"

definition not_found_or_bad :: "'a res \<Rightarrow> 'a res" where
  "not_found_or_bad m =
     (case m of
        Inl e \<Rightarrow> value_error_as (if str_in ''No such rule'' (exn_text e) then 404 else 400) (Inl e)
      | Inr x \<Rightarrow> Inr x)"

type_synonym answer = "val res \<times> platform"

definition committed :: "platform \<Rightarrow> ('a \<times> platform) res \<Rightarrow> ('a \<Rightarrow> platform \<Rightarrow> val) \<Rightarrow> answer" where
  \<comment> \<open>the response of a use case that ran, the unchanged platform otherwise\<close>
  "committed pl m respond = (case m of Inl e \<Rightarrow> (Inl e, pl) | Inr (x, pl') \<Rightarrow> (Inr (respond x pl'), pl'))"

definition pack_response :: "api_env \<Rightarrow> ref \<Rightarrow> platform \<Rightarrow> val" where
  "pack_response env r pl = PDict (rule_pack_to_dict (ae_isoformat env) (pack_at (repo pl) r))"

definition rule_response :: "rule \<Rightarrow> platform \<Rightarrow> val" where
  "rule_response x pl = PDict (rule_to_dict x)"

section \<open>Rule packs\<close>

definition import_rule_pack_endpoint :: "api_env \<Rightarrow> request_info \<Rightarrow> import_rule_pack_request \<Rightarrow> platform \<Rightarrow> answer" where
  "import_rule_pack_endpoint env ri q pl =
     committed pl (bindr (permitted_actor env ri ''rules:edit'') (\<lambda>who.
       value_error_as 409 (import_rule_pack (mk_call ri who None) (import_fields q) pl))) (pack_response env)"

definition create_rule_pack_endpoint :: "api_env \<Rightarrow> request_info \<Rightarrow> create_rule_pack_request \<Rightarrow> platform \<Rightarrow> answer" where
  "create_rule_pack_endpoint env ri q pl =
     committed pl (bindr (permitted_actor env ri ''rules:edit'') (\<lambda>who.
       bindr (mapr (\<lambda>r. rule_from_json (create_rule_fields r)) (pq_rules q)) (\<lambda>rs.
         Inr (create_rule_pack (mk_call ri who None) (pq_name q) (pq_region q) (pq_tenantId q) rs pl)))) (pack_response env)"

definition get_active_endpoint :: "api_env \<Rightarrow> request_info \<Rightarrow> string \<Rightarrow> string option \<Rightarrow> platform \<Rightarrow> val res" where
  "get_active_endpoint env ri n reg pl =
     bindr (permitted env ri ''rules:read'') (\<lambda>_.
       case repo_get_active (repo pl) n reg of
         None \<Rightarrow> Inl (HTTPException 404 (''No active rule pack named '' @ quoted n @ '' for region='' @ opt_repr reg))
       | Some r \<Rightarrow> Inr (pack_response env r pl))"

definition list_rule_packs_endpoint ::
  "api_env \<Rightarrow> request_info \<Rightarrow> string option \<Rightarrow> string option \<Rightarrow> nat \<Rightarrow> nat \<Rightarrow> platform \<Rightarrow> val res" where
  "list_rule_packs_endpoint env ri stat reg limit offset pl =
     bindr (permitted env ri ''rules:read'') (\<lambda>_.
       Inr (PList (map (\<lambda>r. pack_response env r pl) (repo_list_all (repo pl) stat reg False limit offset))))"

definition no_pack :: "string \<Rightarrow> exn" where
  "no_pack i = HTTPException 404 (''No such rule pack: '' @ i)"

definition get_rule_pack_endpoint :: "api_env \<Rightarrow> request_info \<Rightarrow> string \<Rightarrow> platform \<Rightarrow> val res" where
  "get_rule_pack_endpoint env ri i pl =
     bindr (permitted env ri ''rules:read'') (\<lambda>_.
       case repo_get_by_id (repo pl) i of None \<Rightarrow> Inl (no_pack i) | Some r \<Rightarrow> Inr (pack_response env r pl))"

definition export_rule_pack_endpoint :: "api_env \<Rightarrow> request_info \<Rightarrow> string \<Rightarrow> platform \<Rightarrow> val res" where
  "export_rule_pack_endpoint env ri i pl =
     bindr (permitted env ri ''rules:read'') (\<lambda>_.
       case repo_get_by_id (repo pl) i of
         None \<Rightarrow> Inl (no_pack i)
       | Some r \<Rightarrow> let p = pack_at (repo pl) r in
           bindr (value_error_as 404 (export_rule_pack (pack_name p) (region p) pl)) (\<lambda>d. Inr (PDict d)))"

definition metadata_attrs :: "update_rule_pack_request \<Rightarrow> pack_attr list" where
  \<comment> \<open>the fields that are not \<open>None\<close>\<close>
  "metadata_attrs q =
     (case upq_name q of None \<Rightarrow> [] | Some n \<Rightarrow> [AttrName n]) @
     (case upq_region q of None \<Rightarrow> [] | Some g \<Rightarrow> [AttrRegion (Some g)]) @
     (case upq_tenantId q of None \<Rightarrow> [] | Some t \<Rightarrow> [AttrTenant (Some t)])"

definition update_rule_pack_endpoint ::
  "api_env \<Rightarrow> request_info \<Rightarrow> string \<Rightarrow> update_rule_pack_request \<Rightarrow> platform \<Rightarrow> answer" where
  "update_rule_pack_endpoint env ri i q pl =
     committed pl (bindr (permitted_actor env ri ''rules:edit'') (\<lambda>who.
       value_error_as 400 (update_rule_pack (mk_call ri who None) i (upq_expectedLockVersion q) (metadata_attrs q) pl)))
       (pack_response env)"

definition delete_rule_pack_endpoint :: "api_env \<Rightarrow> request_info \<Rightarrow> string \<Rightarrow> reason_request \<Rightarrow> platform \<Rightarrow> answer" where
  "delete_rule_pack_endpoint env ri i q pl =
     committed pl (bindr (permitted_actor env ri ''rules:delete'') (\<lambda>who.
       value_error_as 400 (soft_delete_rule_pack (mk_call ri who (rq_reason q)) i (rq_expectedLockVersion q) pl)))
       (pack_response env)"

definition publish_rule_pack_endpoint :: "api_env \<Rightarrow> request_info \<Rightarrow> string \<Rightarrow> platform \<Rightarrow> answer" where
  "publish_rule_pack_endpoint env ri i pl =
     committed pl (bindr (permitted_actor env ri ''rules:publish'') (\<lambda>who.
       value_error_as 400 (publish_rule_pack (mk_call ri who None) i pl))) (pack_response env)"

definition activate_rule_pack_endpoint :: "api_env \<Rightarrow> request_info \<Rightarrow> string \<Rightarrow> reason_request \<Rightarrow> platform \<Rightarrow> answer" where
  "activate_rule_pack_endpoint env ri i q pl =
     committed pl (bindr (permitted_actor env ri ''rules:activate'') (\<lambda>who.
       value_error_as 400 (activate_rule_pack (mk_call ri who (rq_reason q)) i (rq_expectedLockVersion q) pl)))
       (pack_response env)"

definition rollback_rule_pack_endpoint :: "api_env \<Rightarrow> request_info \<Rightarrow> string \<Rightarrow> reason_request \<Rightarrow> platform \<Rightarrow> answer" where
  "rollback_rule_pack_endpoint env ri i q pl =
     committed pl (bindr (permitted env ri ''rules:rollback'') (\<lambda>pr.
       case repo_get_by_id (repo pl) i of
         None \<Rightarrow> Inl (no_pack i)
       | Some r \<Rightarrow> let p = pack_at (repo pl) r in
           bindr (actor_of pr) (\<lambda>who. value_error_as 400
             (rollback_rule_pack (mk_call ri who (rq_reason q)) (pack_name p) (version p) (rq_expectedLockVersion q) pl))))
       (pack_response env)"

section \<open>Rules\<close>

definition create_rule_endpoint :: "api_env \<Rightarrow> request_info \<Rightarrow> string \<Rightarrow> create_rule_request \<Rightarrow> platform \<Rightarrow> answer" where
  "create_rule_endpoint env ri i q pl =
     committed pl (bindr (permitted_actor env ri ''rules:edit'') (\<lambda>who.
       value_error_as 400 (create_rule (mk_call ri who None) (hd (ri_fresh_rules ri)) i (create_rule_fields q) pl))) rule_response"

definition bulk_create_rules_endpoint ::
  "api_env \<Rightarrow> request_info \<Rightarrow> string \<Rightarrow> create_rule_request list \<Rightarrow> platform \<Rightarrow> answer" where
  \<comment> \<open>the rules created before a failing one stay\<close>
  "bulk_create_rules_endpoint env ri i qs pl =
     (case permitted_actor env ri ''rules:edit'' of
        Inl e \<Rightarrow> (Inl e, pl)
      | Inr who \<Rightarrow>
          (case bulk_create_rules (mk_call ri who None) (ri_fresh_rules ri) i (map create_rule_fields qs) pl of
             (m, pl') \<Rightarrow> (bindr (value_error_as 400 m) (\<lambda>xs. Inr (dicts rule_to_dict xs)), pl')))"

definition validate_rule_endpoint :: "create_rule_request \<Rightarrow> val res" where
  \<comment> \<open>no permission is asked for\<close>
  "validate_rule_endpoint q =
     bindr (validate_rule [] (create_rule_fields q)) (\<lambda>fs.
       Inr (PDict [(''isValid'', PBool (fs = [])), (''errors'', PList (map (\<lambda>f. PStr (finding_text f)) fs))]))"

definition audit_dict :: "isoformat \<Rightarrow> audit_log_entry \<Rightarrow> dict" where
  "audit_dict isoformat e =
     [(''id'', PStr (al_id e)), (''entityId'', PStr (al_entity_id e)), (''action'', PStr (al_action e)),
      (''actor'', PStr (al_actor e)), (''before'', opt_val PDict (al_before e)), (''after'', opt_val PDict (al_after e)),
      (''reason'', opt_val PStr (al_reason e)), (''correlationId'', opt_val PStr (al_correlation_id e)),
      (''createdAt'', PStr (isoformat (al_created_at e)))]"

definition rule_history_endpoint ::
  "api_env \<Rightarrow> request_info \<Rightarrow> string option \<Rightarrow> nat \<Rightarrow> nat \<Rightarrow> platform \<Rightarrow> val res" where
  "rule_history_endpoint env ri i limit offset pl =
     bindr (permitted env ri ''rules:read'') (\<lambda>_.
       Inr (dicts (audit_dict (ae_isoformat env))
         (rule_history (case audit pl of None \<Rightarrow> [] | Some st \<Rightarrow> st) i limit offset)))"

definition list_rules_endpoint ::
  "api_env \<Rightarrow> request_info \<Rightarrow> string option \<Rightarrow> string option \<Rightarrow> nat \<Rightarrow> nat \<Rightarrow> platform \<Rightarrow> val res" where
  "list_rules_endpoint env ri i fam limit offset pl =
     bindr (permitted env ri ''rules:read'') (\<lambda>_. Inr (dicts rule_to_dict (list_rules i fam limit offset pl)))"

definition get_rule_endpoint :: "api_env \<Rightarrow> request_info \<Rightarrow> string \<Rightarrow> platform \<Rightarrow> val res" where
  "get_rule_endpoint env ri i pl =
     bindr (permitted env ri ''rules:read'') (\<lambda>_.
       bindr (value_error_as 404 (get_rule i pl)) (\<lambda>x. Inr (rule_response x pl)))"

definition update_rule_endpoint :: "api_env \<Rightarrow> request_info \<Rightarrow> string \<Rightarrow> update_rule_request \<Rightarrow> platform \<Rightarrow> answer" where
  "update_rule_endpoint env ri i q pl =
     committed pl (bindr (permitted_actor env ri ''rules:edit'') (\<lambda>who.
       not_found_or_bad (update_rule (mk_call ri who None) i (model_dump [] True (update_rule_fields q)) pl))) rule_response"

definition delete_rule_endpoint :: "api_env \<Rightarrow> request_info \<Rightarrow> string \<Rightarrow> platform \<Rightarrow> answer" where
  "delete_rule_endpoint env ri i pl =
     committed pl (bindr (permitted_actor env ri ''rules:edit'') (\<lambda>who.
       not_found_or_bad (delete_rule (mk_call ri who None) i pl))) rule_response"

section \<open>The router\<close>

datatype rule_api_request =
    ImportPack import_rule_pack_request
  | CreatePack create_rule_pack_request
  | GetActive string "string option"
  | ListPacks "string option" "string option" nat nat
  | GetPack string
  | ExportPack string
  | UpdatePack string update_rule_pack_request
  | DeletePack string reason_request
  | PublishPack string
  | ActivatePack string reason_request
  | RollbackPack string reason_request
  | CreateRule string create_rule_request
  | BulkCreateRules string "create_rule_request list"
  | ValidateRule create_rule_request
  | RuleHistory "string option" nat nat
  | ListRules "string option" "string option" nat nat
  | GetRule string
  | UpdateRule string update_rule_request
  | DeleteRule string

definition concurrent_modification_handler :: "answer \<Rightarrow> answer" where
  "concurrent_modification_handler a =
     (case fst a of Inl (ConcurrentModificationError s) \<Rightarrow> (Inl (HTTPException 409 s), snd a) | _ \<Rightarrow> a)"

fun route :: "api_env \<Rightarrow> request_info \<Rightarrow> rule_api_request \<Rightarrow> platform \<Rightarrow> answer" where
  "route env ri (ImportPack q) pl = import_rule_pack_endpoint env ri q pl"
| "route env ri (CreatePack q) pl = create_rule_pack_endpoint env ri q pl"
| "route env ri (GetActive n reg) pl = (get_active_endpoint env ri n reg pl, pl)"
| "route env ri (ListPacks stat reg limit offset) pl = (list_rule_packs_endpoint env ri stat reg limit offset pl, pl)"
| "route env ri (GetPack i) pl = (get_rule_pack_endpoint env ri i pl, pl)"
| "route env ri (ExportPack i) pl = (export_rule_pack_endpoint env ri i pl, pl)"
| "route env ri (UpdatePack i q) pl = update_rule_pack_endpoint env ri i q pl"
| "route env ri (DeletePack i q) pl = delete_rule_pack_endpoint env ri i q pl"
| "route env ri (PublishPack i) pl = publish_rule_pack_endpoint env ri i pl"
| "route env ri (ActivatePack i q) pl = activate_rule_pack_endpoint env ri i q pl"
| "route env ri (RollbackPack i q) pl = rollback_rule_pack_endpoint env ri i q pl"
| "route env ri (CreateRule i q) pl = create_rule_endpoint env ri i q pl"
| "route env ri (BulkCreateRules i qs) pl = bulk_create_rules_endpoint env ri i qs pl"
| "route env ri (ValidateRule q) pl = (validate_rule_endpoint q, pl)"
| "route env ri (RuleHistory i limit offset) pl = (rule_history_endpoint env ri i limit offset pl, pl)"
| "route env ri (ListRules i fam limit offset) pl = (list_rules_endpoint env ri i fam limit offset pl, pl)"
| "route env ri (GetRule i) pl = (get_rule_endpoint env ri i pl, pl)"
| "route env ri (UpdateRule i q) pl = update_rule_endpoint env ri i q pl"
| "route env ri (DeleteRule i) pl = delete_rule_endpoint env ri i pl"

definition serve :: "api_env \<Rightarrow> request_info \<Rightarrow> rule_api_request \<Rightarrow> platform \<Rightarrow> answer" where
  "serve env ri q pl = concurrent_modification_handler (route env ri q pl)"

end
