(* ===== verification/Api_Incidents.thy ===== *)
theory Api_Incidents
  imports Api_Rules
begin

text \<open>
  The endpoints for incidents and decisions (\<open>incident_router.py\<close>, \<open>decision_router.py\<close>),
  simulation and bulk evaluation (\<open>simulation_router.py\<close>) and AI assistance
  (\<open>ai_router.py\<close>). A service bundles what \<open>dependencies.py\<close> wires together. Then what a
  narration by an AI provider can change in a response, and where the endpoints that claim
  to run the same pipeline agree and where they do not.
\<close>

section \<open>The service\<close>

record service =
  sv_evaluator :: evaluator_setup
  sv_ai :: ai_provider
  sv_ai_name :: string
  sv_max_compare :: int
  sv_max_bulk :: int

definition incident_from_request :: "incident_evaluate_request \<Rightarrow> incident" where
  "incident_from_request q =
     new_incident (er_incidentId q)
       (without_keys [''incidentId''] (model_dump [''context'', ''degradedContext''] True (evaluate_request_fields q)))
       (case er_context q of None \<Rightarrow> [] | Some c \<Rightarrow> c) (er_degradedContext q = Some True)"

definition narrate :: "ai_provider \<Rightarrow> bool \<Rightarrow> decision \<Rightarrow> string option" where
  \<comment> \<open>the narration, or nothing when it was not asked for or the provider raised\<close>
  "narrate ai explain d =
     (if explain then case explain_decision_ai ai d of Inr s \<Rightarrow> Some s | Inl _ \<Rightarrow> None else None)"

section \<open>Incidents\<close>

definition evaluate_incident_endpoint ::
  "api_env \<Rightarrow> service \<Rightarrow> request_info \<Rightarrow> incident_evaluate_request \<Rightarrow> bool \<Rightarrow> decision_store \<Rightarrow> dict res \<times> decision_store option" where
  "evaluate_incident_endpoint env sv ri q explain ds =
     (case permitted env ri ''incidents:evaluate'' of
        Inl e \<Rightarrow> (Inl e, Some ds)
      | Inr _ \<Rightarrow>
          (case evaluate_incident (sv_evaluator sv) (ri_now ri) (incident_from_request q) None None (Some ds) of
             (m, _, ds') \<Rightarrow> (bindr m (\<lambda>d. Inr (decision_to_dict d (narrate (sv_ai sv) explain d))), ds')))"

definition any_error_as :: "nat \<Rightarrow> 'a res \<Rightarrow> 'a res" where
  \<comment> \<open>\<open>except Exception as exc: raise HTTPException(code, str(exc))\<close>\<close>
  "any_error_as code m = (case m of Inl e \<Rightarrow> Inl (HTTPException code (exn_text e)) | Inr x \<Rightarrow> Inr x)"

definition created_payload :: "incident_create_request \<Rightarrow> dict" where
  "created_payload q =
     model_dump [''incidentId'', ''region'', ''tenantId'', ''context'', ''evaluate''] True (create_request_fields q)"

definition create_incident_endpoint ::
  "api_env \<Rightarrow> service \<Rightarrow> request_info \<Rightarrow> incident_create_request \<Rightarrow> incident_store \<Rightarrow> decision_store
    \<Rightarrow> dict res \<times> incident_store \<times> decision_store option" where
  "create_incident_endpoint env sv ri q is ds =
     (case permitted env ri ''incidents:create'' of
        Inl e \<Rightarrow> (Inl e, is, Some ds)
      | Inr _ \<Rightarrow>
          (case create_incident (sv_evaluator sv) (ri_now ri) (ic_incidentId q) (created_payload q)
                  (ic_region q) (ic_tenantId q) (ic_context q) (ic_evaluate q) is (Some ds) of
             (m, is', ds') \<Rightarrow>
               (bindr (any_error_as 422 m) (\<lambda>(inc, d). Inr (incident_to_dict (ae_isoformat env) inc d None)), is', ds')))"

definition bulk_create_incidents_endpoint ::
  "api_env \<Rightarrow> service \<Rightarrow> request_info \<Rightarrow> instant list \<Rightarrow> incident_bulk_create_request \<Rightarrow> bool \<Rightarrow> incident_store \<Rightarrow> decision_store
    \<Rightarrow> dict list res \<times> incident_store \<times> decision_store option" where
  \<comment> \<open>one instant per incident\<close>
  "bulk_create_incidents_endpoint env sv ri nows q explain is ds =
     (case permitted env ri ''incidents:create'' of
        Inl e \<Rightarrow> (Inl e, is, Some ds)
      | Inr _ \<Rightarrow>
          (case bulk_create_incidents (sv_evaluator sv) nows (ib_evaluate q) (map create_request_fields (ib_incidents q)) is (Some ds) of
             (m, is', ds') \<Rightarrow>
               (bindr m (\<lambda>rs. Inr (map (\<lambda>(inc, d). incident_to_dict (ae_isoformat env) inc d
                  (case d of None \<Rightarrow> None | Some x \<Rightarrow> narrate (sv_ai sv) explain x)) rs)), is', ds')))"

definition get_incident_endpoint :: "api_env \<Rightarrow> request_info \<Rightarrow> string \<Rightarrow> incident_store \<Rightarrow> dict res" where
  "get_incident_endpoint env ri i is =
     bindr (permitted env ri ''incidents:read'') (\<lambda>_.
       bindr (value_error_as 404 (get_incident is i)) (\<lambda>inc. Inr (incident_to_dict (ae_isoformat env) inc None None)))"

definition list_incidents_endpoint ::
  "api_env \<Rightarrow> request_info \<Rightarrow> string option \<Rightarrow> nat \<Rightarrow> nat \<Rightarrow> incident_store \<Rightarrow> dict list res" where
  "list_incidents_endpoint env ri stat limit offset is =
     bindr (permitted env ri ''incidents:read'') (\<lambda>_.
       Inr (map (\<lambda>inc. incident_to_dict (ae_isoformat env) inc None None) (list_incidents is stat limit offset)))"

section \<open>Decisions\<close>

definition decision_distribution_endpoint :: "api_env \<Rightarrow> request_info \<Rightarrow> nat \<Rightarrow> decision_store \<Rightarrow> distribution_result res" where
  \<comment> \<open>the record whose fields the response lists\<close>
  "decision_distribution_endpoint env ri limit ds =
     bindr (permitted env ri ''decisions:read'') (\<lambda>_. decision_distribution ds limit)"

definition get_decision_endpoint :: "api_env \<Rightarrow> request_info \<Rightarrow> string \<Rightarrow> decision_store \<Rightarrow> dict res" where
  "get_decision_endpoint env ri i ds =
     bindr (permitted env ri ''decisions:read'') (\<lambda>_.
       case decision_get ds i of
         None \<Rightarrow> Inl (HTTPException 404 (''No decision found for incident '' @ quoted i))
       | Some d \<Rightarrow> Inr (decision_to_dict d None))"

definition get_decision_history_endpoint :: "api_env \<Rightarrow> request_info \<Rightarrow> string \<Rightarrow> decision_store \<Rightarrow> dict list res" where
  "get_decision_history_endpoint env ri i ds =
     bindr (permitted env ri ''decisions:read'') (\<lambda>_.
       let h = decision_list_by_incident ds i in
       if h = [] then Inl (HTTPException 404 (''No decisions found for incident '' @ quoted i))
       else Inr (map (\<lambda>d. decision_to_dict d None) h))"

section \<open>Simulation and bulk evaluation\<close>

definition simulate_endpoint :: "api_env \<Rightarrow> service \<Rightarrow> request_info \<Rightarrow> simulate_request \<Rightarrow> pack_repo \<Rightarrow> dict res" where
  "simulate_endpoint env sv ri q rp =
     bindr (permitted env ri ''simulation:run'') (\<lambda>_.
       bindr (value_error_as 400 (what_if (ev_source (sv_evaluator sv)) (Some rp) (ev_matrix (sv_evaluator sv)) (ri_now ri)
                (incident_from_request (sq_incident q)) (sq_pack q) (sq_region q) (sq_tenantId q)))
         (\<lambda>r. Inr (what_if_result_to_dict r)))"

definition replay_endpoint ::
  "api_env \<Rightarrow> service \<Rightarrow> request_info \<Rightarrow> replay_simulation_request \<Rightarrow> pack_repo \<Rightarrow> incident_store \<Rightarrow> decision_store \<Rightarrow> dict res" where
  "replay_endpoint env sv ri q rp is ds =
     bindr (permitted env ri ''simulation:run'') (\<lambda>_.
       bindr (value_error_as 404 (replay_simulation (ev_source (sv_evaluator sv)) (Some rp) (ev_matrix (sv_evaluator sv)) is ds
                (ri_now ri) (rsq_incidentId q) (rsq_pack q) None None))
         (\<lambda>r. Inr (replay_result_to_dict r)))"

definition compare_endpoint ::
  "api_env \<Rightarrow> service \<Rightarrow> request_info \<Rightarrow> compare_rule_packs_request \<Rightarrow> pack_repo \<Rightarrow> incident_store \<Rightarrow> dict res" where
  "compare_endpoint env sv ri q rp is =
     bindr (permitted env ri ''simulation:run'') (\<lambda>_.
       bindr (value_error_as 400 (compare_rule_packs (ev_source (sv_evaluator sv)) (Some rp) (ev_matrix (sv_evaluator sv))
                (sv_max_compare sv) is (ri_now ri) (cpq_incidentIds q) (map incident_from_request (cpq_incidents q))
                (cpq_baseline q) (cpq_candidate q) (cpq_region q) (cpq_tenantId q)))
         (\<lambda>r. Inr (compare_result_to_dict r)))"

definition bulk_evaluate_endpoint ::
  "api_env \<Rightarrow> service \<Rightarrow> request_info \<Rightarrow> instant list \<Rightarrow> fl \<Rightarrow> bulk_evaluate_request \<Rightarrow> decision_store
    \<Rightarrow> (bulk_result \<times> decision_store) res" where
  \<comment> \<open>one instant per incident, the elapsed seconds; without \<open>persist\<close> the use case has no store\<close>
  "bulk_evaluate_endpoint env sv ri nows elapsed q ds =
     bindr (permitted env ri ''incidents:evaluate'') (\<lambda>_.
       bindr (value_error_as 422 (bulk_evaluate (sv_evaluator sv) (sv_max_bulk sv) (beq_region q) (beq_tenantId q) elapsed
                (zip nows (map (\<lambda>i. model_dump [] True (evaluate_request_fields i)) (beq_incidents q)))
                (if beq_persist q then Some ds else None)))
         (\<lambda>(r, ds'). Inr (r, case ds' of Some s \<Rightarrow> s | None \<Rightarrow> ds)))"

section \<open>AI assistance\<close>

definition provider_error :: "'a res \<Rightarrow> 'a res" where
  \<comment> \<open>\<open>except AIProviderError\<close>\<close>
  "provider_error m =
     (case m of Inl (AIProviderError s) \<Rightarrow> Inl (HTTPException 502 (''AI provider error: '' @ s)) | _ \<Rightarrow> m)"

definition generate_rule_endpoint :: "api_env \<Rightarrow> service \<Rightarrow> request_info \<Rightarrow> generate_rule_request \<Rightarrow> dict res" where
  "generate_rule_endpoint env sv ri q =
     bindr (permitted env ri ''rules:edit'') (\<lambda>_.
       bindr (value_error_as 400 (provider_error (generate_rule_from_description (sv_ai sv) [] (gq_description q) (gq_family q)
                (gq_region q) (gq_samplePayload q)))) (\<lambda>(draft, fs).
         Inr [(''rule'', PDict draft), (''isValid'', PBool (fs = [])),
              (''validationErrors'', PList (map (\<lambda>f. PStr (finding_text f)) fs)), (''aiProvider'', PStr (sv_ai_name sv))]))"

definition rule_to_document :: "document_rule_request \<Rightarrow> platform \<Rightarrow> dict res" where
  "rule_to_document q pl =
     (case dq_ruleId q of
        Some i \<Rightarrow>
          if i \<noteq> [] then bindr (value_error_as 404 (get_rule i pl)) (\<lambda>x. Inr (rule_to_dict x))
          else (case dq_rule q of Some r \<Rightarrow> Inr (create_rule_fields r)
                | None \<Rightarrow> Inl (HTTPException 400 (''Provide either '' @ quoted ''ruleId'' @ '' or '' @ quoted ''rule'')))
      | None \<Rightarrow>
          (case dq_rule q of Some r \<Rightarrow> Inr (create_rule_fields r)
           | None \<Rightarrow> Inl (HTTPException 400 (''Provide either '' @ quoted ''ruleId'' @ '' or '' @ quoted ''rule''))))"

definition document_rule_endpoint :: "api_env \<Rightarrow> service \<Rightarrow> request_info \<Rightarrow> document_rule_request \<Rightarrow> platform \<Rightarrow> dict res" where
  "document_rule_endpoint env sv ri q pl =
     bindr (permitted env ri ''rules:read'') (\<lambda>_.
       bindr (rule_to_document q pl) (\<lambda>r.
       bindr (provider_error (document_rule_use_case (sv_ai sv) r)) (\<lambda>s.
         Inr [(''documentation'', PStr s), (''aiProvider'', PStr (sv_ai_name sv))])))"

definition explain_decision_endpoint :: "api_env \<Rightarrow> service \<Rightarrow> request_info \<Rightarrow> string \<Rightarrow> decision_store \<Rightarrow> dict res" where
  "explain_decision_endpoint env sv ri i ds =
     bindr (permitted env ri ''decisions:read'') (\<lambda>_.
       case decision_get ds i of
         None \<Rightarrow> Inl (HTTPException 404 (''No decision found for incident '' @ quoted i))
       | Some d \<Rightarrow> bindr (provider_error (explain_decision_ai (sv_ai sv) d)) (\<lambda>s.
           Inr [(''incidentId'', PStr i), (''deterministicExplanation'', PStr (d_explanation d)),
                (''aiExplanation'', PStr s), (''aiProvider'', PStr (sv_ai_name sv))]))"

end
