(* ===== verification/Ai_Providers.thy ===== *)
theory Ai_Providers
  imports Api_Incidents App_Settings
begin

text \<open>
  The providers that call a language model (\<open>infrastructure/ai\<close>): the prompts, the
  extraction of a JSON object from an answer, the two HTTP providers and the factory. What the
  HTTP client returns for a request and what the JSON decoder makes of a text are parameters.
  Then what the AI endpoints answer when the model or the network misbehaves.
\<close>

definition newline :: string where
  "newline = [CHR 0x0A]"

section \<open>Prompts\<close>

definition rule_generation_system_prompt :: string where
  \<open>rule_generation_system_prompt = join_with newline
     [''You are a rule-authoring assistant for a telecom network incident decision automation platform. You translate '' @
       ''a plain-language rule description into a single JSON object -- and ONLY a JSON object, no prose, no markdown '' @
       ''fences -- matching exactly this shape:'',
      '''',
      ''{'',
      ''  "ruleCode": "string, short unique code, e.g. R201",'',
      ''  "name": "string, short human title",'',
      ''  "description": "string, one sentence",'',
      ''  "family": "one of: SAFETY_REGULATORY, NETWORK_IMPACT, CUSTOMER_VALUE, TEMPORAL, OPERATIONAL_FEASIBILITY, '' @
       ''REPETITION_ESCALATION, SUPPRESSION, COMPETITIVE_RESILIENCE, COMPLIANCE",'',
      ''  "familyOrder": integer 1-9 (evaluation order within its family, lower = earlier),'',
      ''  "priorityWeight": integer 0-100 (higher = more influence on priority),'',
      ''  "severityBand": "Critical" | "High" | "Medium" | "Low" | null,'',
      ''  "contributionScore": integer or null (secondary risk-score contribution, not the priority driver),'',
      ''  "conditions": a JsonLogic-style condition tree, e.g. {"and": [{">": [{"var": "affectedUsers"}, 1000]}, '' @
       ''{"==": [{"var": "region"}, "Delhi"]}]}. Supported operators include ==, !=, >, <, >=, <=, and, or, in, '' @
       ''contains, in_holiday_period. Reference incoming fields with {"var": "fieldName"}.'',
      ''  "conflictsWith": array of other ruleCode strings this rule conflicts with, or [],'',
      ''  "actions": object of action fields this rule sets when it fires, e.g. {"priority": "High", '' @
       ''"dispatchEngineer": true},'',
      ''  "cooldownMinutes": integer, default 0'',
      ''}'',
      '''',
      ''Only ever emit the JSON object. If the description is too vague to produce a specific conditions tree, make a '' @
       ''reasonable, clearly-conservative assumption and note it is an assumption in the "description" field -- never '' @
       ''leave "conditions" empty or invented from nothing coherent.'']\<close>

definition rule_documentation_system_prompt :: string where
  \<open>rule_documentation_system_prompt = join_with newline
     [''You are documenting a business rule for a telecom NOC decision-automation rule catalog. Given a rule's JSON '' @
       ''definition, write 2-4 plain-language sentences a non-technical stakeholder (not a rules engineer) could read '' @
       ''to understand: what triggers this rule, what it does when triggered, and why it likely exists. Do not restate '' @
       ''the raw JSON. No markdown, no headers -- plain prose only.'']\<close>

definition decision_explanation_system_prompt :: string where
  \<open>decision_explanation_system_prompt = join_with newline
     [''You are explaining an already-finalized, deterministic automated decision to a non-technical reader (e.g. a '' @
       ''customer service representative), based only on the structured facts provided. You are NOT deciding anything '' @
       ''-- the decision has already been made by a separate, deterministic rules engine; your only job is to narrate '' @
       ''it clearly in 2-4 sentences. Do not suggest changing the decision, do not invent facts not present in the '' @
       ''input, and do not use rule codes or engineering jargon -- write for someone unfamiliar with the system.'']\<close>


definition rule_generation_user_prompt :: "string \<Rightarrow> dict \<Rightarrow> string" where
  "rule_generation_user_prompt description context =
     join_with newline (concat
       [[''Rule description: '' @ description],
        if py_bool (get_none context ''family'')
        then [''Preferred family: '' @ py_str (get_none context ''family'')] else [],
        if py_bool (get_none context ''region'')
        then [''Region scope: '' @ py_str (get_none context ''region'')] else [],
        if py_bool (get_none context ''samplePayload'')
        then [''Example incident payload this rule should consider: '' @ py_str (get_none context ''samplePayload'')]
        else []])"

definition rule_documentation_user_prompt :: "dict \<Rightarrow> string" where
  "rule_documentation_user_prompt r = ''Rule JSON:'' @ newline @ py_str (PDict r)"

definition decision_explanation_user_prompt :: "dict \<Rightarrow> string" where
  "decision_explanation_user_prompt facts = ''Decision facts:'' @ newline @ py_str (PDict facts)"

section \<open>The JSON object of an answer\<close>

text \<open>What the decoder makes of a text; \<open>Malformed\<close> is a \<open>JSONDecodeError\<close> with its message.\<close>

datatype json_reading = Parsed val | Malformed string | Unreadable exn

text \<open>
  \<open>re.sub\<close> of \<open>^```(?:json)?|```$\<close>, where \<open>^\<close> and \<open>$\<close> match at every line: a fence at
  the start of a line goes with the word after it, a fence at the end of a line goes.
\<close>

definition fence :: string where
  "fence = ''```''"

definition ends_line :: "string \<Rightarrow> bool" where
  "ends_line s = (s = [] \<or> hd s = CHR 0x0A)"

function strip_fences :: "bool \<Rightarrow> string \<Rightarrow> string" where
  \<comment> \<open>whether the text starts a line\<close>
  "strip_fences bol s =
     (case s of
        [] \<Rightarrow> []
      | c # t \<Rightarrow>
          if bol \<and> prefix (fence @ ''json'') s then strip_fences False (drop 7 s)
          else if prefix fence s \<and> (bol \<or> ends_line (drop 3 s)) then strip_fences False (drop 3 s)
          else c # strip_fences (c = CHR 0x0A) t)"
  by pat_completeness auto
termination
  by (relation "measure (\<lambda>(_, s). length s)") (auto simp: fence_def)

declare strip_fences.simps [simp del]

definition braced_part :: "string \<Rightarrow> string option" where
  \<comment> \<open>\<open>re.search\<close> of an opening brace up to the last closing one\<close>
  "braced_part s =
     (let t = dropWhile (\<lambda>c. c \<noteq> CHR ''{'') s; u = dropWhile (\<lambda>c. c \<noteq> CHR ''}'') (rev t)
      in if u = [] then None else Some (rev u))"

definition extract_json_object :: "(string \<Rightarrow> json_reading) \<Rightarrow> val \<Rightarrow> val res" where
  \<comment> \<open>an answer that is not a text has no \<open>strip\<close>\<close>
  "extract_json_object read v =
     (case v of
        PStr s \<Rightarrow>
          (let t = py_strip (strip_fences True (py_strip s)) in
           case read t of
             Parsed x \<Rightarrow> Inr x
           | Unreadable e \<Rightarrow> Inl e
           | Malformed _ \<Rightarrow>
               (case braced_part t of
                  None \<Rightarrow> Inl (AIProviderError (''AI response did not contain a parseable JSON object: '' @ str_repr (take 200 s)))
                | Some u \<Rightarrow>
                    (case read u of
                       Parsed x \<Rightarrow> Inr x
                     | Unreadable e \<Rightarrow> Inl e
                     | Malformed m \<Rightarrow> Inl (AIProviderError (''AI response JSON was malformed: '' @ m)))))
      | _ \<Rightarrow> Inl AttributeError)"

section \<open>Calling a model\<close>

record http_request =
  hr_url :: string
  hr_params :: "(string \<times> string) list"
  hr_headers :: "(string \<times> string) list"
  hr_json :: val

text \<open>
  What a request comes to: a timeout, another error of the client, an exception that is none
  of its errors (a malformed URL), or a response with its status and body.
\<close>

datatype http_reply = Timed_Out | Transport_Error string | Other_Failure exn | Reply int string

record llm_world =
  lw_http :: "http_request \<Rightarrow> http_reply"
  lw_read :: "string \<Rightarrow> json_reading"

record llm_config =
  lc_base_url :: string
  lc_api_key :: string
  lc_model :: string
  lc_timeout_seconds :: fl

definition new_llm_config :: "string \<Rightarrow> string \<Rightarrow> string \<Rightarrow> fl \<Rightarrow> llm_config" where
  "new_llm_config url key model timeout =
     \<lparr>lc_base_url = rev (dropWhile (\<lambda>c. c = CHR ''/'') (rev url)), lc_api_key = key, lc_model = model,
      lc_timeout_seconds = timeout\<rparr>"

definition post_json :: "llm_world \<Rightarrow> llm_config \<Rightarrow> http_request \<Rightarrow> val res" where
  \<comment> \<open>the decoding of the body is outside the guarded block\<close>
  "post_json w c q =
     (case lw_http w q of
        Timed_Out \<Rightarrow> Inl (AIProviderError (''AI provider request timed out after '' @ fl_repr (lc_timeout_seconds c) @ ''s''))
      | Transport_Error m \<Rightarrow> Inl (AIProviderError (''AI provider request failed: '' @ m))
      | Other_Failure e \<Rightarrow> Inl e
      | Reply code body \<Rightarrow>
          if code < 200 \<or> 300 \<le> code
          then Inl (AIProviderError (''AI provider returned HTTP '' @ str_of_int code @ '': '' @ take 300 body))
          else (case lw_read w body of
                  Parsed v \<Rightarrow> Inr v
                | Malformed m \<Rightarrow> Inl (ValueError m)
                | Unreadable e \<Rightarrow> Inl e))"

definition py_key :: "string \<Rightarrow> val \<Rightarrow> val res" where
  \<comment> \<open>\<open>v[k]\<close> for a text \<open>k\<close>\<close>
  "py_key k v = (case v of PDict d \<Rightarrow> get_item d k | _ \<Rightarrow> Inl TypeError)"

definition first_of :: "val \<Rightarrow> val res" where
  "first_of v = py_index v 0"

fun is_lookup_failure :: "exn \<Rightarrow> bool" where
  "is_lookup_failure (KeyError _) = True"
| "is_lookup_failure IndexError = True"
| "is_lookup_failure TypeError = True"
| "is_lookup_failure _ = False"

definition shape_error :: "val \<Rightarrow> val res \<Rightarrow> val res" where
  \<comment> \<open>\<open>except (KeyError, IndexError, TypeError)\<close>\<close>
  "shape_error data m =
     (case m of
        Inl e \<Rightarrow>
          if is_lookup_failure e
          then Inl (AIProviderError (''Unexpected AI provider response shape: '' @ py_str data))
          else Inl e
      | Inr v \<Rightarrow> Inr v)"

definition stripped :: "val \<Rightarrow> string res" where
  "stripped v = (case v of PStr s \<Rightarrow> Inr (py_strip s) | _ \<Rightarrow> Inl AttributeError)"

section \<open>The OpenAI-compatible provider\<close>

definition chat_message :: "string \<Rightarrow> string \<Rightarrow> val" where
  "chat_message role t = PDict [(''role'', PStr role), (''content'', PStr t)]"

definition openai_payload :: "llm_config \<Rightarrow> string \<Rightarrow> string \<Rightarrow> bool \<Rightarrow> val" where
  "openai_payload c system user json_mode =
     PDict ([(''model'', PStr (lc_model c)),
             (''messages'', PList [chat_message ''system'' system, chat_message ''user'' user]),
             (''temperature'', PFloat (rnd (1 / 5)))] @
            (if json_mode then [(''response_format'', PDict [(''type'', PStr ''json_object'')])] else []))"

definition openai_request :: "llm_config \<Rightarrow> string \<Rightarrow> string \<Rightarrow> bool \<Rightarrow> http_request" where
  "openai_request c system user json_mode =
     \<lparr>hr_url = lc_base_url c @ ''/chat/completions'', hr_params = [],
      hr_headers = [(''Authorization'', ''Bearer '' @ lc_api_key c)], hr_json = openai_payload c system user json_mode\<rparr>"

definition openai_content :: "val \<Rightarrow> val res" where
  "openai_content data =
     bindr (py_key ''choices'' data) (\<lambda>v. bindr (first_of v) (\<lambda>v. bindr (py_key ''message'' v) (py_key ''content'')))"

definition openai_chat :: "llm_world \<Rightarrow> llm_config \<Rightarrow> string \<Rightarrow> string \<Rightarrow> bool \<Rightarrow> val res" where
  "openai_chat w c system user json_mode =
     bindr (post_json w c (openai_request c system user json_mode)) (\<lambda>data. shape_error data (openai_content data))"

definition openai_generate_rule :: "llm_world \<Rightarrow> llm_config \<Rightarrow> string \<Rightarrow> dict \<Rightarrow> val res" where
  "openai_generate_rule w c description context =
     bindr (openai_chat w c rule_generation_system_prompt (rule_generation_user_prompt description context) True)
       (extract_json_object (lw_read w))"

definition openai_document_rule :: "llm_world \<Rightarrow> llm_config \<Rightarrow> dict \<Rightarrow> string res" where
  "openai_document_rule w c r =
     bindr (openai_chat w c rule_documentation_system_prompt (rule_documentation_user_prompt r) False) stripped"

definition openai_explain_decision :: "llm_world \<Rightarrow> llm_config \<Rightarrow> dict \<Rightarrow> string res" where
  "openai_explain_decision w c facts =
     bindr (openai_chat w c decision_explanation_system_prompt (decision_explanation_user_prompt facts) False) stripped"

section \<open>The Gemini-compatible provider\<close>

definition parts_of :: "string \<Rightarrow> val" where
  "parts_of t = PList [PDict [(''text'', PStr t)]]"

definition gemini_payload :: "string \<Rightarrow> string \<Rightarrow> val" where
  "gemini_payload system user =
     PDict [(''systemInstruction'', PDict [(''parts'', parts_of system)]),
            (''contents'', PList [PDict [(''role'', PStr ''user''), (''parts'', parts_of user)]]),
            (''generationConfig'', PDict [(''temperature'', PFloat (rnd (1 / 5)))])]"

definition gemini_request :: "llm_config \<Rightarrow> string \<Rightarrow> string \<Rightarrow> http_request" where
  "gemini_request c system user =
     \<lparr>hr_url = lc_base_url c @ ''/models/'' @ lc_model c @ '':generateContent'', hr_params = [(''key'', lc_api_key c)],
      hr_headers = [], hr_json = gemini_payload system user\<rparr>"

definition gemini_content :: "val \<Rightarrow> val res" where
  "gemini_content data =
     bindr (py_key ''candidates'' data) (\<lambda>v. bindr (first_of v) (\<lambda>v. bindr (py_key ''content'' v) (\<lambda>v.
       bindr (py_key ''parts'' v) (\<lambda>v. bindr (first_of v) (py_key ''text'')))))"

definition gemini_generate :: "llm_world \<Rightarrow> llm_config \<Rightarrow> string \<Rightarrow> string \<Rightarrow> val res" where
  "gemini_generate w c system user =
     bindr (post_json w c (gemini_request c system user)) (\<lambda>data. shape_error data (gemini_content data))"

definition gemini_generate_rule :: "llm_world \<Rightarrow> llm_config \<Rightarrow> string \<Rightarrow> dict \<Rightarrow> val res" where
  "gemini_generate_rule w c description context =
     bindr (gemini_generate w c rule_generation_system_prompt (rule_generation_user_prompt description context))
       (extract_json_object (lw_read w))"

definition gemini_document_rule :: "llm_world \<Rightarrow> llm_config \<Rightarrow> dict \<Rightarrow> string res" where
  "gemini_document_rule w c r =
     bindr (gemini_generate w c rule_documentation_system_prompt (rule_documentation_user_prompt r)) stripped"

definition gemini_explain_decision :: "llm_world \<Rightarrow> llm_config \<Rightarrow> dict \<Rightarrow> string res" where
  "gemini_explain_decision w c facts =
     bindr (gemini_generate w c decision_explanation_system_prompt (decision_explanation_user_prompt facts)) stripped"

section \<open>The factory\<close>

definition as_draft :: "val \<Rightarrow> dict res" where
  \<comment> \<open>the first thing the use case does with a draft is \<open>setdefault\<close>\<close>
  "as_draft v = (case v of PDict d \<Rightarrow> Inr d | _ \<Rightarrow> Inl AttributeError)"

definition openai_provider :: "llm_world \<Rightarrow> llm_config \<Rightarrow> ai_provider" where
  "openai_provider w c =
     \<lparr>ai_generate_rule = (\<lambda>s d. bindr (openai_generate_rule w c s d) as_draft),
      ai_document_rule = openai_document_rule w c, ai_explain_decision = openai_explain_decision w c\<rparr>"

definition gemini_provider :: "llm_world \<Rightarrow> llm_config \<Rightarrow> ai_provider" where
  "gemini_provider w c =
     \<lparr>ai_generate_rule = (\<lambda>s d. bindr (gemini_generate_rule w c s d) as_draft),
      ai_document_rule = gemini_document_rule w c, ai_explain_decision = gemini_explain_decision w c\<rparr>"

definition settings_config :: "settings \<Rightarrow> llm_config" where
  "settings_config s = new_llm_config (ai_base_url s) (ai_api_key s) (ai_model s) (ai_timeout_seconds s)"

definition create_ai_provider :: "llm_world \<Rightarrow> settings \<Rightarrow> ai_provider" where
  \<comment> \<open>without the wrapper of the usage log\<close>
  "create_ai_provider w s =
     (case set_ai_provider s of
        Openai_Compatible \<Rightarrow> openai_provider w (settings_config s)
      | Gemini_Compatible \<Rightarrow> gemini_provider w (settings_config s)
      | Stub \<Rightarrow> stub_provider)"

section \<open>Answers with fences and prose\<close>

lemma code_char [simp]: "code_of CHR 0x0A = 10" "code_of CHR 0x0D = 13"
  by (simp_all add: code_of_def char_at_def)

lemma str_in_sublist: "str_in s t = sublist s t"
  by (induction t) (auto simp: sublist_Cons_right)

lemma no_fence_starts:
  assumes "\<not> str_in fence p" and "p = r @ u" and "u \<noteq> []" and "last p \<noteq> CHR ''`''"
  shows "\<not> prefix fence (u @ q)"
proof
  assume f: "prefix fence (u @ q)"
  have "\<not> prefix fence u" using assms(1,2) by (auto simp: str_in_sublist sublist_def prefix_def)
  then have "prefix u fence" using f by (metis prefix_append prefix_def prefix_same_cases)
  then have "set u \<subseteq> {CHR ''`''}" using set_mono_prefix by (fastforce simp: fence_def)
  moreover have "last p \<in> set u" using assms(2,3) by simp
  ultimately show False using assms(4) by blast
qed

lemma strip_fences_through:
  assumes "\<not> str_in fence p" and "p \<noteq> [] \<longrightarrow> last p \<noteq> CHR ''`''"
  shows "strip_fences b (p @ q) = p @ strip_fences (if p = [] then b else last p = CHR 0x0A) q"
proof -
  have "strip_fences b (u @ q) = u @ strip_fences (if u = [] then b else last u = CHR 0x0A) q" if "p = r @ u" for r u b
    using that
  proof (induction u arbitrary: r b)
    case (Cons c u)
    have nf: "\<not> prefix fence ((c # u) @ q)" using no_fence_starts [OF assms(1) Cons.prems] assms(2) Cons.prems by auto
    moreover have "\<not> prefix (fence @ ''json'') ((c # u) @ q)" using nf by (metis prefix_order.trans prefix_def)
    ultimately have "strip_fences b ((c # u) @ q) = c # strip_fences (c = CHR 0x0A) (u @ q)"
      by (subst strip_fences.simps) auto
    then show ?case using Cons.IH [of "r @ [c]" "c = CHR 0x0A"] Cons.prems by auto
  qed simp
  then show ?thesis by (metis append_Nil)
qed

lemma strip_fences_plain: "\<not> str_in fence p \<Longrightarrow> strip_fences b p = p"
proof (induction p arbitrary: b)
  case (Cons c p)
  then have "\<not> prefix fence (c # p)" "\<not> str_in fence p" by auto
  moreover have "\<not> prefix (fence @ ''json'') (c # p)" using calculation(1) by (metis prefix_order.trans prefix_def)
  ultimately show ?case using Cons.IH by (subst strip_fences.simps) auto
qed (simp add: strip_fences.simps)

definition bare_object :: "string \<Rightarrow> bool" where
  "bare_object doc = (doc \<noteq> [] \<and> hd doc = CHR ''{'' \<and> last doc = CHR ''}'' \<and> \<not> str_in fence doc)"

definition rstrip :: "string \<Rightarrow> string" where
  "rstrip s = rev (dropWhile is_space (rev s))"

lemma brace_not_space [simp]: "\<not> is_space CHR ''{''" "\<not> is_space CHR ''}''" "\<not> is_space CHR ''`''" "is_space (CHR 0x0A)"
  by (simp_all add: is_space_def code_of_def char_at_def)

lemma strip_around:
  assumes "doc \<noteq> []" and "\<not> is_space (hd doc)" and "\<not> is_space (last doc)"
  shows "py_strip (pre @ doc @ post) = dropWhile is_space pre @ doc @ rstrip post"
proof -
  have drop: "dropWhile is_space (a @ x # b) = dropWhile is_space a @ x # b" if "\<not> is_space x" for a b x
    using that by (induction a) auto
  obtain c u where u: "doc = c # u" "\<not> is_space c" using assms by (cases doc) auto
  obtain d v where v: "doc = v @ [d]" "\<not> is_space d" using assms by (cases doc rule: rev_cases) auto
  have "dropWhile is_space (pre @ doc @ post) = dropWhile is_space pre @ doc @ post"
    using drop [OF u(2)] u(1) by simp
  moreover have "dropWhile is_space (rev post @ rev doc @ rev w) = dropWhile is_space (rev post) @ rev doc @ rev w" for w
    using drop [OF v(2)] v(1) by simp
  ultimately show ?thesis by (simp add: py_strip_def rstrip_def)
qed

lemma braced_part_around:
  assumes "doc \<noteq> []" and "hd doc = CHR ''{''" and "last doc = CHR ''}''"
    and "CHR ''{'' \<notin> set a" and "CHR ''}'' \<notin> set b"
  shows "braced_part (a @ doc @ b) = Some doc"
proof -
  obtain u where u: "doc = CHR ''{'' # u" using assms(1,2) by (cases doc) auto
  obtain v where v: "doc = v @ [CHR ''}'']" using assms(1,3) by (cases doc rule: rev_cases) auto
  have "dropWhile (\<lambda>c. c \<noteq> CHR ''{'') (a @ doc @ b) = doc @ b"
    using assms(4) u by (subst dropWhile_append2) auto
  moreover have "dropWhile (\<lambda>c. c \<noteq> CHR ''}'') (rev b @ rev doc) = rev doc"
    using assms(5) v by (subst dropWhile_append2) auto
  moreover have "CHR ''}'' \<in> set doc" using v by simp
  ultimately show ?thesis using assms(1) by (simp add: braced_part_def Let_def)
qed

lemma rstrip_empty: "rstrip s = [] \<longleftrightarrow> (\<forall>c \<in> set s. is_space c)"
  by (auto simp: rstrip_def)

lemma rstrip_prefix: "\<exists>t. s = rstrip s @ t"
  by (metis rstrip_def rev_append rev_rev_ident takeWhile_dropWhile_id)

lemma lstrip_suffix: "\<exists>t. s = t @ dropWhile is_space s"
  by (metis takeWhile_dropWhile_id)


text \<open>A text of lines around the object, which uses no fence and no brace that would be in the way.\<close>

definition prose_before :: "string \<Rightarrow> bool" where
  "prose_before pre = (\<not> str_in fence pre \<and> CHR ''{'' \<notin> set pre \<and> (pre \<noteq> [] \<longrightarrow> last pre = CHR 0x0A))"

definition prose_after :: "string \<Rightarrow> bool" where
  "prose_after post = (\<not> str_in fence post \<and> CHR ''}'' \<notin> set post \<and> (post \<noteq> [] \<longrightarrow> hd post = CHR 0x0A))"

definition fenced :: "string \<Rightarrow> string \<Rightarrow> string" where
  "fenced word doc = fence @ word @ newline @ doc @ newline @ fence"

definition prose_refused :: "(string \<Rightarrow> json_reading) \<Rightarrow> string \<Rightarrow> string \<Rightarrow> bool" where
  \<comment> \<open>the decoder takes the object alone and not the lines around it\<close>
  "prose_refused read doc t = (py_strip t = doc \<or> (\<exists>m. read (py_strip t) = Malformed m))"

lemma prose_suffix: "prose_before (t @ u) \<Longrightarrow> prose_before u"
  by (auto simp: prose_before_def str_in_sublist sublist_append)

lemma prose_prefix: "prose_after (u @ t) \<Longrightarrow> prose_after u"
  by (auto simp: prose_after_def str_in_sublist sublist_append)

lemma lstrip_prose: "prose_before pre \<Longrightarrow> prose_before (dropWhile is_space pre)"
  using prose_suffix [of "takeWhile is_space pre" "dropWhile is_space pre"] by simp

lemma rstrip_prose:
  assumes "prose_after post"
  shows "prose_after (rstrip post)"
proof -
  obtain t where t: "post = rstrip post @ t" using rstrip_prefix by blast
  then have "prose_after (rstrip post @ t)" using assms by simp
  then show ?thesis by (rule prose_prefix)
qed

lemma dropWhile_again: "dropWhile P (dropWhile P s @ t) = dropWhile P (s @ t)"
  by (induction s) auto

lemma strip_twice:
  "dropWhile is_space (dropWhile is_space pre) = dropWhile is_space pre" "rstrip (rstrip post) = rstrip post"
  "dropWhile is_space (dropWhile is_space pre @ newline) = dropWhile is_space (pre @ newline)"
  "rstrip (newline @ rstrip post) = rstrip (newline @ post)"
  by (simp_all add: rstrip_def dropWhile_again dropWhile_idem)

lemma unfenced:
  assumes "bare_object doc" and "prose_before pre" and "prose_after post"
  shows "strip_fences True (pre @ doc @ post) = pre @ doc @ post"
proof -
  have "last pre \<noteq> CHR ''`''" "last doc \<noteq> CHR ''`''" "\<not> str_in fence pre" "\<not> str_in fence doc" "\<not> str_in fence post" if "pre \<noteq> []"
    using assms that by (auto simp: prose_before_def prose_after_def bare_object_def)
  moreover have "last doc \<noteq> CHR ''`''" "\<not> str_in fence doc" "\<not> str_in fence post" "\<not> str_in fence pre"
    using assms by (auto simp: prose_before_def prose_after_def bare_object_def)
  ultimately show ?thesis
    using strip_fences_through [of pre True "doc @ post"] strip_fences_through [of doc _ post] strip_fences_plain [of post] by auto
qed

lemma fences_removed:
  assumes "bare_object doc" and "prose_before pre" and "prose_after post" and "word = [] \<or> word = ''json''"
  shows "strip_fences True (pre @ fenced word doc @ post) = pre @ newline @ doc @ newline @ post"
proof -
  have d: "last doc \<noteq> CHR ''`''" "\<not> str_in fence doc" "doc \<noteq> []" "\<not> str_in fence post" "\<not> str_in fence pre" "pre \<noteq> [] \<longrightarrow> last pre = CHR 0x0A"
    using assms by (auto simp: prose_before_def prose_after_def bare_object_def)
  have closing: "strip_fences True (fence @ post) = post"
    using d(4) assms(3) strip_fences_plain [OF d(4)]
    by (subst strip_fences.simps) (cases post; auto simp: fence_def prose_after_def char_at_def)
  have nl: "strip_fences b (newline @ u) = newline @ strip_fences True u" for b u
    by (subst strip_fences.simps) (simp add: newline_def fence_def char_at_def)
  have opened: "strip_fences True (fence @ word @ newline @ u) = strip_fences False (newline @ u)" for u
    using assms(4) by (subst strip_fences.simps) (auto simp: fence_def newline_def char_at_def)
  have "strip_fences True (doc @ newline @ fence @ post) = doc @ newline @ post"
    using strip_fences_through [of doc True "newline @ fence @ post"] d(1,2) nl closing by simp
  then have "strip_fences True (fenced word doc @ post) = newline @ doc @ newline @ post"
    using opened nl by (simp add: fenced_def)
  then show ?thesis using strip_fences_through [of pre True "fenced word doc @ post"] d(5,6) by (auto simp: char_at_def)
qed

lemma found_after_stripping:
  assumes doc: "bare_object doc" "read doc = Parsed v"
    and brace: "CHR ''{'' \<notin> set pre" "CHR ''}'' \<notin> set post"
    and prose: "prose_refused read doc (pre @ doc @ post)"
    and t: "py_strip (strip_fences True (py_strip s)) = py_strip (pre @ doc @ post)"
  shows "extract_json_object read (PStr s) = Inr v"
proof -
  have d: "doc \<noteq> []" "hd doc = CHR ''{''" "last doc = CHR ''}''" using doc by (simp_all add: bare_object_def)
  then have around: "py_strip (pre @ doc @ post) = dropWhile is_space pre @ doc @ rstrip post" by (intro strip_around) auto
  show ?thesis
  proof (cases "py_strip (pre @ doc @ post) = doc")
    case True
    then show ?thesis using doc(2) t by (simp add: extract_json_object_def Let_def)
  next
    case False
    then obtain m where m: "read (py_strip (pre @ doc @ post)) = Malformed m" using prose by (auto simp: prose_refused_def)
    obtain x where x: "post = rstrip post @ x" using rstrip_prefix by blast
    have "CHR ''{'' \<notin> set (dropWhile is_space pre)" using brace(1) by (auto dest: set_dropWhileD)
    moreover have "CHR ''}'' \<notin> set (rstrip post)" using brace(2) by (subst (asm) x) simp
    ultimately have "braced_part (py_strip (pre @ doc @ post)) = Some doc"
      unfolding around by (intro braced_part_around d)
    then show ?thesis using doc(2) t m by (simp add: extract_json_object_def Let_def)
  qed
qed

text \<open>
  Property C28: the JSON object of an answer is found whether the model sends it bare or in a
  code fence, and whatever lines of prose it puts before and after.
\<close>
theorem answer_object_is_found:
  assumes doc: "bare_object doc" "read doc = Parsed v"
    and pre: "prose_before pre" and post: "prose_after post" and word: "word = [] \<or> word = ''json''"
    and prose: "prose_refused read doc (pre @ doc @ post)" "prose_refused read doc (pre @ newline @ doc @ newline @ post)"
  shows "extract_json_object read (PStr (pre @ doc @ post)) = Inr v \<and>
    extract_json_object read (PStr (pre @ fenced word doc @ post)) = Inr v"
proof
  let ?l = "dropWhile is_space pre" and ?r = "rstrip post"
  have d: "doc \<noteq> []" "\<not> is_space (hd doc)" "\<not> is_space (last doc)" using doc by (auto simp: bare_object_def)
  have f: "fenced word doc \<noteq> []" "\<not> is_space (hd (fenced word doc))" "\<not> is_space (last (fenced word doc))"
    by (auto simp: fenced_def fence_def)
  have brace: "CHR ''{'' \<notin> set pre" "CHR ''}'' \<notin> set post" using pre post by (auto simp: prose_before_def prose_after_def)
  note lr = lstrip_prose [OF pre] rstrip_prose [OF post]
  have "py_strip (strip_fences True (py_strip (pre @ doc @ post))) = py_strip (pre @ doc @ post)"
    by (simp add: strip_around [OF d] unfenced [OF doc(1) lr] strip_twice)
  then show "extract_json_object read (PStr (pre @ doc @ post)) = Inr v"
    by (rule found_after_stripping [OF doc brace prose(1)])
  have "py_strip (strip_fences True (py_strip (pre @ fenced word doc @ post))) = py_strip ((pre @ newline) @ doc @ (newline @ post))"
    using strip_around [OF d, of "?l @ newline" "newline @ ?r"] strip_around [OF d, of "pre @ newline" "newline @ post"]
    by (simp add: strip_around [OF f] fences_removed [OF doc(1) lr word] strip_twice)
  moreover have "CHR ''{'' \<notin> set (pre @ newline)" "CHR ''}'' \<notin> set (newline @ post)" using brace by (auto simp: newline_def)
  ultimately show "extract_json_object read (PStr (pre @ fenced word doc @ post)) = Inr v"
    using found_after_stripping [where read = read and pre = "pre @ newline" and post = "newline @ post", OF doc] prose(2) by simp
qed

text \<open>A decoder that reads one document, and an answer with a greeting.\<close>

definition w_draft_text :: string where
  "w_draft_text = CHR ''{'' # char_at 34 # ''ruleCode'' @ [char_at 34] @ '': '' @ [char_at 34] @ ''R7'' @ [char_at 34] @ ''}''"

definition w_reader :: "string \<Rightarrow> json_reading" where
  "w_reader t = (if t = w_draft_text then Parsed (PDict [(''ruleCode'', PStr ''R7'')]) else Malformed ''Expecting value'')"

lemma answer_object_is_found_witness:
  "extract_json_object w_reader (PStr (''Here is the rule:'' @ newline @ fenced ''json'' w_draft_text @ newline @ ''Enjoy!'')) =
     Inr (PDict [(''ruleCode'', PStr ''R7'')])"
proof -
  have "bare_object w_draft_text" by (simp add: bare_object_def w_draft_text_def fence_def char_at_def)
  moreover have "w_reader w_draft_text = Parsed (PDict [(''ruleCode'', PStr ''R7'')])" by (simp add: w_reader_def)
  moreover have "prose_before (''Here is the rule:'' @ newline)" "prose_after (newline @ ''Enjoy!'')"
    by (simp_all add: prose_before_def prose_after_def fence_def newline_def)
  moreover have "prose_refused w_reader w_draft_text t" for t by (simp add: prose_refused_def w_reader_def)
  ultimately show ?thesis
    using answer_object_is_found [of w_draft_text w_reader _ "''Here is the rule:'' @ newline" "newline @ ''Enjoy!''" "''json''"]
    by simp
qed

end
