(* ===== verification/Api_Properties.thy ===== *)
theory Api_Properties
  imports Api_Rules
begin

text \<open>
  What holds of every request to the rule management endpoints: changes are authorised,
  recorded and transitions of the state machine; only two permissions change the policy in
  force; a rule reads back as it was posted; no request crashes.
\<close>

section \<open>Changes are authorised and recorded\<close>

text \<open>The permission that each kind of transition is for.\<close>

fun kind_permission :: "kind \<Rightarrow> string" where
  "kind_permission KDelete = ''rules:delete''"
| "kind_permission KPublish = ''rules:publish''"
| "kind_permission KActivate = ''rules:activate''"
| "kind_permission KRollback = ''rules:rollback''"
| "kind_permission _ = ''rules:edit''"

definition records :: "string \<Rightarrow> platform \<Rightarrow> platform \<Rightarrow> bool" where
  \<comment> \<open>one more entry in the audit log, by the given actor\<close>
  "records who pl pl' \<longleftrightarrow> (\<exists>e. al_actor e = who \<and> audit pl' = map_option (audit_save e) (audit pl))"

text \<open>Sequences of authorised and recorded transitions.\<close>

inductive accounted :: "api_env \<Rightarrow> request_info \<Rightarrow> kind \<Rightarrow> platform \<Rightarrow> platform \<Rightarrow> bool" for env ri k where
  none: "accounted env ri k pl pl"
| one: "step k pl pl1 \<Longrightarrow> permitted_actor env ri (kind_permission k) = Inr who \<Longrightarrow> records who pl pl1 \<Longrightarrow>
    accounted env ri k pl1 pl2 \<Longrightarrow> accounted env ri k pl pl2"

lemma audit_write [simp]: "audit (write_audit e pl) = map_option (audit_save e) (audit pl)"
  by (simp add: write_audit_def)

lemma entry_actor [simp]: "al_actor (audit_entry c t i a b f w) = actor c"
  by (simp add: audit_entry_def)

lemma written [intro]: "actor c = who \<Longrightarrow> audit pl0 = audit pl \<Longrightarrow> records who pl (write_audit (audit_entry c t i a b f w) pl0)"
  by (auto simp: records_def intro!: exI [of _ "audit_entry c t i a b f w"])

lemma use_cases_record:
  "create_rule_pack c n reg ten rs pl = (r, pl') \<Longrightarrow> records (actor c) pl pl'"
  "import_rule_pack c d pl = Inr (r, pl') \<Longrightarrow> records (actor c) pl pl'"
  "update_rule_pack c i ex attrs pl = Inr (r, pl') \<Longrightarrow> records (actor c) pl pl'"
  "soft_delete_rule_pack c i ex pl = Inr (r, pl') \<Longrightarrow> records (actor c) pl pl'"
  "publish_rule_pack c i pl = Inr (r, pl') \<Longrightarrow> records (actor c) pl pl'"
  "activate_rule_pack c i ex pl = Inr (r, pl') \<Longrightarrow> records (actor c) pl pl'"
  "create_rule c f i d pl = Inr (x, pl') \<Longrightarrow> records (actor c) pl pl'"
  "update_rule c i d pl = Inr (x, pl') \<Longrightarrow> records (actor c) pl pl'"
  "delete_rule c i pl = Inr (x, pl') \<Longrightarrow> records (actor c) pl pl'"
  by (auto simp: create_rule_pack_def import_rule_pack_def save_imported_def update_rule_pack_def soft_delete_rule_pack_def
      publish_rule_pack_def activate_rule_pack_def create_rule_def update_rule_def delete_rule_def
      Let_def bindr_eq_Inr split_beta split: option.splits if_splits)

lemma rollback_records:
  assumes "rollback_rule_pack c n v ex pl = Inr (r, pl')"
  shows "records (actor c) pl pl'"
proof -
  obtain cr where cr: "repo_get (repo pl) n v = Some cr"
    using assms by (cases "repo_get (repo pl) n v") (simp_all add: rollback_rule_pack_def)
  obtain parent where parent: "parent_version (pack_at (repo pl) cr) = Some parent"
    using assms cr by (cases "parent_version (pack_at (repo pl) cr)") (simp_all add: rollback_rule_pack_def Let_def)
  obtain r' rp where a: "repo_activate (now c) n parent None (repo pl) = Inr (r', rp)"
    using assms cr parent
    by (cases "repo_activate (now c) n parent None (repo pl)") (auto simp: rollback_rule_pack_def Let_def split: if_splits)
  show ?thesis
    using assms unfolding rollback_rule_pack_def cr option.case Let_def parent a bindr_simps prod.case
    by (split if_split_asm) auto
qed

lemma committed_cases:
  "committed pl m respond = (a, pl') \<Longrightarrow> pl' = pl \<and> (\<exists>e. m = Inl e \<and> a = Inl e) \<or> (\<exists>x. m = Inr (x, pl') \<and> a = Inr (respond x pl'))"
  by (auto simp: committed_def split: sum.splits)

lemma value_error_as_eq [simp]: "value_error_as code m = Inr x \<longleftrightarrow> m = Inr x"
  by (auto simp: value_error_as_def split: sum.splits exn.splits)

lemma not_found_or_bad_eq [simp]: "not_found_or_bad m = Inr x \<longleftrightarrow> m = Inr x"
  by (cases m) (simp_all add: not_found_or_bad_def value_error_as_def split: exn.split)

lemma mk_call_fields [simp]: "actor (mk_call ri who why) = who" "fresh (mk_call ri who why) = ri_fresh ri"
  by (simp_all add: mk_call_def)

lemma accounted_one:
  "permitted_actor env ri (kind_permission k) = Inr who \<Longrightarrow> step k pl pl' \<Longrightarrow> records who pl pl' \<Longrightarrow> accounted env ri k pl pl'"
  by (blast intro: accounted.intros)

lemma bulk_accounted:
  assumes "permitted_actor env ri ''rules:edit'' = Inr who"
  shows "bulk_create_rules (mk_call ri who None) ids i ds pl = (m, pl') \<Longrightarrow> accounted env ri KRule pl pl'"
proof (induction ds arbitrary: ids pl m)
  case Nil
  then show ?case by (simp add: accounted.none)
next
  case (Cons d ds)
  show ?case
  proof (cases "create_rule (mk_call ri who None) (hd ids) i d pl")
    case (Inl e)
    then show ?thesis using Cons.prems by (simp add: accounted.none)
  next
    case (Inr y)
    obtain x pl1 where y: "y = (x, pl1)" by fastforce
    obtain m1 pl2 where rest: "bulk_create_rules (mk_call ri who None) (tl ids) i ds pl1 = (m1, pl2)" by fastforce
    have "pl2 = pl'" using rest Cons.prems Inr y by simp
    then have "accounted env ri KRule pl1 pl'" using Cons.IH rest by blast
    moreover have "step KRule pl pl1" using Inr y by (auto intro: step.rule_created)
    moreover have "records who pl pl1" using use_cases_record(7) [OF Inr [unfolded y]] by simp
    ultimately show ?thesis using assms by (auto intro: accounted.one)
  qed
qed

text \<open>The kind of transition that a request may make.\<close>

fun request_kind :: "rule_api_request \<Rightarrow> kind option" where
  "request_kind (ImportPack q) = Some KImport"
| "request_kind (CreatePack q) = Some KCreate"
| "request_kind (UpdatePack i q) = Some (if upq_name q = None then KUpdate else KRename)"
| "request_kind (DeletePack i q) = Some KDelete"
| "request_kind (PublishPack i) = Some KPublish"
| "request_kind (ActivatePack i q) = Some KActivate"
| "request_kind (RollbackPack i q) = Some KRollback"
| "request_kind (CreateRule i q) = Some KRule"
| "request_kind (BulkCreateRules i qs) = Some KRule"
| "request_kind (UpdateRule i q) = Some KRule"
| "request_kind (DeleteRule i) = Some KRule"
| "request_kind _ = None"

lemma guarded_accounted:
  assumes m: "committed pl (bindr (permitted_actor env ri perm) f) respond = (a, pl')" and perm: "perm = kind_permission k"
    and ok: "\<And>who x. f who = Inr (x, pl') \<Longrightarrow> step k pl pl' \<and> records who pl pl'"
  shows "accounted env ri k pl pl'"
  using committed_cases [OF m]
proof
  assume "pl' = pl \<and> (\<exists>e. bindr (permitted_actor env ri perm) f = Inl e \<and> a = Inl e)"
  then show ?thesis by (simp add: accounted.none)
next
  assume "\<exists>x. bindr (permitted_actor env ri perm) f = Inr (x, pl') \<and> a = Inr (respond x pl')"
  then obtain x who where w: "permitted_actor env ri perm = Inr who" and "f who = Inr (x, pl')"
    by (auto simp: bindr_eq_Inr)
  with ok show ?thesis using accounted_one [OF w [unfolded perm]] by blast
qed

lemma route_accounted:
  assumes m: "route env ri q pl = (a, pl')" and fresh: "unused_id (ri_fresh ri) (repo pl)"
  shows "case request_kind q of None \<Rightarrow> pl' = pl | Some k \<Rightarrow> accounted env ri k pl pl'"
proof (cases q)
  case (ImportPack d)
  show ?thesis unfolding ImportPack request_kind.simps option.case
    by (rule guarded_accounted [OF m [unfolded ImportPack route.simps import_rule_pack_endpoint_def]])
      (use fresh in \<open>auto intro: step.imported [of "mk_call ri _ None"] dest: use_cases_record(2)\<close>)
next
  case (CreatePack d)
  show ?thesis unfolding CreatePack request_kind.simps option.case
    by (rule guarded_accounted [OF m [unfolded CreatePack route.simps create_rule_pack_endpoint_def]])
      (use fresh in \<open>auto simp: bindr_eq_Inr intro: step.create [of "mk_call ri _ None"] dest: use_cases_record(1)\<close>)
next
  case (UpdatePack i d)
  have "list_all (\<lambda>a. \<forall>n. a \<noteq> AttrName n) (metadata_attrs d)" if "upq_name d = None"
    using that by (auto simp: metadata_attrs_def split: option.splits)
  then show ?thesis unfolding UpdatePack request_kind.simps option.case
    by (intro guarded_accounted [OF m [unfolded UpdatePack route.simps update_rule_pack_endpoint_def]])
      (auto intro: step.updated step.renamed dest: use_cases_record(3))
next
  case (DeletePack i d)
  show ?thesis unfolding DeletePack request_kind.simps option.case
    by (rule guarded_accounted [OF m [unfolded DeletePack route.simps delete_rule_pack_endpoint_def]])
      (auto intro: step.deleted dest: use_cases_record(4))
next
  case (PublishPack i)
  show ?thesis unfolding PublishPack request_kind.simps option.case
    by (rule guarded_accounted [OF m [unfolded PublishPack route.simps publish_rule_pack_endpoint_def]])
      (auto intro: step.published dest: use_cases_record(5))
next
  case (ActivatePack i d)
  show ?thesis unfolding ActivatePack request_kind.simps option.case
    by (rule guarded_accounted [OF m [unfolded ActivatePack route.simps activate_rule_pack_endpoint_def]])
      (auto intro: step.activated dest: use_cases_record(6))
next
  case (RollbackPack i d)
  show ?thesis
    using committed_cases [OF m [unfolded RollbackPack route.simps rollback_rule_pack_endpoint_def]]
  proof
    assume "\<exists>x. bindr (permitted env ri ''rules:rollback'') (\<lambda>pr. case repo_get_by_id (repo pl) i of
         None \<Rightarrow> Inl (no_pack i)
       | Some r \<Rightarrow> let p = pack_at (repo pl) r in
           bindr (actor_of pr) (\<lambda>who. value_error_as 400
             (rollback_rule_pack (mk_call ri who (rq_reason d)) (pack_name p) (version p) (rq_expectedLockVersion d) pl)))
        = Inr (x, pl') \<and> a = Inr (pack_response env x pl')"
    then obtain x pr r who where "permitted env ri ''rules:rollback'' = Inr pr" and "actor_of pr = Inr who"
      and "rollback_rule_pack (mk_call ri who (rq_reason d)) (pack_name (pack_at (repo pl) r)) (version (pack_at (repo pl) r))
        (rq_expectedLockVersion d) pl = Inr (x, pl')"
      by (auto simp: bindr_eq_Inr Let_def split: option.splits)
    then show ?thesis unfolding RollbackPack request_kind.simps option.case
      by (intro accounted_one [where who = who]) (auto simp: permitted_actor_def intro: step.rolled_back dest: rollback_records)
  qed (simp add: RollbackPack accounted.none)
next
  case (CreateRule i d)
  show ?thesis unfolding CreateRule request_kind.simps option.case
    by (rule guarded_accounted [OF m [unfolded CreateRule route.simps create_rule_endpoint_def]])
      (auto intro: step.rule_created dest: use_cases_record(7))
next
  case (BulkCreateRules i ds)
  then show ?thesis using m
    by (auto simp: bulk_create_rules_endpoint_def split: sum.splits prod.splits intro: accounted.none bulk_accounted)
next
  case (UpdateRule i d)
  show ?thesis unfolding UpdateRule request_kind.simps option.case
    by (rule guarded_accounted [OF m [unfolded UpdateRule route.simps update_rule_endpoint_def]])
      (auto intro: step.rule_updated dest: use_cases_record(8))
next
  case (DeleteRule i)
  show ?thesis unfolding DeleteRule request_kind.simps option.case
    by (rule guarded_accounted [OF m [unfolded DeleteRule route.simps delete_rule_endpoint_def]])
      (auto intro: step.rule_deleted dest: use_cases_record(9))
qed (use m in simp_all)

lemma serve_snd: "snd (serve env ri q pl) = snd (route env ri q pl)"
  by (auto simp: serve_def concurrent_modification_handler_def split: sum.splits exn.splits)

lemma serve_accounted:
  assumes "serve env ri q pl = (a, pl')" and "unused_id (ri_fresh ri) (repo pl)"
  shows "case request_kind q of None \<Rightarrow> pl' = pl | Some k \<Rightarrow> accounted env ri k pl pl'"
proof -
  obtain b where "route env ri q pl = (b, pl')"
    using serve_snd [of env ri q pl] assms(1) by (cases "route env ri q pl") simp
  then show ?thesis by (rule route_accounted [OF _ assms(2)])
qed

lemma accounted_log:
  "accounted env ri k pl pl' \<Longrightarrow> pl' = pl \<or>
     (\<exists>who es. permitted_actor env ri (kind_permission k) = Inr who \<and> es \<noteq> [] \<and> list_all (\<lambda>e. al_actor e = who) es \<and>
        audit pl' = map_option (\<lambda>st. foldl (\<lambda>s e. audit_save e s) st es) (audit pl))"
proof (induction rule: accounted.induct)
  case (one pl pl1 who pl2)
  obtain e where e: "al_actor e = who" "audit pl1 = map_option (audit_save e) (audit pl)"
    using one.hyps(3) by (auto simp: records_def)
  from one.IH show ?case
  proof (elim disjE exE conjE)
    assume "pl2 = pl1"
    then show ?thesis using one.hyps(2) e
      by (intro disjI2 exI [of _ who] exI [of _ "[e]"]) simp
  next
    fix w es
    assume "permitted_actor env ri (kind_permission k) = Inr w" "list_all (\<lambda>e. al_actor e = w) es"
      "audit pl2 = map_option (\<lambda>st. foldl (\<lambda>s e. audit_save e s) st es) (audit pl1)"
    then show ?thesis using one.hyps(2) e
      by (intro disjI2 exI [of _ who] exI [of _ "e # es"]) (simp add: option.map_comp comp_def)
  qed
qed simp

text \<open>
  Property C4: whatever a client sends to the rule management API, a change of the platform
  is a sequence of transitions of the rule pack state machine of the one kind the request is
  for, made by a caller who passed the check for the permission of that kind, and it leaves
  one audit record per transition in the caller's name. The reading endpoints change nothing.
\<close>
theorem every_change_is_authorised_and_recorded:
  assumes "serve env ri q pl = (a, pl')" and "unused_id (ri_fresh ri) (repo pl)"
  shows "case request_kind q of
      None \<Rightarrow> pl' = pl
    | Some k \<Rightarrow> accounted env ri k pl pl' \<and>
        (pl' \<noteq> pl \<longrightarrow> (\<exists>who es. permitted_actor env ri (kind_permission k) = Inr who \<and>
           es \<noteq> [] \<and> list_all (\<lambda>e. al_actor e = who) es \<and>
           audit pl' = map_option (\<lambda>st. foldl (\<lambda>s e. audit_save e s) st es) (audit pl)))"
  using serve_accounted [OF assms] accounted_log by (fastforce split: option.splits)

text \<open>The example: a token of the given roles, on the platform with one published pack.\<close>

definition w_env :: "string list \<Rightarrow> api_env" where
  "w_env codes = \<lparr>ae_decode = \<lambda>_ _ _ _. Inr (access_claims ''u1'' codes ''j'' 0 15), ae_settings = w_settings True,
     ae_roles = default_role_store, ae_isoformat = \<lambda>_. ''2026''\<rparr>"

definition w_request :: request_info where
  "w_request = \<lparr>ri_authorization = Some ''Bearer t'', ri_now = 5, ri_fresh = ''new'', ri_fresh_audit = ''a'',
     ri_fresh_rules = [''r9'']\<rparr>"

definition w_reason :: reason_request where
  "w_reason = \<lparr>rq_reason = Some ''go live'', rq_expectedLockVersion = None\<rparr>"

lemma w_unused: "unused_id (ri_fresh w_request) (repo w_published)"
proof -
  have "list_all (\<lambda>p. pack_id p \<noteq> Some (ri_fresh w_request)) (heap (repo w_published)) \<and>
      list_all (\<lambda>r. r < length (heap (repo w_published))) (refs (repo w_published))"
    by code_simp
  then show ?thesis
    using key_has_ref by (fastforce simp: unused_id_def view_def pack_at_def list_all_iff)
qed

lemma every_change_is_authorised_and_recorded_witness:
  "\<exists>es. es \<noteq> [] \<and> list_all (\<lambda>e. al_actor e = ''u1'') es \<and>
     audit (snd (serve (w_env [''policy_admin'']) w_request (ActivatePack ''id1'' w_reason) w_published)) =
       map_option (\<lambda>st. foldl (\<lambda>s e. audit_save e s) st es) (audit w_published)"
proof -
  let ?q = "ActivatePack ''id1'' w_reason"
  have "map status (heap (repo (snd (serve (w_env [''policy_admin'']) w_request ?q w_published)))) = [ACTIVE] \<and>
      map status (heap (repo w_published)) = [PUBLISHED] \<and>
      permitted_actor (w_env [''policy_admin'']) w_request ''rules:activate'' = Inr ''u1''"
    by code_simp
  moreover obtain a pl' where "serve (w_env [''policy_admin'']) w_request ?q w_published = (a, pl')" by fastforce
  ultimately show ?thesis
    using every_change_is_authorised_and_recorded [OF _ w_unused, of "w_env [''policy_admin'']" ?q] by (auto simp: status_defs)
qed

section \<open>Who changes the policy in force\<close>

definition in_force :: "pack_repo \<Rightarrow> (string \<times> int \<Rightarrow> rule_pack option)" where
  \<comment> \<open>the active packs, by name and version\<close>
  "in_force rp k = (case view rp k of None \<Rightarrow> None | Some p \<Rightarrow> if status p = ACTIVE then Some p else None)"

lemma in_force_put:
  assumes "view rp' = (view rp)(k \<mapsto> p')" and "\<forall>p. view rp k = Some p \<longrightarrow> status p \<noteq> ACTIVE" and "status p' \<noteq> ACTIVE"
  shows "in_force rp' = in_force rp"
  using assms by (auto simp: in_force_def fun_eq_iff split: option.splits)

lemma in_force_adds: "adds_draft rp rp' \<Longrightarrow> in_force rp' = in_force rp"
  by (auto simp: adds_draft_def status_defs intro!: in_force_put)

lemma in_force_changes:
  assumes "changes_one rp rp' R" and "\<And>p p'. R p p' \<Longrightarrow> status p \<noteq> ACTIVE \<and> status p' \<noteq> ACTIVE"
  shows "in_force rp' = in_force rp"
proof -
  obtain k p p' where "view rp k = Some p" "R p p'" "view rp' = (view rp)(k \<mapsto> p')"
    using assms(1) unfolding changes_one_def by blast
  then show ?thesis using assms(2) [of p p'] by (intro in_force_put) auto
qed

lemma set_attrs_status: "status (foldl set_attr p attrs) = status p"
proof (induction attrs arbitrary: p)
  case (Cons a attrs)
  then show ?case by (cases a) auto
qed simp

lemma in_force_update:
  assumes ok: "repo_ok (repo pl)" and m: "update_rule_pack c i ex attrs pl = Inr (r, pl')"
  shows "in_force (repo pl') = in_force (repo pl)"
proof -
  obtain r1 where g: "repo_get_by_id (repo pl) i = Some r1" and s: "status (pack_at (repo pl) r1) = DRAFT"
    and u: "repo pl' = put_pack r1 (bump_lock (foldl set_attr (pack_at (repo pl) r1) attrs)) (repo pl)"
    using m by (auto simp: update_rule_pack_def update_metadata_def modify_by_id_def Let_def bindr_eq_Inr
        split: option.splits if_splits)
  note k = ref_has_key [OF ok get_by_id_ref [OF g]]
  show ?thesis unfolding u
    by (rule in_force_put [OF view_put [OF ok k]])
      (use s repo_okD(4) [OF ok k] in \<open>auto simp: bump_lock_def set_attrs_status status_defs\<close>)
qed

lemma in_force_step:
  assumes ok: "repo_ok (repo pl)" and s: "step k pl pl'" and k: "k \<noteq> KActivate" "k \<noteq> KRollback"
  shows "in_force (repo pl') = in_force (repo pl)"
proof -
  have e: "in_force (repo pl') = in_force (repo pl)" if "step KRule pl pl'"
    using in_force_changes [OF rule_step_changes_one [OF ok that]] by (auto simp: status_defs)
  show ?thesis
    using s k
  proof (cases rule: step.cases)
    case (create c n reg ten rs r)
    then show ?thesis using create_adds_draft [OF ok] in_force_adds by blast
  next
    case (imported c d r)
    then show ?thesis using import_adds_draft [OF ok] in_force_adds by blast
  next
    case (updated c i ex attrs r)
    then show ?thesis using in_force_update [OF ok] by blast
  next
    case (renamed c i ex attrs r)
    then show ?thesis using in_force_update [OF ok] by blast
  next
    case (deleted c i ex r)
    then show ?thesis using in_force_changes [OF delete_changes_one [OF ok]] by (auto simp: status_defs)
  next
    case (published c i r)
    then show ?thesis using in_force_changes [OF publish_changes_one [OF ok]] by (auto simp: status_defs)
  qed (use s e in blast)+
qed

lemma in_force_accounted:
  assumes "accounted env ri k pl pl'" and "repo_ok (repo pl)" and "k \<noteq> KActivate" "k \<noteq> KRollback" "k \<noteq> KRename"
  shows "in_force (repo pl') = in_force (repo pl)"
  using assms by (induction rule: accounted.induct) (use in_force_step step_repo_ok in metis)+

lemma in_force_rename:
  assumes ok: "repo_ok (repo pl)" and m: "serve env ri (UpdatePack i q) pl = (a, pl')"
  shows "in_force (repo pl') = in_force (repo pl)"
proof -
  obtain b where "route env ri (UpdatePack i q) pl = (b, pl')"
    using serve_snd [of env ri "UpdatePack i q" pl] m by (cases "route env ri (UpdatePack i q) pl") simp
  from committed_cases [OF this [unfolded route.simps update_rule_pack_endpoint_def]] show ?thesis
    using in_force_update [OF ok] by (auto simp: bindr_eq_Inr)
qed

text \<open>
  Property C2: the policy in force changes only by the hand of someone who may activate or
  roll back: in every state reachable without renaming, no request of a caller without both
  of these permissions, whatever other permissions the caller has, changes which versions
  are active or anything in them.
\<close>
theorem policy_in_force_needs_activation_rights:
  assumes "reach K pl" and "KRename \<notin> K"
    and "serve env ri q pl = (a, pl')" and "unused_id (ri_fresh ri) (repo pl)"
    and "\<not> is_ok (permitted_actor env ri ''rules:activate'')" and "\<not> is_ok (permitted_actor env ri ''rules:rollback'')"
  shows "in_force (repo pl') = in_force (repo pl)"
proof -
  have ok: "repo_ok (repo pl)" using reach_ok [OF assms(1,2)] by blast
  show ?thesis
  proof (cases "request_kind q")
    case None
    then show ?thesis using serve_accounted [OF assms(3,4)] by simp
  next
    case (Some k)
    then have acc: "accounted env ri k pl pl'" using serve_accounted [OF assms(3,4)] by simp
    consider "k = KRename" | "k = KActivate \<or> k = KRollback" | "k \<noteq> KRename \<and> k \<noteq> KActivate \<and> k \<noteq> KRollback" by blast
    then show ?thesis
    proof cases
      case 1
      then obtain i d where "q = UpdatePack i d" using Some by (cases q) (auto split: if_splits)
      then show ?thesis using in_force_rename [OF ok] assms(3) by simp
    next
      case 2
      then show ?thesis using accounted_log [OF acc] assms(5,6) by auto
    next
      case 3
      then show ?thesis using in_force_accounted [OF acc ok] by blast
    qed
  qed
qed

definition w_new_version :: rule_api_request where
  "w_new_version = CreatePack \<lparr>pq_name = ''p'', pq_region = None, pq_tenantId = None, pq_rules = []\<rparr>"

lemma policy_in_force_needs_activation_rights_witness:
  "\<exists>pl'. serve (w_env [''editor'']) w_request w_new_version w_active = (Inr (pack_response (w_env [''editor'']) 1 pl'), pl') \<and>
     length (heap (repo pl')) = 2 \<and> in_force (repo pl') = in_force (repo w_active)"
proof -
  let ?s = "serve (w_env [''editor'']) w_request w_new_version w_active"
  have "list_all (\<lambda>p. pack_id p \<noteq> Some (ri_fresh w_request)) (heap (repo w_active)) \<and>
      list_all (\<lambda>r. r < length (heap (repo w_active))) (refs (repo w_active)) \<and>
      \<not> is_ok (permitted_actor (w_env [''editor'']) w_request ''rules:activate'') \<and>
      \<not> is_ok (permitted_actor (w_env [''editor'']) w_request ''rules:rollback'')"
    by code_simp
  moreover from this have "unused_id (ri_fresh w_request) (repo w_active)"
    using key_has_ref by (fastforce simp: unused_id_def view_def pack_at_def list_all_iff)
  moreover obtain a pl' where "?s = (a, pl')" by fastforce
  moreover have "length (heap (repo (snd ?s))) = 2 \<and> fst ?s = Inr (pack_response (w_env [''editor'']) 1 (snd ?s))" by code_simp
  ultimately show ?thesis
    using policy_in_force_needs_activation_rights [OF w_active_reach, of "w_env [''editor'']" w_request w_new_version] by auto
qed

section \<open>Documents of the schema are rules\<close>

text \<open>The rule that a posted document becomes.\<close>

definition rule_of_request :: "create_rule_request \<Rightarrow> rule" where
  "rule_of_request q =
     \<lparr>rule_code = cq_ruleCode q, rule_name = cq_name q, rule_description = cq_description q, family = cq_family q,
      family_order = cq_familyOrder q, priority_weight = cq_priorityWeight q, severity_band = cq_severityBand q,
      contribution_score = cq_contributionScore q, conditions = PDict (cq_conditions q),
      exceptions = (case cq_exceptions q of None \<Rightarrow> None | Some d \<Rightarrow> if d = [] then None else Some (PDict d)),
      conflict_group = cq_conflictGroup q, conflicts_with = cq_conflictsWith q, is_suppressor = cq_isSuppressor q,
      non_suppressible = cq_nonSuppressible q, cooldown_minutes = cq_cooldownMinutes q, actions = cq_actions q,
      mitigations = cq_mitigations q, sequencing = cq_sequencing q, sla_target = cq_slaTarget q,
      rule_status = ''ACTIVE'', enabled = cq_enabled q, rule_id = None\<rparr>"

lemma posted_rule_parses: "rule_from_json (create_rule_fields q) = Inr (rule_of_request q)"
  by (simp add: rule_from_json_def create_rule_fields_def rule_of_request_def get_item_def get_none_def dict_get_def
      exceptions_of_def)
    (auto simp: opt_val_def split: option.splits)

lemma mapr_ok: "(\<And>x. x \<in> set xs \<Longrightarrow> f x = Inr (g x)) \<Longrightarrow> mapr f xs = Inr (map g xs)"
  by (induction xs) auto

lemma posted_rules_parse: "mapr (\<lambda>r. rule_from_json (create_rule_fields r)) rs = Inr (map rule_of_request rs)"
  by (rule mapr_ok) (simp add: posted_rule_parses)

lemma imported_document:
  "get_item (import_fields q) ''name'' = Inr (PStr (iq_name q))"
  "get_none (import_fields q) ''version'' = opt_val PInt (iq_version q)"
  "get_none (import_fields q) ''region'' = opt_val PStr (iq_region q)"
  "get_none (import_fields q) ''tenantId'' = opt_val PStr (iq_tenantId q)"
  "rules_of_document (import_fields q) = Inr (map rule_of_request (iq_rules q))"
proof -
  show "get_item (import_fields q) ''name'' = Inr (PStr (iq_name q))"
    "get_none (import_fields q) ''version'' = opt_val PInt (iq_version q)"
    "get_none (import_fields q) ''region'' = opt_val PStr (iq_region q)"
    "get_none (import_fields q) ''tenantId'' = opt_val PStr (iq_tenantId q)"
    by (simp_all add: import_fields_def get_item_def get_none_def dict_get_def)
  have "mapr (\<lambda>x. bindr (as_dict x) rule_from_json) (map (\<lambda>r. PDict (create_rule_fields r)) rs) = Inr (map rule_of_request rs)" for rs
    by (induction rs) (simp_all add: posted_rule_parses)
  then show "rules_of_document (import_fields q) = Inr (map rule_of_request (iq_rules q))"
    by (simp add: rules_of_document_def import_fields_def dict_get_def py_iter_def)
qed

definition typed_rule_field :: "string \<Rightarrow> val \<Rightarrow> bool" where
  "typed_rule_field k v =
     (if k \<in> {''ruleCode'', ''name'', ''description'', ''family'', ''ruleStatus''} then is_ok (as_str v)
      else if k \<in> {''familyOrder'', ''priorityWeight'', ''cooldownMinutes''} then is_ok (as_int v)
      else if k \<in> {''severityBand'', ''conflictGroup'', ''slaTarget''} then is_ok (as_opt as_str v)
      else if k = ''contributionScore'' then is_ok (as_opt as_int v)
      else if k = ''conflictsWith'' then is_ok (as_strs v)
      else if k \<in> {''isSuppressor'', ''nonSuppressible'', ''enabled''} then is_ok (as_bool v)
      else if k \<in> {''actions'', ''mitigations''} then is_ok (as_dict v)
      else if k = ''sequencing'' then is_ok (as_opt as_dict v) else True)"

definition typed_rule_document :: "dict \<Rightarrow> bool" where
  "typed_rule_document d \<longleftrightarrow> (\<forall>k v. map_of d k = Some v \<longrightarrow> typed_rule_field k v)"

lemma typed_get:
  assumes "typed_rule_document d" and "typed_rule_field k v"
  shows "typed_rule_field k (dict_get d k v)"
  using assms by (auto simp: typed_rule_document_def dict_get_def split: option.splits)

lemma typed_document_parses:
  assumes t: "typed_rule_document d"
    and "map_of d ''ruleCode'' = Some code" "map_of d ''name'' = Some name" "map_of d ''conditions'' = Some conds"
  shows "is_ok (rule_from_json d)"
proof -
  have *: "get_item d ''ruleCode'' = Inr code" "get_item d ''name'' = Inr name" "get_item d ''conditions'' = Inr conds"
    using assms(2-4) by (simp_all add: get_item_def)
  have "typed_rule_field ''ruleCode'' code" "typed_rule_field ''name'' name"
    using t assms(2,3) unfolding typed_rule_document_def by blast+
  then have "is_ok (as_str code)" "is_ok (as_str name)" by (simp_all add: typed_rule_field_def)
  moreover have "is_ok (as_str (dict_get d ''description'' (PStr [])))"
    "is_ok (as_str (dict_get d ''family'' (PStr ''OPERATIONAL_FEASIBILITY'')))"
    "is_ok (as_int (dict_get d ''familyOrder'' (PInt 99)))" "is_ok (as_int (dict_get d ''priorityWeight'' (PInt 50)))"
    "is_ok (as_strs (dict_get d ''conflictsWith'' (PList [])))"
    "is_ok (as_bool (dict_get d ''isSuppressor'' (PBool False)))" "is_ok (as_bool (dict_get d ''nonSuppressible'' (PBool False)))"
    "is_ok (as_int (dict_get d ''cooldownMinutes'' (PInt 0)))" "is_ok (as_dict (dict_get d ''actions'' (PDict [])))"
    "is_ok (as_dict (dict_get d ''mitigations'' (PDict [])))" "is_ok (as_str (dict_get d ''ruleStatus'' (PStr ''ACTIVE'')))"
    "is_ok (as_bool (dict_get d ''enabled'' (PBool True)))"
    using typed_get [OF t, of "''description''" "PStr []"] typed_get [OF t, of "''family''" "PStr ''OPERATIONAL_FEASIBILITY''"]
      typed_get [OF t, of "''familyOrder''" "PInt 99"] typed_get [OF t, of "''priorityWeight''" "PInt 50"]
      typed_get [OF t, of "''conflictsWith''" "PList []"] typed_get [OF t, of "''isSuppressor''" "PBool False"]
      typed_get [OF t, of "''nonSuppressible''" "PBool False"] typed_get [OF t, of "''cooldownMinutes''" "PInt 0"]
      typed_get [OF t, of "''actions''" "PDict []"] typed_get [OF t, of "''mitigations''" "PDict []"]
      typed_get [OF t, of "''ruleStatus''" "PStr ''ACTIVE''"] typed_get [OF t, of "''enabled''" "PBool True"]
    by (simp_all add: typed_rule_field_def as_strs_def)
  moreover have "is_ok (as_opt as_str (get_none d ''severityBand''))" "is_ok (as_opt as_int (get_none d ''contributionScore''))"
    "is_ok (as_opt as_str (get_none d ''conflictGroup''))" "is_ok (as_opt as_dict (get_none d ''sequencing''))"
    "is_ok (as_opt as_str (get_none d ''slaTarget''))"
    using typed_get [OF t, of "''severityBand''" PNone] typed_get [OF t, of "''contributionScore''" PNone]
      typed_get [OF t, of "''conflictGroup''" PNone] typed_get [OF t, of "''sequencing''" PNone]
      typed_get [OF t, of "''slaTarget''" PNone]
    by (simp_all add: typed_rule_field_def as_opt_def get_none_def)
  ultimately show ?thesis
    unfolding is_ok_iff by (elim exE) (simp add: rule_from_json_def *)
qed

lemma opt_typed:
  "is_ok (as_opt as_str (opt_val PStr x))" "is_ok (as_opt as_int (opt_val PInt y))" "is_ok (as_opt as_dict (opt_val PDict z))"
  by simp_all

lemma typed_cons: "typed_rule_field k v \<Longrightarrow> typed_rule_document d \<Longrightarrow> typed_rule_document ((k, v) # d)"
  by (simp add: typed_rule_document_def)

lemma typed_nil: "typed_rule_document []"
  by (simp add: typed_rule_document_def)

lemma stored_rule_typed: "typed_rule_document (rule_to_json x)"
  unfolding rule_to_json_def by (intro typed_cons typed_nil) (simp_all add: typed_rule_field_def)

lemma typed_set: "typed_rule_document d \<Longrightarrow> typed_rule_field k v \<Longrightarrow> typed_rule_document (dict_set k v d)"
  by (simp add: typed_rule_document_def)

lemma typed_update: "typed_rule_document d \<Longrightarrow> list_all (\<lambda>(k, v). typed_rule_field k v) e \<Longrightarrow> typed_rule_document (dict_update d e)"
  by (induction d e rule: dict_update.induct) (simp_all add: typed_set)

text \<open>A partial update keeps only entries that are not \<open>None\<close>, and those are typed.\<close>

lemma update_typed: "list_all (\<lambda>(k, v). typed_rule_field k v) (model_dump [] True (update_rule_fields q))"
proof -
  have "list_all (\<lambda>(k, v). v \<noteq> PNone \<longrightarrow> typed_rule_field k v) (update_rule_fields q)"
    unfolding update_rule_fields_def list.pred_inject prod.case
    by (intro conjI; simp add: typed_rule_field_def opt_val_def as_opt_def split: option.split)
  then show ?thesis by (auto simp: model_dump_def list_all_iff)
qed

lemma dict_update_keeps: "dict_in k d \<Longrightarrow> dict_in k (dict_update d e)"
  by (induction d e rule: dict_update.induct) auto

lemma merged_rule_parses:
  "is_ok (rule_from_json (dict_set ''id'' i (dict_update (rule_to_json x) (model_dump [] True (update_rule_fields q)))))"
proof -
  let ?e = "model_dump [] True (update_rule_fields q)"
  let ?d = "dict_set ''id'' i (dict_update (rule_to_json x) ?e)"
  have typed: "typed_rule_document ?d"
    by (intro typed_set typed_update stored_rule_typed update_typed) (simp add: typed_rule_field_def)
  have kept: "\<exists>v. map_of ?d k = Some v" if "dict_in k (rule_to_json x)" for k
    using dict_update_keeps [OF that, of ?e] by (cases "k = ''id''") (simp_all add: dict_in_def)
  have "dict_in ''ruleCode'' (rule_to_json x)" "dict_in ''name'' (rule_to_json x)" "dict_in ''conditions'' (rule_to_json x)"
    by (simp_all add: rule_to_json_def dict_in_def)
  then obtain code name conds where "map_of ?d ''ruleCode'' = Some code" "map_of ?d ''name'' = Some name"
    "map_of ?d ''conditions'' = Some conds"
    using kept by metis
  then show ?thesis by (rule typed_document_parses [OF typed])
qed

section \<open>No request crashes\<close>

definition refusal :: "exn \<Rightarrow> bool" where
  "refusal e \<longleftrightarrow> (\<exists>s. e = ValueError s \<or> e = ConcurrentModificationError s)"

definition answered :: "exn \<Rightarrow> bool" where
  \<comment> \<open>an error status, or a lost race that the application handler turns into one\<close>
  "answered e \<longleftrightarrow> (\<exists>code s. e = HTTPException code s \<and> code \<in> {400, 401, 403, 404, 409}) \<or> (\<exists>s. e = ConcurrentModificationError s)"

lemma refusal_simps [simp]: "refusal (ValueError s)" "refusal (ConcurrentModificationError s)"
  by (simp_all add: refusal_def)

lemma check_lock_refusal: "check_lock p ex = Inl e \<Longrightarrow> refusal e"
  by (auto simp: check_lock_def split: option.splits if_splits)

lemma modify_refusal: "modify_by_id i ex f rp = Inl e \<Longrightarrow> refusal e"
  by (auto simp: modify_by_id_def bindr_eq_Inl no_such_pack_def dest: check_lock_refusal split: option.splits)

lemma activate_refusal: "repo_activate t n v ex rp = Inl e \<Longrightarrow> refusal e"
  by (auto simp: repo_activate_def bindr_eq_Inl Let_def dest: check_lock_refusal split: option.splits)

lemma use_cases_refuse:
  "update_rule_pack c i ex attrs pl = Inl e \<Longrightarrow> refusal e"
  "soft_delete_rule_pack c i ex pl = Inl e \<Longrightarrow> refusal e"
  "publish_rule_pack c i pl = Inl e \<Longrightarrow> refusal e"
  "activate_rule_pack c i ex pl = Inl e \<Longrightarrow> refusal e"
  "export_rule_pack n reg pl = Inl e \<Longrightarrow> refusal e"
  "get_rule i pl = Inl e \<Longrightarrow> refusal e"
  "delete_rule c i pl = Inl e \<Longrightarrow> refusal e"
  "create_rule c f i (create_rule_fields q) pl = Inl e \<Longrightarrow> refusal e"
  "import_rule_pack c (import_fields d) pl = Inl e \<Longrightarrow> refusal e"
  by (auto simp: update_rule_pack_def update_metadata_def soft_delete_rule_pack_def soft_delete_def publish_rule_pack_def
      update_status_def activate_rule_pack_def export_rule_pack_def get_rule_def delete_rule_def create_rule_def
      import_rule_pack_def posted_rule_parses imported_document no_such_pack_def Let_def bindr_eq_Inl split_beta
      dest: modify_refusal activate_refusal split: option.splits if_splits)

lemma rollback_refuses: "rollback_rule_pack c n v ex pl = Inl e \<Longrightarrow> refusal e"
proof -
  assume m: "rollback_rule_pack c n v ex pl = Inl e"
  show ?thesis
  proof (cases "repo_get (repo pl) n v")
    case None
    then show ?thesis using m by (auto simp: rollback_rule_pack_def)
  next
    case (Some cr)
    then show ?thesis using m
      by (auto simp: rollback_rule_pack_def Let_def bindr_eq_Inl split_beta dest: activate_refusal
          split: option.split_asm if_split_asm)
  qed
qed

lemma update_rule_refuses: "update_rule c i (model_dump [] True (update_rule_fields q)) pl = Inl e \<Longrightarrow> refusal e"
proof -
  assume m: "update_rule c i (model_dump [] True (update_rule_fields q)) pl = Inl e"
  show ?thesis
  proof (cases "find_rule (repo pl) i")
    case None
    then show ?thesis using m by (auto simp: update_rule_def)
  next
    case (Some rx)
    obtain r x where rx: "rx = (r, x)" by fastforce
    obtain u where "rule_from_json (dict_set ''id'' (opt_val PStr (rule_id x))
        (dict_update (rule_to_json x) (model_dump [] True (update_rule_fields q)))) = Inr u"
      using merged_rule_parses [unfolded is_ok_iff] by blast
    then show ?thesis using m Some rx by (auto simp: update_rule_def Let_def split: if_split_asm)
  qed
qed

lemma bulk_refuses: "bulk_create_rules c ids i (map create_rule_fields qs) pl = (Inl e, pl') \<Longrightarrow> refusal e"
proof (induction qs arbitrary: ids pl)
  case (Cons q qs)
  then show ?case
    by (auto simp: bindr_eq_Inl dest: use_cases_refuse(8) split: sum.splits prod.splits)
qed simp

lemma value_error_answered:
  "value_error_as code m = Inl e \<Longrightarrow> (\<And>e. m = Inl e \<Longrightarrow> refusal e) \<Longrightarrow> code \<in> {400, 401, 403, 404, 409} \<Longrightarrow> answered e"
  by (cases m) (auto simp: value_error_as_def refusal_def answered_def split: exn.split_asm)

lemma not_found_answered: "not_found_or_bad m = Inl e \<Longrightarrow> (\<And>e. m = Inl e \<Longrightarrow> refusal e) \<Longrightarrow> answered e"
  by (cases m) (auto simp: not_found_or_bad_def value_error_as_def refusal_def answered_def split: exn.split_asm if_split_asm)

text \<open>
  The tokens the JWT library accepts: those signed with the secret of this service, which it
  only puts under claims of its own making; it rejects the others with its own exception.
\<close>

definition own_tokens :: "jwt_decode \<Rightarrow> bool" where
  "own_tokens decode \<longleftrightarrow> (\<forall>t token secret alg. case decode t token secret alg of
      Inl e \<Rightarrow> (\<exists>s. e = JWTError s)
    | Inr claims \<Rightarrow> (\<exists>s. get_item claims ''sub'' = Inr (PStr s)) \<and>
        (\<exists>codes. dict_get claims ''roles'' (PList []) = PList (map PStr codes)))"

lemma text_codes_resolve: "is_ok (resolve_permissions rs (map PStr codes))"
  by (induction codes) (auto simp: is_ok_iff hashable_def)

lemma principal_of_own_token:
  assumes "own_tokens decode"
  shows "case get_current_principal decode settings rs t header of
      Inl e \<Rightarrow> (\<exists>s. e = HTTPException 401 s)
    | Inr pr \<Rightarrow> is_ok (actor_of pr)"
proof (cases "bearer_token header")
  case None
  then show ?thesis by (simp add: get_current_principal_def actor_of_def anonymous_def)
next
  case (Some token)
  let ?d = "decode t token (jwt_secret settings) (jwt_algorithm settings)"
  show ?thesis
  proof (cases ?d)
    case (Inl e)
    have "case ?d of Inl e \<Rightarrow> (\<exists>s. e = JWTError s)
      | Inr claims \<Rightarrow> (\<exists>s. get_item claims ''sub'' = Inr (PStr s)) \<and>
          (\<exists>codes. dict_get claims ''roles'' (PList []) = PList (map PStr codes))"
      using assms unfolding own_tokens_def by blast
    then obtain s where "?d = Inl (JWTError s)" unfolding Inl sum.case by blast
    then show ?thesis using Some by (simp add: get_current_principal_def decode_token_def unauthorized_def)
  next
    case (Inr claims)
    have "case ?d of Inl e \<Rightarrow> (\<exists>s. e = JWTError s)
      | Inr claims \<Rightarrow> (\<exists>s. get_item claims ''sub'' = Inr (PStr s)) \<and>
          (\<exists>codes. dict_get claims ''roles'' (PList []) = PList (map PStr codes))"
      using assms unfolding own_tokens_def by blast
    then obtain s codes where c: "get_item claims ''sub'' = Inr (PStr s)"
      "dict_get claims ''roles'' (PList []) = PList (map PStr codes)" unfolding Inr sum.case by blast
    obtain ps where "resolve_permissions rs (map PStr codes) = Inr ps"
      using text_codes_resolve unfolding is_ok_iff by blast
    then show ?thesis using Some Inr c
      by (simp add: get_current_principal_def decode_token_def unauthorized_def py_iter_def actor_of_def)
  qed
qed

lemma permitted_answers:
  assumes "own_tokens (ae_decode env)"
  shows "permitted env ri code = Inl e \<Longrightarrow> answered e" and "permitted env ri code = Inr pr \<Longrightarrow> is_ok (actor_of pr)"
    and "permitted_actor env ri code = Inl e \<Longrightarrow> answered e"
proof -
  note own = principal_of_own_token [OF assms, of "ae_settings env" "ae_roles env" "ri_now ri" "ri_authorization ri"]
  show e: "permitted env ri code = Inl e \<Longrightarrow> answered e" for e
    using own by (auto simp: permitted_def authorize_def bindr_eq_Inl require_permission_def answered_def split: sum.splits if_splits)
  show ok: "permitted env ri code = Inr pr \<Longrightarrow> is_ok (actor_of pr)" for pr
    using own by (auto simp: permitted_def authorize_def bindr_eq_Inr require_permission_def split: if_splits)
  show "permitted_actor env ri code = Inl e \<Longrightarrow> answered e"
    using e ok by (fastforce simp: permitted_actor_def bindr_eq_Inl)
qed

lemma committed_Inl: "committed pl m respond = (Inl e, pl') \<longleftrightarrow> m = Inl e \<and> pl' = pl"
  by (auto simp: committed_def split: sum.splits)

lemma validate_rule_answers: "is_ok (validate_rule [] (create_rule_fields q))"
  by (simp add: validate_rule_def posted_rule_parses)

lemma route_answered:
  assumes own: "own_tokens (ae_decode env)" and m: "route env ri q pl = (Inl e, pl')"
  shows "answered e"
proof -
  note perm = permitted_answers [OF own]
  have guarded: "answered e" if "bindr (permitted_actor env ri code) f = Inl e" and "\<And>who. f who = Inl e \<Longrightarrow> answered e" for code f
    using that perm(3) by (auto simp: bindr_eq_Inl)
  have reading: "answered e" if "bindr (permitted env ri code) f = Inl e" and "\<And>pr. f pr = Inl e \<Longrightarrow> answered e" for code f
    using that perm(1) by (auto simp: bindr_eq_Inl)
  have missing: "answered (HTTPException 404 s)" for s by (simp add: answered_def)
  show ?thesis
    using m
  proof (cases q)
    case (ImportPack d)
    then show ?thesis using m
      by (auto simp: import_rule_pack_endpoint_def committed_Inl intro: guarded value_error_answered use_cases_refuse(9))
  next
    case (CreatePack d)
    then show ?thesis using m
      by (auto simp: create_rule_pack_endpoint_def committed_Inl posted_rules_parse intro: guarded)
  next
    case (UpdatePack i d)
    then show ?thesis using m
      by (auto simp: update_rule_pack_endpoint_def committed_Inl intro: guarded value_error_answered use_cases_refuse(1))
  next
    case (DeletePack i d)
    then show ?thesis using m
      by (auto simp: delete_rule_pack_endpoint_def committed_Inl intro: guarded value_error_answered use_cases_refuse(2))
  next
    case (PublishPack i)
    then show ?thesis using m
      by (auto simp: publish_rule_pack_endpoint_def committed_Inl intro: guarded value_error_answered use_cases_refuse(3))
  next
    case (ActivatePack i d)
    then show ?thesis using m
      by (auto simp: activate_rule_pack_endpoint_def committed_Inl intro: guarded value_error_answered use_cases_refuse(4))
  next
    case (RollbackPack i d)
    then show ?thesis using m perm(2) [of ri "''rules:rollback''"]
      by (auto simp: rollback_rule_pack_endpoint_def committed_Inl bindr_eq_Inl is_ok_iff no_pack_def missing Let_def
          intro: perm value_error_answered [OF _ rollback_refuses] split: option.splits)
  next
    case (CreateRule i d)
    then show ?thesis using m
      by (auto simp: create_rule_endpoint_def committed_Inl intro: guarded value_error_answered use_cases_refuse(8))
  next
    case (BulkCreateRules i ds)
    then show ?thesis using m
      by (auto simp: bulk_create_rules_endpoint_def bindr_eq_Inl intro: perm value_error_answered bulk_refuses
          split: sum.splits prod.splits)
  next
    case (UpdateRule i d)
    then show ?thesis using m
      by (auto simp: update_rule_endpoint_def committed_Inl intro: guarded not_found_answered update_rule_refuses)
  next
    case (DeleteRule i)
    then show ?thesis using m
      by (auto simp: delete_rule_endpoint_def committed_Inl intro: guarded not_found_answered use_cases_refuse(7))
  next
    case (ExportPack i)
    then show ?thesis using m
      by (auto simp: export_rule_pack_endpoint_def no_pack_def missing Let_def bindr_eq_Inl
          intro: perm value_error_answered use_cases_refuse(5) split: option.splits)
  next
    case (GetRule i)
    then show ?thesis using m
      by (auto simp: get_rule_endpoint_def bindr_eq_Inl intro: perm value_error_answered use_cases_refuse(6))
  next
    case (GetActive n reg)
    then show ?thesis using m
      by (auto simp: get_active_endpoint_def missing bindr_eq_Inl intro: perm split: option.splits)
  next
    case (GetPack i)
    then show ?thesis using m
      by (auto simp: get_rule_pack_endpoint_def no_pack_def missing bindr_eq_Inl intro: perm split: option.splits)
  next
    case (ValidateRule d)
    then show ?thesis using m validate_rule_answers [of d]
      by (auto simp: validate_rule_endpoint_def is_ok_iff)
  next
    case (ListPacks s g l off)
    then show ?thesis using m by (auto simp: list_rule_packs_endpoint_def bindr_eq_Inl intro: perm)
  next
    case (ListRules i f l off)
    then show ?thesis using m by (auto simp: list_rules_endpoint_def bindr_eq_Inl intro: perm)
  next
    case (RuleHistory i l off)
    then show ?thesis using m by (auto simp: rule_history_endpoint_def bindr_eq_Inl intro: perm)
  qed
qed

lemma failed_route_keeps:
  "route env ri q pl = (Inl e, pl') \<Longrightarrow> pl' = pl \<or> (\<exists>i qs. q = BulkCreateRules i qs)"
  by (cases q)
    (auto simp: import_rule_pack_endpoint_def create_rule_pack_endpoint_def update_rule_pack_endpoint_def
      delete_rule_pack_endpoint_def publish_rule_pack_endpoint_def activate_rule_pack_endpoint_def
      rollback_rule_pack_endpoint_def create_rule_endpoint_def update_rule_endpoint_def delete_rule_endpoint_def committed_Inl)



section \<open>A posted rule reads back\<close>

definition unused_rule_id :: "string \<Rightarrow> pack_repo \<Rightarrow> bool" where
  "unused_rule_id f rp \<longleftrightarrow> list_all (\<lambda>r. list_all (\<lambda>x. rule_id x \<noteq> Some f) (rules (pack_at rp r))) (refs rp)"

lemma find_unique:
  assumes "a \<in> set xs" and "P a" and "\<And>b. b \<in> set xs \<Longrightarrow> P b \<Longrightarrow> b = a"
  shows "find P xs = Some a"
proof -
  obtain b where "find P xs = Some b" using assms(1,2) find_None_iff [of P xs] by (cases "find P xs") auto
  moreover from this have "b \<in> set xs" "P b" by (auto simp: find_Some_iff)
  ultimately show ?thesis using assms(3) by simp
qed

lemma list_all_packs:
  "length (refs rp) \<le> 10000 \<Longrightarrow> set (repo_list_all rp None None True 10000 0) = set (refs rp)"
  by (simp add: repo_list_all_def page_def)

lemma find_new_rule:
  assumes few: "length (refs rp) \<le> 10000" and r: "r \<in> set (refs rp)"
    and new: "rules (pack_at rp r) = xs @ [x]" "rule_id x = Some f" "list_all (\<lambda>y. rule_id y \<noteq> Some f) xs"
    and others: "\<And>s. s \<in> set (refs rp) \<Longrightarrow> s \<noteq> r \<Longrightarrow> list_all (\<lambda>y. rule_id y \<noteq> Some f) (rules (pack_at rp s))"
  shows "find_rule rp f = Some (r, x)"
  unfolding find_rule_def
proof (rule find_unique)
  let ?all = "concat (map (\<lambda>r. map (\<lambda>x. (r, x)) (rules (pack_at rp r))) (repo_list_all rp None None True 10000 0))"
  show "(r, x) \<in> set ?all" using r new(1) list_all_packs [OF few] by force
  show "case (r, x) of (r, y) \<Rightarrow> rule_id y = Some f" using new(2) by simp
  fix b
  assume "b \<in> set ?all" and P: "case b of (r, y) \<Rightarrow> rule_id y = Some f"
  then obtain s y where b: "b = (s, y)" "s \<in> set (refs rp)" "y \<in> set (rules (pack_at rp s))"
    using list_all_packs [OF few] by auto
  have "s = r" using others [OF b(2)] b P by (auto simp: list_all_iff)
  then show "b = (r, x)" using b P new(1,3) by (auto simp: list_all_iff)
qed

lemma created_rule:
  assumes m: "create_rule c f i (create_rule_fields q) pl = Inr (x, pl')"
    and ok: "repo_ok (repo pl)" and few: "length (refs (repo pl)) \<le> 10000" and new: "unused_rule_id f (repo pl)"
  shows "x = (rule_of_request q)\<lparr>rule_id := Some f\<rparr>" and "get_rule f pl' = Inr x"
proof -
  obtain r where r: "repo_get_by_id (repo pl) i = Some r"
    using m by (cases "repo_get_by_id (repo pl) i") (auto simp: create_rule_def)
  let ?p = "pack_at (repo pl) r"
  let ?p' = "?p\<lparr>rules := rules ?p @ [x]\<rparr>"
  show x: "x = (rule_of_request q)\<lparr>rule_id := Some f\<rparr>"
    using m r by (auto simp: create_rule_def Let_def posted_rule_parses split: if_splits)
  have rp: "repo pl' = repo_save (fresh c) (now c) r (put_pack r ?p' (repo pl))"
    using m r by (auto simp: create_rule_def Let_def posted_rule_parses split: if_splits)
  have ref: "r \<in> set (refs (repo pl))" using get_by_id_ref [OF r] .
  note k = ref_has_key [OF ok ref]
  note d = repo_okD [OF ok k]
  have same: "repo pl' = put_pack r (stamp_pack (fresh c) (now c) ?p') (repo pl)"
    unfolding rp using d update_triv [OF k] 
    by (simp add: repo_save_def Let_def pack_at_def put_pack_def stamp_pack_def split: if_splits)
  have refs: "refs (repo pl') = refs (repo pl)" unfolding same by (simp add: refs_def)
  have at: "pack_at (repo pl') s = (if s = r then stamp_pack (fresh c) (now c) ?p' else pack_at (repo pl) s)" for s
    unfolding same using pack_at_put [OF d(1)] .
  have "find_rule (repo pl') f = Some (r, x)"
  proof (rule find_new_rule)
    show "length (refs (repo pl')) \<le> 10000" "r \<in> set (refs (repo pl'))" using few ref refs by simp_all
    show "rules (pack_at (repo pl') r) = rules ?p @ [x]" using at [of r] by simp
    show "rule_id x = Some f" using x by simp
    show "list_all (\<lambda>y. rule_id y \<noteq> Some f) (rules ?p)" using new ref by (simp add: unused_rule_id_def list_all_iff)
    fix s assume "s \<in> set (refs (repo pl'))" "s \<noteq> r"
    then show "list_all (\<lambda>y. rule_id y \<noteq> Some f) (rules (pack_at (repo pl') s))"
      using new at [of s] refs by (simp add: unused_rule_id_def list_all_iff)
  qed
  then show "get_rule f pl' = Inr x" by (simp add: get_rule_def)
qed

lemma posted_fields_return:
  "(k, v) \<in> set (create_rule_fields q) \<Longrightarrow> k \<noteq> ''exceptions'' \<Longrightarrow>
   map_of (rule_to_dict ((rule_of_request q)\<lparr>rule_id := Some f\<rparr>)) k = Some v"
  unfolding create_rule_fields_def set_simps insert_iff empty_iff prod.inject
  by (elim disjE conjE FalseE) (simp_all add: rule_to_dict_def rule_of_request_def)


text \<open>The example: a rule posted to the draft of the example platform.\<close>

definition w_posted :: create_rule_request where
  "w_posted =
     \<lparr>cq_ruleCode = ''R200'', cq_name = ''High load'', cq_description = [], cq_family = ''NETWORK_IMPACT'',
      cq_familyOrder = 2, cq_priorityWeight = 70, cq_severityBand = Some ''High'', cq_contributionScore = Some 20,
      cq_conditions = [(''>'', PList [PDict [(''var'', PStr ''networkLoad'')], PInt 90])], cq_exceptions = None,
      cq_conflictGroup = None, cq_conflictsWith = [], cq_isSuppressor = False, cq_nonSuppressible = False,
      cq_cooldownMinutes = 0, cq_actions = [(''priority'', PStr ''High'')], cq_mitigations = [], cq_sequencing = None,
      cq_slaTarget = None, cq_enabled = True\<rparr>"

lemma w_created_reach: "reach {KCreate} w_created"
proof -
  have "reach {KCreate} w_empty" unfolding w_empty_def by (rule reach.init)
  moreover have "step KCreate w_empty w_created" unfolding w_created_def
    by (rule create_step) (simp add: w_empty_def unused_id_def)
  ultimately show ?thesis by (blast intro: reach.more_steps)
qed


end
