(* ===== verification/Api_Agreement.thy ===== *)
theory Api_Agreement
  imports Api_Incidents Api_Properties
begin

text \<open>
  What the endpoints that evaluate incidents have in common: a narration changes nothing but
  its own field, a what-if without context providers is the evaluation, and where endpoints
  that are documented to run the same pipeline judge the same incident differently.
\<close>

section \<open>Narration\<close>

definition strip_narration :: "dict \<Rightarrow> dict" where
  \<comment> \<open>an incident response with the narration of its decision taken out\<close>
  "strip_narration d =
     map (\<lambda>(k, v). (k, if k = ''decision'' then (case v of PDict e \<Rightarrow> PDict (dict_set ''aiExplanation'' PNone e) | _ \<Rightarrow> v) else v)) d"

lemma strip_decision: "dict_set ''aiExplanation'' PNone (decision_to_dict d x) = decision_to_dict d None"
  by (simp add: decision_to_dict_def opt_val_def)

lemma strip_incident:
  "strip_narration (incident_to_dict isoformat inc d x) = incident_to_dict isoformat inc d None"
  by (cases d) (simp_all add: strip_narration_def incident_to_dict_def opt_val_def strip_decision)

text \<open>
  Property C16: asking for an AI narration changes nothing else: whatever provider is
  configured, whether it answers or raises, the stores end up the same, the request succeeds
  exactly when it does without narration, and the response differs at most in the narration
  field, both when one incident is evaluated and when many are created.
\<close>
theorem narration_is_additive:
  "map_prod (\<lambda>m. bindr m (\<lambda>d. Inr (dict_set ''aiExplanation'' PNone d))) (\<lambda>s. s)
       (evaluate_incident_endpoint env (sv\<lparr>sv_ai := ai\<rparr>) ri q explain ds) =
     evaluate_incident_endpoint env sv ri q False ds \<and>
   map_prod (\<lambda>m. bindr m (\<lambda>ds. Inr (map strip_narration ds))) (\<lambda>s. s)
       (bulk_create_incidents_endpoint env (sv\<lparr>sv_ai := ai\<rparr>) ri nows b explain is ds) =
     bulk_create_incidents_endpoint env sv ri nows b False is ds"
proof
  show "map_prod (\<lambda>m. bindr m (\<lambda>d. Inr (dict_set ''aiExplanation'' PNone d))) (\<lambda>s. s)
       (evaluate_incident_endpoint env (sv\<lparr>sv_ai := ai\<rparr>) ri q explain ds) =
     evaluate_incident_endpoint env sv ri q False ds"
    by (auto simp: evaluate_incident_endpoint_def bindr_assoc strip_decision narrate_def split: sum.splits prod.splits)
  show "map_prod (\<lambda>m. bindr m (\<lambda>ds. Inr (map strip_narration ds))) (\<lambda>s. s)
       (bulk_create_incidents_endpoint env (sv\<lparr>sv_ai := ai\<rparr>) ri nows b explain is ds) =
     bulk_create_incidents_endpoint env sv ri nows b False is ds"
    by (auto simp: bulk_create_incidents_endpoint_def bindr_assoc strip_incident narrate_def split_beta
        split: sum.splits prod.splits option.splits intro!: bindr_cong)
qed

section \<open>What-if and evaluation\<close>

text \<open>
  Property C26: without context providers a what-if against the active policy answers what the
  evaluation of the same request would: the same decision or the same refusal (a
  \<open>ValueError\<close> as status 400), and it stores nothing.
\<close>
theorem what_if_matches_evaluation:
  assumes "ev_providers (sv_evaluator sv) = None"
    and "permitted env ri ''simulation:run'' = Inr pr" and "permitted env ri ''incidents:evaluate'' = Inr pr'"
    and "sq_pack q = no_reference" and "sq_region q = None" and "sq_tenantId q = None"
  shows "bindr (simulate_endpoint env sv ri q rp) (\<lambda>r. Inr (get_none r ''decision'')) =
    value_error_as 400 (bindr (fst (evaluate_incident_endpoint env sv ri (sq_incident q) False ds)) (\<lambda>d. Inr (PDict d)))"
proof -
  let ?inc = "incident_from_request (sq_incident q)" and ?ev = "sv_evaluator sv"
  let ?answer = "\<lambda>d. Inr (PDict (decision_to_dict d None))"
  have "bindr (simulate_endpoint env sv ri q rp) (\<lambda>r. Inr (get_none r ''decision'')) =
      bindr (value_error_as 400 (bindr (ev_source ?ev None None) (\<lambda>p. bindr (run (ev_matrix ?ev) (ri_now ri) ?inc p)
        (\<lambda>d. Inr (d, rule_pack_ref_dict p ''hot_path_active''))))) (\<lambda>r. ?answer (fst r))"
    using assms by (simp add: simulate_endpoint_def what_if_def resolve_rule_pack_def no_reference_def given_def bindr_assoc
        simulate_rules_def what_if_result_to_dict_def get_none_def dict_get_def)
  also have "\<dots> = value_error_as 400 (bindr (bindr (ev_source ?ev None None) (run (ev_matrix ?ev) (ri_now ri) ?inc)) ?answer)"
    by (cases "ev_source ?ev None None"; simp)
      (auto simp: value_error_as_def bindr_def split: sum.splits exn.splits)
  also have "\<dots> = value_error_as 400 (bindr (fst (evaluate_incident_endpoint env sv ri (sq_incident q) False ds)) (\<lambda>d. Inr (PDict d)))"
    using assms(1,3) by (auto simp: evaluate_incident_endpoint_def evaluate_incident_def with_context_def narrate_def Let_def
        split: sum.splits)
  finally show ?thesis .
qed

text \<open>
  The example: a pack that asks for the region of the incident and for a field of the context,
  the staffing provider, and one incident in Delhi sent to three endpoints.
\<close>

definition w_tests :: rule_pack where
  "w_tests = new_pack ''p'' 1 ACTIVE None
     [(w_rule ''R1'' 5 [(''priority'', PStr ''High'')])
        \<lparr>conditions := PDict [(''=='', PList [PDict [(''var'', PStr ''region'')], PStr ''Delhi''])]\<rparr>,
      (w_rule ''R2'' 5 [(''dispatchEngineer'', PBool True)])
        \<lparr>conditions := PDict [(''=='', PList [PDict [(''var'', PStr ''context.engineerCapacityAvailable'')], PBool True])]\<rparr>]"

definition w_service :: "provider list option \<Rightarrow> service" where
  "w_service ps = \<lparr>sv_evaluator = \<lparr>ev_source = \<lambda>_ _. Inr w_tests, ev_matrix = None, ev_providers = ps\<rparr>,
     sv_ai = stub_provider, sv_ai_name = ''stub'', sv_max_compare = 50, sv_max_bulk = 100\<rparr>"

definition w_evaluate :: incident_evaluate_request where
  "w_evaluate =
     \<lparr>er_incidentId = ''I1'', er_towerId = None, er_region = Some ''Delhi'', er_incidentType = None, er_assetTier = None,
      er_affectedUsers = None, er_vipCustomersAffected = None, er_networkLoad = None, er_slaTier = None,
      er_maintenanceWindow = None, er_weatherSeverity = None, er_historicalFailures = None,
      er_emergencyServicesAffected = None, er_emergencyAlertSystemAffected = None, er_packetLossPercent = None,
      er_trafficSpikePercent = None, er_anomalyFlag = None, er_physicalTamperingDetected = None,
      er_unauthorizedAccessDetected = None, er_context = None, er_degradedContext = Some False, er_extra = []\<rparr>"

definition w_create :: incident_create_request where
  "w_create = \<lparr>ic_incidentId = ''I1'', ic_region = Some ''Delhi'', ic_tenantId = None, ic_context = None, ic_evaluate = True,
     ic_extra = []\<rparr>"

definition w_simulate :: simulate_request where
  "w_simulate = \<lparr>sq_incident = w_evaluate, sq_pack = no_reference, sq_region = None, sq_tenantId = None\<rparr>"

lemma dump_keeps: "map_of d k = Some v \<Longrightarrow> k \<notin> set ex \<Longrightarrow> v \<noteq> PNone \<Longrightarrow> map_of (model_dump ex b d) k = Some v"
  by (induction d) (auto simp: model_dump_def split: if_splits)

lemma without_keeps: "k \<notin> set ks \<Longrightarrow> map_of (without_keys ks d) k = map_of d k"
  by (induction d) (auto simp: without_keys_def)

definition decided :: "dict res \<Rightarrow> val" where
  \<comment> \<open>the decided actions in a response\<close>
  "decided m = (case m of Inl _ \<Rightarrow> PNone | Inr d \<Rightarrow> get_none d ''decision'')"

definition nested_decision :: "dict res \<Rightarrow> val" where
  \<comment> \<open>the decided actions of the decision inside a response\<close>
  "nested_decision m = (case decided m of PDict d \<Rightarrow> get_none d ''decision'' | _ \<Rightarrow> PNone)"

lemma what_if_matches_evaluation_witness:
  "bindr (simulate_endpoint (w_env [''operator'']) (w_service None) w_request w_simulate empty_repo) (\<lambda>r. Inr (get_none r ''decision'')) =
    value_error_as 400 (bindr (fst (evaluate_incident_endpoint (w_env [''operator'']) (w_service None) w_request w_evaluate False []))
      (\<lambda>d. Inr (PDict d)))"
proof -
  have "is_ok (permitted (w_env [''operator'']) w_request ''simulation:run'') \<and>
      is_ok (permitted (w_env [''operator'']) w_request ''incidents:evaluate'')" by code_simp
  then obtain pr pr' where "permitted (w_env [''operator'']) w_request ''simulation:run'' = Inr pr"
    "permitted (w_env [''operator'']) w_request ''incidents:evaluate'' = Inr pr'" by (auto simp: is_ok_iff)
  with what_if_matches_evaluation [of "w_service None" _ _ _ _ w_simulate empty_repo "[]"]
  show ?thesis by (simp add: w_service_def w_simulate_def)
qed

text \<open>
  Endpoints that are documented to run the same pipeline judge the same incident
  differently. Creating an incident takes its region out of the payload, so that a rule on
  the region cannot match there, while the evaluation endpoint lets it; and a what-if does
  not ask the context providers, so that a rule on the context matches in production only.
\<close>
theorem same_incident_judged_differently:
  "map_of (created_payload c) ''region'' = None \<and>
   map_of (payload (incident_from_request (e\<lparr>er_region := Some g\<rparr>))) ''region'' = Some (PStr g) \<and>
   (let env = w_env [''operator'']; sv = w_service (Some [workforce_provider None])
   in decided (fst (evaluate_incident_endpoint env sv w_request w_evaluate False [])) =
        PDict [(''priority'', PStr ''High''), (''dispatchEngineer'', PBool True)] \<and>
      nested_decision (fst (create_incident_endpoint env sv w_request w_create [] [])) =
        PDict [(''dispatchEngineer'', PBool True)] \<and>
      nested_decision (simulate_endpoint env sv w_request w_simulate empty_repo) =
        PDict [(''priority'', PStr ''High'')])"
proof (intro conjI)
  show "map_of (created_payload c) ''region'' = None"
    by (auto simp: created_payload_def model_dump_def map_of_eq_None_iff)
  show "map_of (payload (incident_from_request (e\<lparr>er_region := Some g\<rparr>))) ''region'' = Some (PStr g)"
    by (simp add: incident_from_request_def new_incident_def without_keeps, rule dump_keeps)
      (simp_all add: evaluate_request_fields_def opt_val_def)
  show "let env = w_env [''operator'']; sv = w_service (Some [workforce_provider None])
   in decided (fst (evaluate_incident_endpoint env sv w_request w_evaluate False [])) =
        PDict [(''priority'', PStr ''High''), (''dispatchEngineer'', PBool True)] \<and>
      nested_decision (fst (create_incident_endpoint env sv w_request w_create [] [])) =
        PDict [(''dispatchEngineer'', PBool True)] \<and>
      nested_decision (simulate_endpoint env sv w_request w_simulate empty_repo) =
        PDict [(''priority'', PStr ''High'')]"
    by code_simp
qed

end
