(* ===== verification/Ai_Failures.thy ===== *)
theory Ai_Failures
  imports Ai_Providers Api_Agreement Jobs
begin

text \<open>
  What the AI endpoints (\<open>ai_router.py\<close>) answer when the configured model or the network
  between fails, for either HTTP provider: an outage is a bad gateway, as documented, but
  a reply that is not JSON and a reply without a text are not.
\<close>

section \<open>The common shape of the providers\<close>

definition answer_content :: "ai_kind \<Rightarrow> val \<Rightarrow> val res" where
  "answer_content k data = (if k = Gemini_Compatible then gemini_content data else openai_content data)"

definition model_answer :: "llm_world \<Rightarrow> settings \<Rightarrow> http_request \<Rightarrow> val res" where
  "model_answer w s rq =
     bindr (post_json w (settings_config s) rq) (\<lambda>data. shape_error data (answer_content (set_ai_provider s) data))"

lemma provider_shape:
  assumes "set_ai_provider s \<noteq> Stub"
  shows "\<exists>rq. ai_generate_rule (create_ai_provider w s) t d =
      bindr (bindr (model_answer w s rq) (extract_json_object (lw_read w))) as_draft"
    and "\<exists>rq. ai_document_rule (create_ai_provider w s) d = bindr (model_answer w s rq) stripped"
    and "\<exists>rq. ai_explain_decision (create_ai_provider w s) d = bindr (model_answer w s rq) stripped"
proof -
  show "\<exists>rq. ai_generate_rule (create_ai_provider w s) t d =
      bindr (bindr (model_answer w s rq) (extract_json_object (lw_read w))) as_draft"
  proof (cases "set_ai_provider s")
    case Openai_Compatible
    then show ?thesis
      by (intro exI [of _ "openai_request (settings_config s) rule_generation_system_prompt (rule_generation_user_prompt t d) True"])
        (simp add: create_ai_provider_def openai_provider_def openai_generate_rule_def openai_chat_def model_answer_def
           answer_content_def)
  next
    case Gemini_Compatible
    then show ?thesis
      by (intro exI [of _ "gemini_request (settings_config s) rule_generation_system_prompt (rule_generation_user_prompt t d)"])
        (simp add: create_ai_provider_def gemini_provider_def gemini_generate_rule_def gemini_generate_def model_answer_def
           answer_content_def)
  qed (simp add: assms)
  show "\<exists>rq. ai_document_rule (create_ai_provider w s) d = bindr (model_answer w s rq) stripped"
  proof (cases "set_ai_provider s")
    case Openai_Compatible
    then show ?thesis
      by (intro exI [of _ "openai_request (settings_config s) rule_documentation_system_prompt (rule_documentation_user_prompt d) False"])
        (simp add: create_ai_provider_def openai_provider_def openai_document_rule_def openai_chat_def model_answer_def
           answer_content_def)
  next
    case Gemini_Compatible
    then show ?thesis
      by (intro exI [of _ "gemini_request (settings_config s) rule_documentation_system_prompt (rule_documentation_user_prompt d)"])
        (simp add: create_ai_provider_def gemini_provider_def gemini_document_rule_def gemini_generate_def model_answer_def
           answer_content_def)
  qed (simp add: assms)
  show "\<exists>rq. ai_explain_decision (create_ai_provider w s) d = bindr (model_answer w s rq) stripped"
  proof (cases "set_ai_provider s")
    case Openai_Compatible
    then show ?thesis
      by (intro exI [of _ "openai_request (settings_config s) decision_explanation_system_prompt (decision_explanation_user_prompt d) False"])
        (simp add: create_ai_provider_def openai_provider_def openai_explain_decision_def openai_chat_def model_answer_def
           answer_content_def)
  next
    case Gemini_Compatible
    then show ?thesis
      by (intro exI [of _ "gemini_request (settings_config s) decision_explanation_system_prompt (decision_explanation_user_prompt d)"])
        (simp add: create_ai_provider_def gemini_provider_def gemini_explain_decision_def gemini_generate_def model_answer_def
           answer_content_def)
  qed (simp add: assms)
qed

lemma key_failure: "py_key k v = Inl e \<Longrightarrow> is_lookup_failure e"
  by (auto simp: py_key_def get_item_def split: val.splits option.splits)

lemma first_failure: "first_of v = Inl e \<Longrightarrow> is_lookup_failure e"
  by (auto simp: first_of_def py_index_def split: val.splits if_splits)

lemma content_failure: "answer_content k v = Inl e \<Longrightarrow> is_lookup_failure e"
  by (auto simp: answer_content_def gemini_content_def openai_content_def bindr_eq_Inl split: if_splits
      dest: key_failure first_failure)

section \<open>Failures\<close>

definition outage :: "http_reply \<Rightarrow> bool" where
  "outage r = (case r of Timed_Out \<Rightarrow> True | Transport_Error _ \<Rightarrow> True | Other_Failure _ \<Rightarrow> False
     | Reply code _ \<Rightarrow> code < 200 \<or> 300 \<le> code)"

definition replies :: "llm_world \<Rightarrow> string \<Rightarrow> bool" where
  \<comment> \<open>every request is answered successfully with this body\<close>
  "replies w body = (\<forall>rq. \<exists>code. lw_http w rq = Reply code body \<and> 200 \<le> code \<and> code < 300)"

definition bad_gateway :: "'a res \<Rightarrow> bool" where
  "bad_gateway m = (\<exists>t. m = Inl (HTTPException 502 t))"

lemma outage_answer: "outage (lw_http w rq) \<Longrightarrow> \<exists>t. model_answer w s rq = Inl (AIProviderError t)"
  by (auto simp: model_answer_def post_json_def outage_def split: http_reply.splits)

lemma reply_answer:
  assumes "replies w body"
  shows "lw_read w body = Malformed m \<Longrightarrow> model_answer w s rq = Inl (ValueError m)"
    and "lw_read w body = Parsed v \<Longrightarrow> answer_content (set_ai_provider s) v = Inr x \<Longrightarrow> model_answer w s rq = Inr x"
    and "lw_read w body = Parsed v \<Longrightarrow> answer_content (set_ai_provider s) v = Inl e \<Longrightarrow>
      \<exists>t. model_answer w s rq = Inl (AIProviderError t)"
proof -
  obtain code where "lw_http w rq = Reply code body" "\<not> (code < 200 \<or> 300 \<le> code)"
    using assms unfolding replies_def by (metis not_le)
  then show "lw_read w body = Malformed m \<Longrightarrow> model_answer w s rq = Inl (ValueError m)"
    "lw_read w body = Parsed v \<Longrightarrow> answer_content (set_ai_provider s) v = Inr x \<Longrightarrow> model_answer w s rq = Inr x"
    "lw_read w body = Parsed v \<Longrightarrow> answer_content (set_ai_provider s) v = Inl e \<Longrightarrow>
      \<exists>t. model_answer w s rq = Inl (AIProviderError t)"
    by (auto simp: model_answer_def post_json_def shape_error_def dest: content_failure)
qed

lemma no_text_answer:
  assumes "\<forall>t. x \<noteq> PStr t"
  shows "stripped x = Inl AttributeError" "extract_json_object read x = Inl AttributeError"
  using assms by (auto simp: stripped_def extract_json_object_def split: val.splits)

text \<open>
  Property C14: when the language model cannot be reached, times out, reports an error or
  answers JSON of another shape, the three AI endpoints answer 502. When it answers something
  that is not JSON, or no text, they do not: the first is reported as a bad request by the
  drafting endpoint and is not handled by the other two, the second is not handled anywhere.
\<close>
theorem model_failures_at_the_endpoints:
  assumes ai: "sv_ai sv = create_ai_provider w s" "set_ai_provider s \<noteq> Stub"
    and allowed: "permitted env ri ''rules:edit'' = Inr p1" "permitted env ri ''rules:read'' = Inr p2"
      "permitted env ri ''decisions:read'' = Inr p3"
    and request: "py_strip (gq_description g) \<noteq> []" "rule_to_document q pl = Inr r" "decision_get ds i = Some d"
  shows "((\<forall>rq. outage (lw_http w rq)) \<or>
      replies w body \<and> (\<exists>v e. lw_read w body = Parsed v \<and> answer_content (set_ai_provider s) v = Inl e) \<longrightarrow>
      bad_gateway (generate_rule_endpoint env sv ri g) \<and> bad_gateway (document_rule_endpoint env sv ri q pl) \<and>
      bad_gateway (explain_decision_endpoint env sv ri i ds)) \<and>
    (replies w body \<and> lw_read w body = Malformed m \<longrightarrow>
      generate_rule_endpoint env sv ri g = Inl (HTTPException 400 m) \<and>
      document_rule_endpoint env sv ri q pl = Inl (ValueError m) \<and>
      explain_decision_endpoint env sv ri i ds = Inl (ValueError m)) \<and>
    (replies w body \<and> lw_read w body = Parsed v \<and> answer_content (set_ai_provider s) v = Inr x \<and> (\<forall>t. x \<noteq> PStr t) \<longrightarrow>
      generate_rule_endpoint env sv ri g = Inl AttributeError \<and>
      document_rule_endpoint env sv ri q pl = Inl AttributeError \<and>
      explain_decision_endpoint env sv ri i ds = Inl AttributeError)"
proof -
  obtain rq1 where gen: "ai_generate_rule (sv_ai sv) (gq_description g) (prompt_context (gq_family g) (gq_region g) (gq_samplePayload g)) =
      bindr (bindr (model_answer w s rq1) (extract_json_object (lw_read w))) as_draft"
    using provider_shape(1) [OF ai(2)] ai(1) by metis
  obtain rq2 where doc: "ai_document_rule (sv_ai sv) r = bindr (model_answer w s rq2) stripped"
    using provider_shape(2) [OF ai(2)] ai(1) by metis
  obtain rq3 where exp: "ai_explain_decision (sv_ai sv) (decision_facts d) = bindr (model_answer w s rq3) stripped"
    using provider_shape(3) [OF ai(2)] ai(1) by metis
  have g: "generate_rule_endpoint env sv ri g = Inl (case provider_error (Inl e :: dict res) of Inl e' \<Rightarrow>
        (case value_error_as 400 (Inl e' :: dict res) of Inl e'' \<Rightarrow> e''))"
    if "bindr (model_answer w s rq1) (extract_json_object (lw_read w)) = Inl e" for e
    using that allowed(1) request(1) gen
    by (cases e) (simp_all add: generate_rule_endpoint_def generate_rule_from_description_def provider_error_def value_error_as_def)
  have dc: "document_rule_endpoint env sv ri q pl = Inl (case provider_error (Inl e :: dict res) of Inl e' \<Rightarrow> e')"
    if "bindr (model_answer w s rq2) stripped = Inl e" for e
    using that allowed(2) request(2) doc
    by (cases e) (simp_all add: document_rule_endpoint_def document_rule_use_case_def provider_error_def)
  have ex: "explain_decision_endpoint env sv ri i ds = Inl (case provider_error (Inl e :: dict res) of Inl e' \<Rightarrow> e')"
    if "bindr (model_answer w s rq3) stripped = Inl e" for e
    using that allowed(3) request(3) exp
    by (cases e) (simp_all add: explain_decision_endpoint_def explain_decision_ai_def provider_error_def)
  note simps = g dc ex provider_error_def value_error_as_def bad_gateway_def
  have out: "\<exists>t. model_answer w s rq = Inl (AIProviderError t)"
    if "(\<forall>rq. outage (lw_http w rq)) \<or>
      replies w body \<and> (\<exists>v e. lw_read w body = Parsed v \<and> answer_content (set_ai_provider s) v = Inl e)" for rq
    using that outage_answer reply_answer(3) by blast
  show ?thesis
  proof (intro conjI impI)
    assume o: "(\<forall>rq. outage (lw_http w rq)) \<or>
      replies w body \<and> (\<exists>v e. lw_read w body = Parsed v \<and> answer_content (set_ai_provider s) v = Inl e)"
    show "bad_gateway (generate_rule_endpoint env sv ri g)" using out [OF o, of rq1] by (auto simp: simps)
    show "bad_gateway (document_rule_endpoint env sv ri q pl)" using out [OF o, of rq2] by (auto simp: simps)
    show "bad_gateway (explain_decision_endpoint env sv ri i ds)" using out [OF o, of rq3] by (auto simp: simps)
  next
    assume "replies w body \<and> lw_read w body = Malformed m"
    then have a: "model_answer w s rq = Inl (ValueError m)" for rq using reply_answer(1) by blast
    show "generate_rule_endpoint env sv ri g = Inl (HTTPException 400 m)" using a by (simp add: simps)
    show "document_rule_endpoint env sv ri q pl = Inl (ValueError m)" using a by (simp add: simps)
    show "explain_decision_endpoint env sv ri i ds = Inl (ValueError m)" using a by (simp add: simps)
  next
    assume x: "replies w body \<and> lw_read w body = Parsed v \<and> answer_content (set_ai_provider s) v = Inr x \<and> (\<forall>t. x \<noteq> PStr t)"
    then have a: "model_answer w s rq = Inr x" for rq using reply_answer(2) by blast
    have n: "stripped x = Inl AttributeError" "extract_json_object (lw_read w) x = Inl AttributeError"
      using x no_text_answer by blast+
    show "generate_rule_endpoint env sv ri g = Inl AttributeError" using a n by (simp add: simps)
    show "document_rule_endpoint env sv ri q pl = Inl AttributeError" using a n by (simp add: simps)
    show "explain_decision_endpoint env sv ri i ds = Inl AttributeError" using a n by (simp add: simps)
  qed
qed

text \<open>The example: a proxy that answers every request with a web page, and a network that is down.\<close>

definition w_world :: "http_reply \<Rightarrow> llm_world" where
  "w_world r = \<lparr>lw_http = \<lambda>_. r, lw_read = \<lambda>_. Malformed ''Expecting value''\<rparr>"

definition w_llm_settings :: settings where
  "w_llm_settings = default_settings\<lparr>set_ai_provider := Openai_Compatible\<rparr>"

definition w_llm_service :: "http_reply \<Rightarrow> service" where
  "w_llm_service r = (w_service None)\<lparr>sv_ai := create_ai_provider (w_world r) w_llm_settings, sv_ai_name := ''openai_compatible''\<rparr>"

definition w_describe :: generate_rule_request where
  "w_describe = \<lparr>gq_description = ''VIP outage'', gq_family = None, gq_region = None, gq_samplePayload = None\<rparr>"

definition w_document :: document_rule_request where
  "w_document = \<lparr>dq_ruleId = None, dq_rule = Some w_posted\<rparr>"

lemma model_failures_at_the_endpoints_witness:
  "generate_rule_endpoint (w_env [''policy_admin'', ''viewer'']) (w_llm_service (Reply 200 ''<html>'')) w_request w_describe =
     Inl (HTTPException 400 ''Expecting value'') \<and>
   document_rule_endpoint (w_env [''policy_admin'', ''viewer'']) (w_llm_service (Reply 200 ''<html>'')) w_request w_document w_empty =
     Inl (ValueError ''Expecting value'') \<and>
   bad_gateway (generate_rule_endpoint (w_env [''policy_admin'', ''viewer'']) (w_llm_service Timed_Out) w_request w_describe)"
proof -
  let ?env = "w_env [''policy_admin'', ''viewer'']" and ?d = "w_decision ''I1'' (PStr ''High'') []"
  have ok: "is_ok (permitted ?env w_request ''rules:edit'') \<and> is_ok (permitted ?env w_request ''rules:read'') \<and>
      is_ok (permitted ?env w_request ''decisions:read'')" by code_simp
  then obtain p1 p2 p3 where p: "permitted ?env w_request ''rules:edit'' = Inr p1" "permitted ?env w_request ''rules:read'' = Inr p2"
    "permitted ?env w_request ''decisions:read'' = Inr p3" by (auto simp: is_ok_iff)
  have ai: "sv_ai (w_llm_service r) = create_ai_provider (w_world r) w_llm_settings" "set_ai_provider w_llm_settings \<noteq> Stub" for r
    by (simp_all add: w_llm_service_def w_llm_settings_def)
  have desc: "py_strip (gq_description w_describe) \<noteq> []" by (simp add: w_describe_def) code_simp
  have doc: "rule_to_document w_document w_empty = Inr (create_rule_fields w_posted)"
    by (simp add: rule_to_document_def w_document_def)
  have dec: "decision_get (decision_save ?d []) ''I1'' = Some ?d"
    by (simp add: decision_get_def decision_save_def dict_append_def dict_get_def w_decision_def)
  have "replies (w_world (Reply 200 b)) b" for b by (simp add: replies_def w_world_def)
  moreover have "lw_read (w_world r) b = Malformed ''Expecting value''" for r b by (simp add: w_world_def)
  moreover have "\<forall>rq. outage (lw_http (w_world Timed_Out) rq)" by (simp add: w_world_def outage_def)
  ultimately show ?thesis
    using model_failures_at_the_endpoints [OF ai p desc doc dec, where body = "''<html>''" and m = "''Expecting value''"]
    by blast
qed

end
