(* ===== verification/Startup.thy ===== *)
theory Startup
  imports Db_Races Seeding Loaders Ai_Failures
begin

text \<open>
  The composition root (\<open>dependencies.py\<close>), the response headers every request gets, and
  the start-up of the application (\<open>lifespan.py\<close>): what the settings select, the seeding of
  the relational repository and the warm-up of the policy cache. A failure in either step is
  swallowed. Then what a started process can serve.
\<close>

section \<open>What the settings select\<close>

definition check_rule_source :: "settings \<Rightarrow> unit res" where
  "check_rule_source s =
     (if rule_source s = Dynamic \<and> persistence_backend s \<noteq> In_Postgres
      then Inl (RuntimeError (''RULE_SOURCE=dynamic requires PERSISTENCE_BACKEND=postgres -- '' @
             ''the dynamic rule source reads rule packs from Postgres.''))
      else Inr ())"

text \<open>The decoded rule documents that ship with the program.\<close>

record rule_documents =
  doc_base :: dict
  doc_sla :: dict
  doc_vast :: dict
  doc_csr_sla :: dict
  doc_historical :: dict
  doc_net_inf :: dict
  doc_industry_sop :: dict

definition static_rule_pack :: "rule_documents \<Rightarrow> rule_pack res" where
  "static_rule_pack ds =
     bindr (in_memory_rule_repository (doc_base ds)) (\<lambda>p.
     bindr (load_sla_rules (doc_sla ds)) (\<lambda>sla.
     bindr (load_vast_rules (doc_vast ds)) (\<lambda>vast.
     bindr (load_csr_sla_rules (doc_csr_sla ds)) (\<lambda>csr.
     bindr (load_historical_pattern_rules (doc_historical ds)) (\<lambda>his.
     bindr (load_net_inf_rules (doc_net_inf ds)) (\<lambda>ninf.
     bindr (load_industry_sop_rules (doc_industry_sop ds)) (\<lambda>sop.
       Inr (composite_rule_repository (pack_name p) (version p + 1) (region p)
              [rules p, sla, vast, csr, his, ninf, sop]))))))))"

text \<open>\<open>int(x)\<close> of a double truncates.\<close>

definition py_int_of_fl :: "fl \<Rightarrow> int res" where
  "py_int_of_fl x =
     (case x of
        Fin a \<Rightarrow> Inr (if 0 \<le> a then \<lfloor>a\<rfloor> else \<lceil>a\<rceil>)
      | NaN \<Rightarrow> Inl (ValueError ''cannot convert float NaN to integer'')
      | _ \<Rightarrow> Inl OverflowError)"

definition redis_backend_config :: "settings \<Rightarrow> redis_config res" where
  "redis_backend_config s =
     bindr (py_int_of_fl (redis_snapshot_max_age_seconds s)) (\<lambda>i.
       Inr \<lparr>key_prefix = redis_key_prefix s, snapshot_ttl = max 1 i\<rparr>)"

definition build_rule_cache :: "settings \<Rightarrow> 's redis_client \<Rightarrow> 's \<Rightarrow> ('s cache_setup \<times> 's rule_cache) res" where
  "build_rule_cache s client server =
     bindr (case cache_backend s of
              Local_Only \<Rightarrow> Inr None
            | With_Redis \<Rightarrow> bindr (redis_backend_config s) (\<lambda>c. Inr (Some (client, c)))) (\<lambda>b.
       Inr (\<lparr>rc_backend = b, rc_key = dynamic_rule_set_name s, rc_bound = (rule_source s = Dynamic)\<rparr>,
            \<lparr>rc_ttl_cache = new_cache (rule_cache_ttl_seconds s), rc_last_known_good = None, rc_server = server\<rparr>))"

definition default_providers :: "provider list" where
  "default_providers =
     [historical_context_provider None, crm_provider None, regional_policy_provider None, workforce_provider None,
      vendor_kb_provider None, incident_correlation_provider None, competitive_intel_provider None,
      social_listening_provider None]"

definition build_service :: "llm_world \<Rightarrow> settings \<Rightarrow> pack_source \<Rightarrow> sla_matrix \<Rightarrow> service" where
  \<comment> \<open>over the rule repository that was selected and the decoded SLA matrix\<close>
  "build_service w s source matrix =
     \<lparr>sv_evaluator = \<lparr>ev_source = source, ev_matrix = Some matrix, ev_providers = Some default_providers\<rparr>,
      sv_ai = create_ai_provider w s, sv_ai_name = ai_kind_text (set_ai_provider s),
      sv_max_compare = simulation_max_compare_incidents s, sv_max_bulk = bulk_evaluate_max_items s\<rparr>"

definition auth_settings_of :: "settings \<Rightarrow> auth_settings" where
  "auth_settings_of s =
     \<lparr>jwt_secret = set_jwt_secret s, jwt_algorithm = set_jwt_algorithm s,
      jwt_access_token_minutes = set_jwt_access_token_minutes s, jwt_refresh_token_days = set_jwt_refresh_token_days s,
      auth_required = set_auth_required s\<rparr>"

section \<open>Responses of every endpoint\<close>

definition security_headers :: "string \<Rightarrow> (string \<times> string) list \<Rightarrow> (string \<times> string) list" where
  \<comment> \<open>the scheme of the request and the headers of the response\<close>
  "security_headers scheme hs =
     foldl (\<lambda>hs (k, v). dict_set k v hs) hs
       ([(''X-Content-Type-Options'', ''nosniff''), (''X-Frame-Options'', ''DENY''), (''Referrer-Policy'', ''no-referrer''),
         (''Permissions-Policy'', ''geolocation=(), microphone=(), camera=()''),
         (''X-Permitted-Cross-Domain-Policies'', ''none'')] @
        (if scheme = ''https'' then [(''Strict-Transport-Security'', ''max-age=63072000; includeSubDomains'')] else []))"

definition health :: dict where
  "health = [(''status'', PStr ''ok'')]"

section \<open>Start-up\<close>

text \<open>
  \<open>seed_active_policy.py\<close> on the relational repository; \<open>o1\<close> and \<open>o2\<close> are what other
  sessions commit while it saves and while it activates.
\<close>

definition pg_seed_active_policy ::
  "'db sql_session \<Rightarrow> rule_pack res \<Rightarrow> string \<Rightarrow> uuid \<Rightarrow> (nat \<Rightarrow> uuid) \<Rightarrow> instant \<Rightarrow> ('db \<Rightarrow> 'db) \<Rightarrow> ('db \<Rightarrow> 'db) \<Rightarrow>
   'db pg_repo \<Rightarrow> seed_result res \<times> 'db pg_repo" where
  "pg_seed_active_policy q fixture n f fs t o1 o2 st =
     (case pg_get_active q st n None of
        Some p \<Rightarrow> (Inr \<lparr>sr_seeded = False, sr_activated = True, sr_pack_name = n, sr_pack_version = version p\<rparr>, st)
      | None \<Rightarrow>
          (case fixture of
             Inl e \<Rightarrow> (Inl e, st)
           | Inr p \<Rightarrow>
               (case (case pg_get q st n (version p) of
                        Some x \<Rightarrow> (Inr x, st)
                      | None \<Rightarrow> pg_save q f fs t o1 (p\<lparr>pack_name := n\<rparr>) st) of
                  (Inl e, st) \<Rightarrow> (Inl e, st)
                | (Inr saved, st) \<Rightarrow>
                    (case pg_activate q t o2 (pack_name saved) (version saved) None st of
                       (Inl e, st) \<Rightarrow> (Inl e, st)
                     | (Inr a, st) \<Rightarrow>
                         (Inr \<lparr>sr_seeded = True, sr_activated = True, sr_pack_name = pack_name saved,
                            sr_pack_version = version a\<rparr>, st)))))"

definition startup ::
  "settings \<Rightarrow> 'db sql_session \<Rightarrow> rule_pack res \<Rightarrow> uuid \<Rightarrow> (nat \<Rightarrow> uuid) \<Rightarrow> instant \<Rightarrow> ('db \<Rightarrow> 'db) \<Rightarrow> ('db \<Rightarrow> 'db) \<Rightarrow>
   's cache_setup \<Rightarrow> fl \<Rightarrow> string \<Rightarrow> 'db pg_repo \<Rightarrow> 's rule_cache \<Rightarrow> 'db pg_repo \<times> 's rule_cache" where
  \<comment> \<open>what seeding has stored stays stored when it fails\<close>
  "startup s q fixture f fs t o1 o2 cf clock token st rc =
     (if persistence_backend s \<noteq> In_Postgres \<or> rule_source s \<noteq> Dynamic then (st, rc)
      else
        let n = dynamic_rule_set_name s;
            st = (if auto_seed_on_startup s then snd (pg_seed_active_policy q fixture n f fs t o1 o2 st) else st)
        in (st, snd (policy_get_active q n (Some (cf, clock, token)) None (database st) rc)))"

section \<open>The first deployment\<close>

definition dynamic_platform :: "settings \<Rightarrow> bool" where
  "dynamic_platform s = (persistence_backend s = In_Postgres \<and> rule_source s = Dynamic)"

text \<open>
  No version of the rule set is stored yet, the fixture is a pack as the loader builds it, for
  no region and without a parent, and the database accepts the new row.
\<close>

definition first_deployment :: "'db sql_session \<Rightarrow> string \<Rightarrow> rule_pack \<Rightarrow> uuid \<Rightarrow> instant \<Rightarrow> 'db \<Rightarrow> bool" where
  "first_deployment q n p f t d \<longleftrightarrow>
     (\<forall>r \<in> set (sql_rows q d). rsr_name r \<noteq> n) \<and> new_pack_of p \<and> region p = None \<and> parent_version p = None \<and>
     unused_uuid f (sql_rows q d) \<and> list_all (\<lambda>r. storable_id (rule_id r)) (rules p) \<and>
     (\<forall>row m. rsr_id row = Some f \<longrightarrow> sql_commit q t [Added row] d \<noteq> Failed m)"

definition same_rules :: "rule list \<Rightarrow> rule list \<Rightarrow> bool" where
  \<comment> \<open>in some order, as read back from JSON columns\<close>
  "same_rules rs rs' \<longleftrightarrow> mset (map json_normal rs) = mset (map json_normal rs')"

lemma first_save:
  assumes laws: "session_laws q" and new: "first_deployment q n p f t (database st)"
  shows "\<exists>x d target. pg_save q f fs t (\<lambda>d. d) (p\<lparr>pack_name := n\<rparr>) st = (Inr x, st\<lparr>database := d\<rparr>) \<and>
    pack_name x = n \<and> version x = version p \<and> row_of_version n (version p) (sql_rows q d) = Some target \<and>
    rsr_region target = None \<and> rsr_deleted_at target = None \<and> same_rules (map rule_to_domain (rsr_rules target)) (rules p)"
proof -
  let ?d = "database st" and ?p = "p\<lparr>pack_name := n\<rparr>"
  have np: "region p = None" "parent_version p = None" "deleted_at p = None" using new by (simp_all add: first_deployment_def new_pack_of_def)
  have storable: "\<forall>r \<in> set (rules ?p). storable_id (rule_id r)" using new by (simp add: first_deployment_def list_all_iff)
  obtain rows where rows: "stored_rules f t (numbered_rules fs (rules ?p)) = Inr rows" using numbered_storable [OF storable] .
  let ?row = "(new_set_row f t ?p None)\<lparr>rsr_rules := rows\<rparr>"
  have none: "row_of_version n (version p) (sql_rows q ?d) = None"
    using new by (auto simp: row_of_version_def find_None_iff first_deployment_def)
  have unit: "save_unit f fs t ?p (sql_rows q ?d) = Inr (Added ?row, ?row)"
    using rows by (simp add: save_unit_def none np Let_def)
  have work: "unit_of_work [Added ?row]" by (simp add: unit_of_work_def)
  have "sql_commit q t [Added ?row] ?d \<noteq> Stale_Data" using commit_law(3) [OF laws work] by fastforce
  then obtain d where d: "sql_commit q t [Added ?row] ?d = Committed d"
    using new by (cases "sql_commit q t [Added ?row] ?d") (auto simp: first_deployment_def)
  note after = commit_law(2) [OF laws work d]
  obtain r where r: "row_by_id (sql_rows q d) f = Some r" "row_core r = row_core ?row"
    using after [of f] by (auto simp: after_commit_def)
  have save: "pg_save q f fs t (\<lambda>d. d) ?p st = (Inr (?p\<lparr>pack_id := Some (uuid_opt_str (rsr_id r)), created_at := rsr_created_at r\<rparr>), st\<lparr>database := d\<rparr>)"
    by (simp add: pg_save_def unit pg_commit_def d refresh_row_def r(1))
  have row: "rsr_name ?row = n" "rsr_version ?row = version p" "rsr_region ?row = None" "rsr_deleted_at ?row = None"
    using np by (simp_all add: new_set_row_def)
  have "r \<in> set (sql_rows q d) \<and> rsr_name r = n \<and> rsr_version r = version p"
    using row_by_id_Some [OF r(1)] row_core_fields [OF r(2)] row by simp
  then obtain target where target: "row_of_version n (version p) (sql_rows q d) = Some target"
    by (cases "row_of_version n (version p) (sql_rows q d)") (auto simp: row_of_version_def find_None_iff)
  note t = row_of_version_in [OF target]
  obtain u where u: "row_by_id (sql_rows q d) u = Some target" using row_by_id_member [OF laws] t by blast
  have "u = f"
  proof (rule ccontr)
    assume "u \<noteq> f"
    then obtain s where "row_by_id (sql_rows q ?d) u = Some s" "row_core target = row_core s"
      using after [of u] u by (cases "row_by_id (sql_rows q ?d) u") (auto simp: after_commit_def)
    then show False using row_by_id_Some [of "sql_rows q ?d" u s] row_core_fields(2) [of target s] t new
      by (auto simp: first_deployment_def)
  qed
  then have core: "row_core target = row_core ?row" using u r by simp
  have "mset (map rule_to_domain (rsr_rules target)) = mset (map rule_to_domain rows)"
    using core unfolding row_core_def prod.inject by simp
  then have "mset (map json_normal (map rule_to_domain (rsr_rules target))) = mset (map json_normal (map rule_to_domain rows))"
    by (metis mset_map)
  then have "same_rules (map rule_to_domain (rsr_rules target)) (rules p)"
    using stored_rules_alike [OF rows] by (simp add: same_rules_def)
  then show ?thesis using target row_core_fields(5,7) [OF core] row
    by (intro exI [of _ "?p\<lparr>pack_id := Some (uuid_opt_str (rsr_id r)), created_at := rsr_created_at r\<rparr>"] exI [of _ d] exI [of _ target])
      (simp add: save)
qed

text \<open>Warming up a cold cache, and reading a warm one.\<close>

lemma cold_get:
  assumes "cached (rc_ttl_cache rc) = None" and "distributed_read cf rc = None"
  shows "\<exists>rc'. policy_get_active q n (Some (cf, clock, token)) reg d rc =
      (case load_from_db q n reg d of
         Inr x \<Rightarrow> (Inr (Some x), rc')
       | Inl e \<Rightarrow> (case rc_last_known_good rc of Some y \<Rightarrow> (Inr (Some y), rc') | None \<Rightarrow> (Inl e, rc))) \<and>
    (\<forall>x. load_from_db q n reg d = Inr x \<longrightarrow> cached (rc_ttl_cache rc') = Some x \<and> loaded_at (rc_ttl_cache rc') = clock \<and>
      ttl_seconds (rc_ttl_cache rc') = ttl_seconds (rc_ttl_cache rc))"
  using assms
  by (cases "load_from_db q n reg d"; cases "rc_last_known_good rc")
    (auto simp: policy_get_active_def rule_cache_get_def cache_stale_def resolve_for_get_def load_from_source_and_propagate_def
       cache_get_def)

lemma warm_get:
  "cached (rc_ttl_cache rc) = Some x \<Longrightarrow> \<not> cache_stale clock (rc_ttl_cache rc) \<Longrightarrow>
   policy_get_active q n (Some (cf, clock, token)) reg d rc = (Inr (Some x), rc)"
  by (simp add: policy_get_active_def rule_cache_get_def)

lemma seeded_already:
  "pg_get_active q st n None \<noteq> None \<Longrightarrow> snd (pg_seed_active_policy q fixture n f fs t o1 o2 st) = st"
  by (auto simp: pg_seed_active_policy_def)

lemma startup_database:
  "dynamic_platform s \<Longrightarrow> auto_seed_on_startup s \<Longrightarrow>
   fst (startup s q fixture f fs t o1 o2 cf clock token st rc) =
     snd (pg_seed_active_policy q fixture (dynamic_rule_set_name s) f fs t o1 o2 st)"
  by (simp add: startup_def dynamic_platform_def Let_def)

text \<open>
  Property C11: the first start of a dynamic platform on an empty rule set stores the shipped
  rules and puts them in force, and from then on evaluations are served from memory, whatever
  becomes of the database, until the cache is too old; later starts leave the database alone.
\<close>
theorem first_start_serves_a_policy:
  assumes laws: "session_laws q" and av: "available q" and s: "dynamic_platform s" "auto_seed_on_startup s"
    and new: "first_deployment q (dynamic_rule_set_name s) p f t (database st)"
    and cold: "cached (rc_ttl_cache rc) = None" "distributed_read cf rc = None"
  shows "\<exists>st' rc' x. startup s q (Inr p) f fs t (\<lambda>d. d) (\<lambda>d. d) cf clock token st rc = (st', rc') \<and>
    load_from_db q (dynamic_rule_set_name s) None (database st') = Inr x \<and> version x = version p \<and> same_rules (rules x) (rules p) \<and>
    (\<forall>clock' token' d'. \<not> fl_less (ttl_seconds (rc_ttl_cache rc)) (fl_sub clock' clock) \<longrightarrow>
      policy_get_active q (dynamic_rule_set_name s) (Some (cf, clock', token')) None d' rc' = (Inr (Some x), rc')) \<and>
    (\<forall>fx f' fs' t' o1 o2 clock' token' rc''. fst (startup s q fx f' fs' t' o1 o2 cf clock' token' st' rc'') = st')"
proof -
  let ?n = "dynamic_rule_set_name s"
  have "pg_get_active q st ?n None = None" "pg_get q st ?n (version p) = None"
    using new by (auto simp: pg_get_active_def pg_get_def row_of_version_def find_None_iff first_deployment_def)
  note none = this
  obtain y d target where save: "pg_save q f fs t (\<lambda>d. d) (p\<lparr>pack_name := ?n\<rparr>) st = (Inr y, st\<lparr>database := d\<rparr>)"
    "pack_name y = ?n" "version y = version p" "row_of_version ?n (version p) (sql_rows q d) = Some target"
    "rsr_region target = None" "rsr_deleted_at target = None" "same_rules (map rule_to_domain (rsr_rules target)) (rules p)"
    using first_save [OF laws new] by blast
  let ?st = "st\<lparr>database := d\<rparr>"
  have load: "row_of_version ?n (version p) (sql_rows q (database ?st)) = Some target" using save(4) by simp
  have "check_row_lock target None = Inr ()" by (simp add: check_row_lock_def)
  then obtain a st' where act: "pg_activate q t (\<lambda>d. d) ?n (version p) None ?st = (Inr a, st')"
    using activation_succeeds [OF laws av load] by blast
  note active = active_after_activation [OF laws load act]
  obtain r where r: "r \<in> set (sql_rows q (database st'))" "rsr_name r = ?n" "rsr_version r = version p" "rsr_status r = ACTIVE" "rsr_region r = None"
    using active(1) save(5) by auto
  have served: "pg_get_active q st' ?n None \<noteq> None" using r by (auto simp: pg_get_active_def find_None_iff)
  let ?P = "\<lambda>r. rsr_name r = ?n \<and> rsr_status r = ACTIVE \<and> rsr_region r = None \<and> rsr_deleted_at r = None"
  have "find ?P (sql_rows q (database st')) \<noteq> None" using r active(2) [OF r(1,2,4)] save(6) by (auto simp: find_None_iff)
  then obtain row where row: "find ?P (sql_rows q (database st')) = Some row" by blast
  then have in_row: "row \<in> set (sql_rows q (database st'))" "rsr_name row = ?n" "rsr_status row = ACTIVE" by (auto simp: find_Some_iff)
  let ?x = "(pg_to_domain q (database st') row)\<lparr>deleted_at := None, lock_version := 1\<rparr>"
  have x: "load_from_db q ?n None (database st') = Inr ?x" using row by (simp add: load_from_db_def)
  have v: "version ?x = version p" and m: "mset (rules ?x) = mset (map rule_to_domain (rsr_rules target))"
    using active(2) [OF in_row] by (simp_all add: pg_to_domain_def stored_pack_to_domain_def)
  have same: "same_rules (rules ?x) (rules p)" using save(7) m unfolding same_rules_def by (metis mset_map)
  obtain rc' where rc': "snd (policy_get_active q ?n (Some (cf, clock, token)) None (database st') rc) = rc'"
    "cached (rc_ttl_cache rc') = Some ?x" "loaded_at (rc_ttl_cache rc') = clock"
    "ttl_seconds (rc_ttl_cache rc') = ttl_seconds (rc_ttl_cache rc)"
    using cold_get [OF cold, of q ?n clock token None "database st'"] x by auto
  have warm: "policy_get_active q ?n (Some (cf, clock', token')) None d' rc' = (Inr (Some ?x), rc')"
    if "\<not> fl_less (ttl_seconds (rc_ttl_cache rc)) (fl_sub clock' clock)" for clock' token' d'
    by (rule warm_get [OF rc'(2)]) (use that rc'(2-4) in \<open>simp add: cache_stale_def\<close>)
  have start: "startup s q (Inr p) f fs t (\<lambda>d. d) (\<lambda>d. d) cf clock token st rc = (st', rc')"
    using s none save(1-3) act rc'(1) by (simp add: startup_def dynamic_platform_def pg_seed_active_policy_def Let_def)
  have again: "fst (startup s q fx f' fs' t' o1 o2 cf clock' token' st' rc'') = st'" for fx f' fs' t' o1 o2 clock' token' rc''
    by (simp only: startup_database [OF s] seeded_already [OF served])
  show ?thesis
    by (intro exI [of _ st'] exI [of _ rc'] exI [of _ ?x] conjI allI impI)
      (rule start x v same warm again | assumption)+
qed

text \<open>
  Property C12: when no version of the rule set is active for all regions and the shipped version
  has been deleted, a restart reports that it has seeded and activated the shipped version, but
  that version keeps its deletion mark and all others are deprecated, so that no evaluation in
  any region finds a policy; and no further restart repairs it.
\<close>
theorem restart_does_not_revive_a_deleted_policy:
  assumes laws: "session_laws q" and av: "available q" and s: "dynamic_platform s" "auto_seed_on_startup s"
    and inactive: "pg_get_active q st (dynamic_rule_set_name s) None = None"
    and stored: "row_of_version (dynamic_rule_set_name s) (version p) (sql_rows q (database st)) = Some target"
    and td: "rsr_deleted_at target \<noteq> None" "rsr_region target = None"
    and cold: "cached (rc_ttl_cache rc) = None" "distributed_read cf rc = None" "rc_last_known_good rc = None"
  shows "\<exists>res st'. pg_seed_active_policy q (Inr p) (dynamic_rule_set_name s) f fs t (\<lambda>d. d) (\<lambda>d. d) st = (Inr res, st') \<and>
    sr_seeded res \<and> sr_activated res \<and>
    startup s q (Inr p) f fs t (\<lambda>d. d) (\<lambda>d. d) cf clock token st rc = (st', rc) \<and>
    fst (policy_get_active q (dynamic_rule_set_name s) (Some (cf, clock', token')) reg (database st') rc) =
      Inl (no_active_policy (dynamic_rule_set_name s) reg) \<and>
    (\<forall>fx f' fs' t' o1 o2 clock' token' rc''. fst (startup s q fx f' fs' t' o1 o2 cf clock' token' st' rc'') = st')"
proof -
  let ?n = "dynamic_rule_set_name s"
  note t = row_of_version_in [OF stored]
  note inactive
  moreover obtain y where "pg_get q st ?n (version p) = Some y" "pack_name y = ?n" "version y = version p"
    using stored t by (auto simp: pg_get_def pg_to_domain_def stored_pack_to_domain_def)
  moreover have "check_row_lock target None = Inr ()" by (simp add: check_row_lock_def)
  then obtain a st' where act: "pg_activate q t (\<lambda>d. d) ?n (version p) None st = (Inr a, st')"
    using activation_succeeds [OF laws av stored] by blast
  ultimately have seed: "pg_seed_active_policy q (Inr p) ?n f fs t (\<lambda>d. d) (\<lambda>d. d) st =
      (Inr \<lparr>sr_seeded = True, sr_activated = True, sr_pack_name = ?n, sr_pack_version = version a\<rparr>, st')"
    by (simp add: pg_seed_active_policy_def)
  note active = active_after_activation [OF laws stored act]
  have served: "pg_get_active q st' ?n None \<noteq> None"
    using active(1) td(2) by (auto simp: pg_get_active_def find_None_iff)
  have none: "load_from_db q ?n g (database st') = Inl (no_active_policy ?n g)" for g
  proof -
    have "find (\<lambda>r. rsr_name r = ?n \<and> rsr_status r = ACTIVE \<and> rsr_region r = g \<and> rsr_deleted_at r = None) (sql_rows q (database st')) = None"
      using active(2) td(1) by (force simp: find_None_iff)
    then show ?thesis by (simp add: load_from_db_def)
  qed
  have refused: "policy_get_active q ?n (Some (cf, c, tk)) g (database st') rc = (Inl (no_active_policy ?n g), rc)" for c tk g
    using cold_get [OF cold(1,2), of q ?n c tk g "database st'"] none [of g] cold(3) by auto
  moreover have "startup s q (Inr p) f fs t (\<lambda>d. d) (\<lambda>d. d) cf clock token st rc = (st', rc)"
    using s seed refused by (simp add: startup_def dynamic_platform_def Let_def)
  moreover have "\<forall>fx f' fs' t' o1 o2 clock' token' rc''. fst (startup s q fx f' fs' t' o1 o2 cf clock' token' st' rc'') = st'"
    by (intro allI) (simp only: startup_database [OF s] seeded_already [OF served])
  ultimately show ?thesis using seed by simp
qed

text \<open>The examples: a first start on the empty database, and a restart after a deletion.\<close>

definition w_dynamic :: settings where
  "w_dynamic = default_settings\<lparr>persistence_backend := In_Postgres, rule_source := Dynamic, dynamic_rule_set_name := ''noc''\<rparr>"

definition w_local_cache :: "unit cache_setup" where
  "w_local_cache = \<lparr>rc_backend = None, rc_key = ''noc'', rc_bound = True\<rparr>"

definition w_cold :: "unit rule_cache" where
  "w_cold = \<lparr>rc_ttl_cache = new_cache (Fin 10), rc_last_known_good = None, rc_server = ()\<rparr>"

lemma w_dynamic_fields [simp]:
  "dynamic_platform w_dynamic" "auto_seed_on_startup w_dynamic" "dynamic_rule_set_name w_dynamic = ''noc''"
  by (simp_all add: w_dynamic_def dynamic_platform_def default_settings_def)

lemma w_cold_fields [simp]:
  "cached (rc_ttl_cache w_cold) = None" "distributed_read w_local_cache w_cold = None" "rc_last_known_good w_cold = None"
  by (simp_all add: w_cold_def w_local_cache_def distributed_read_def new_cache_def)

lemma empty_rows [simp]: "sql_rows list_session [] = []"
  by (simp add: list_session_rows keyed_rows_def)

lemma first_start_serves_a_policy_witness:
  "\<exists>st' rc' x. startup w_dynamic list_session (Inr w_new) 7 (\<lambda>i. 8) 5 (\<lambda>d. d) (\<lambda>d. d) w_local_cache (Fin 100) ''t'' w_pg w_cold = (st', rc') \<and>
     load_from_db list_session ''noc'' None (database st') = Inr x \<and> version x = 1 \<and>
     policy_get_active list_session ''noc'' (Some (w_local_cache, Fin 105, ''t'')) None [] rc' = (Inr (Some x), rc')"
proof -
  have "first_deployment list_session ''noc'' w_new 7 5 []"
    by (simp add: first_deployment_def w_new_def new_pack_def new_pack_of_def w_rule_def storable_id_def unused_uuid_def)
      (simp add: list_session_def list_rows_def keyed_rows_def added_rows_def Let_def)
  then have new: "first_deployment list_session (dynamic_rule_set_name w_dynamic) w_new 7 5 (database w_pg)" by (simp add: w_pg_def)
  have "version w_new = 1" by (simp add: w_new_def new_pack_def)
  moreover have "ttl_seconds (rc_ttl_cache w_cold) = Fin 10" by (simp add: w_cold_def new_cache_def)
  moreover have "\<not> fl_less (Fin 10) (fl_sub (Fin 105) (Fin 100))" by code_simp
  ultimately show ?thesis
    using first_start_serves_a_policy [where p = w_new and rc = w_cold and cf = w_local_cache and fs = "\<lambda>i. 8" and clock = "Fin 100" and token = "''t''",
      OF list_session_laws available_list_session w_dynamic_fields(1,2) new w_cold_fields(1,2)]
    by simp blast
qed

lemma restart_does_not_revive_a_deleted_policy_witness:
  "\<exists>res st'. pg_seed_active_policy list_session (Inr w_new) ''noc'' 7 (\<lambda>i. 8) 5 (\<lambda>d. d) (\<lambda>d. d)
        (w_state [(w_set 1 1 ARCHIVED)\<lparr>rsr_deleted_at := Some 4\<rparr>]) = (Inr res, st') \<and>
     sr_seeded res \<and> fst (policy_get_active list_session ''noc'' (Some (w_local_cache, Fin 105, ''t'')) None (database st') w_cold) =
        Inl (no_active_policy ''noc'' None)"
proof -
  let ?r = "(w_set 1 1 ARCHIVED)\<lparr>rsr_deleted_at := Some 4\<rparr>"
  have rows: "sql_rows list_session (database (w_state [?r])) = [?r]" by (simp add: list_session_rows keyed_rows_def)
  have td: "rsr_deleted_at ?r \<noteq> None" "rsr_region ?r = None" by simp_all
  have v: "version w_new = 1" by (simp add: w_new_def new_pack_def)
  have inactive: "pg_get_active list_session (w_state [?r]) (dynamic_rule_set_name w_dynamic) None = None"
    using rows by (simp add: pg_get_active_def status_defs)
  have stored: "row_of_version (dynamic_rule_set_name w_dynamic) (version w_new) (sql_rows list_session (database (w_state [?r]))) = Some ?r"
    unfolding rows v by (simp add: row_of_version_def)
  show ?thesis
    using restart_does_not_revive_a_deleted_policy [where fs = "\<lambda>i. 8" and f = 7 and t = 5 and reg = None and clock' = "Fin 105" and token' = "''t''"
        and clock = "Fin 0" and token = "''t''",
      OF list_session_laws available_list_session w_dynamic_fields(1,2) inactive stored td w_cold_fields]
    by simp blast
qed

end
