(* ===== verification/Db_Tables.thy ===== *)
theory Db_Tables
  imports Db_Properties
begin

text \<open>
  The other relational repositories (\<open>app/infrastructure/repositories/postgres_*\<close>). A table
  is a parameter: the rows a query without an order answers, the commit of a new row and the
  commit of a changed row, both read back afterwards. An \<open>ORDER BY\<close> sorts these rows by the
  column and leaves the order of equal ones open.
\<close>

section \<open>Tables\<close>

record ('db, 'r) sql_table =
  tb_rows :: "'db \<Rightarrow> 'r list"
  tb_insert :: "'r \<Rightarrow> 'db \<Rightarrow> ('r \<times> 'db) res"
  tb_update :: "'r \<Rightarrow> 'db \<Rightarrow> ('r \<times> 'db) res"

text \<open>\<open>query.one_or_none()\<close> and the value of a time column, which always is an instant.\<close>

definition one_or_none :: "'r list \<Rightarrow> 'r option res" where
  "one_or_none rs = (case rs of [] \<Rightarrow> Inr None | [r] \<Rightarrow> Inr (Some r)
     | _ \<Rightarrow> Inl (DatabaseError ''Multiple rows were found when one or none was required''))"

fun column_time :: "time_value \<Rightarrow> instant" where
  "column_time (Stamp t) = t"
| "column_time (IsoText s) = 0"

definition oldest_rows :: "('r \<Rightarrow> instant) \<Rightarrow> 'r list \<Rightarrow> 'r list" where
  "oldest_rows created rs = sort_key created rs"

definition newest_rows :: "('r \<Rightarrow> instant) \<Rightarrow> 'r list \<Rightarrow> 'r list" where
  "newest_rows created rs = sort_key (\<lambda>r. - created r) rs"

definition read_first :: "('r \<Rightarrow> 'e res) \<Rightarrow> 'r list \<Rightarrow> 'e option res" where
  \<comment> \<open>\<open>row = query.first(); return to_domain(row) if row else None\<close>\<close>
  "read_first to_domain rs = (case rs of [] \<Rightarrow> Inr None | r # _ \<Rightarrow> bindr (to_domain r) (\<lambda>e. Inr (Some e)))"

text \<open>A save that updates the row it found or inserts one; \<open>touch\<close> is the \<open>onupdate\<close> of the mixin.\<close>

definition touched :: "('r \<Rightarrow> 'r) \<Rightarrow> 'r \<Rightarrow> 'r \<Rightarrow> 'r" where
  "touched touch old new = (if new = old then old else touch new)"

lemma touched_field: "(\<And>r. g (touch r) = g r) \<Longrightarrow> g (touched touch old new) = g new"
  by (simp add: touched_def)

definition upsert_row ::
  "('db, 'r) sql_table \<Rightarrow> 'r option \<Rightarrow> ('r \<Rightarrow> 'r) \<Rightarrow> 'r res \<Rightarrow> 'db \<Rightarrow> ('r \<times> 'db) res" where
  "upsert_row tb existing change new d =
     (case existing of
        Some row \<Rightarrow> tb_update tb (change row) d
      | None \<Rightarrow> bindr new (\<lambda>row. tb_insert tb row d))"

section \<open>Histories\<close>

definition pg_decision_save :: "('db, decision_row) sql_table \<Rightarrow> uuid \<Rightarrow> decision \<Rightarrow> 'db \<Rightarrow> (decision \<times> 'db) res" where
  "pg_decision_save tb f x d =
     bindr (tb_insert tb (insert_decision_row f (decision_to_orm x)) d) (\<lambda>(_, d'). Inr (x, d'))"

definition pg_decision_get :: "('db, decision_row) sql_table \<Rightarrow> iso_reader \<Rightarrow> 'db \<Rightarrow> string \<Rightarrow> decision option res" where
  "pg_decision_get tb fromiso d i =
     read_first (decision_to_domain fromiso)
       (newest_rows (\<lambda>r. column_time (der_created_at r)) (filter (\<lambda>r. der_incident_id r = i) (tb_rows tb d)))"

definition pg_decision_list_by_incident ::
  "('db, decision_row) sql_table \<Rightarrow> iso_reader \<Rightarrow> 'db \<Rightarrow> string \<Rightarrow> decision list res" where
  "pg_decision_list_by_incident tb fromiso d i =
     mapr (decision_to_domain fromiso)
       (oldest_rows (\<lambda>r. column_time (der_created_at r)) (filter (\<lambda>r. der_incident_id r = i) (tb_rows tb d)))"

definition pg_decision_list_all ::
  "('db, decision_row) sql_table \<Rightarrow> iso_reader \<Rightarrow> 'db \<Rightarrow> nat \<Rightarrow> nat \<Rightarrow> decision list res" where
  "pg_decision_list_all tb fromiso d limit offset =
     mapr (decision_to_domain fromiso)
       (page offset limit (newest_rows (\<lambda>r. column_time (der_created_at r)) (tb_rows tb d)))"

definition pg_override_save ::
  "('db, manual_override_row) sql_table \<Rightarrow> uuid \<Rightarrow> manual_override \<Rightarrow> 'db \<Rightarrow> (manual_override \<times> 'db) res" where
  "pg_override_save tb f x d =
     bindr (tb_insert tb (insert_override_row f (manual_override_to_orm x)) d) (\<lambda>(_, d'). Inr (x, d'))"

definition pg_override_list_by_decision ::
  "('db, manual_override_row) sql_table \<Rightarrow> iso_reader \<Rightarrow> 'db \<Rightarrow> string \<Rightarrow> manual_override list res" where
  "pg_override_list_by_decision tb fromiso d i =
     mapr (manual_override_to_domain fromiso)
       (oldest_rows (\<lambda>r. column_time (mor_created_at r)) (filter (\<lambda>r. mor_decision_id r = i) (tb_rows tb d)))"

definition pg_escalation_save ::
  "('db, escalation_event_row) sql_table \<Rightarrow> uuid \<Rightarrow> escalation_event \<Rightarrow> 'db \<Rightarrow> (escalation_event \<times> 'db) res" where
  "pg_escalation_save tb f x d =
     bindr (tb_insert tb (insert_event_row f (escalation_event_to_orm x)) d) (\<lambda>(_, d'). Inr (x, d'))"

definition pg_escalation_list_by_decision ::
  "('db, escalation_event_row) sql_table \<Rightarrow> iso_reader \<Rightarrow> 'db \<Rightarrow> string \<Rightarrow> escalation_event list res" where
  "pg_escalation_list_by_decision tb fromiso d i =
     mapr (escalation_event_to_domain fromiso)
       (oldest_rows (\<lambda>r. column_time (eer_triggered_at r)) (filter (\<lambda>r. eer_decision_id r = i) (tb_rows tb d)))"

definition pg_audit_save :: "('db, audit_log_row) sql_table \<Rightarrow> uuid \<Rightarrow> audit_log_entry \<Rightarrow> 'db \<Rightarrow> (audit_log_entry \<times> 'db) res" where
  "pg_audit_save tb f x d =
     bindr (tb_insert tb (insert_audit_row f (audit_to_orm x)) d) (\<lambda>(_, d'). Inr (x, d'))"

definition pg_audit_list_by_entity :: "('db, audit_log_row) sql_table \<Rightarrow> 'db \<Rightarrow> string \<Rightarrow> string \<Rightarrow> audit_log_entry list" where
  "pg_audit_list_by_entity tb d etype i =
     map audit_to_domain (oldest_rows alr_created_at
       (filter (\<lambda>r. alr_entity_type r = etype \<and> alr_entity_id r = i) (tb_rows tb d)))"

definition pg_audit_list_by_entity_type ::
  "('db, audit_log_row) sql_table \<Rightarrow> 'db \<Rightarrow> string \<Rightarrow> nat \<Rightarrow> nat \<Rightarrow> audit_log_entry list" where
  "pg_audit_list_by_entity_type tb d etype limit offset =
     map audit_to_domain (page offset limit (newest_rows alr_created_at
       (filter (\<lambda>r. alr_entity_type r = etype) (tb_rows tb d))))"

definition pg_request_log_save ::
  "('db, request_log_row) sql_table \<Rightarrow> uuid \<Rightarrow> request_log_entry \<Rightarrow> 'db \<Rightarrow> (request_log_entry \<times> 'db) res" where
  "pg_request_log_save tb f x d =
     bindr (tb_insert tb ((request_log_to_orm x)\<lparr>rlr_id := Some f\<rparr>) d) (\<lambda>(_, d'). Inr (x, d'))"

definition pg_policy_for_severity ::
  "('db, escalation_policy_row) sql_table \<Rightarrow> 'db \<Rightarrow> string \<Rightarrow> escalation_policy option res" where
  "pg_policy_for_severity tb d band =
     read_first escalation_policy_to_domain (filter (\<lambda>r. epr_severity_band r = band) (tb_rows tb d))"

section \<open>Incidents\<close>

definition incident_row_of :: "('db, incident_row) sql_table \<Rightarrow> 'db \<Rightarrow> string \<Rightarrow> incident_row option" where
  \<comment> \<open>\<open>session.get(IncidentORM, i)\<close>\<close>
  "incident_row_of tb d i = find (\<lambda>r. inr_incident_id r = i) (tb_rows tb d)"

definition change_incident_row :: "incident \<Rightarrow> incident_row \<Rightarrow> incident_row" where
  "change_incident_row x row =
     row\<lparr>inr_payload := Some (payload x), inr_enriched_context := Some (enriched_context x),
       inr_degraded_context := degraded_context x, inr_context_sources_total := context_sources_total x,
       inr_context_sources_degraded := context_sources_degraded x, inr_status := inc_status x, inr_region := inc_region x\<rparr>"

definition pg_incident_save ::
  "('db, incident_row) sql_table \<Rightarrow> instant \<Rightarrow> incident \<Rightarrow> 'db \<Rightarrow> (incident \<times> 'db) res" where
  "pg_incident_save tb t x d =
     (let x = stamp_created t x in
      bindr (upsert_row tb (incident_row_of tb d (incident_id x)) (change_incident_row x) (incident_to_orm x) d)
        (\<lambda>(_, d'). Inr (x, d')))"

definition pg_incident_get :: "('db, incident_row) sql_table \<Rightarrow> 'db \<Rightarrow> string \<Rightarrow> incident option" where
  "pg_incident_get tb d i = map_option incident_to_domain (incident_row_of tb d i)"

definition pg_incident_list_all ::
  "('db, incident_row) sql_table \<Rightarrow> 'db \<Rightarrow> string option \<Rightarrow> nat \<Rightarrow> nat \<Rightarrow> incident list" where
  \<comment> \<open>descending, rows without a time first\<close>
  "pg_incident_list_all tb d stat limit offset =
     (let rs = tb_rows tb d;
          rs = (case stat of None \<Rightarrow> rs | Some s \<Rightarrow> filter (\<lambda>r. inr_status r = s) rs)
      in map incident_to_domain (page offset limit
           (sort_key (\<lambda>r. case inr_created_at r of None \<Rightarrow> (0::int, 0) | Some t \<Rightarrow> (1, - t)) rs)))"

section \<open>Users, roles, permissions and keys\<close>

text \<open>
  \<open>key\<close> reads a text given for a UUID, \<open>lower\<close> is the SQL function of that name.
\<close>

definition user_row_of :: "('db, user_row) sql_table \<Rightarrow> (string \<Rightarrow> uuid res) \<Rightarrow> 'db \<Rightarrow> string \<Rightarrow> user_row option res" where
  "user_row_of tb key d i = bindr (key i) (\<lambda>u. Inr (find (\<lambda>r. usr_id r = Some u) (tb_rows tb d)))"

definition change_user_row :: "user \<Rightarrow> user_row \<Rightarrow> user_row" where
  "change_user_row x row =
     row\<lparr>usr_email := u_email x, usr_hashed_password := u_hashed_password x, usr_full_name := u_full_name x,
       usr_roles := Some (u_roles x), usr_is_active := u_is_active x, usr_last_login_at := u_last_login_at x\<rparr>"

definition pg_user_save ::
  "('db, user_row) sql_table \<Rightarrow> (string \<Rightarrow> uuid res) \<Rightarrow> uuid \<Rightarrow> instant \<Rightarrow> user \<Rightarrow> 'db \<Rightarrow> (user \<times> 'db) res" where
  "pg_user_save tb key f t x d =
     bindr (if u_id x = [] then Inr None else user_row_of tb key d (u_id x)) (\<lambda>existing.
     bindr (upsert_row tb existing (\<lambda>row. touched (\<lambda>r. r\<lparr>usr_updated_at := Some t\<rparr>) row (change_user_row x row))
              (bindr (user_to_orm x) (\<lambda>row. Inr (insert_user_row f t row))) d) (\<lambda>(row, d').
       Inr (user_to_domain row, d')))"

definition pg_user_get_by_id :: "('db, user_row) sql_table \<Rightarrow> (string \<Rightarrow> uuid res) \<Rightarrow> 'db \<Rightarrow> string \<Rightarrow> user option res" where
  "pg_user_get_by_id tb key d i = bindr (user_row_of tb key d i) (\<lambda>row. Inr (map_option user_to_domain row))"

definition pg_user_get_by_email ::
  "('db, user_row) sql_table \<Rightarrow> (string \<Rightarrow> string) \<Rightarrow> 'db \<Rightarrow> string \<Rightarrow> user option res" where
  "pg_user_get_by_email tb lower d e =
     bindr (one_or_none (filter (\<lambda>r. lower (usr_email r) = py_lower e) (tb_rows tb d))) (\<lambda>row.
       Inr (map_option user_to_domain row))"

definition pg_user_list_all :: "('db, user_row) sql_table \<Rightarrow> 'db \<Rightarrow> user list" where
  "pg_user_list_all tb d = map user_to_domain (tb_rows tb d)"

definition change_role_row :: "role \<Rightarrow> role_row \<Rightarrow> role_row" where
  "change_role_row x row =
     row\<lparr>ror_name := ro_name x, ror_permissions := Some (ro_permissions x), ror_description := ro_description x\<rparr>"

definition role_row_of :: "('db, role_row) sql_table \<Rightarrow> 'db \<Rightarrow> string \<Rightarrow> role_row option res" where
  "role_row_of tb d c = one_or_none (filter (\<lambda>r. ror_code r = c) (tb_rows tb d))"

definition pg_role_save :: "('db, role_row) sql_table \<Rightarrow> uuid \<Rightarrow> instant \<Rightarrow> role \<Rightarrow> 'db \<Rightarrow> (role \<times> 'db) res" where
  "pg_role_save tb f t x d =
     bindr (role_row_of tb d (ro_code x)) (\<lambda>existing.
     bindr (upsert_row tb existing (\<lambda>row. touched (\<lambda>r. r\<lparr>ror_updated_at := Some t\<rparr>) row (change_role_row x row))
              (Inr (insert_role_row f t (role_to_orm x))) d) (\<lambda>(row, d').
       Inr (role_to_domain row, d')))"

definition pg_role_get_by_code :: "('db, role_row) sql_table \<Rightarrow> 'db \<Rightarrow> string \<Rightarrow> role option res" where
  "pg_role_get_by_code tb d c = bindr (role_row_of tb d c) (\<lambda>row. Inr (map_option role_to_domain row))"

definition pg_role_list_all :: "('db, role_row) sql_table \<Rightarrow> 'db \<Rightarrow> role list" where
  "pg_role_list_all tb d = map role_to_domain (tb_rows tb d)"

definition permission_row_of :: "('db, permission_row) sql_table \<Rightarrow> 'db \<Rightarrow> string \<Rightarrow> permission_row option res" where
  "permission_row_of tb d c = one_or_none (filter (\<lambda>r. per_code r = c) (tb_rows tb d))"

definition pg_permission_save ::
  "('db, permission_row) sql_table \<Rightarrow> uuid \<Rightarrow> instant \<Rightarrow> permission \<Rightarrow> 'db \<Rightarrow> (permission \<times> 'db) res" where
  "pg_permission_save tb f t x d =
     bindr (permission_row_of tb d (pm_code x)) (\<lambda>existing.
     bindr (upsert_row tb existing
              (\<lambda>row. touched (\<lambda>r. r\<lparr>per_updated_at := Some t\<rparr>) row (row\<lparr>per_description := pm_description x\<rparr>))
              (Inr (insert_permission_row f t (permission_to_orm x))) d) (\<lambda>(row, d').
       Inr (permission_to_domain row, d')))"

definition pg_permission_get_by_code :: "('db, permission_row) sql_table \<Rightarrow> 'db \<Rightarrow> string \<Rightarrow> permission option res" where
  "pg_permission_get_by_code tb d c = bindr (permission_row_of tb d c) (\<lambda>row. Inr (map_option permission_to_domain row))"

definition pg_permission_list_all :: "('db, permission_row) sql_table \<Rightarrow> 'db \<Rightarrow> permission list" where
  "pg_permission_list_all tb d = map permission_to_domain (tb_rows tb d)"

definition api_key_row_of ::
  "('db, api_key_row) sql_table \<Rightarrow> (string \<Rightarrow> uuid res) \<Rightarrow> 'db \<Rightarrow> string \<Rightarrow> api_key_row option res" where
  "api_key_row_of tb key d i = bindr (key i) (\<lambda>u. Inr (find (\<lambda>r. akr_id r = Some u) (tb_rows tb d)))"

definition change_api_key_row :: "api_key \<Rightarrow> api_key_row \<Rightarrow> api_key_row" where
  "change_api_key_row x row =
     row\<lparr>akr_is_active := k_is_active x, akr_last_used_at := k_last_used_at x, akr_name := k_name x, akr_roles := Some (k_roles x)\<rparr>"

definition pg_api_key_save ::
  "('db, api_key_row) sql_table \<Rightarrow> (string \<Rightarrow> uuid res) \<Rightarrow> uuid \<Rightarrow> instant \<Rightarrow> api_key \<Rightarrow> 'db \<Rightarrow> (api_key \<times> 'db) res" where
  "pg_api_key_save tb key f t x d =
     bindr (if k_id x = [] then Inr None else api_key_row_of tb key d (k_id x)) (\<lambda>existing.
     bindr (upsert_row tb existing (\<lambda>row. touched (\<lambda>r. r\<lparr>akr_updated_at := Some t\<rparr>) row (change_api_key_row x row))
              (bindr (api_key_to_orm x) (\<lambda>row. Inr (insert_api_key_row f t row))) d) (\<lambda>(row, d').
       Inr (api_key_to_domain row, d')))"

definition pg_api_key_get_by_id ::
  "('db, api_key_row) sql_table \<Rightarrow> (string \<Rightarrow> uuid res) \<Rightarrow> 'db \<Rightarrow> string \<Rightarrow> api_key option res" where
  "pg_api_key_get_by_id tb key d i = bindr (api_key_row_of tb key d i) (\<lambda>row. Inr (map_option api_key_to_domain row))"

definition pg_api_key_get_by_prefix :: "('db, api_key_row) sql_table \<Rightarrow> 'db \<Rightarrow> string \<Rightarrow> api_key option res" where
  "pg_api_key_get_by_prefix tb d p =
     bindr (one_or_none (filter (\<lambda>r. akr_key_prefix r = p) (tb_rows tb d))) (\<lambda>row. Inr (map_option api_key_to_domain row))"

definition pg_api_key_list_by_owner ::
  "('db, api_key_row) sql_table \<Rightarrow> (string \<Rightarrow> uuid res) \<Rightarrow> 'db \<Rightarrow> string \<Rightarrow> api_key list res" where
  "pg_api_key_list_by_owner tb key d i =
     bindr (key i) (\<lambda>u. Inr (map api_key_to_domain (filter (\<lambda>r. akr_owner_user_id r = Some u) (tb_rows tb d))))"

definition pg_api_key_revoke ::
  "('db, api_key_row) sql_table \<Rightarrow> (string \<Rightarrow> uuid res) \<Rightarrow> instant \<Rightarrow> string \<Rightarrow> 'db \<Rightarrow> (api_key option \<times> 'db) res" where
  "pg_api_key_revoke tb key t i d =
     bindr (api_key_row_of tb key d i) (\<lambda>existing. case existing of
        None \<Rightarrow> Inr (None, d)
      | Some row \<Rightarrow>
          bindr (tb_update tb (touched (\<lambda>r. r\<lparr>akr_updated_at := Some t\<rparr>) row (row\<lparr>akr_is_active := False\<rparr>)) d) (\<lambda>(row', d').
            Inr (Some (api_key_to_domain row'), d')))"

section \<open>Laws\<close>

text \<open>
  A commit that succeeds adds the row, or replaces the one with the same key; nothing is said
  of the order in which the rows come.
\<close>

definition table_laws :: "('r \<Rightarrow> 'k) \<Rightarrow> ('db, 'r) sql_table \<Rightarrow> bool" where
  "table_laws key tb \<longleftrightarrow>
     (\<forall>d. distinct (map key (tb_rows tb d))) \<and>
     (\<forall>r d r' d'. tb_insert tb r d = Inr (r', d') \<longrightarrow> r' = r \<and> mset (tb_rows tb d') = add_mset r (mset (tb_rows tb d))) \<and>
     (\<forall>r d r' d'. tb_update tb r d = Inr (r', d') \<longrightarrow> r' = r \<and>
        mset (tb_rows tb d') = mset (map (\<lambda>x. if key x = key r then r else x) (tb_rows tb d)))"

lemma table_insert:
  assumes "table_laws key tb" and "tb_insert tb r d = Inr (r', d')"
  shows "r' = r" "mset (tb_rows tb d') = add_mset r (mset (tb_rows tb d))"
  using assms unfolding table_laws_def by blast+

lemma table_update:
  assumes "table_laws key tb" and "tb_update tb r d = Inr (r', d')"
  shows "r' = r" "mset (tb_rows tb d') = mset (map (\<lambda>x. if key x = key r then r else x) (tb_rows tb d))"
  using assms unfolding table_laws_def by blast+

lemma table_keys: "table_laws key tb \<Longrightarrow> distinct (map key (tb_rows tb d))"
  unfolding table_laws_def by blast

section \<open>Sorting an unordered answer\<close>

lemma sort_key_sorted: "sorted (map f xs) \<Longrightarrow> sort_key f xs = xs"
proof (induction xs)
  case (Cons x xs)
  then show ?case by (cases xs) auto
qed simp

lemma sort_key_perm:
  assumes "mset xs = mset ys" and "distinct (map f ys)"
  shows "sort_key f xs = sort_key f ys"
proof (rule map_inj_on)
  have "mset (map f (sort_key f xs)) = mset (map f (sort_key f ys))"
    using assms(1) by (metis mset_map mset_sort)
  then show "map f (sort_key f xs) = map f (sort_key f ys)"
    by (metis properties_for_sort sort_key_const sorted_sort_key)
  have "set xs = set ys" using assms(1) by (rule mset_eq_setD)
  then show "inj_on f (set (sort_key f xs) \<union> set (sort_key f ys))"
    using assms(2) by (simp add: distinct_map)
qed

lemma mset_filter_cong: "mset xs = mset ys \<Longrightarrow> mset (filter P xs) = mset (filter P ys)"
  by simp

section \<open>Histories agree\<close>

fun pg_save_decisions :: "('db, decision_row) sql_table \<Rightarrow> (uuid \<times> decision) list \<Rightarrow> 'db \<Rightarrow> 'db res" where
  "pg_save_decisions tb [] d = Inr d"
| "pg_save_decisions tb ((f, x) # fxs) d = bindr (pg_decision_save tb f x d) (\<lambda>(_, d'). pg_save_decisions tb fxs d')"

abbreviation decision_row_of :: "uuid \<times> decision \<Rightarrow> decision_row" where
  "decision_row_of fx \<equiv> insert_decision_row (fst fx) (decision_to_orm (snd fx))"

abbreviation decision_time :: "decision_row \<Rightarrow> instant" where
  "decision_time r \<equiv> column_time (der_created_at r)"

lemma decision_row_fields [simp]:
  "der_incident_id (decision_row_of fx) = d_incident_id (snd fx)" "decision_time (decision_row_of fx) = d_created_at (snd fx)"
  by (simp_all add: insert_decision_row_def decision_to_orm_def)

lemma saved_decision_rows:
  assumes "table_laws key tb" and "pg_save_decisions tb fxs d0 = Inr d"
  shows "mset (tb_rows tb d) = mset (tb_rows tb d0) + mset (map decision_row_of fxs)"
  using assms(2)
proof (induction fxs arbitrary: d0)
  case (Cons fx fxs)
  obtain f x where fx: "fx = (f, x)" by fastforce
  obtain r d1 where i: "tb_insert tb (decision_row_of fx) d0 = Inr (r, d1)" and rest: "pg_save_decisions tb fxs d1 = Inr d"
    using Cons.prems by (auto simp: fx pg_decision_save_def bindr_eq_Inr)
  show ?case using Cons.IH [OF rest] table_insert(2) [OF assms(1) i] by simp
qed simp

lemma read_decisions:
  "\<forall>fx \<in> set fxs. d_risk_band (snd fx) \<noteq> [] \<Longrightarrow>
   mapr (decision_to_domain fromiso) (map decision_row_of fxs) = Inr (map snd fxs)"
  by (induction fxs) (simp_all add: decision_trip)

lemma sorted_less_distinct: "sorted_wrt (<) (map f xs) \<Longrightarrow> distinct (map f xs) \<and> sorted (map f xs)" for f :: "'a \<Rightarrow> instant"
  by (simp add: strict_sorted_iff)

lemma newest_of_sorted:
  assumes "mset rows = mset xs" and "sorted_wrt (<) (map f xs)"
  shows "newest_rows f rows = rev xs" and "oldest_rows f rows = xs"
proof -
  note ds = sorted_less_distinct [OF assms(2)]
  show "oldest_rows f rows = xs"
    using sort_key_perm [OF assms(1) ds [THEN conjunct1]] sort_key_sorted [OF ds [THEN conjunct2]] by (simp add: oldest_rows_def)
  have s: "sorted (map (\<lambda>x. - f x) (rev xs))"
    using ds by (simp add: sorted_map sorted_wrt_rev sorted_wrt_map)
  have "inj_on (\<lambda>x. - f x) (set xs)" using ds by (simp add: distinct_map inj_on_def)
  then have "distinct (map (\<lambda>x. - f x) (rev xs))" using ds by (simp add: distinct_map)
  moreover have "mset rows = mset (rev xs)" using assms(1) by simp
  ultimately have "sort_key (\<lambda>x. - f x) rows = sort_key (\<lambda>x. - f x) (rev xs)" by (intro sort_key_perm)
  then show "newest_rows f rows = rev xs" using sort_key_sorted [OF s] by (simp add: newest_rows_def)
qed

text \<open>
  Property C39: the relational decision repository keeps the history the in-memory one keeps:
  after the same saves, of decisions with increasing creation times, both list an incident's
  decisions in the same order, name the same current decision, and page through the same list
  of all decisions, in whatever order the database returns the rows.
\<close>
theorem postgres_decision_history_agrees:
  assumes laws: "table_laws der_id tb" and start: "tb_rows tb d0 = []" and save: "pg_save_decisions tb fxs d0 = Inr d"
    and bands: "\<forall>fx \<in> set fxs. d_risk_band (snd fx) \<noteq> []" and times: "sorted_wrt (<) (map (\<lambda>fx. d_created_at (snd fx)) fxs)"
  shows "pg_decision_list_by_incident tb fromiso d i =
      Inr (decision_list_by_incident (foldl (\<lambda>s x. decision_save x s) [] (map snd fxs)) i) \<and>
    pg_decision_get tb fromiso d i = Inr (decision_get (foldl (\<lambda>s x. decision_save x s) [] (map snd fxs)) i) \<and>
    pg_decision_list_all tb fromiso d limit offset =
      Inr (decision_list_all (foldl (\<lambda>s x. decision_save x s) [] (map snd fxs)) limit offset)"
proof -
  let ?st = "foldl (\<lambda>s x. decision_save x s) [] (map snd fxs)"
  let ?P = "\<lambda>fx. d_incident_id (snd fx) = i" and ?R = "map decision_row_of fxs"
  have m: "mset (tb_rows tb d) = mset ?R" using saved_decision_rows [OF laws save] start by simp
  have t: "sorted_wrt (<) (map decision_time ?R)" using times by (simp add: comp_def)
  have mi: "mset (filter (\<lambda>r. der_incident_id r = i) (tb_rows tb d)) = mset (map decision_row_of (filter ?P fxs))"
    using mset_filter_cong [OF m, of "\<lambda>r. der_incident_id r = i"] by (simp add: filter_map comp_def)
  have ti: "sorted_wrt (<) (map decision_time (map decision_row_of (filter ?P fxs)))"
    using sorted_wrt_filter [OF times [unfolded sorted_wrt_map], of ?P] by (simp add: comp_def sorted_wrt_map)
  note all = newest_of_sorted [OF m t] and one = newest_of_sorted [OF mi ti]
  have hist: "decision_list_by_incident ?st i = map snd (filter ?P fxs)"
    by (simp add: decisions.list_of_saved filter_map comp_def)
  have bi: "\<forall>fx \<in> set (filter ?P fxs). d_risk_band (snd fx) \<noteq> []" using bands by simp
  have "pg_decision_list_by_incident tb fromiso d i = Inr (decision_list_by_incident ?st i)"
    using read_decisions [OF bi] by (simp add: pg_decision_list_by_incident_def one(2) hist)
  moreover have "pg_decision_get tb fromiso d i = Inr (decision_get ?st i)"
  proof -
    have r: "rev (map decision_row_of (filter ?P fxs)) = map decision_row_of (rev (filter ?P fxs))" by (simp add: rev_map)
    have h: "rev (decision_list_by_incident ?st i) = map snd (rev (filter ?P fxs))" by (simp add: hist rev_map)
    show ?thesis
    proof (cases "rev (filter ?P fxs)")
      case Nil
      then show ?thesis by (simp add: pg_decision_get_def one(1) r read_first_def decision_get_list h)
    next
      case (Cons fx rest)
      then have "fx \<in> set (filter ?P fxs)" by (metis list.set_intros(1) set_rev)
      then have "d_risk_band (snd fx) \<noteq> []" using bi by blast
      then show ?thesis using Cons
        by (simp add: pg_decision_get_def one(1) r read_first_def decision_get_list h decision_trip)
    qed
  qed
  moreover have "pg_decision_list_all tb fromiso d limit offset = Inr (decision_list_all ?st limit offset)"
  proof -
    have "mset (decision_all ?st) = mset (map snd fxs)" using decision_all_saved [of "[]" "map snd fxs"] by (simp add: decision_all_def)
    moreover have "sorted_wrt (<) (map d_created_at (map snd fxs))" using times by (simp add: comp_def)
    ultimately have mem: "newest_first d_created_at (decision_all ?st) = rev (map snd fxs)"
      unfolding newest_first_def newest_rows_def [symmetric] by (rule newest_of_sorted(1))
    have p: "page offset limit (rev (map g fxs)) = map g (page offset limit (rev fxs))" for g :: "uuid \<times> decision \<Rightarrow> 'b"
      by (simp add: page_def rev_map take_map drop_map)
    have "\<forall>fx \<in> set (page offset limit (rev fxs)). d_risk_band (snd fx) \<noteq> []"
      using bands page_subset [of offset limit "rev fxs"] by auto
    then show ?thesis
      using read_decisions [of "page offset limit (rev fxs)"] by (simp add: pg_decision_list_all_def all(1) decision_list_all_def mem p)
  qed
  ultimately show ?thesis by blast
qed

text \<open>The example: a table that is a list with the newest row first, and two decisions of one incident.\<close>

definition list_table :: "('r \<Rightarrow> 'k) \<Rightarrow> ('r list, 'r) sql_table" where
  "list_table key =
     (let rows = (\<lambda>d. if distinct (map key d) then d else []) in
      \<lparr>tb_rows = rows,
       tb_insert = (\<lambda>r d. if key r \<in> key ` set (rows d) then Inl (DatabaseError ''duplicate key'') else Inr (r, r # rows d)),
       tb_update = (\<lambda>r d. Inr (r, map (\<lambda>x. if key x = key r then r else x) (rows d)))\<rparr>)"

lemma list_table_laws: "table_laws key (list_table key)"
proof -
  have "map key (map (\<lambda>x. if key x = key r then r else x) d) = map key d" for r d by simp
  then have "distinct (map key (map (\<lambda>x. if key x = key r then r else x) d)) = distinct (map key d)" for r d
    by (simp only:)
  then show ?thesis
    unfolding table_laws_def list_table_def Let_def sql_table.simps by (auto split: if_splits simp del: map_map list.map_comp)
qed

lemma postgres_decision_history_agrees_witness:
  "\<exists>x y d. d_created_at y = d_created_at x + 1 \<and> pg_save_decisions (list_table der_id) [(1, x), (2, y)] [] = Inr d \<and>
     pg_decision_get (list_table der_id) (\<lambda>_. Inl TypeError) d (d_incident_id x) = Inr (Some y)"
proof -
  let ?m = "run None 3 (new_incident ''I1'' [(''load'', PInt 9)] [] False) (new_pack ''p'' 1 ''active'' None [])"
  have "is_ok ?m" by code_simp
  then obtain x where x: "?m = Inr x" by (auto simp: is_ok_iff)
  let ?y = "x\<lparr>d_created_at := d_created_at x + 1\<rparr>" and ?tb = "list_table der_id"
  have ids: "der_id (decision_row_of (1, x)) = Some 1" "der_id (decision_row_of (2, ?y)) = Some 2"
    by (simp_all add: insert_decision_row_def decision_to_orm_def)
  obtain d where d: "pg_save_decisions ?tb [(1, x), (2, ?y)] [] = Inr d"
    using ids by (simp add: pg_decision_save_def list_table_def)
  have start: "tb_rows ?tb [] = []" by (simp add: list_table_def)
  have bands: "\<forall>fx \<in> set [(1 :: uuid, x), (2, ?y)]. d_risk_band (snd fx) \<noteq> []" using run_band [OF x] by simp
  have times: "sorted_wrt (<) (map (\<lambda>fx. d_created_at (snd fx)) [(1 :: uuid, x), (2, ?y)])" by simp
  from postgres_decision_history_agrees [OF list_table_laws start d bands times, THEN conjunct2, THEN conjunct1, of "\<lambda>_. Inl TypeError" "d_incident_id x"]
  have "pg_decision_get ?tb (\<lambda>_. Inl TypeError) d (d_incident_id x) = Inr (Some ?y)"
    by (simp add: decision_get_list decisions.list_after decision_list_by_incident_def dict_get_simps decision_save_def)
  with d show ?thesis by (intro exI [of _ x] exI [of _ ?y] exI [of _ d]) simp
qed

section \<open>Records by key\<close>

lemma find_key_Some:
  "distinct (map key xs) \<Longrightarrow> find (\<lambda>x. key x = k) xs = Some y \<longleftrightarrow> y \<in> set xs \<and> key y = k"
  by (induction xs) auto

lemma find_after_insert:
  assumes laws: "table_laws key tb" and i: "tb_insert tb r d = Inr (r', d')"
  shows "find (\<lambda>x. key x = k) (tb_rows tb d') = (if key r = k then Some r else find (\<lambda>x. key x = k) (tb_rows tb d))"
proof -
  have "set (tb_rows tb d') = insert r (set (tb_rows tb d))"
    using table_insert(2) [OF laws i] by (metis set_mset_add_mset_insert set_mset_mset)
  then have "find (\<lambda>x. key x = k) (tb_rows tb d') = Some y \<longleftrightarrow> (y = r \<or> y \<in> set (tb_rows tb d)) \<and> key y = k" for y
    using find_key_Some [OF table_keys [OF laws, of d'], of k y] by simp
  note new = this
  show ?thesis
  proof (cases "key r = k")
    case True
    then show ?thesis using new [of r] by simp
  next
    case False
    then have "find (\<lambda>x. key x = k) (tb_rows tb d') = Some y \<longleftrightarrow> find (\<lambda>x. key x = k) (tb_rows tb d) = Some y" for y
      using new [of y] find_key_Some [OF table_keys [OF laws, of d], of k y] by auto
    then show ?thesis using False by (metis option.exhaust)
  qed
qed

lemma find_after_update:
  assumes laws: "table_laws key tb" and u: "tb_update tb r d = Inr (r', d')" and old: "find (\<lambda>x. key x = key r) (tb_rows tb d) \<noteq> None"
  shows "find (\<lambda>x. key x = k) (tb_rows tb d') = (if key r = k then Some r else find (\<lambda>x. key x = k) (tb_rows tb d))"
proof -
  have s: "set (tb_rows tb d') = set (map (\<lambda>x. if key x = key r then r else x) (tb_rows tb d))"
    using table_update(2) [OF laws u] by (rule mset_eq_setD)
  note f' = find_key_Some [OF table_keys [OF laws, of d']] and f = find_key_Some [OF table_keys [OF laws, of d]]
  show ?thesis
  proof (cases "key r = k")
    case True
    obtain x where "x \<in> set (tb_rows tb d)" "key x = key r" using old f by blast
    then show ?thesis using True f' [of k r] s by auto
  next
    case False
    have "find (\<lambda>x. key x = k) (tb_rows tb d') = Some y \<longleftrightarrow> find (\<lambda>x. key x = k) (tb_rows tb d) = Some y" for y
      using False f' [of k y] f [of k y] s by (auto split: if_splits)
    then show ?thesis using False by (metis option.exhaust)
  qed
qed

text \<open>
  A saved incident is found again, and no other is touched. A second save keeps the tenant and
  the creation time of the first, where the in-memory repository takes those of the new record.
\<close>

lemma saved_incident_found:
  assumes laws: "table_laws inr_incident_id tb" and save: "pg_incident_save tb t x d = Inr (x', d')"
  shows "x' = stamp_created t x \<and> pg_incident_get tb d' i =
    (if i = incident_id x
     then Some (case pg_incident_get tb d i of
         None \<Rightarrow> x'\<lparr>inc_tenant := map_option uuid_str (projr (to_uuid (inc_tenant x)))\<rparr>
       | Some old \<Rightarrow> x'\<lparr>inc_tenant := inc_tenant old, inc_created_at := inc_created_at old\<rparr>)
     else pg_incident_get tb d i)"
proof -
  let ?x = "stamp_created t x"
  have stamp: "incident_id ?x = incident_id x" "inc_tenant ?x = inc_tenant x" by (simp_all add: stamp_created_def)
  note fi = find_after_insert [OF laws] and fu = find_after_update [OF laws]
  have x': "x' = ?x" using save by (auto simp: pg_incident_save_def Let_def bindr_eq_Inr)
  show ?thesis
  proof (cases "incident_row_of tb d (incident_id x)")
    case None
    then obtain row r where row: "incident_to_orm ?x = Inr row" and i: "tb_insert tb row d = Inr (r, d')"
      using save by (auto simp: pg_incident_save_def upsert_row_def stamp Let_def bindr_eq_Inr)
    have "inr_incident_id row = incident_id x" "incident_to_domain row = ?x\<lparr>inc_tenant := map_option uuid_str (projr (to_uuid (inc_tenant x)))\<rparr>"
      using row by (auto simp: incident_to_orm_def incident_to_domain_def bindr_eq_Inr stamp)
    then show ?thesis using fi [OF i, of i] None x' by (simp add: pg_incident_get_def incident_row_of_def)
  next
    case (Some old)
    let ?row = "change_incident_row ?x old"
    obtain r where u: "tb_update tb ?row d = Inr (r, d')"
      using save Some by (auto simp: pg_incident_save_def upsert_row_def stamp Let_def bindr_eq_Inr)
    have id: "inr_incident_id old = incident_id x" using Some by (auto simp: incident_row_of_def find_Some_iff)
    then have rid: "inr_incident_id ?row = incident_id x" by (simp add: change_incident_row_def)
    have "incident_to_domain ?row = ?x\<lparr>inc_tenant := inc_tenant (incident_to_domain old), inc_created_at := inc_created_at (incident_to_domain old)\<rparr>"
      using id stamp by (simp add: incident_to_domain_def change_incident_row_def)
    then show ?thesis
      using fu [OF u, of i] Some rid x' by (simp add: pg_incident_get_def incident_row_of_def)
  qed
qed

text \<open>Roles: what is saved under a code is what a lookup by that code finds.\<close>

lemma one_or_none_filter:
  assumes "distinct (map key xs)"
  shows "one_or_none (filter (\<lambda>x. key x = k) xs) = Inr (find (\<lambda>x. key x = k) xs)"
proof (cases "find (\<lambda>x. key x = k) xs")
  case None
  then have "filter (\<lambda>x. key x = k) xs = []" by (auto simp: find_None_iff filter_empty_conv)
  then show ?thesis using None by (simp add: one_or_none_def)
next
  case (Some y)
  then have "y \<in> set xs" "key y = k" using find_key_Some [OF assms] by blast+
  then have "set (filter (\<lambda>x. key x = k) xs) = {y}" using assms by (auto simp: distinct_map inj_on_def)
  moreover have "distinct (filter (\<lambda>x. key x = k) xs)" using assms by (simp add: distinct_map)
  ultimately have "length (filter (\<lambda>x. key x = k) xs) = 1" by (metis card_1_singleton_iff distinct_card One_nat_def)
  then obtain z where "filter (\<lambda>x. key x = k) xs = [z]" by (auto simp: length_Suc_conv)
  with \<open>set (filter (\<lambda>x. key x = k) xs) = {y}\<close> have "filter (\<lambda>x. key x = k) xs = [y]" by simp
  then show ?thesis using Some by (simp add: one_or_none_def)
qed

lemma saved_role_found:
  assumes laws: "table_laws ror_code tb" and save: "pg_role_save tb f t x d = Inr (y, d')"
  shows "ro_code y = ro_code x \<and> ro_name y = ro_name x \<and> ro_permissions y = ro_permissions x \<and>
    pg_role_get_by_code tb d' c = (if c = ro_code x then Inr (Some y) else pg_role_get_by_code tb d c)"
proof -
  note one = one_or_none_filter [OF table_keys [OF laws]]
  show ?thesis
  proof (cases "find (\<lambda>r. ror_code r = ro_code x) (tb_rows tb d)")
    case None
    let ?row = "insert_role_row f t (role_to_orm x)"
    obtain r where i: "tb_insert tb ?row d = Inr (r, d')" and y: "y = role_to_domain r"
      using save None by (auto simp: pg_role_save_def role_row_of_def one upsert_row_def bindr_eq_Inr)
    have "r = ?row" by (rule table_insert(1) [OF laws i])
    moreover have "ror_code ?row = ro_code x" by (simp add: insert_role_row_def role_to_orm_def)
    ultimately show ?thesis
      using find_after_insert [OF laws i, of c] y
      by (auto simp: pg_role_get_by_code_def role_row_of_def one role_to_domain_def insert_role_row_def role_to_orm_def)
  next
    case (Some old)
    let ?row = "touched (\<lambda>r. r\<lparr>ror_updated_at := Some t\<rparr>) old (change_role_row x old)"
    obtain r where u: "tb_update tb ?row d = Inr (r, d')" and y: "y = role_to_domain r"
      using save Some by (auto simp: pg_role_save_def role_row_of_def one upsert_row_def bindr_eq_Inr)
    have "r = ?row" by (rule table_update(1) [OF laws u])
    moreover have old: "ror_code old = ro_code x" using Some by (auto simp: find_Some_iff)
    moreover have row: "ror_code ?row = ro_code x" "ror_name ?row = ro_name x" "ror_permissions ?row = Some (ro_permissions x)"
      using old by (simp_all add: touched_field [where g = ror_code] touched_field [where g = ror_name]
          touched_field [where g = ror_permissions] change_role_row_def)
    ultimately show ?thesis
      using find_after_update [OF laws u, of c] Some y
      by (auto simp: pg_role_get_by_code_def role_row_of_def one role_to_domain_def)
  qed
qed

end
