(* ===== verification/Scripts.thy ===== *)
theory Scripts
  imports Startup Db_Tables
begin

text \<open>
  The one-off scripts (\<open>scripts/\<close>) that fill a migrated database: the catalogue of permissions
  and roles, the escalation policies and the base rule pack. A script that adds several rows
  commits once; when a row is refused nothing is stored.
\<close>

section \<open>Rows that are not there yet\<close>

definition missing :: "('r \<Rightarrow> string) \<Rightarrow> ('e \<Rightarrow> string) \<Rightarrow> 'r list \<Rightarrow> 'e list \<Rightarrow> 'e list" where
  \<comment> \<open>the codes in the table are read once, before the loop\<close>
  "missing rkey key rows es = filter (\<lambda>e. key e \<notin> set (map rkey rows)) es"

definition add_rows :: "('db, 'r) sql_table \<Rightarrow> 'r list \<Rightarrow> 'db \<Rightarrow> 'db res" where
  "add_rows tb = foldr_res (\<lambda>r d. bindr (tb_insert tb r d) (\<lambda>(_, d'). Inr d'))"

definition numbered :: "(nat \<Rightarrow> uuid) \<Rightarrow> (uuid \<Rightarrow> 'e \<Rightarrow> 'r) \<Rightarrow> 'e list \<Rightarrow> 'r list" where
  "numbered ids row es = map (\<lambda>(i, e). row (ids i) e) (enumerate 0 es)"

definition seed_missing ::
  "('db, 'r) sql_table \<Rightarrow> ('r \<Rightarrow> string) \<Rightarrow> ('e \<Rightarrow> string) \<Rightarrow> (nat \<Rightarrow> uuid) \<Rightarrow> (uuid \<Rightarrow> 'e \<Rightarrow> 'r) \<Rightarrow> 'e list \<Rightarrow> 'db \<Rightarrow>
   (nat \<times> 'db) res" where
  "seed_missing tb rkey key ids row es d =
     (let ms = missing rkey key (tb_rows tb d) es in
      bindr (add_rows tb (numbered ids row ms) d) (\<lambda>d'. Inr (length ms, d')))"

section \<open>The scripts\<close>

definition default_permissions :: "permission list" where
  "default_permissions = map (\<lambda>(c, t). \<lparr>pm_code = c, pm_description = t, pm_created_at = None\<rparr>)
     [(''incidents:evaluate'', ''Submit incidents for decisioning''),
      (''incidents:create'', ''Create/persist an incident via POST /api/v1/incidents (with or without immediate evaluation)''),
      (''incidents:read'', ''List/read persisted incidents''),
      (''decisions:read'', ''Read past decisions and their explainability trace''),
      (''decisions:override'', ''Manually override a decision''),
      (''rules:manage'', ''Validate, activate, and roll back rule packs (legacy -- superseded by the rules:* set below for the dynamic Rule Management platform)''),
      (''escalations:acknowledge'', ''Acknowledge an escalation event''),
      (''users:manage'', ''Create/deactivate users and assign roles''),
      (''apikeys:manage'', ''Create and revoke API keys''),
      (''rules:edit'', ''Create rules and rule packs, edit drafts, import/export JSON''),
      (''rules:read'', ''List/read rules and rule packs''),
      (''rules:publish'', ''Publish a draft rule pack''),
      (''rules:activate'', ''Activate a published (or rollback-target deprecated) rule pack version''),
      (''rules:rollback'', ''Roll back the active rule pack to a prior version''),
      (''rules:delete'', ''Soft-delete (archive) a rule pack''),
      (''simulation:run'', ''Run what-if simulations, historical replay, and rule-pack comparisons -- never persists anything'')]"

definition seed_default_roles_permissions ::
  "('db, permission_row) sql_table \<Rightarrow> ('db, role_row) sql_table \<Rightarrow> (nat \<Rightarrow> uuid) \<Rightarrow> (nat \<Rightarrow> uuid) \<Rightarrow> instant \<Rightarrow> 'db \<Rightarrow>
   (nat \<times> nat \<times> 'db) res" where
  "seed_default_roles_permissions tbp tbr pids rids t d =
     bindr (seed_missing tbp per_code pm_code pids (\<lambda>i p. insert_permission_row i t (permission_to_orm p)) default_permissions d)
       (\<lambda>(np, d).
     bindr (seed_missing tbr ror_code ro_code rids (\<lambda>i r. insert_role_row i t (role_to_orm r)) default_roles d)
       (\<lambda>(nr, d). Inr (np, nr, d)))"

definition seed_escalation_policies ::
  "('db, escalation_policy_row) sql_table \<Rightarrow> (nat \<Rightarrow> uuid) \<Rightarrow> 'db \<Rightarrow> (nat \<times> 'db) res" where
  "seed_escalation_policies tb ids d =
     seed_missing tb epr_severity_band fst ids
       (\<lambda>i x. (escalation_policy_to_orm (snd x))\<lparr>epr_id := Some i\<rparr>) default_policies d"

text \<open>The base pack: saved unless its version is stored, and activated in either case.\<close>

definition seed_base_rule_pack ::
  "'db sql_session \<Rightarrow> rule_pack \<Rightarrow> uuid \<Rightarrow> (nat \<Rightarrow> uuid) \<Rightarrow> instant \<Rightarrow> ('db \<Rightarrow> 'db) \<Rightarrow> ('db \<Rightarrow> 'db) \<Rightarrow> 'db pg_repo \<Rightarrow>
   rule_pack res \<times> 'db pg_repo" where
  "seed_base_rule_pack q p f fs t o1 o2 st =
     (case (if pg_get q st (pack_name p) (version p) \<noteq> None then (Inr p, st) else pg_save q f fs t o1 p st) of
        (Inl e, st) \<Rightarrow> (Inl e, st)
      | (Inr _, st) \<Rightarrow> pg_activate q t o2 (pack_name p) (version p) None st)"

section \<open>What the scripts leave behind\<close>

lemma added_rows:
  assumes laws: "table_laws key tb" and run: "add_rows tb rs d = Inr d'"
  shows "mset (tb_rows tb d') = mset rs + mset (tb_rows tb d)"
  using run
proof (induction rs arbitrary: d)
  case (Cons r rs)
  obtain r' d1 where i: "tb_insert tb r d = Inr (r', d1)" and rest: "add_rows tb rs d1 = Inr d'"
    using Cons.prems by (auto simp: add_rows_def bindr_eq_Inr)
  show ?case using Cons.IH[OF rest] table_insert(2)[OF laws i] by simp
qed (simp add: add_rows_def)

lemma numbered_keys:
  "(\<And>i e. rkey (row i e) = key e) \<Longrightarrow> map rkey (numbered ids row es) = map key es"
  by (rule nth_equalityI) (auto simp: numbered_def nth_enumerate_eq)

lemma numbered_in: "r \<in> set (numbered ids row es) \<Longrightarrow> \<exists>i. \<exists>e\<in>set es. r = row (ids i) e"
  by (auto simp: numbered_def in_set_enumerate_eq) (metis nth_mem)

lemma in_numbered: "e \<in> set es \<Longrightarrow> \<exists>i. row i e \<in> set (numbered ids row es)"
proof -
  assume "e \<in> set es"
  then obtain k where k: "k < length es" "es ! k = e" by (auto simp: in_set_conv_nth)
  then have "numbered ids row es ! k = row (ids k) e" "k < length (numbered ids row es)"
    by (simp_all add: numbered_def nth_enumerate_eq)
  then show ?thesis by (metis nth_mem)
qed

lemma seeded_rows:
  assumes laws: "table_laws rkey tb" and run: "seed_missing tb rkey key ids row es d = Inr (n, d')"
    and keys: "\<And>i e. rkey (row i e) = key e"
  shows "set (tb_rows tb d') = set (tb_rows tb d) \<union> set (numbered ids row (missing rkey key (tb_rows tb d) es))"
    and "key ` set es \<subseteq> rkey ` set (tb_rows tb d')"
proof -
  let ?ms = "missing rkey key (tb_rows tb d) es"
  have "add_rows tb (numbered ids row ?ms) d = Inr d'"
    using run by (auto simp: seed_missing_def Let_def bindr_eq_Inr)
  from added_rows[OF laws this]
  show s: "set (tb_rows tb d') = set (tb_rows tb d) \<union> set (numbered ids row ?ms)"
    by (metis set_mset_mset set_mset_union sup_commute)
  have "rkey ` set (numbered ids row ?ms) = key ` set ?ms"
    using arg_cong[OF numbered_keys[of rkey row key ids ?ms, OF keys], of set] by simp
  then show "key ` set es \<subseteq> rkey ` set (tb_rows tb d')"
    by (auto simp: s image_Un missing_def)
qed

lemma seeding_again:
  assumes "key ` set es \<subseteq> rkey ` set (tb_rows tb d)"
  shows "seed_missing tb rkey key ids row es d = Inr (0, d)"
proof -
  have "missing rkey key (tb_rows tb d) es = []"
    using assms by (auto simp: missing_def filter_empty_conv)
  then show ?thesis by (simp add: seed_missing_def add_rows_def numbered_def)
qed

definition separate :: "('db, 'r) sql_table \<Rightarrow> ('db, 'q) sql_table \<Rightarrow> bool" where
  \<comment> \<open>a row added to the first table is not seen in the second\<close>
  "separate tb tb' \<longleftrightarrow> (\<forall>r d r' d'. tb_insert tb r d = Inr (r', d') \<longrightarrow> tb_rows tb' d' = tb_rows tb' d)"

lemma add_rows_separate:
  assumes "separate tb tb'" and "add_rows tb rs d = Inr d'"
  shows "tb_rows tb' d' = tb_rows tb' d"
  using assms(2)
proof (induction rs arbitrary: d)
  case (Cons r rs)
  obtain r' d1 where i: "tb_insert tb r d = Inr (r', d1)" and rest: "add_rows tb rs d1 = Inr d'"
    using Cons.prems by (auto simp: add_rows_def bindr_eq_Inr)
  show ?case using Cons.IH[OF rest] assms(1) i by (auto simp: separate_def)
qed (simp add: add_rows_def)

lemma seed_missing_separate:
  "separate tb tb' \<Longrightarrow> seed_missing tb rkey key ids row es d = Inr (n, d') \<Longrightarrow> tb_rows tb' d' = tb_rows tb' d"
  by (auto simp: seed_missing_def Let_def bindr_eq_Inr dest: add_rows_separate)

text \<open>What the script answers for a code: the row that was there, or the shipped one.\<close>

lemma seeded_lookup:
  assumes laws: "table_laws rkey tb" and run: "seed_missing tb rkey key ids row es d = Inr (n, d')"
    and keys: "\<And>i e. rkey (row i e) = key e" and reads: "\<And>i e. e \<in> set es \<Longrightarrow> rd (row i e) = g e"
  shows "map_option rd (find (\<lambda>r. rkey r = c) (tb_rows tb d')) =
    (case find (\<lambda>r. rkey r = c) (tb_rows tb d) of Some r \<Rightarrow> Some (rd r) | None \<Rightarrow> map_option g (find (\<lambda>e. key e = c) es))"
proof -
  note at' = find_key_Some[OF table_keys[OF laws, of d'], of c]
  note s = seeded_rows[OF laws run keys]
  show ?thesis
  proof (cases "find (\<lambda>r. rkey r = c) (tb_rows tb d)")
    case (Some r)
    then have "r \<in> set (tb_rows tb d')" "rkey r = c" using s(1) by (auto simp: find_Some_iff)
    then show ?thesis using at' Some by auto
  next
    case none: None
    then have out: "c \<notin> rkey ` set (tb_rows tb d)" by (auto simp: find_None_iff)
    show ?thesis
    proof (cases "find (\<lambda>e. key e = c) es")
      case (Some e)
      then have e: "e \<in> set es" "key e = c" by (auto simp: find_Some_iff)
      then have "e \<in> set (missing rkey key (tb_rows tb d) es)" using out by (auto simp: missing_def)
      from in_numbered[OF this, of row ids] obtain i where "row i e \<in> set (tb_rows tb d')" using s(1) by blast
      then have "find (\<lambda>r. rkey r = c) (tb_rows tb d') = Some (row i e)" using at' keys e(2) by auto
      then show ?thesis using none Some reads[OF e(1)] by simp
    next
      case None
      have "c \<notin> rkey ` set (tb_rows tb d')"
      proof
        assume "c \<in> rkey ` set (tb_rows tb d')"
        then obtain r where r: "r \<in> set (tb_rows tb d')" "rkey r = c" by auto
        then have "r \<in> set (numbered ids row (missing rkey key (tb_rows tb d) es))" using out s(1) by auto
        from numbered_in[OF this] obtain i e where "e \<in> set es" "r = row i e" by (auto simp: missing_def)
        then show False using None r(2) keys by (auto simp: find_None_iff)
      qed
      then have "find (\<lambda>r. rkey r = c) (tb_rows tb d') = None" by (auto simp: find_None_iff)
      then show ?thesis using none None by simp
    qed
  qed
qed

definition role_stamped :: "instant \<Rightarrow> role \<Rightarrow> role" where
  "role_stamped t r = r\<lparr>ro_created_at := Some t, ro_updated_at := Some t\<rparr>"

lemma role_get_default: "role_get_by_code default_role_store c = find (\<lambda>r. ro_code r = c) default_roles"
proof -
  have "map_of (map (\<lambda>r. (ro_code r, r)) rs) c = find (\<lambda>r. ro_code r = c) rs" for rs :: "role list"
    by (induction rs) auto
  then show ?thesis by (simp add: role_get_by_code_def default_role_store_def)
qed

lemma catalogue_codes: "map pm_code default_permissions = permission_catalog"
  by code_simp

text \<open>
  The script that fills the catalogue of a database leaves it with the roles that the
  in-memory backend ships, except for a code that was there before, which keeps what it grants.
  Running the script again adds nothing.
\<close>

theorem seeded_catalogue_is_the_shipped_one:
  assumes roles: "table_laws ror_code tbr" and perms: "table_laws per_code tbp"
    and apart: "separate tbp tbr" "separate tbr tbp"
    and run: "seed_default_roles_permissions tbp tbr pids rids t d = Inr (np, nr, d')"
  shows "pg_role_get_by_code tbr d' c =
      (case pg_role_get_by_code tbr d c of
         Inr None \<Rightarrow> Inr (map_option (role_stamped t) (role_get_by_code default_role_store c))
       | r \<Rightarrow> r) \<and>
    set permission_catalog \<subseteq> pm_code ` set (pg_permission_list_all tbp d') \<and>
    seed_default_roles_permissions tbp tbr pids' rids' t' d' = Inr (0, 0, d')"
proof -
  let ?prow = "\<lambda>t i p. insert_permission_row i t (permission_to_orm p)"
  let ?rrow = "\<lambda>t i r. insert_role_row i t (role_to_orm r)"
  obtain d1 where p: "seed_missing tbp per_code pm_code pids (?prow t) default_permissions d = Inr (np, d1)"
    and r: "seed_missing tbr ror_code ro_code rids (?rrow t) default_roles d1 = Inr (nr, d')"
    using run by (auto simp: seed_default_roles_permissions_def bindr_eq_Inr)
  have pkey: "per_code (?prow t i x) = pm_code x" and rkey: "ror_code (?rrow t i y) = ro_code y" for t i x y
    by (simp_all add: insert_permission_row_def permission_to_orm_def insert_role_row_def role_to_orm_def)
  have rd: "role_to_domain (?rrow t i y) = role_stamped t y" for i y
    by (simp add: role_to_domain_def insert_role_row_def role_to_orm_def role_stamped_def or_default_def or_empty_def)
  have same: "tb_rows tbr d1 = tb_rows tbr d" "tb_rows tbp d' = tb_rows tbp d1"
    using seed_missing_separate[OF apart(1) p] seed_missing_separate[OF apart(2) r] by blast+
  have "pm_code ` set default_permissions \<subseteq> per_code ` set (tb_rows tbp d')"
    using seeded_rows(2)[OF perms p pkey] same(2) by simp
  note full = this seeded_rows(2)[OF roles r rkey]
  have look: "map_option role_to_domain (find (\<lambda>r. ror_code r = c) (tb_rows tbr d')) =
    (case find (\<lambda>r. ror_code r = c) (tb_rows tbr d) of Some r \<Rightarrow> Some (role_to_domain r)
     | None \<Rightarrow> map_option (role_stamped t) (find (\<lambda>e. ro_code e = c) default_roles))"
    using seeded_lookup[where rd = role_to_domain and g = "role_stamped t" and c = c, OF roles r rkey rd] same(1) by simp
  have "pg_role_get_by_code tbr d' c =
      (case pg_role_get_by_code tbr d c of
         Inr None \<Rightarrow> Inr (map_option (role_stamped t) (role_get_by_code default_role_store c)) | r \<Rightarrow> r)"
    using look by (auto simp: pg_role_get_by_code_def role_row_of_def one_or_none_filter[OF table_keys[OF roles]]
        role_get_default split: option.splits)
  moreover have "set permission_catalog \<subseteq> pm_code ` set (pg_permission_list_all tbp d')"
    using full(1) unfolding catalogue_codes[symmetric]
    by (auto simp: pg_permission_list_all_def permission_to_domain_def image_image)
  moreover have "seed_default_roles_permissions tbp tbr pids' rids' t' d' = Inr (0, 0, d')"
    unfolding seed_default_roles_permissions_def using full by (simp add: seeding_again)
  ultimately show ?thesis by blast
qed

text \<open>Two tables of one database.\<close>

definition first_table :: "('a, 'r) sql_table \<Rightarrow> ('a \<times> 'b, 'r) sql_table" where
  "first_table tb =
     \<lparr>tb_rows = (\<lambda>d. tb_rows tb (fst d)),
      tb_insert = (\<lambda>r d. bindr (tb_insert tb r (fst d)) (\<lambda>(r, x). Inr (r, (x, snd d)))),
      tb_update = (\<lambda>r d. bindr (tb_update tb r (fst d)) (\<lambda>(r, x). Inr (r, (x, snd d))))\<rparr>"

definition second_table :: "('b, 'r) sql_table \<Rightarrow> ('a \<times> 'b, 'r) sql_table" where
  "second_table tb =
     \<lparr>tb_rows = (\<lambda>d. tb_rows tb (snd d)),
      tb_insert = (\<lambda>r d. bindr (tb_insert tb r (snd d)) (\<lambda>(r, x). Inr (r, (fst d, x)))),
      tb_update = (\<lambda>r d. bindr (tb_update tb r (snd d)) (\<lambda>(r, x). Inr (r, (fst d, x))))\<rparr>"

lemma pair_table_laws:
  assumes "table_laws key tb"
  shows "table_laws key (first_table tb)" "table_laws key (second_table tb)"
  using table_keys[OF assms] table_insert[OF assms] table_update[OF assms]
  by (auto simp: table_laws_def first_table_def second_table_def bindr_eq_Inr)

lemma pair_tables_separate: "separate (first_table tb) (second_table tb')" "separate (second_table tb') (first_table tb)"
  by (auto simp: separate_def first_table_def second_table_def bindr_eq_Inr)

lemma seeded_catalogue_is_the_shipped_one_witness:
  "\<exists>d'. seed_default_roles_permissions (first_table (list_table per_code)) (second_table (list_table ror_code))
       of_nat of_nat 7 ([], []) = Inr (16, 5, d') \<and>
     pg_role_get_by_code (second_table (list_table ror_code)) d' ''viewer'' =
       Inr (map_option (role_stamped 7) (role_get_by_code default_role_store ''viewer''))"
proof -
  let ?tp = "first_table (list_table per_code) :: (permission_row list \<times> role_row list, permission_row) sql_table"
  let ?tr = "second_table (list_table ror_code) :: (permission_row list \<times> role_row list, role_row) sql_table"
  have "map_option (\<lambda>(np, nr, d'). (np, nr)) (the_res (seed_default_roles_permissions ?tp ?tr of_nat of_nat 7 ([], []))) = Some (16, 5)"
    by code_simp
  then obtain d' where run: "seed_default_roles_permissions ?tp ?tr of_nat of_nat 7 ([], []) = Inr (16, 5, d')"
    by (auto simp: the_res_def split: sum.splits)
  have "pg_role_get_by_code ?tr ([], []) ''viewer'' = Inr None"
    by (simp add: pg_role_get_by_code_def role_row_of_def second_table_def list_table_def one_or_none_def)
  then show ?thesis
    using run seeded_catalogue_is_the_shipped_one[where c = "''viewer''" and t' = 0 and pids' = of_nat and rids' = of_nat,
        OF pair_table_laws(2)[OF list_table_laws] pair_table_laws(1)[OF list_table_laws] pair_tables_separate run]
    by auto
qed

end
