(* ===== verification/Usage_Log.thy ===== *)
theory Usage_Log
  imports Ai_Providers
begin

text \<open>
  The usage log of the AI providers (\<open>usage_logger.py\<close>): the entries, the file they are
  appended to, and the wrapper around the methods of a provider. The file is \<open>None\<close> until it
  is created. What the environment adds to a call is an argument: the author of the
  environment, the time as a text, the steps at which the disk fails and how much was written
  before it did. Texts are ASCII; the two characters outside it that the code writes stand as
  their bytes. \<open>json.dumps\<close> is a parameter.
\<close>

section \<open>Entries\<close>

definition em_dash :: string where
  "em_dash = [CHR 0xE2, CHR 0x80, CHR 0x94]"

definition ellipsis :: string where
  "ellipsis = [CHR 0xE2, CHR 0x80, CHR 0xA6]"

definition cr :: char where "cr = CHR 0x0D"

definition lf :: char where "lf = CHR 0x0A"

text \<open>\<open>splitlines\<close>: a carriage return and a line feed are one boundary, and none at the end starts a line.\<close>

definition is_boundary :: "char \<Rightarrow> bool" where
  "is_boundary c = ((10 \<le> code_of c \<and> code_of c \<le> 13) \<or> (28 \<le> code_of c \<and> code_of c \<le> 30))"

function splitlines :: "string \<Rightarrow> string list" where
  "splitlines s =
     (if s = [] then []
      else (case dropWhile (\<lambda>c. \<not> is_boundary c) s of
              [] \<Rightarrow> [s]
            | c # t \<Rightarrow> takeWhile (\<lambda>c. \<not> is_boundary c) s #
                splitlines (if c = cr \<and> t \<noteq> [] \<and> hd t = lf then tl t else t)))"
  by pat_completeness auto

lemma splitlines_decreases:
  assumes "dropWhile P s = c # t"
  shows "length t < length s" "length (tl t) < length s"
proof -
  have "length (c # t) \<le> length s" using assms length_dropWhile_le [of P s] by simp
  then show "length t < length s" "length (tl t) < length s" by auto
qed

termination splitlines
  by (relation "measure length") (auto dest: splitlines_decreases)

declare splitlines.simps [simp del]

record log_fields =
  lg_title :: string
  lg_ai_tool :: string
  lg_task_module :: string
  lg_prompt :: string
  lg_output_summary :: string
  lg_decision :: string
  lg_modified_reason :: string
  lg_validation :: string
  lg_bugs_found :: string
  lg_author :: "string option"
  lg_timestamp :: "string option"

text \<open>An entry with the defaults of \<open>log_entry\<close> and \<open>log_ai_entry\<close>.\<close>

definition log_ai_entry_fields :: "string \<Rightarrow> string \<Rightarrow> string \<Rightarrow> string \<Rightarrow> string \<Rightarrow> log_fields" where
  "log_ai_entry_fields title ai_tool task_module prompt output_summary =
     \<lparr>lg_title = title, lg_ai_tool = ai_tool, lg_task_module = task_module, lg_prompt = prompt,
      lg_output_summary = output_summary, lg_decision = ''Accepted as-is'', lg_modified_reason = [],
      lg_validation = ''Not yet validated.'', lg_bugs_found = ''None reported.'', lg_author = None, lg_timestamp = None\<rparr>"

definition quoted_prompt :: "string \<Rightarrow> string" where
  "quoted_prompt prompt =
     join_with newline (map (\<lambda>l. if l = [] then ''  >'' else ''  > '' @ l)
       (let ls = splitlines (py_strip prompt) in if ls = [] then [[]] else ls))"

definition header_mark :: string where
  "header_mark = ''### Entry #''"

definition format_entry :: "int \<Rightarrow> log_fields \<Rightarrow> string \<Rightarrow> string \<Rightarrow> string" where
  "format_entry number e author timestamp =
     concat
       [header_mark, str_of_int number, '' '', em_dash, '' '', lg_title e, newline,
        ''- *Timestamp / author:* '', timestamp, '' '', em_dash, '' '', author, newline,
        ''- *AI tool + model:* '', lg_ai_tool e, newline,
        ''- *Task / module:* '', lg_task_module e, newline,
        ''- *Prompt (verbatim):*'', newline,
        quoted_prompt (lg_prompt e), newline,
        ''- *AI output summary:* '', lg_output_summary e, newline,
        ''- *Decision:* '', lg_decision e, newline,
        ''- *If modified/rejected, why:* '', if lg_modified_reason e = [] then ''n/a'' else lg_modified_reason e, newline,
        ''- *How it was validated:* '', lg_validation e, newline,
        ''- *Bugs found (if any) and resolution:* '', lg_bugs_found e, newline]"

section \<open>The file\<close>

definition log_header :: string where
  "log_header =
     concat [''# AI Usage Log'', newline, newline,
       ''Structured, per-interaction record of AI-assisted work on this project. Entries are appended automatically by '',
       ''`app/infrastructure/ai/usage_logger.py`.'', newline, newline, ''---'', newline, newline]"

text \<open>Reading translates the ends of lines.\<close>

fun universal_newlines :: "bool \<Rightarrow> string \<Rightarrow> string" where
  \<comment> \<open>whether the last character was a carriage return\<close>
  "universal_newlines b [] = []"
| "universal_newlines b (c # s) =
     (if c = cr then lf # universal_newlines True s
      else if c = lf \<and> b then universal_newlines False s
      else c # universal_newlines False s)"

text \<open>\<open>_ENTRY_HEADER_RE.findall\<close>: the numbers of the headers at the start of a line.\<close>

definition line_number :: "string \<Rightarrow> int list" where
  "line_number s =
     (let ds = takeWhile is_digit (drop (length header_mark) s)
      in if prefix header_mark s \<and> ds \<noteq> [] then [int_of_digits ds] else [])"

fun header_numbers :: "bool \<Rightarrow> string \<Rightarrow> int list" where
  \<comment> \<open>whether the text starts a line\<close>
  "header_numbers bol [] = []"
| "header_numbers bol (c # s) = (if bol then line_number (c # s) else []) @ header_numbers (c = lf) s"

definition logged_numbers :: "string option \<Rightarrow> int list" where
  "logged_numbers f = (case f of None \<Rightarrow> [] | Some s \<Rightarrow> header_numbers True (universal_newlines False s))"

definition next_entry_number :: "string option \<Rightarrow> int" where
  "next_entry_number f = foldr max (logged_numbers f) 0 + 1"

text \<open>
  Writing one entry: the directory, the file with its header when there is none, the number,
  the entry. A step can fail; \<open>None\<close> is a failure before anything was written.
\<close>

datatype log_step = Make_Directory | Create_File | Read_File | Append_Entry

record log_env =
  le_author :: "string option"
  le_clock :: string
  le_fault :: "log_step \<Rightarrow> (exn \<times> nat option) option"
  le_dumps :: "val \<Rightarrow> string res"

definition file_text :: "string option \<Rightarrow> string" where
  "file_text f = (case f of None \<Rightarrow> [] | Some s \<Rightarrow> s)"

definition write_step :: "(exn \<times> nat option) option \<Rightarrow> string \<Rightarrow> string option \<Rightarrow> unit res \<times> string option" where
  "write_step fault s f =
     (case fault of
        None \<Rightarrow> (Inr (), Some (file_text f @ s))
      | Some (e, None) \<Rightarrow> (Inl e, f)
      | Some (e, Some n) \<Rightarrow> (Inl e, Some (file_text f @ take n s)))"

definition given_or :: "string option \<Rightarrow> string \<Rightarrow> string" where
  \<comment> \<open>\<open>x or y\<close>\<close>
  "given_or x y = (case x of None \<Rightarrow> y | Some s \<Rightarrow> if s = [] then y else s)"

definition log_entry :: "log_env \<Rightarrow> log_fields \<Rightarrow> string option \<Rightarrow> int res \<times> string option" where
  "log_entry env e f =
     (let author = given_or (lg_author e) (case le_author env of None \<Rightarrow> ''unknown'' | Some a \<Rightarrow> a);
          timestamp = given_or (lg_timestamp e) (le_clock env)
      in case le_fault env Make_Directory of
           Some (x, _) \<Rightarrow> (Inl x, f)
         | None \<Rightarrow>
             (case (if f = None then write_step (le_fault env Create_File) log_header f else (Inr (), f)) of
                (Inl x, f) \<Rightarrow> (Inl x, f)
              | (Inr _, f) \<Rightarrow>
                  (case le_fault env Read_File of
                     Some (x, _) \<Rightarrow> (Inl x, f)
                   | None \<Rightarrow>
                       let number = next_entry_number f in
                       (case write_step (le_fault env Append_Entry)
                            (format_entry number e author timestamp @ newline @ ''---'' @ newline @ newline) f of
                          (Inl x, f) \<Rightarrow> (Inl x, f)
                        | (Inr _, f) \<Rightarrow> (Inr number, f)))))"

section \<open>Logging the calls of a provider\<close>

definition truncate_text :: "(val \<Rightarrow> string res) \<Rightarrow> val \<Rightarrow> nat \<Rightarrow> string res" where
  "truncate_text dumps v limit =
     bindr (case v of PStr s \<Rightarrow> Inr s | _ \<Rightarrow> dumps v) (\<lambda>s.
       let t = join_with '' '' (split_ws s)
       in Inr (if length t \<le> limit then t else take (limit - 1) t @ ellipsis))"

text \<open>The calls of the interface, with what the wrapper reads of each.\<close>

datatype ai_call = Generate_Rule string dict | Document_Rule dict | Explain_Decision dict

fun method_name :: "ai_call \<Rightarrow> string" where
  "method_name (Generate_Rule _ _) = ''generate_rule''"
| "method_name (Document_Rule _) = ''document_rule''"
| "method_name (Explain_Decision _) = ''explain_decision''"

fun method_title :: "ai_call \<Rightarrow> string" where
  "method_title (Generate_Rule _ _) = ''AI rule generation''"
| "method_title (Document_Rule _) = ''AI rule documentation''"
| "method_title (Explain_Decision _) = ''AI decision explanation''"

fun prompt_value :: "ai_call \<Rightarrow> val" where
  \<comment> \<open>the first argument of the call\<close>
  "prompt_value (Generate_Rule s _) = PStr s"
| "prompt_value (Document_Rule r) = PDict r"
| "prompt_value (Explain_Decision d) = PDict d"

definition provider_class :: "ai_kind \<Rightarrow> string" where
  "provider_class k = (case k of Stub \<Rightarrow> ''StubAIProvider'' | Openai_Compatible \<Rightarrow> ''OpenAICompatibleProvider''
     | Gemini_Compatible \<Rightarrow> ''GeminiCompatibleProvider'')"

definition ai_tool_label :: "settings \<Rightarrow> string" where
  "ai_tool_label s = concat [provider_class (set_ai_provider s), '' (provider='', ai_kind_text (set_ai_provider s),
     '', model='', ai_model s, '')'']"

fun provider_call :: "llm_world \<Rightarrow> settings \<Rightarrow> ai_call \<Rightarrow> val res" where
  \<comment> \<open>the method of the configured provider, before any wrapper\<close>
  "provider_call w s (Generate_Rule d c) =
     (case set_ai_provider s of
        Openai_Compatible \<Rightarrow> openai_generate_rule w (settings_config s) d c
      | Gemini_Compatible \<Rightarrow> gemini_generate_rule w (settings_config s) d c
      | Stub \<Rightarrow> bindr (stub_generate_rule d c) (\<lambda>r. Inr (PDict r)))"
| "provider_call w s (Document_Rule r) = bindr (ai_document_rule (create_ai_provider w s) r) (\<lambda>t. Inr (PStr t))"
| "provider_call w s (Explain_Decision d) = bindr (ai_explain_decision (create_ai_provider w s) d) (\<lambda>t. Inr (PStr t))"

definition live_entry :: "log_env \<Rightarrow> settings \<Rightarrow> ai_call \<Rightarrow> val \<Rightarrow> log_fields res" where
  "live_entry env s call result =
     bindr (truncate_text (le_dumps env) (prompt_value call) 1000) (\<lambda>prompt.
     bindr (truncate_text (le_dumps env) result 500) (\<lambda>summary.
       Inr \<lparr>lg_title = method_title call, lg_ai_tool = ai_tool_label s,
         lg_task_module = concat [''app.infrastructure.ai (live call via '', provider_class (set_ai_provider s), ''.'', method_name call, '')''],
         lg_prompt = prompt, lg_output_summary = summary, lg_decision = ''Accepted as-is'', lg_modified_reason = [],
         lg_validation = concat [''Runtime call -- output returned to the caller for human '',
           ''review per this project's AI safety model (see docs/ai-assist.md); not independently validated by the logger.''],
         lg_bugs_found = ''None reported.'',
         lg_author = Some (case le_author env of None \<Rightarrow> ''system'' | Some a \<Rightarrow> a), lg_timestamp = None\<rparr>))"

definition logged_call :: "llm_world \<Rightarrow> settings \<Rightarrow> log_env \<Rightarrow> ai_call \<Rightarrow> string option \<Rightarrow> val res \<times> string option" where
  \<comment> \<open>the wrapper: a result is logged, whatever happens there is swallowed\<close>
  "logged_call w s env call f =
     (case provider_call w s call of
        Inl e \<Rightarrow> (Inl e, f)
      | Inr v \<Rightarrow>
          if ai_usage_log_enabled s
          then (Inr v, case live_entry env s call v of Inl _ \<Rightarrow> f | Inr e \<Rightarrow> snd (log_entry env e f))
          else (Inr v, f))"

fun ai_session :: "llm_world \<Rightarrow> settings \<Rightarrow> (log_env \<times> ai_call) list \<Rightarrow> string option \<Rightarrow> val res list \<times> string option" where
  \<comment> \<open>one call after the other\<close>
  "ai_session w s [] f = ([], f)"
| "ai_session w s ((env, call) # calls) f =
     (case logged_call w s env call f of (m, f) \<Rightarrow>
        (case ai_session w s calls f of (ms, f) \<Rightarrow> (m # ms, f)))"

section \<open>Lines\<close>

definition one_line :: "string \<Rightarrow> bool" where
  "one_line s = (cr \<notin> set s \<and> lf \<notin> set s)"

definition lines_text :: "string list \<Rightarrow> string" where
  "lines_text ls = concat (map (\<lambda>l. l @ [lf]) ls)"

lemma one_line_simps [simp]:
  "one_line []" "one_line (c # s) \<longleftrightarrow> c \<noteq> cr \<and> c \<noteq> lf \<and> one_line s" "one_line (s @ t) \<longleftrightarrow> one_line s \<and> one_line t"
  by (auto simp: one_line_def)

lemma cr_lf [simp]: "cr \<noteq> lf" "lf \<noteq> cr" "newline = [lf]"
  by (simp_all add: cr_def lf_def newline_def)

lemma lines_text_simps [simp]: "lines_text [] = []" "lines_text (l # ls) = l @ lf # lines_text ls"
  "lines_text (ls @ ms) = lines_text ls @ lines_text ms"
  by (simp_all add: lines_text_def)

lemma digit_line: "is_digit c \<Longrightarrow> c \<noteq> cr \<and> c \<noteq> lf"
  by (auto simp: is_digit_def cr_def lf_def code_of_def)

lemma universal_line: "one_line l \<Longrightarrow> universal_newlines b (l @ lf # t) = (if b \<and> l = [] then universal_newlines False t else l @ lf # universal_newlines False t)"
  by (induction l arbitrary: b) auto

lemma universal_lines: "list_all one_line ls \<Longrightarrow> universal_newlines False (lines_text ls) = lines_text ls"
  by (induction ls) (simp_all add: universal_line)

lemma takeWhile_stops: "\<not> P x \<Longrightarrow> takeWhile P (u @ x # t) = takeWhile P u"
  by (induction u) auto

lemma line_number_line: "line_number (l @ lf # t) = line_number l"
proof -
  have p: "prefix m (l @ lf # t) = prefix m l" if "lf \<notin> set m" for m :: string
    using that by (auto simp: prefix_append dest: set_mono_prefix) (metis list.set_intros(1) prefix_Cons set_mono_prefix subsetD append_Nil2)
  have d: "takeWhile is_digit (drop n (l @ lf # t)) = takeWhile is_digit (drop n l)" if "n \<le> length l" for n
    using that digit_line [of lf] takeWhile_stops [of is_digit lf "drop n l" t] by simp blast
  have m: "lf \<notin> set header_mark" by (simp add: header_mark_def lf_def)
  show ?thesis
  proof (cases "prefix header_mark l")
    case True
    then show ?thesis using p [OF m] d prefix_length_le [OF True] by (simp add: line_number_def)
  next
    case False
    then show ?thesis using p [OF m] by (simp add: line_number_def Let_def)
  qed
qed

lemma header_numbers_inside: "one_line l \<Longrightarrow> header_numbers False (l @ lf # t) = header_numbers True t"
  by (induction l) simp_all

lemma header_numbers_line: "one_line l \<Longrightarrow> header_numbers True (l @ lf # t) = line_number l @ header_numbers True t"
proof (cases l)
  case Nil
  then show ?thesis using line_number_line [of "[]" t] by simp
next
  case (Cons c m)
  moreover assume "one_line l"
  ultimately show ?thesis using line_number_line [of l t] by (simp add: header_numbers_inside)
qed

lemma header_numbers_lines:
  "list_all one_line ls \<Longrightarrow> header_numbers True (lines_text ls) = concat (map line_number ls)"
  by (induction ls) (simp_all add: header_numbers_line)

section \<open>The lines of an entry\<close>

lemma no_break: "\<forall>c \<in> set s. \<not> is_boundary c \<Longrightarrow> one_line s"
  by (auto simp: one_line_def is_boundary_def cr_def lf_def code_of_def)

lemma splitlines_lines: "list_all one_line (splitlines s)"
proof (induction s rule: splitlines.induct)
  case (1 s)
  let ?d = "dropWhile (\<lambda>c. \<not> is_boundary c) s"
  have first: "one_line (takeWhile (\<lambda>c. \<not> is_boundary c) s)" by (rule no_break) (auto dest: set_takeWhileD)
  show ?case
  proof (cases "s = []")
    case True
    then show ?thesis by (simp add: splitlines.simps)
  next
    case False
    show ?thesis
    proof (cases ?d)
      case Nil
      then have "one_line s" by (intro no_break) (simp add: dropWhile_eq_Nil_conv)
      then show ?thesis using False Nil by (subst splitlines.simps) (simp del: dropWhile_eq_Nil_conv)
    next
      case (Cons c t)
      then show ?thesis using 1 [OF False Cons] False first by (subst splitlines.simps) simp
    qed
  qed
qed

lemma split_ws_words: "w \<in> set (split_ws s) \<Longrightarrow> c \<in> set w \<Longrightarrow> \<not> is_space c"
proof (induction s rule: split_ws.induct)
  case (1 s)
  show ?case
  proof (cases "dropWhile is_space s = []")
    case True
    then show ?thesis using 1 by (subst (asm) split_ws.simps) simp
  next
    case False
    then have "w = takeWhile (\<lambda>c. \<not> is_space c) (dropWhile is_space s) \<or>
        w \<in> set (split_ws (dropWhile (\<lambda>c. \<not> is_space c) (dropWhile is_space s)))"
      using "1.prems"(1) by (subst (asm) split_ws.simps) (auto simp: Let_def split: if_splits)
    then show ?thesis using "1.IH" [OF refl False] "1.prems"(2) by (auto dest: set_takeWhileD)
  qed
qed

lemma no_space_line: "\<forall>c \<in> set s. \<not> is_space c \<Longrightarrow> one_line s"
  by (auto simp: one_line_def is_space_def cr_def lf_def code_of_def)

lemma one_line_concat: "one_line (concat ss) \<longleftrightarrow> list_all one_line ss"
  by (induction ss) simp_all

lemma one_line_join: "one_line sep \<Longrightarrow> list_all one_line ws \<Longrightarrow> one_line (join_with sep ws)"
  by (cases ws) (auto simp: join_with_def one_line_concat list_all_iff)

lemma one_line_take: "one_line s \<Longrightarrow> one_line (take n s)"
  by (auto simp: one_line_def dest: in_set_takeD)

lemma truncated_line: "truncate_text dumps v n = Inr t \<Longrightarrow> one_line t"
proof -
  assume "truncate_text dumps v n = Inr t"
  then obtain s where t: "t = (let u = join_with '' '' (split_ws s) in if length u \<le> n then u else take (n - 1) u @ ellipsis)"
    unfolding truncate_text_def bindr_eq_Inr by (auto simp: Let_def)
  have "one_line (join_with '' '' (split_ws s))"
    by (intro one_line_join) (auto simp: list_all_iff cr_def lf_def intro!: no_space_line dest: split_ws_words)
  then show ?thesis by (simp add: t Let_def one_line_take ellipsis_def cr_def lf_def)
qed

lemma line_number_none [simp]:
  "line_number [] = []" "line_number (CHR ''-'' # s) = []" "line_number (CHR '' '' # s) = []" "line_number (CHR ''S'' # s) = []"
  "line_number (CHR ''#'' # CHR '' '' # s) = []"
  by (simp_all add: line_number_def header_mark_def)

lemma line_number_header: "0 \<le> n \<Longrightarrow> line_number (header_mark @ str_of_int n @ '' '' @ s) = [n]"
proof -
  assume n: "0 \<le> n"
  have "takeWhile is_digit (str_of_pos n @ CHR '' '' # s) = takeWhile is_digit (str_of_pos n)"
    by (rule takeWhile_stops) (simp add: is_digit_def code_of_def)
  also have "\<dots> = str_of_pos n" using str_of_pos_plain(1) [OF n] by (simp add: list_all_iff takeWhile_eq_all_conv)
  finally show ?thesis using n by (simp add: line_number_def Let_def str_of_int_def)
qed

lemma digits_line: "0 \<le> n \<Longrightarrow> one_line (str_of_int n)"
  using str_of_pos_plain(1) [of n] digit_line by (auto simp: str_of_int_def one_line_def list_all_iff)

lemma join_lines:
  assumes "ls \<noteq> []"
  shows "join_with [lf] ls @ lf # t = lines_text ls @ t"
proof -
  obtain l ms where ls: "ls = l # ms" using assms by (cases ls) auto
  have "concat (map ((@) [lf]) ms) @ lf # t = lf # lines_text ms @ t" by (induction ms) simp_all
  then show ?thesis by (simp add: ls join_with_def)
qed

text \<open>An entry is a sequence of lines, of which the first is a header.\<close>

definition prompt_lines :: "string \<Rightarrow> string list" where
  "prompt_lines prompt = map (\<lambda>l. if l = [] then ''  >'' else ''  > '' @ l)
     (let ls = splitlines (py_strip prompt) in if ls = [] then [[]] else ls)"

definition entry_lines :: "int \<Rightarrow> log_fields \<Rightarrow> string \<Rightarrow> string \<Rightarrow> string list" where
  "entry_lines number e author timestamp =
     [header_mark @ str_of_int number @ '' '' @ em_dash @ '' '' @ lg_title e,
      ''- *Timestamp / author:* '' @ timestamp @ '' '' @ em_dash @ '' '' @ author,
      ''- *AI tool + model:* '' @ lg_ai_tool e, ''- *Task / module:* '' @ lg_task_module e,
      ''- *Prompt (verbatim):*''] @ prompt_lines (lg_prompt e) @
     [''- *AI output summary:* '' @ lg_output_summary e, ''- *Decision:* '' @ lg_decision e,
      ''- *If modified/rejected, why:* '' @ (if lg_modified_reason e = [] then ''n/a'' else lg_modified_reason e),
      ''- *How it was validated:* '' @ lg_validation e, ''- *Bugs found (if any) and resolution:* '' @ lg_bugs_found e,
      [], ''---'', []]"

lemma format_entry_lines:
  "format_entry number e author timestamp @ newline @ ''---'' @ newline @ newline =
     lines_text (entry_lines number e author timestamp)"
proof -
  have "prompt_lines (lg_prompt e) \<noteq> []" by (simp add: prompt_lines_def Let_def)
  note join = join_lines [OF this]
  have q: "quoted_prompt (lg_prompt e) = join_with newline (prompt_lines (lg_prompt e))"
    by (simp add: quoted_prompt_def prompt_lines_def)
  show ?thesis unfolding format_entry_def entry_lines_def q by (simp add: join join [of "[]", simplified])
qed

definition plain_fields :: "log_fields \<Rightarrow> bool" where
  \<comment> \<open>every field but the prompt is one line\<close>
  "plain_fields e = list_all one_line [lg_title e, lg_ai_tool e, lg_task_module e, lg_output_summary e, lg_decision e,
     lg_modified_reason e, lg_validation e, lg_bugs_found e]"

lemma prompt_lines_plain: "list_all one_line (prompt_lines p)" "concat (map line_number (prompt_lines p)) = []"
proof -
  have "list_all one_line (splitlines (py_strip p))" by (rule splitlines_lines)
  then show "list_all one_line (prompt_lines p)"
    by (auto simp: prompt_lines_def Let_def list_all_iff cr_def lf_def)
  show "concat (map line_number (prompt_lines p)) = []" by (auto simp: prompt_lines_def Let_def)
qed

lemma entry_lines_plain:
  assumes "plain_fields e" and "one_line author" and "one_line timestamp" and "0 \<le> n"
  shows "list_all one_line (entry_lines n e author timestamp)"
    and "concat (map line_number (entry_lines n e author timestamp)) = [n]"
proof -
  show "list_all one_line (entry_lines n e author timestamp)"
    using assms by (simp add: entry_lines_def plain_fields_def prompt_lines_plain digits_line header_mark_def em_dash_def cr_def lf_def)
  show "concat (map line_number (entry_lines n e author timestamp)) = [n]"
    using line_number_header [OF assms(4)] by (simp add: entry_lines_def prompt_lines_plain)
qed

section \<open>The numbering\<close>

definition log_ok :: "nat \<Rightarrow> string option \<Rightarrow> bool" where
  \<comment> \<open>the file is made of lines whose headers count from one\<close>
  "log_ok k f =
     (case f of
        None \<Rightarrow> k = 0
      | Some s \<Rightarrow> \<exists>ls. s = lines_text ls \<and> list_all one_line ls \<and> concat (map line_number ls) = [1..int k])"

lemma max_upto: "0 \<le> z \<Longrightarrow> foldr max [1..int k] z = max (int k) z"
proof (induction k arbitrary: z)
  case (Suc k)
  have "[1..int (Suc k)] = [1..int k] @ [int (Suc k)]" using upto_rec2 [of 1 "int (Suc k)"] by simp
  then show ?case using Suc by simp
qed simp

lemma log_ok_numbers:
  assumes "log_ok k f"
  shows "logged_numbers f = [1..int k]" and "next_entry_number f = int k + 1"
proof -
  show "logged_numbers f = [1..int k]"
    using assms by (auto simp: log_ok_def logged_numbers_def universal_lines header_numbers_lines split: option.splits)
  then show "next_entry_number f = int k + 1" by (simp add: next_entry_number_def max_upto)
qed

lemma log_ok_append:
  assumes "log_ok k f" and "list_all one_line ls" and "concat (map line_number ls) = (if b then [int k + 1] else [])"
  shows "log_ok (if b then Suc k else k) (Some (file_text f @ lines_text ls))"
proof -
  obtain ms where ms: "file_text f = lines_text ms" "list_all one_line ms" "concat (map line_number ms) = [1..int k]"
  proof (cases f)
    case None
    then show ?thesis using that [of "[]"] assms(1) by (simp add: log_ok_def file_text_def)
  next
    case (Some s)
    then show ?thesis using that assms(1) by (auto simp: log_ok_def file_text_def)
  qed
  have "[1..int (Suc k)] = [1..int k] @ [int k + 1]" using upto_rec2 [of 1 "int (Suc k)"] by (simp add: algebra_simps)
  then have "concat (map line_number (ms @ ls)) = [1..int (if b then Suc k else k)]" using ms(3) assms(3) by simp
  moreover have "list_all one_line (ms @ ls)" using ms(2) assms(2) by simp
  ultimately show ?thesis unfolding log_ok_def using ms(1) by (auto intro!: exI [of _ "ms @ ls"])
qed

lemma log_header_lines:
  "\<exists>ls. log_header = lines_text ls \<and> list_all one_line ls \<and> concat (map line_number ls) = []"
proof (intro exI conjI)
  show "log_header = lines_text [''# AI Usage Log'', [],
      ''Structured, per-interaction record of AI-assisted work on this project. Entries are appended automatically by '' @
      ''`app/infrastructure/ai/usage_logger.py`.'', [], ''---'', []]"
    by (simp add: log_header_def)
qed (simp_all add: cr_def lf_def)

text \<open>A fault that wrote nothing, and the answers an environment gives, on one line each.\<close>

definition clean_env :: "log_env \<Rightarrow> bool" where
  "clean_env env = ((\<forall>st e n. le_fault env st = Some (e, n) \<longrightarrow> n = None) \<and> one_line (le_clock env) \<and>
     (case le_author env of None \<Rightarrow> True | Some a \<Rightarrow> one_line a))"

lemma given_or_line: "one_line y \<Longrightarrow> (case x of None \<Rightarrow> True | Some s \<Rightarrow> one_line s) \<Longrightarrow> one_line (given_or x y)"
  by (auto simp: given_or_def split: option.splits)

lemma log_entry_ok:
  assumes f: "log_ok k f" and env: "clean_env env" and e: "plain_fields e"
    and a: "case lg_author e of None \<Rightarrow> True | Some s \<Rightarrow> one_line s" "case lg_timestamp e of None \<Rightarrow> True | Some s \<Rightarrow> one_line s"
  shows "\<exists>m f'. log_entry env e f = (m, f') \<and>
    (case m of Inl _ \<Rightarrow> log_ok k f' \<and> (\<exists>st. le_fault env st \<noteq> None) | Inr n \<Rightarrow> n = int k + 1 \<and> log_ok (Suc k) f')"
proof -
  let ?author = "given_or (lg_author e) (case le_author env of None \<Rightarrow> ''unknown'' | Some a \<Rightarrow> a)"
  let ?time = "given_or (lg_timestamp e) (le_clock env)"
  have au: "one_line ?author" "one_line ?time"
    using env a by (auto intro!: given_or_line simp: clean_env_def cr_def lf_def split: option.splits)
  have clean: "n = None" if "le_fault env st = Some (x, n)" for st x n using env that by (auto simp: clean_env_def)
  note lines = entry_lines_plain [OF e au, of "int k + 1"]
  have first: "\<exists>m g. (if f = None then write_step (le_fault env Create_File) log_header f else (Inr (), f)) = (m, g) \<and>
      log_ok k g \<and> (m = Inr () \<or> (\<exists>st x. m = Inl x \<and> le_fault env st \<noteq> None))"
  proof (cases "f = None \<and> le_fault env Create_File = None")
    case True
    obtain ls where "log_header = lines_text ls" "list_all one_line ls" "concat (map line_number ls) = []"
      using log_header_lines by blast
    then show ?thesis using log_ok_append [OF f, of ls False] True by (auto simp: write_step_def)
  next
    case False
    then show ?thesis using f clean by (auto simp: write_step_def split: option.splits prod.splits)
  qed
  then obtain m g where g: "(if f = None then write_step (le_fault env Create_File) log_header f else (Inr (), f)) = (m, g)"
    "log_ok k g" "m = Inr () \<or> (\<exists>st x. m = Inl x \<and> le_fault env st \<noteq> None)" by blast
  have next_number: "next_entry_number g = int k + 1" by (rule log_ok_numbers [OF g(2)])
  have second: "\<exists>u h. write_step (le_fault env Append_Entry)
        (format_entry (int k + 1) e ?author ?time @ newline @ ''---'' @ newline @ newline) g = (u, h) \<and>
      (case u of Inl _ \<Rightarrow> log_ok k h \<and> (\<exists>st. le_fault env st \<noteq> None) | Inr _ \<Rightarrow> log_ok (Suc k) h)"
  proof (cases "le_fault env Append_Entry")
    case None
    then show ?thesis using log_ok_append [OF g(2) lines(1), of True] lines(2)
      unfolding format_entry_lines by (simp add: write_step_def)
  next
    case (Some x)
    moreover obtain y where "x = (y, None)" using clean [of Append_Entry] Some by (cases x) auto
    ultimately show ?thesis using g(2) by (auto simp: write_step_def)
  qed
  then obtain u h where u: "write_step (le_fault env Append_Entry)
        (format_entry (int k + 1) e ?author ?time @ newline @ ''---'' @ newline @ newline) g = (u, h)"
    "case u of Inl _ \<Rightarrow> log_ok k h \<and> (\<exists>st. le_fault env st \<noteq> None) | Inr _ \<Rightarrow> log_ok (Suc k) h" by blast
  show ?thesis
  proof (cases "le_fault env Make_Directory")
    case (Some x)
    then show ?thesis using f by (cases x) (auto simp: log_entry_def Let_def)
  next
    case md: None
    show ?thesis
    proof (cases m)
      case (Inl x)
      then show ?thesis using md g by (auto simp: log_entry_def Let_def)
    next
      case (Inr y)
      show ?thesis
      proof (cases "le_fault env Read_File")
        case (Some x)
        then show ?thesis using md g Inr by (cases x) (auto simp: log_entry_def Let_def)
      next
        case None
        have "log_entry env e f = (case (u, h) of (Inl x, f) \<Rightarrow> (Inl x, f) | (Inr _, f) \<Rightarrow> (Inr (int k + 1), f))"
          unfolding log_entry_def Let_def md g(1) None Inr next_number by (simp only: option.case prod.case sum.case u(1) next_number)
        then show ?thesis using u(2) by (cases u) auto
      qed
    qed
  qed
qed

lemma live_entry_plain:
  assumes "live_entry env s call v = Inr e" and "one_line (ai_model s)" and "clean_env env"
  shows "plain_fields e" "case lg_author e of None \<Rightarrow> True | Some a \<Rightarrow> one_line a" "lg_timestamp e = None"
proof -
  obtain prompt summary where p: "truncate_text (le_dumps env) v 500 = Inr summary"
    and e: "e = \<lparr>lg_title = method_title call, lg_ai_tool = ai_tool_label s,
         lg_task_module = concat [''app.infrastructure.ai (live call via '', provider_class (set_ai_provider s), ''.'', method_name call, '')''],
         lg_prompt = prompt, lg_output_summary = summary, lg_decision = ''Accepted as-is'', lg_modified_reason = [],
         lg_validation = concat [''Runtime call -- output returned to the caller for human '',
           ''review per this project's AI safety model (see docs/ai-assist.md); not independently validated by the logger.''],
         lg_bugs_found = ''None reported.'',
         lg_author = Some (case le_author env of None \<Rightarrow> ''system'' | Some a \<Rightarrow> a), lg_timestamp = None\<rparr>"
    using assms(1) unfolding live_entry_def bindr_eq_Inr by blast
  have kind: "one_line (provider_class k)" "one_line (ai_kind_text k)" for k
    by (cases k; simp add: provider_class_def ai_kind_text_def cr_def lf_def)+
  have call: "one_line (method_title call)" "one_line (method_name call)" by (cases call; simp add: cr_def lf_def)+
  show "plain_fields e" using assms(2) kind call truncated_line [OF p]
    by (simp add: e plain_fields_def ai_tool_label_def cr_def lf_def)
  show "case lg_author e of None \<Rightarrow> True | Some a \<Rightarrow> one_line a" "lg_timestamp e = None"
    using assms(3) by (simp_all add: e clean_env_def cr_def lf_def split: option.splits)
qed

definition working :: "log_env \<Rightarrow> bool" where
  "working env = ((\<forall>st. le_fault env st = None) \<and> (\<forall>v. is_ok (le_dumps env v)))"

lemma working_entry: "working env \<Longrightarrow> is_ok (live_entry env s call v)"
proof -
  assume w: "working env"
  have "is_ok (truncate_text (le_dumps env) u n)" for u n
  proof -
    have "is_ok (case u of PStr s \<Rightarrow> Inr s | _ \<Rightarrow> le_dumps env u)" using w by (cases u) (simp_all add: working_def is_ok_def)
    then show ?thesis by (auto simp: truncate_text_def is_ok_iff Let_def)
  qed
  then show ?thesis unfolding live_entry_def is_ok_iff by (metis bindr_simps)
qed

lemma logged_call_step:
  assumes "one_line (ai_model s)" and "clean_env env" and "log_ok k f"
  shows "\<exists>f' j. logged_call w s env call f = (provider_call w s call, f') \<and> log_ok (k + j) f' \<and>
    j \<le> (if is_ok (provider_call w s call) then 1 else 0) \<and>
    (ai_usage_log_enabled s \<and> working env \<longrightarrow> j = (if is_ok (provider_call w s call) then 1 else 0))"
proof (cases "provider_call w s call")
  case (Inl e)
  then show ?thesis using assms(3) by (auto simp: logged_call_def is_ok_def intro!: exI [of _ 0])
next
  case (Inr v)
  show ?thesis
  proof (cases "ai_usage_log_enabled s")
    case False
    then show ?thesis using Inr assms(3) by (auto simp: logged_call_def intro!: exI [of _ 0])
  next
    case True
    show ?thesis
    proof (cases "live_entry env s call v")
      case (Inl e)
      then have "\<not> working env" using working_entry [of env s call v] by (auto simp: is_ok_def)
      then show ?thesis using Inr Inl True assms(3) by (auto simp: logged_call_def intro!: exI [of _ 0])
    next
      case entry: (Inr e)
      note plain = live_entry_plain [OF entry assms(1,2)]
      obtain m f' where m: "log_entry env e f = (m, f')"
        "case m of Inl _ \<Rightarrow> log_ok k f' \<and> (\<exists>st. le_fault env st \<noteq> None) | Inr n \<Rightarrow> n = int k + 1 \<and> log_ok (Suc k) f'"
        using log_entry_ok [OF assms(3,2) plain(1,2)] plain(3) by auto
      have call: "logged_call w s env call f = (Inr v, f')" using Inr entry m(1) True by (simp add: logged_call_def)
      show ?thesis
      proof (cases m)
        case (Inl x)
        then show ?thesis using call Inr m(2) by (auto simp: working_def intro!: exI [of _ 0])
      next
        case (Inr n)
        then show ?thesis using call \<open>provider_call w s call = Inr v\<close> m(2)
          by (auto simp: is_ok_def intro!: exI [of _ 1])
      qed
    qed
  qed
qed

text \<open>
  Property C32: logging never changes what a provider answers, whatever goes wrong with it, and
  the log numbers the calls: in a file whose entries count from one they still do after any
  calls, whatever the prompts and the answers contain, with at most one entry per call that
  succeeded, and exactly one when logging works.
\<close>
theorem usage_log_numbers_calls:
  assumes "one_line (ai_model s)" and "\<forall>(env, call) \<in> set calls. clean_env env" and "log_ok k f"
  shows "fst (ai_session w s calls f) = map (\<lambda>(env, call). provider_call w s call) calls \<and>
    (\<exists>n. logged_numbers (snd (ai_session w s calls f)) = [1..int (k + n)] \<and>
      n \<le> length (filter (\<lambda>(env, call). is_ok (provider_call w s call)) calls) \<and>
      (ai_usage_log_enabled s \<and> (\<forall>(env, call) \<in> set calls. working env) \<longrightarrow>
        n = length (filter (\<lambda>(env, call). is_ok (provider_call w s call)) calls)))"
proof -
  let ?ok = "\<lambda>(env, call). is_ok (provider_call w s call)"
  have "\<exists>n. fst (ai_session w s calls f) = map (\<lambda>(env, call). provider_call w s call) calls \<and>
      log_ok (k + n) (snd (ai_session w s calls f)) \<and> n \<le> length (filter ?ok calls) \<and>
      (ai_usage_log_enabled s \<and> (\<forall>(env, call) \<in> set calls. working env) \<longrightarrow> n = length (filter ?ok calls))"
    using assms(2,3)
  proof (induction calls arbitrary: k f)
    case (Cons c calls)
    obtain env call where c: "c = (env, call)" by fastforce
    have env: "clean_env env" using Cons.prems(1) c by simp
    obtain f' j where st: "logged_call w s env call f = (provider_call w s call, f')" "log_ok (k + j) f'"
      "j \<le> (if is_ok (provider_call w s call) then 1 else 0)"
      "ai_usage_log_enabled s \<and> working env \<longrightarrow> j = (if is_ok (provider_call w s call) then 1 else 0)"
      using logged_call_step [OF assms(1) env Cons.prems(2)] by blast
    have step: "j \<le> (if ?ok c then 1 else 0)" "ai_usage_log_enabled s \<and> working env \<longrightarrow> j = (if ?ok c then 1 else 0)"
      using st(3,4) c by simp_all
    obtain n where n: "fst (ai_session w s calls f') = map (\<lambda>(env, call). provider_call w s call) calls"
      "log_ok (k + j + n) (snd (ai_session w s calls f'))" "n \<le> length (filter ?ok calls)"
      "ai_usage_log_enabled s \<and> (\<forall>(env, call) \<in> set calls. working env) \<longrightarrow> n = length (filter ?ok calls)"
      using Cons.IH [OF _ st(2)] Cons.prems(1) by auto
    have len: "length (filter ?ok (c # calls)) = (if ?ok c then 1 else 0) + length (filter ?ok calls)" by simp
    show ?case unfolding len using n step st(1) c
      by (intro exI [of _ "j + n"]) (auto simp: add.assoc split: prod.splits)
  qed simp
  then show ?thesis using log_ok_numbers(1) by blast
qed

text \<open>The example: two explanations by the offline provider, logged to a new file.\<close>

definition w_offline :: llm_world where
  "w_offline = \<lparr>lw_http = \<lambda>_. Timed_Out, lw_read = \<lambda>_. Malformed []\<rparr>"

definition w_logging :: settings where
  "w_logging = default_settings\<lparr>ai_usage_log_enabled := True\<rparr>"

definition w_log_env :: "(log_step \<Rightarrow> (exn \<times> nat option) option) \<Rightarrow> log_env" where
  "w_log_env faults = \<lparr>le_author = None, le_clock = ''2026-07-24 15:00 UTC'', le_fault = faults, le_dumps = \<lambda>_. Inr ''{}''\<rparr>"

lemma usage_log_numbers_calls_witness:
  "let c = (w_log_env (\<lambda>_. None), Explain_Decision []); d = (w_log_env (\<lambda>_. None), Explain_Decision [(''matchedRules'', PInt 1)])
   in fst (ai_session w_offline w_logging [c, d, c] None) =
        [provider_call w_offline w_logging (snd c), Inl TypeError, provider_call w_offline w_logging (snd c)] \<and>
      logged_numbers (snd (ai_session w_offline w_logging [c, d, c] None)) = [1, 2]"
proof -
  let ?e = "w_log_env (\<lambda>_. None)" and ?d = "[(''matchedRules'', PInt 1)]"
  let ?cs = "[(?e, Explain_Decision []), (?e, Explain_Decision ?d), (?e, Explain_Decision [])]"
  have line: "one_line (ai_model w_logging)" by (simp add: w_logging_def default_settings_def cr_def lf_def)
  have env: "clean_env ?e" "working ?e" by (simp_all add: clean_env_def working_def w_log_env_def cr_def lf_def is_ok_def)
  have calls: "is_ok (provider_call w_offline w_logging (Explain_Decision [])) \<and>
      provider_call w_offline w_logging (Explain_Decision ?d) = Inl TypeError" by code_simp
  have none: "log_ok 0 None" by (simp add: log_ok_def)
  have on: "ai_usage_log_enabled w_logging" by (simp add: w_logging_def)
  have two: "[1..int (0 + 2)] = [1, 2]" by (simp add: upto.simps)
  show ?thesis
    using usage_log_numbers_calls [OF line _ none, of ?cs w_offline] env calls on two by (auto simp: Let_def is_ok_def)
qed

text \<open>
  An entry that was cut short leaves the file in the middle of a line. The next header does
  not start a line then, so that its number is given again.
\<close>

lemma torn_entry_repeats_a_number:
  "(let e = log_ai_entry_fields ''t'' ''a'' ''m'' ''p'' ''o'';
        torn = w_log_env (\<lambda>st. if st = Append_Entry then Some (RuntimeError ''disk full'', Some 20) else None);
        sound = w_log_env (\<lambda>_. None);
        f = snd (log_entry torn e (Some []));
        (n, f') = log_entry sound e f
    in (n, fst (log_entry sound e f')) = (Inr 2, Inr 2))"
  by code_simp

text \<open>A title given by hand can carry a header of its own.\<close>

lemma title_forges_a_number:
  "(let e = log_ai_entry_fields (''t'' @ newline @ ''### Entry #41'') ''a'' ''m'' ''p'' ''o''; sound = w_log_env (\<lambda>_. None);
        (n, f) = log_entry sound e (Some [])
    in (n, fst (log_entry sound e f)) = (Inr 1, Inr 42))"
  by code_simp

end
