(* ===== verification/Db_Schema.thy ===== *)
theory Db_Schema
  imports Db_Races
begin

text \<open>
  The relational schema: what the migrations (\<open>migrations/versions\<close>) do to a database, as
  operations on a schema, and what the ORM classes (\<open>db/models.py\<close>, \<open>db/base.py\<close>) declare.
  An operation fails as it is documented to in PostgreSQL: a relation or column that exists
  already, one that is missing, or one that others refer to. Variants of types for other
  databases, extensions and the conversion of stored values are not modelled.
\<close>

section \<open>Schemas\<close>

datatype column_type =
    Uuid_Type | Timestamp_Type | Integer_Type | Boolean_Type | Text_Type | Jsonb_Type | Text_Array_Type
  | Unbounded_Type | Varchar_Type nat | Numeric_Type nat nat

text \<open>A default of the database or of the class.\<close>

datatype column_default = Fresh_Uuid | Current_Time | Truth bool | Empty_List | Empty_Object | Constant string

record table_column =
  cl_name :: string
  cl_type :: column_type
  cl_nullable :: bool
  cl_primary :: bool
  cl_unique :: bool
  cl_references :: "(string \<times> string \<times> bool) option" \<comment> \<open>table, column and whether deletion cascades\<close>
  cl_default :: "column_default option"

definition column :: "string \<Rightarrow> column_type \<Rightarrow> table_column" where
  "column n ty = \<lparr>cl_name = n, cl_type = ty, cl_nullable = False, cl_primary = False, cl_unique = False,
     cl_references = None, cl_default = None\<rparr>"

definition null_column :: "string \<Rightarrow> column_type \<Rightarrow> table_column" where
  "null_column n ty = (column n ty)\<lparr>cl_nullable := True\<rparr>"

definition key_column :: "string \<Rightarrow> column_type \<Rightarrow> table_column" where
  "key_column n ty = (column n ty)\<lparr>cl_primary := True\<rparr>"

definition unique_column :: "table_column \<Rightarrow> table_column" where
  "unique_column c = c\<lparr>cl_unique := True\<rparr>"

definition references :: "table_column \<Rightarrow> string \<Rightarrow> string \<Rightarrow> bool \<Rightarrow> table_column" where
  "references c tn cn cascades = c\<lparr>cl_references := Some (tn, cn, cascades)\<rparr>"

definition with_default :: "table_column \<Rightarrow> column_default \<Rightarrow> table_column" where
  "with_default c d = c\<lparr>cl_default := Some d\<rparr>"

record db_table =
  tb_name :: string
  tb_columns :: "table_column list"
  tb_uniques :: "(string \<times> string list) list"

record db_index =
  ix_name :: string
  ix_table :: string
  ix_columns :: "string list"
  ix_gin :: bool

record schema =
  sc_tables :: "db_table list"
  sc_indexes :: "db_index list"

definition empty_schema :: schema where
  "empty_schema = \<lparr>sc_tables = [], sc_indexes = []\<rparr>"

datatype schema_op =
    Create_Table db_table | Drop_Table string | Create_Index db_index
  | Add_Column string table_column | Drop_Column string string | Alter_Type string string column_type

definition find_table :: "string \<Rightarrow> schema \<Rightarrow> db_table option" where
  "find_table n s = find (\<lambda>t. tb_name t = n) (sc_tables s)"

definition change_table :: "string \<Rightarrow> (db_table \<Rightarrow> db_table) \<Rightarrow> schema \<Rightarrow> schema" where
  "change_table n f s = s\<lparr>sc_tables := map (\<lambda>t. if tb_name t = n then f t else t) (sc_tables s)\<rparr>"

definition column_names :: "db_table \<Rightarrow> string list" where
  "column_names t = map cl_name (tb_columns t)"

definition has_column :: "string \<Rightarrow> string \<Rightarrow> schema \<Rightarrow> bool" where
  "has_column n cn s = (case find_table n s of None \<Rightarrow> False | Some t \<Rightarrow> cn \<in> set (column_names t))"

fun refers_to :: "string \<Rightarrow> string option \<Rightarrow> table_column \<Rightarrow> bool" where
  \<comment> \<open>to the table, or to one column of it\<close>
  "refers_to n oc c = (case cl_references c of None \<Rightarrow> False
     | Some (m, cn, _) \<Rightarrow> m = n \<and> (case oc of None \<Rightarrow> True | Some cn' \<Rightarrow> cn = cn'))"

definition reference_ok :: "schema \<Rightarrow> table_column \<Rightarrow> bool" where
  "reference_ok s c = (case cl_references c of None \<Rightarrow> True | Some (m, cn, _) \<Rightarrow> has_column m cn s)"

definition add_table :: "db_table \<Rightarrow> schema \<Rightarrow> schema" where
  "add_table t s = s\<lparr>sc_tables := sc_tables s @ [t]\<rparr>"

definition add_column :: "table_column \<Rightarrow> db_table \<Rightarrow> db_table" where
  "add_column c t = t\<lparr>tb_columns := tb_columns t @ [c]\<rparr>"

definition drop_column :: "string \<Rightarrow> db_table \<Rightarrow> db_table" where
  "drop_column cn t = t\<lparr>tb_columns := filter (\<lambda>c. cl_name c \<noteq> cn) (tb_columns t),
     tb_uniques := filter (\<lambda>u. cn \<notin> set (snd u)) (tb_uniques t)\<rparr>"

definition alter_type :: "string \<Rightarrow> column_type \<Rightarrow> db_table \<Rightarrow> db_table" where
  "alter_type cn ty t = t\<lparr>tb_columns := map (\<lambda>c. if cl_name c = cn then c\<lparr>cl_type := ty\<rparr> else c) (tb_columns t)\<rparr>"

definition on_table :: "string \<Rightarrow> (db_table \<Rightarrow> schema res) \<Rightarrow> schema \<Rightarrow> schema res" where
  "on_table n f s = (case find_table n s of None \<Rightarrow> Inl (DatabaseError ''relation does not exist'') | Some t \<Rightarrow> f t)"

fun apply_op :: "schema_op \<Rightarrow> schema \<Rightarrow> schema res" where
  "apply_op (Create_Table t) s =
     (if find_table (tb_name t) s \<noteq> None then Inl (DatabaseError ''relation already exists'')
      else if \<not> list_all (reference_ok (add_table t s)) (tb_columns t)
      then Inl (DatabaseError ''referenced column does not exist'')
      else if \<not> list_all (\<lambda>u. set (snd u) \<subseteq> set (column_names t)) (tb_uniques t)
      then Inl (DatabaseError ''column does not exist'')
      else Inr (add_table t s))"
| "apply_op (Drop_Table n) s =
     (if find_table n s = None then Inl (DatabaseError ''table does not exist'')
      else if list_ex (\<lambda>t. tb_name t \<noteq> n \<and> list_ex (refers_to n None) (tb_columns t)) (sc_tables s)
      then Inl (DatabaseError ''other objects depend on it'')
      else Inr \<lparr>sc_tables = filter (\<lambda>t. tb_name t \<noteq> n) (sc_tables s),
                sc_indexes = filter (\<lambda>i. ix_table i \<noteq> n) (sc_indexes s)\<rparr>)"
| "apply_op (Create_Index i) s =
     (if ix_name i \<in> set (map ix_name (sc_indexes s)) then Inl (DatabaseError ''relation already exists'')
      else on_table (ix_table i) (\<lambda>t.
        if set (ix_columns i) \<subseteq> set (column_names t) then Inr (s\<lparr>sc_indexes := sc_indexes s @ [i]\<rparr>)
        else Inl (DatabaseError ''column does not exist'')) s)"
| "apply_op (Add_Column n c) s =
     on_table n (\<lambda>t.
       if cl_name c \<in> set (column_names t) then Inl (DatabaseError ''column already exists'')
       else if \<not> reference_ok (change_table n (add_column c) s) c
       then Inl (DatabaseError ''referenced column does not exist'')
       else Inr (change_table n (add_column c) s)) s"
| "apply_op (Drop_Column n cn) s =
     on_table n (\<lambda>t.
       if cn \<notin> set (column_names t) then Inl (DatabaseError ''column does not exist'')
       else if list_ex (\<lambda>t. list_ex (\<lambda>c. refers_to n (Some cn) c \<and> \<not> (tb_name t = n \<and> cl_name c = cn)) (tb_columns t)) (sc_tables s)
       then Inl (DatabaseError ''other objects depend on it'')
       else Inr ((change_table n (drop_column cn) s)
                 \<lparr>sc_indexes := filter (\<lambda>i. ix_table i \<noteq> n \<or> cn \<notin> set (ix_columns i)) (sc_indexes s)\<rparr>)) s"
| "apply_op (Alter_Type n cn ty) s =
     on_table n (\<lambda>t.
       if cn \<notin> set (column_names t) then Inl (DatabaseError ''column does not exist'')
       else Inr (change_table n (alter_type cn ty) s)) s"

definition run_ops :: "schema_op list \<Rightarrow> schema \<Rightarrow> schema res" where
  "run_ops ops s = foldr_res apply_op ops s"

section \<open>The migrations\<close>

definition upgrade_0001 :: "schema_op list" where
  "upgrade_0001 =
     [Create_Table \<lparr>tb_name = ''rule_sets'', tb_columns =
         [with_default (key_column ''id'' Uuid_Type) Fresh_Uuid,
          with_default (column ''created_at'' Timestamp_Type) Current_Time,
          with_default (column ''updated_at'' Timestamp_Type) Current_Time,
          null_column ''deleted_at'' Timestamp_Type,
          with_default (column ''lock_version'' Integer_Type) (Constant ''1''),
          column ''name'' (Varchar_Type 100),
          column ''version'' Integer_Type,
          with_default (column ''status'' (Varchar_Type 20)) (Constant ''draft''),
          null_column ''region'' (Varchar_Type 50),
          null_column ''tenant_id'' Uuid_Type,
          references (null_column ''parent_version_id'' Uuid_Type) ''rule_sets'' ''id'' False,
          with_default (column ''created_by'' (Varchar_Type 100)) (Constant ''system''),
          null_column ''activated_at'' Timestamp_Type],
        tb_uniques = [(''ux_rule_set_version'', [''name'', ''version'', ''region'', ''tenant_id''])]\<rparr>,
      Create_Index \<lparr>ix_name = ''idx_rule_sets_active_lookup'', ix_table = ''rule_sets'', ix_columns = [''name'', ''region'', ''tenant_id'', ''status''], ix_gin = False\<rparr>,
      Create_Table \<lparr>tb_name = ''rules'', tb_columns =
         [with_default (key_column ''id'' Uuid_Type) Fresh_Uuid,
          with_default (column ''created_at'' Timestamp_Type) Current_Time,
          with_default (column ''updated_at'' Timestamp_Type) Current_Time,
          null_column ''deleted_at'' Timestamp_Type,
          with_default (column ''lock_version'' Integer_Type) (Constant ''1''),
          references (column ''rule_set_id'' Uuid_Type) ''rule_sets'' ''id'' True,
          column ''rule_code'' (Varchar_Type 20),
          column ''name'' (Varchar_Type 200),
          null_column ''description'' Text_Type,
          column ''priority_weight'' Integer_Type,
          null_column ''severity_band'' (Varchar_Type 20),
          null_column ''contribution_score'' Integer_Type,
          column ''family'' (Varchar_Type 40),
          column ''family_order'' Integer_Type,
          column ''conditions'' Jsonb_Type,
          null_column ''exceptions'' Jsonb_Type,
          null_column ''conflict_group'' (Varchar_Type 50),
          with_default (column ''conflicts_with'' Text_Array_Type) Empty_List,
          with_default (column ''is_suppressor'' Boolean_Type) (Truth False),
          with_default (column ''non_suppressible'' Boolean_Type) (Truth False),
          with_default (column ''cooldown_minutes'' Integer_Type) (Constant ''0''),
          column ''actions'' Jsonb_Type,
          with_default (column ''mitigations'' Jsonb_Type) Empty_Object,
          null_column ''sequencing'' Jsonb_Type,
          null_column ''sla_target'' (Varchar_Type 30),
          null_column ''region'' (Varchar_Type 50),
          null_column ''tenant_id'' Uuid_Type,
          with_default (column ''rule_status'' (Varchar_Type 20)) (Constant ''ACTIVE''),
          with_default (column ''enabled'' Boolean_Type) (Truth True),
          with_default (column ''created_by'' (Varchar_Type 100)) (Constant ''system''),
          null_column ''approved_by'' (Varchar_Type 100)],
        tb_uniques = [(''ux_rule_code_per_set'', [''rule_set_id'', ''rule_code''])]\<rparr>,
      Create_Index \<lparr>ix_name = ''idx_rules_conditions_gin'', ix_table = ''rules'', ix_columns = [''conditions''], ix_gin = True\<rparr>,
      Create_Index \<lparr>ix_name = ''idx_rules_actions_gin'', ix_table = ''rules'', ix_columns = [''actions''], ix_gin = True\<rparr>,
      Create_Index \<lparr>ix_name = ''idx_rules_active'', ix_table = ''rules'', ix_columns = [''rule_set_id'', ''enabled'', ''rule_status''], ix_gin = False\<rparr>,
      Create_Index \<lparr>ix_name = ''idx_rules_family_order'', ix_table = ''rules'', ix_columns = [''rule_set_id'', ''family_order'', ''priority_weight''], ix_gin = False\<rparr>,
      Create_Table \<lparr>tb_name = ''decisions'', tb_columns =
         [with_default (key_column ''id'' Uuid_Type) Fresh_Uuid,
          column ''incident_id'' (Varchar_Type 50),
          null_column ''rule_set_name'' (Varchar_Type 100),
          null_column ''rule_set_version'' Integer_Type,
          null_column ''priority'' (Varchar_Type 20),
          null_column ''risk_score'' Integer_Type,
          null_column ''risk_band'' (Varchar_Type 20),
          column ''decision'' Jsonb_Type,
          with_default (column ''mitigations'' Jsonb_Type) Empty_Object,
          with_default (column ''execution_plan'' Jsonb_Type) Empty_List,
          with_default (column ''matched_rules'' Jsonb_Type) Empty_List,
          with_default (column ''rejected_rules'' Jsonb_Type) Empty_List,
          with_default (column ''suppressed_rules'' Jsonb_Type) Empty_List,
          with_default (column ''compliance_constraints'' Jsonb_Type) Empty_List,
          null_column ''confidence_score'' (Numeric_Type 5 2),
          with_default (column ''degraded_context'' Boolean_Type) (Truth False),
          with_default (column ''explanation'' Text_Type) (Constant []),
          with_default (column ''engine_version'' (Varchar_Type 20)) (Constant ''0.1.0''),
          with_default (column ''resolved'' Boolean_Type) (Truth False),
          with_default (column ''created_at'' Timestamp_Type) Current_Time],
        tb_uniques = []\<rparr>,
      Create_Index \<lparr>ix_name = ''idx_decisions_incident'', ix_table = ''decisions'', ix_columns = [''incident_id''], ix_gin = False\<rparr>,
      Create_Table \<lparr>tb_name = ''manual_overrides'', tb_columns =
         [with_default (key_column ''id'' Uuid_Type) Fresh_Uuid,
          column ''decision_id'' (Varchar_Type 50),
          column ''operator'' (Varchar_Type 100),
          column ''original_decision'' Jsonb_Type,
          column ''override_decision'' Jsonb_Type,
          column ''reason'' Text_Type,
          with_default (column ''created_at'' Timestamp_Type) Current_Time],
        tb_uniques = []\<rparr>,
      Create_Table \<lparr>tb_name = ''escalation_policies'', tb_columns =
         [with_default (key_column ''id'' Uuid_Type) Fresh_Uuid,
          unique_column (column ''severity_band'' (Varchar_Type 20)),
          column ''levels'' Jsonb_Type],
        tb_uniques = []\<rparr>,
      Create_Table \<lparr>tb_name = ''escalation_events'', tb_columns =
         [with_default (key_column ''id'' Uuid_Type) Fresh_Uuid,
          column ''decision_id'' (Varchar_Type 50),
          column ''level'' (Varchar_Type 30),
          with_default (column ''triggered_at'' Timestamp_Type) Current_Time,
          null_column ''acknowledged_at'' Timestamp_Type,
          null_column ''acknowledged_by'' (Varchar_Type 100)],
        tb_uniques = []\<rparr>,
      Create_Index \<lparr>ix_name = ''idx_escalation_events_decision'', ix_table = ''escalation_events'', ix_columns = [''decision_id'', ''triggered_at''], ix_gin = False\<rparr>,
      Create_Table \<lparr>tb_name = ''audit_log'', tb_columns =
         [with_default (key_column ''id'' Uuid_Type) Fresh_Uuid,
          column ''entity_type'' (Varchar_Type 50),
          column ''entity_id'' (Varchar_Type 100),
          column ''action'' (Varchar_Type 50),
          column ''actor'' (Varchar_Type 100),
          null_column ''before'' Jsonb_Type,
          null_column ''after'' Jsonb_Type,
          null_column ''ip_address'' (Varchar_Type 64),
          null_column ''request_id'' (Varchar_Type 64),
          null_column ''correlation_id'' (Varchar_Type 64),
          with_default (column ''created_at'' Timestamp_Type) Current_Time],
        tb_uniques = []\<rparr>,
      Create_Index \<lparr>ix_name = ''idx_audit_entity'', ix_table = ''audit_log'', ix_columns = [''entity_type'', ''entity_id'', ''created_at''], ix_gin = False\<rparr>,
      Create_Table \<lparr>tb_name = ''request_log'', tb_columns =
         [with_default (key_column ''id'' Uuid_Type) Fresh_Uuid,
          column ''method'' (Varchar_Type 10),
          column ''path'' (Varchar_Type 255),
          column ''status_code'' Integer_Type,
          column ''duration_ms'' (Numeric_Type 10 2),
          column ''request_id'' (Varchar_Type 64),
          null_column ''correlation_id'' (Varchar_Type 64),
          null_column ''ip_address'' (Varchar_Type 64),
          with_default (column ''created_at'' Timestamp_Type) Current_Time],
        tb_uniques = []\<rparr>,
      Create_Index \<lparr>ix_name = ''idx_request_log_request_id'', ix_table = ''request_log'', ix_columns = [''request_id''], ix_gin = False\<rparr>]"

definition upgrade_0002 :: "schema_op list" where
  "upgrade_0002 =
     [Create_Table \<lparr>tb_name = ''users'', tb_columns =
         [with_default (key_column ''id'' Uuid_Type) Fresh_Uuid,
          with_default (column ''created_at'' Timestamp_Type) Current_Time,
          with_default (column ''updated_at'' Timestamp_Type) Current_Time,
          null_column ''deleted_at'' Timestamp_Type,
          with_default (column ''lock_version'' Integer_Type) (Constant ''1''),
          unique_column (column ''email'' (Varchar_Type 255)),
          column ''hashed_password'' (Varchar_Type 255),
          with_default (column ''full_name'' (Varchar_Type 200)) (Constant []),
          with_default (column ''roles'' Jsonb_Type) Empty_List,
          with_default (column ''is_active'' Boolean_Type) (Truth True),
          null_column ''last_login_at'' Timestamp_Type],
        tb_uniques = []\<rparr>,
      Create_Table \<lparr>tb_name = ''roles'', tb_columns =
         [with_default (key_column ''id'' Uuid_Type) Fresh_Uuid,
          with_default (column ''created_at'' Timestamp_Type) Current_Time,
          with_default (column ''updated_at'' Timestamp_Type) Current_Time,
          unique_column (column ''code'' (Varchar_Type 50)),
          column ''name'' (Varchar_Type 100),
          with_default (column ''permissions'' Jsonb_Type) Empty_List,
          with_default (column ''description'' Text_Type) (Constant [])],
        tb_uniques = []\<rparr>,
      Create_Table \<lparr>tb_name = ''permissions'', tb_columns =
         [with_default (key_column ''id'' Uuid_Type) Fresh_Uuid,
          with_default (column ''created_at'' Timestamp_Type) Current_Time,
          with_default (column ''updated_at'' Timestamp_Type) Current_Time,
          unique_column (column ''code'' (Varchar_Type 100)),
          with_default (column ''description'' Text_Type) (Constant [])],
        tb_uniques = []\<rparr>,
      Create_Table \<lparr>tb_name = ''api_keys'', tb_columns =
         [with_default (key_column ''id'' Uuid_Type) Fresh_Uuid,
          with_default (column ''created_at'' Timestamp_Type) Current_Time,
          with_default (column ''updated_at'' Timestamp_Type) Current_Time,
          unique_column (column ''key_prefix'' (Varchar_Type 20)),
          column ''hashed_key'' (Varchar_Type 255),
          references (null_column ''owner_user_id'' Uuid_Type) ''users'' ''id'' False,
          with_default (column ''name'' (Varchar_Type 200)) (Constant []),
          with_default (column ''roles'' Jsonb_Type) Empty_List,
          with_default (column ''is_active'' Boolean_Type) (Truth True),
          null_column ''last_used_at'' Timestamp_Type,
          null_column ''expires_at'' Timestamp_Type],
        tb_uniques = []\<rparr>,
      Create_Index \<lparr>ix_name = ''idx_api_keys_prefix'', ix_table = ''api_keys'', ix_columns = [''key_prefix''], ix_gin = False\<rparr>]"

definition upgrade_0003 :: "schema_op list" where
  "upgrade_0003 =
     [Alter_Type ''rule_sets'' ''activated_at'' Timestamp_Type,
      Add_Column ''audit_log'' (null_column ''reason'' Text_Type),
      Create_Table \<lparr>tb_name = ''incidents'', tb_columns =
         [key_column ''incident_id'' (Varchar_Type 50),
          with_default (column ''payload'' Jsonb_Type) Empty_Object,
          with_default (column ''enriched_context'' Jsonb_Type) Empty_Object,
          with_default (column ''degraded_context'' Boolean_Type) (Truth False),
          with_default (column ''context_sources_total'' Integer_Type) (Constant ''0''),
          with_default (column ''context_sources_degraded'' Integer_Type) (Constant ''0''),
          with_default (column ''status'' (Varchar_Type 20)) (Constant ''received''),
          null_column ''region'' (Varchar_Type 50),
          null_column ''tenant_id'' Uuid_Type,
          with_default (column ''created_at'' Timestamp_Type) Current_Time],
        tb_uniques = []\<rparr>,
      Create_Index \<lparr>ix_name = ''idx_incidents_status_created'', ix_table = ''incidents'', ix_columns = [''status'', ''created_at''], ix_gin = False\<rparr>]"

definition downgrade_0003 :: "schema_op list" where
  "downgrade_0003 =
     [Drop_Table ''incidents'', Drop_Column ''audit_log'' ''reason'',
      Alter_Type ''rule_sets'' ''activated_at'' Unbounded_Type]"

definition downgrade_0002 :: "schema_op list" where
  "downgrade_0002 = [Drop_Table ''api_keys'', Drop_Table ''permissions'', Drop_Table ''roles'', Drop_Table ''users'']"

definition downgrade_0001 :: "schema_op list" where
  "downgrade_0001 =
     [Drop_Table ''request_log'', Drop_Table ''audit_log'', Drop_Table ''escalation_events'',
      Drop_Table ''escalation_policies'', Drop_Table ''manual_overrides'', Drop_Table ''decisions'',
      Drop_Table ''rules'', Drop_Table ''rule_sets'']"

section \<open>The declared tables\<close>

text \<open>A class declares a table with its indexes; the mixins contribute columns.\<close>

type_synonym model = "db_table \<times> db_index list"

definition uuid_primary_key :: "table_column list" where
  "uuid_primary_key = [with_default (key_column ''id'' Uuid_Type) Fresh_Uuid]"

definition timestamps :: "table_column list" where
  "timestamps =
     [with_default (column ''created_at'' Timestamp_Type) Current_Time,
      with_default (column ''updated_at'' Timestamp_Type) Current_Time]"

definition soft_delete_column :: "table_column list" where
  "soft_delete_column = [null_column ''deleted_at'' Timestamp_Type]"

definition lock_column :: "table_column list" where
  "lock_column = [with_default (column ''lock_version'' Integer_Type) (Constant ''1'')]"

definition rule_set_model :: model where
  "rule_set_model =
     (\<lparr>tb_name = ''rule_sets'', tb_columns = uuid_primary_key @ timestamps @ soft_delete_column @ lock_column @
         [column ''name'' (Varchar_Type 100),
          column ''version'' Integer_Type,
          with_default (column ''status'' (Varchar_Type 20)) (Constant ''draft''),
          null_column ''region'' (Varchar_Type 50),
          null_column ''tenant_id'' Uuid_Type,
          references (null_column ''parent_version_id'' Uuid_Type) ''rule_sets'' ''id'' False,
          with_default (column ''created_by'' (Varchar_Type 100)) (Constant ''system''),
          null_column ''activated_at'' Timestamp_Type],
        tb_uniques = [(''ux_rule_set_version'', [''name'', ''version'', ''region'', ''tenant_id''])]\<rparr>,
      [\<lparr>ix_name = ''idx_rule_sets_active_lookup'', ix_table = ''rule_sets'', ix_columns = [''name'', ''region'', ''tenant_id'', ''status''], ix_gin = False\<rparr>])"

definition rule_model :: model where
  "rule_model =
     (\<lparr>tb_name = ''rules'', tb_columns = uuid_primary_key @ timestamps @ soft_delete_column @ lock_column @
         [references (column ''rule_set_id'' Uuid_Type) ''rule_sets'' ''id'' True,
          column ''rule_code'' (Varchar_Type 20),
          column ''name'' (Varchar_Type 200),
          null_column ''description'' Text_Type,
          column ''priority_weight'' Integer_Type,
          null_column ''severity_band'' (Varchar_Type 20),
          null_column ''contribution_score'' Integer_Type,
          column ''family'' (Varchar_Type 40),
          column ''family_order'' Integer_Type,
          column ''conditions'' Jsonb_Type,
          null_column ''exceptions'' Jsonb_Type,
          null_column ''conflict_group'' (Varchar_Type 50),
          with_default (column ''conflicts_with'' Text_Array_Type) Empty_List,
          with_default (column ''is_suppressor'' Boolean_Type) (Truth False),
          with_default (column ''non_suppressible'' Boolean_Type) (Truth False),
          with_default (column ''cooldown_minutes'' Integer_Type) (Constant ''0''),
          column ''actions'' Jsonb_Type,
          with_default (column ''mitigations'' Jsonb_Type) Empty_Object,
          null_column ''sequencing'' Jsonb_Type,
          null_column ''sla_target'' (Varchar_Type 30),
          null_column ''region'' (Varchar_Type 50),
          null_column ''tenant_id'' Uuid_Type,
          with_default (column ''rule_status'' (Varchar_Type 20)) (Constant ''ACTIVE''),
          with_default (column ''enabled'' Boolean_Type) (Truth True),
          with_default (column ''created_by'' (Varchar_Type 100)) (Constant ''system''),
          null_column ''approved_by'' (Varchar_Type 100)],
        tb_uniques = [(''ux_rule_code_per_set'', [''rule_set_id'', ''rule_code''])]\<rparr>,
      [\<lparr>ix_name = ''idx_rules_active'', ix_table = ''rules'', ix_columns = [''rule_set_id'', ''enabled'', ''rule_status''], ix_gin = False\<rparr>, \<lparr>ix_name = ''idx_rules_family_order'', ix_table = ''rules'', ix_columns = [''rule_set_id'', ''family_order'', ''priority_weight''], ix_gin = False\<rparr>])"

definition decision_model :: model where
  "decision_model =
     (\<lparr>tb_name = ''decisions'', tb_columns = uuid_primary_key @
         [column ''incident_id'' (Varchar_Type 50),
          null_column ''rule_set_name'' (Varchar_Type 100),
          null_column ''rule_set_version'' Integer_Type,
          null_column ''priority'' (Varchar_Type 20),
          null_column ''risk_score'' Integer_Type,
          null_column ''risk_band'' (Varchar_Type 20),
          column ''decision'' Jsonb_Type,
          with_default (column ''mitigations'' Jsonb_Type) Empty_Object,
          with_default (column ''execution_plan'' Jsonb_Type) Empty_List,
          with_default (column ''matched_rules'' Jsonb_Type) Empty_List,
          with_default (column ''rejected_rules'' Jsonb_Type) Empty_List,
          with_default (column ''suppressed_rules'' Jsonb_Type) Empty_List,
          with_default (column ''compliance_constraints'' Jsonb_Type) Empty_List,
          null_column ''confidence_score'' (Numeric_Type 5 2),
          with_default (column ''degraded_context'' Boolean_Type) (Truth False),
          with_default (column ''explanation'' Text_Type) (Constant []),
          with_default (column ''engine_version'' (Varchar_Type 20)) (Constant ''0.1.0''),
          with_default (column ''resolved'' Boolean_Type) (Truth False),
          column ''created_at'' Timestamp_Type],
        tb_uniques = []\<rparr>,
      [\<lparr>ix_name = ''idx_decisions_incident'', ix_table = ''decisions'', ix_columns = [''incident_id''], ix_gin = False\<rparr>])"

definition manual_override_model :: model where
  "manual_override_model =
     (\<lparr>tb_name = ''manual_overrides'', tb_columns = uuid_primary_key @
         [column ''decision_id'' (Varchar_Type 50),
          column ''operator'' (Varchar_Type 100),
          column ''original_decision'' Jsonb_Type,
          column ''override_decision'' Jsonb_Type,
          column ''reason'' Text_Type,
          column ''created_at'' Timestamp_Type],
        tb_uniques = []\<rparr>,
      [])"

definition escalation_policy_model :: model where
  "escalation_policy_model =
     (\<lparr>tb_name = ''escalation_policies'', tb_columns = uuid_primary_key @
         [unique_column (column ''severity_band'' (Varchar_Type 20)),
          column ''levels'' Jsonb_Type],
        tb_uniques = []\<rparr>,
      [])"

definition escalation_event_model :: model where
  "escalation_event_model =
     (\<lparr>tb_name = ''escalation_events'', tb_columns = uuid_primary_key @
         [column ''decision_id'' (Varchar_Type 50),
          column ''level'' (Varchar_Type 30),
          column ''triggered_at'' Timestamp_Type,
          null_column ''acknowledged_at'' Timestamp_Type,
          null_column ''acknowledged_by'' (Varchar_Type 100)],
        tb_uniques = []\<rparr>,
      [\<lparr>ix_name = ''idx_escalation_events_decision'', ix_table = ''escalation_events'', ix_columns = [''decision_id'', ''triggered_at''], ix_gin = False\<rparr>])"

definition audit_log_model :: model where
  "audit_log_model =
     (\<lparr>tb_name = ''audit_log'', tb_columns = uuid_primary_key @
         [column ''entity_type'' (Varchar_Type 50),
          column ''entity_id'' (Varchar_Type 100),
          column ''action'' (Varchar_Type 50),
          column ''actor'' (Varchar_Type 100),
          null_column ''before'' Jsonb_Type,
          null_column ''after'' Jsonb_Type,
          null_column ''ip_address'' (Varchar_Type 64),
          null_column ''request_id'' (Varchar_Type 64),
          null_column ''correlation_id'' (Varchar_Type 64),
          column ''created_at'' Timestamp_Type,
          null_column ''reason'' Text_Type],
        tb_uniques = []\<rparr>,
      [\<lparr>ix_name = ''idx_audit_entity'', ix_table = ''audit_log'', ix_columns = [''entity_type'', ''entity_id'', ''created_at''], ix_gin = False\<rparr>])"

definition request_log_model :: model where
  "request_log_model =
     (\<lparr>tb_name = ''request_log'', tb_columns = uuid_primary_key @
         [column ''method'' (Varchar_Type 10),
          column ''path'' (Varchar_Type 255),
          column ''status_code'' Integer_Type,
          column ''duration_ms'' (Numeric_Type 10 2),
          column ''request_id'' (Varchar_Type 64),
          null_column ''correlation_id'' (Varchar_Type 64),
          null_column ''ip_address'' (Varchar_Type 64),
          column ''created_at'' Timestamp_Type],
        tb_uniques = []\<rparr>,
      [\<lparr>ix_name = ''idx_request_log_request_id'', ix_table = ''request_log'', ix_columns = [''request_id''], ix_gin = False\<rparr>])"

definition user_model :: model where
  "user_model =
     (\<lparr>tb_name = ''users'', tb_columns = uuid_primary_key @ timestamps @ soft_delete_column @ lock_column @
         [unique_column (column ''email'' (Varchar_Type 255)),
          column ''hashed_password'' (Varchar_Type 255),
          with_default (column ''full_name'' (Varchar_Type 200)) (Constant []),
          with_default (column ''roles'' Jsonb_Type) Empty_List,
          with_default (column ''is_active'' Boolean_Type) (Truth True),
          null_column ''last_login_at'' Timestamp_Type],
        tb_uniques = []\<rparr>,
      [])"

definition role_model :: model where
  "role_model =
     (\<lparr>tb_name = ''roles'', tb_columns = uuid_primary_key @ timestamps @
         [unique_column (column ''code'' (Varchar_Type 50)),
          column ''name'' (Varchar_Type 100),
          with_default (column ''permissions'' Jsonb_Type) Empty_List,
          with_default (column ''description'' Text_Type) (Constant [])],
        tb_uniques = []\<rparr>,
      [])"

definition permission_model :: model where
  "permission_model =
     (\<lparr>tb_name = ''permissions'', tb_columns = uuid_primary_key @ timestamps @
         [unique_column (column ''code'' (Varchar_Type 100)),
          with_default (column ''description'' Text_Type) (Constant [])],
        tb_uniques = []\<rparr>,
      [])"

definition api_key_model :: model where
  "api_key_model =
     (\<lparr>tb_name = ''api_keys'', tb_columns = uuid_primary_key @ timestamps @
         [unique_column (column ''key_prefix'' (Varchar_Type 20)),
          column ''hashed_key'' (Varchar_Type 255),
          null_column ''owner_user_id'' Uuid_Type,
          with_default (column ''name'' (Varchar_Type 200)) (Constant []),
          with_default (column ''roles'' Jsonb_Type) Empty_List,
          with_default (column ''is_active'' Boolean_Type) (Truth True),
          null_column ''last_used_at'' Timestamp_Type,
          null_column ''expires_at'' Timestamp_Type],
        tb_uniques = []\<rparr>,
      [\<lparr>ix_name = ''idx_api_keys_prefix'', ix_table = ''api_keys'', ix_columns = [''key_prefix''], ix_gin = False\<rparr>])"

definition incident_model :: model where
  "incident_model =
     (\<lparr>tb_name = ''incidents'', tb_columns = 
         [key_column ''incident_id'' (Varchar_Type 50),
          with_default (column ''payload'' Jsonb_Type) Empty_Object,
          with_default (column ''enriched_context'' Jsonb_Type) Empty_Object,
          with_default (column ''degraded_context'' Boolean_Type) (Truth False),
          with_default (column ''context_sources_total'' Integer_Type) (Constant ''0''),
          with_default (column ''context_sources_degraded'' Integer_Type) (Constant ''0''),
          with_default (column ''status'' (Varchar_Type 20)) (Constant ''received''),
          null_column ''region'' (Varchar_Type 50),
          null_column ''tenant_id'' Uuid_Type,
          column ''created_at'' Timestamp_Type],
        tb_uniques = []\<rparr>,
      [])"

definition declared_models :: "model list" where
  "declared_models =
     [rule_set_model, rule_model, decision_model, manual_override_model, escalation_policy_model, escalation_event_model, audit_log_model, request_log_model, user_model, role_model, permission_model, api_key_model, incident_model]"

section \<open>Migrations and models\<close>

definition same_column :: "table_column \<Rightarrow> table_column \<Rightarrow> bool" where
  \<comment> \<open>up to the default\<close>
  "same_column c c' = (c\<lparr>cl_default := None\<rparr> = c'\<lparr>cl_default := None\<rparr>)"

definition find_column :: "string \<Rightarrow> db_table \<Rightarrow> table_column option" where
  "find_column n t = find (\<lambda>c. cl_name c = n) (tb_columns t)"

definition column_drift :: "(table_column \<Rightarrow> table_column \<Rightarrow> bool) \<Rightarrow> db_table \<Rightarrow> schema \<Rightarrow> (string \<times> string) list" where
  \<comment> \<open>the columns of either side that the other does not have or has otherwise\<close>
  "column_drift same t s =
     map (Pair (tb_name t))
       (case find_table (tb_name t) s of
          None \<Rightarrow> column_names t
        | Some t' \<Rightarrow>
            filter (\<lambda>n. case (find_column n t, find_column n t') of (Some c, Some c') \<Rightarrow> \<not> same c c' | _ \<Rightarrow> True)
              (remdups (column_names t @ column_names t')))"

definition migrated :: "schema res" where
  "migrated = run_ops (upgrade_0001 @ upgrade_0002 @ upgrade_0003) empty_schema"

end
