(* ===== verification/Db_Migrations.thy ===== *)
theory Db_Migrations
  imports Db_Schema
begin

text \<open>
  What the migrations make of a database: a schema stays consistent under every operation, the
  tables that a migration creates are removed again by its downgrade, and the migrated schema is
  the one the ORM classes declare, up to the differences that are listed.
\<close>

section \<open>Consistent schemas\<close>

definition schema_ok :: "schema \<Rightarrow> bool" where
  "schema_ok s \<longleftrightarrow> distinct (map tb_name (sc_tables s))
     \<and> distinct (map ix_name (sc_indexes s))
     \<and> list_all (\<lambda>i. find_table (ix_table i) s \<noteq> None \<and> list_all (\<lambda>c. has_column (ix_table i) c s) (ix_columns i))
         (sc_indexes s)
     \<and> list_all (\<lambda>t. list_all (reference_ok s) (tb_columns t)
                    \<and> list_all (\<lambda>u. set (snd u) \<subseteq> set (column_names t)) (tb_uniques t)) (sc_tables s)"

lemma find_table_None: "find_table n s = None \<longleftrightarrow> n \<notin> tb_name ` set (sc_tables s)"
  by (auto simp: find_table_def find_None_iff)

lemma find_table_Some_name: "find_table n s = Some t \<Longrightarrow> t \<in> set (sc_tables s) \<and> tb_name t = n"
  by (auto simp: find_table_def find_Some_iff)

lemma find_table_unique:
  assumes "distinct (map tb_name (sc_tables s))" and "t \<in> set (sc_tables s)"
  shows "find_table (tb_name t) s = Some t"
  using assms by (cases "find_table (tb_name t) s")
    (auto simp: find_table_None dest!: find_table_Some_name dest: inj_onD[of tb_name] simp: distinct_map)

lemma find_change_table:
  assumes "\<And>t. tb_name (f t) = tb_name t"
  shows "find_table m (change_table n f s) = map_option (\<lambda>t. if m = n then f t else t) (find_table m s)"
proof -
  have "find (\<lambda>t. tb_name t = m) (map (\<lambda>t. if tb_name t = n then f t else t) ts)
      = map_option (\<lambda>t. if m = n then f t else t) (find (\<lambda>t. tb_name t = m) ts)" for ts
    using assms by (induction ts) auto
  then show ?thesis by (simp add: find_table_def change_table_def)
qed

lemma find_add_table:
  "find_table m (add_table t s) = (case find_table m s of None \<Rightarrow> if tb_name t = m then Some t else None | Some u \<Rightarrow> Some u)"
proof -
  have "find P (xs @ [y]) = (case find P xs of None \<Rightarrow> if P y then Some y else None | Some u \<Rightarrow> Some u)" for P xs and y :: db_table
    by (induction xs) auto
  then show ?thesis by (simp add: find_table_def add_table_def)
qed

lemma has_column_add_table: "has_column m c s \<Longrightarrow> has_column m c (add_table t s)"
  by (auto simp: has_column_def find_add_table split: option.splits)

lemma reference_ok_add_table: "reference_ok s c \<Longrightarrow> reference_ok (add_table t s) c"
  by (auto simp: reference_ok_def has_column_add_table split: option.splits)

lemma edit_names [simp]: "tb_name (add_column c t) = tb_name t" "tb_name (drop_column cn t) = tb_name t"
  "tb_name (alter_type cn ty t) = tb_name t"
  by (simp_all add: add_column_def drop_column_def alter_type_def)

lemma edit_column_names [simp]:
  "column_names (add_column c t) = column_names t @ [cl_name c]"
  "column_names (drop_column cn t) = filter (\<lambda>n. n \<noteq> cn) (column_names t)"
  "column_names (alter_type cn ty t) = column_names t"
  by (simp_all add: add_column_def drop_column_def alter_type_def column_names_def filter_map o_def if_distrib
        cong: if_cong)

lemma tables_change_table: "sc_tables (change_table n f s) = map (\<lambda>t. if tb_name t = n then f t else t) (sc_tables s)"
  by (simp add: change_table_def)

lemma indexes_change_table [simp]: "sc_indexes (change_table n f s) = sc_indexes s"
  by (simp add: change_table_def)

lemma has_column_change_table:
  assumes "\<And>t. tb_name (f t) = tb_name t" and "\<And>t. set (column_names t) \<subseteq> set (column_names (f t))"
    and "has_column m c s"
  shows "has_column m c (change_table n f s)"
  using assms(3) subsetD[OF assms(2)]
  by (auto simp: has_column_def find_change_table[of f, OF assms(1)] split: option.splits)

lemma reference_ok_change_table:
  assumes "\<And>t. tb_name (f t) = tb_name t" and "\<And>t. set (column_names t) \<subseteq> set (column_names (f t))"
    and "reference_ok s c"
  shows "reference_ok (change_table n f s) c"
  using assms(3) has_column_change_table[OF assms(1,2)] by (auto simp: reference_ok_def split: option.splits)

lemma names_change_table:
  assumes "\<And>t. tb_name (f t) = tb_name t"
  shows "map tb_name (sc_tables (change_table n f s)) = map tb_name (sc_tables s)"
  by (simp add: tables_change_table assms)

section \<open>Every operation keeps a schema consistent\<close>

lemma ok_create_table:
  assumes "schema_ok s" and "apply_op (Create_Table t) s = Inr s'"
  shows "schema_ok s'"
proof -
  have new: "tb_name t \<notin> tb_name ` set (sc_tables s)" and s': "s' = add_table t s"
    and cols: "list_all (reference_ok (add_table t s)) (tb_columns t)"
    and uni: "list_all (\<lambda>u. set (snd u) \<subseteq> set (column_names t)) (tb_uniques t)"
    using assms(2) by (auto simp: find_table_None split: if_splits)
  have idx: "sc_indexes (add_table t s) = sc_indexes s" and tabs: "sc_tables (add_table t s) = sc_tables s @ [t]"
    by (simp_all add: add_table_def)
  show ?thesis
    using assms(1) new cols uni reference_ok_add_table[of s _ t] has_column_add_table[of _ _ s t]
    by (auto simp: schema_ok_def s' idx tabs list_all_iff find_add_table split: option.splits)
qed

lemma ok_create_index:
  assumes "schema_ok s" and "apply_op (Create_Index i) s = Inr s'"
  shows "schema_ok s'"
proof -
  obtain t where t: "find_table (ix_table i) s = Some t" and cols: "set (ix_columns i) \<subseteq> set (column_names t)"
    and new: "ix_name i \<notin> ix_name ` set (sc_indexes s)" and s': "s' = s\<lparr>sc_indexes := sc_indexes s @ [i]\<rparr>"
    using assms(2) by (auto simp: on_table_def split: if_splits option.splits)
  have same: "find_table n s' = find_table n s" "has_column n c s' = has_column n c s" for n c
    by (simp_all add: s' find_table_def has_column_def)
  have refs: "reference_ok s' = reference_ok s"
    by (auto simp: reference_ok_def same split: option.splits)
  show ?thesis
    using assms(1) new cols t unfolding schema_ok_def refs same
    by (auto simp: s' list_all_iff has_column_def find_table_def)
qed

lemma ok_change_table:
  assumes "schema_ok s" and name: "\<And>t. tb_name (f t) = tb_name t"
    and cols: "\<And>t. set (column_names t) \<subseteq> set (column_names (f t))"
    and unis: "\<And>t. tb_uniques (f t) = tb_uniques t"
    and refs: "\<And>t c. t \<in> set (sc_tables s) \<Longrightarrow> tb_name t = n \<Longrightarrow> c \<in> set (tb_columns (f t)) \<Longrightarrow>
      reference_ok (change_table n f s) c"
  shows "schema_ok (change_table n f s)"
proof -
  note keep = has_column_change_table[of f, OF name cols] reference_ok_change_table[of f, OF name cols]
  have "list_all (\<lambda>i. find_table (ix_table i) (change_table n f s) \<noteq> None
      \<and> list_all (\<lambda>c. has_column (ix_table i) c (change_table n f s)) (ix_columns i)) (sc_indexes s)"
    using assms(1) keep(1) by (auto simp: schema_ok_def list_all_iff find_change_table[of f, OF name])
  moreover have "list_all (reference_ok (change_table n f s)) (tb_columns t)
      \<and> list_all (\<lambda>u. set (snd u) \<subseteq> set (column_names t)) (tb_uniques t)"
    if t_in: "t \<in> set (sc_tables (change_table n f s))" for t
  proof -
    obtain u where u: "u \<in> set (sc_tables s)" and t: "t = (if tb_name u = n then f u else u)"
      using t_in unfolding tables_change_table set_map image_iff by blast
    have old: "\<forall>v\<in>set (tb_uniques u). set (snd v) \<subseteq> set (column_names u)" "\<forall>c\<in>set (tb_columns u). reference_ok s c"
      using assms(1) u by (auto simp: schema_ok_def list_all_iff)
    have "set (snd v) \<subseteq> set (column_names t)" if "v \<in> set (tb_uniques t)" for v
    proof -
      have "set (snd v) \<subseteq> set (column_names u)" using old(1) that by (auto simp: t unis split: if_splits)
      then show ?thesis using cols[of u] by (auto simp: t)
    qed
    moreover have "reference_ok (change_table n f s) c" if "c \<in> set (tb_columns t)" for c
      using that refs[OF u] keep(2) old(2) by (auto simp: t split: if_splits)
    ultimately show ?thesis by (simp add: list_all_iff)
  qed
  ultimately show ?thesis
    using assms(1) by (simp add: schema_ok_def names_change_table[of f, OF name] list_all_iff)
qed

lemma ok_add_column:
  assumes "schema_ok s" and "apply_op (Add_Column n c) s = Inr s'"
  shows "schema_ok s'"
proof -
  have s': "s' = change_table n (add_column c) s" and r: "reference_ok (change_table n (add_column c) s) c"
    using assms(2) by (auto simp: on_table_def split: option.splits if_splits)
  have old: "reference_ok s d" if "t \<in> set (sc_tables s)" "d \<in> set (tb_columns t)" for t d
    using assms(1) that by (auto simp: schema_ok_def list_all_iff)
  have keep: "reference_ok s d \<Longrightarrow> reference_ok (change_table n (add_column c) s) d" for d
    by (rule reference_ok_change_table) auto
  show ?thesis
    unfolding s' using assms(1)
  proof (rule ok_change_table)
    fix t d assume "t \<in> set (sc_tables s)" "d \<in> set (tb_columns (add_column c t))"
    then show "reference_ok (change_table n (add_column c) s) d"
      using r keep old by (auto simp: add_column_def)
  qed (auto simp: add_column_def[abs_def] column_names_def)
qed

lemma ok_alter_type:
  assumes "schema_ok s" and "apply_op (Alter_Type n cn ty) s = Inr s'"
  shows "schema_ok s'"
proof -
  have s': "s' = change_table n (alter_type cn ty) s"
    using assms(2) by (auto simp: on_table_def split: option.splits if_splits)
  have keep: "reference_ok s d \<Longrightarrow> reference_ok (change_table n (alter_type cn ty) s) d" for d
    by (rule reference_ok_change_table) auto
  have ty: "reference_ok z (d\<lparr>cl_type := ty\<rparr>) = reference_ok z d" for d z
    by (simp add: reference_ok_def)
  show ?thesis
    unfolding s' using assms(1)
  proof (rule ok_change_table)
    fix t d assume t: "t \<in> set (sc_tables s)" and d: "d \<in> set (tb_columns (alter_type cn ty t))"
    obtain e where e: "e \<in> set (tb_columns t)" and "d = e \<or> d = e\<lparr>cl_type := ty\<rparr>"
      using d by (auto simp: alter_type_def split: if_splits)
    moreover have "reference_ok s e" using assms(1) t e by (auto simp: schema_ok_def list_all_iff)
    ultimately show "reference_ok (change_table n (alter_type cn ty) s) d" using keep ty by auto
  next
    show "tb_uniques (alter_type cn ty t) = tb_uniques t" for t by (simp add: alter_type_def)
  qed simp_all
qed

lemma find_filter: "(\<And>x. P x \<Longrightarrow> Q x) \<Longrightarrow> find P (filter Q xs) = find P xs"
  by (induction xs) auto

lemma ok_drop_table:
  assumes "schema_ok s" and "apply_op (Drop_Table n) s = Inr s'"
  shows "schema_ok s'"
proof -
  have free: "refers_to n None c \<Longrightarrow> tb_name t = n"
    if "t \<in> set (sc_tables s)" "c \<in> set (tb_columns t)" for t c
    using assms(2) that by (auto simp: list_ex_iff simp del: refers_to.simps split: if_splits)
  have s': "s' = \<lparr>sc_tables = filter (\<lambda>t. tb_name t \<noteq> n) (sc_tables s),
      sc_indexes = filter (\<lambda>i. ix_table i \<noteq> n) (sc_indexes s)\<rparr>"
    using assms(2) by (auto split: if_splits)
  have found: "find_table m s' = find_table m s" if "m \<noteq> n" for m
    unfolding s' find_table_def using that by (auto intro: find_filter)
  have col: "has_column m c s' = has_column m c s" if "m \<noteq> n" for m c
    using found[OF that] by (simp add: has_column_def)
  have "reference_ok s' c" if "t \<in> set (sc_tables s)" "tb_name t \<noteq> n" "c \<in> set (tb_columns t)" for t c
  proof -
    have "reference_ok s c" using assms(1) that by (auto simp: schema_ok_def list_all_iff)
    moreover have "\<not> refers_to n None c" using free that by blast
    ultimately show ?thesis by (auto simp: reference_ok_def col split: option.splits)
  qed
  then show ?thesis
    using assms(1) found col unfolding schema_ok_def
    by (auto simp: s' list_all_iff distinct_map_filter)
qed

lemma ok_drop_column:
  assumes "schema_ok s" and "apply_op (Drop_Column n cn) s = Inr s'"
  shows "schema_ok s'"
proof -
  have free: "tb_name t = n \<and> cl_name c = cn"
    if "t \<in> set (sc_tables s)" "c \<in> set (tb_columns t)" "refers_to n (Some cn) c" for t c
    using assms(2) that by (auto simp: on_table_def list_ex_iff simp del: refers_to.simps split: if_splits option.splits)
  have s': "s' = (change_table n (drop_column cn) s)
      \<lparr>sc_indexes := filter (\<lambda>i. ix_table i \<noteq> n \<or> cn \<notin> set (ix_columns i)) (sc_indexes s)\<rparr>"
    using assms(2) by (auto simp: on_table_def split: if_splits option.splits)
  have tabs: "sc_tables s' = map (\<lambda>t. if tb_name t = n then drop_column cn t else t) (sc_tables s)"
    and idx: "sc_indexes s' = filter (\<lambda>i. ix_table i \<noteq> n \<or> cn \<notin> set (ix_columns i)) (sc_indexes s)"
    by (simp_all add: s' tables_change_table)
  have found: "find_table m s' = map_option (\<lambda>t. if m = n then drop_column cn t else t) (find_table m s)" for m
    using find_change_table[of "drop_column cn" m n s] by (simp add: s' find_table_def)
  have col: "has_column m k s'" if "has_column m k s" "m \<noteq> n \<or> k \<noteq> cn" for m k
    using that by (auto simp: has_column_def found split: option.splits)
  have inner: "list_all (reference_ok s') (tb_columns t) \<and> list_all (\<lambda>u. set (snd u) \<subseteq> set (column_names t)) (tb_uniques t)"
    if t_in: "t \<in> set (sc_tables s')" for t
  proof -
    obtain u where u: "u \<in> set (sc_tables s)" and t: "t = (if tb_name u = n then drop_column cn u else u)"
      using t_in unfolding tabs set_map image_iff by blast
    have old: "list_all (reference_ok s) (tb_columns u)"
      "list_all (\<lambda>v. set (snd v) \<subseteq> set (column_names u)) (tb_uniques u)"
      using assms(1) u by (auto simp: schema_ok_def list_all_iff)
    have "reference_ok s' c" if c: "c \<in> set (tb_columns t)" for c
    proof -
      have cu: "c \<in> set (tb_columns u)" "tb_name u = n \<Longrightarrow> cl_name c \<noteq> cn"
        using c by (auto simp: t drop_column_def split: if_splits)
      then have "reference_ok s c" "\<not> refers_to n (Some cn) c"
        using old free[OF u] by (auto simp: list_all_iff simp del: refers_to.simps)
      then show ?thesis by (auto simp: reference_ok_def intro!: col split: option.splits)
    qed
    moreover have "set (snd v) \<subseteq> set (column_names t)" if v: "v \<in> set (tb_uniques t)" for v
    proof -
      have "v \<in> set (tb_uniques u)" "tb_name u = n \<Longrightarrow> cn \<notin> set (snd v)"
        using v by (auto simp: t drop_column_def split: if_splits)
      then have "set (snd v) \<subseteq> set (column_names u)" "tb_name u = n \<Longrightarrow> cn \<notin> set (snd v)"
        using old(2) by (auto simp only: list_all_iff)
      then show ?thesis by (auto simp: t)
    qed
    ultimately show ?thesis by (simp add: list_all_iff)
  qed
  have "list_all (\<lambda>i. find_table (ix_table i) s' \<noteq> None \<and> list_all (\<lambda>c. has_column (ix_table i) c s') (ix_columns i))
      (sc_indexes s')"
    using assms(1) by (auto simp: schema_ok_def list_all_iff found idx intro!: col)
  moreover have "map tb_name (sc_tables s') = map tb_name (sc_tables s)"
    by (simp add: tabs)
  moreover have "distinct (map ix_name (sc_indexes s'))"
    using assms(1) by (simp add: idx schema_ok_def distinct_map_filter)
  ultimately show ?thesis
    using assms(1) inner by (simp add: schema_ok_def list_all_iff)
qed

lemma ok_apply_op: "schema_ok s \<Longrightarrow> apply_op op s = Inr s' \<Longrightarrow> schema_ok s'"
  by (cases op) (blast intro: ok_create_table ok_drop_table ok_create_index ok_add_column ok_drop_column ok_alter_type)+

lemma ok_run_ops: "schema_ok s \<Longrightarrow> run_ops ops s = Inr s' \<Longrightarrow> schema_ok s'"
  unfolding run_ops_def by (rule foldr_res_invariant[where P = schema_ok]) (auto intro: ok_apply_op)

section \<open>A migration that only creates tables is undone by dropping them in reverse\<close>

definition creation :: "model \<Rightarrow> schema_op list" where
  "creation m = Create_Table (fst m) # map Create_Index (snd m)"

fun created_models :: "schema_op list \<Rightarrow> db_index list \<times> model list" where
  "created_models [] = ([], [])"
| "created_models (Create_Table t # ops) = ([], (t, fst (created_models ops)) # snd (created_models ops))"
| "created_models (Create_Index i # ops) = (i # fst (created_models ops), snd (created_models ops))"
| "created_models (op # ops) = created_models ops"

definition drops :: "model list \<Rightarrow> schema_op list" where
  "drops ms = map (\<lambda>m. Drop_Table (tb_name (fst m))) (rev ms)"

definition only_creates :: "schema_op list \<Rightarrow> schema_op list \<Rightarrow> bool" where
  \<comment> \<open>tables with their own indexes, and the second list drops them in the reverse order\<close>
  "only_creates up down \<longleftrightarrow> up = concat (map creation (snd (created_models up)))
     \<and> list_all (\<lambda>m. list_all (\<lambda>i. ix_table i = tb_name (fst m)) (snd m)) (snd (created_models up))
     \<and> down = drops (snd (created_models up))"

lemma run_ops_simps [simp]:
  "run_ops [] s = Inr s" "run_ops (op # ops) s = bindr (apply_op op s) (run_ops ops)"
  "run_ops (ops @ ops') s = bindr (run_ops ops s) (run_ops ops')"
  by (simp_all add: run_ops_def foldr_res_append fun_eq_iff cong: arg_cong[of _ _ "bindr _"])
    (simp_all add: run_ops_def[abs_def])

lemma run_create_indexes:
  "run_ops (map Create_Index xs) s = Inr s' \<Longrightarrow> s' = s\<lparr>sc_indexes := sc_indexes s @ xs\<rparr>"
proof (induction xs arbitrary: s)
  case (Cons i xs)
  then have "run_ops (map Create_Index xs) (s\<lparr>sc_indexes := sc_indexes s @ [i]\<rparr>) = Inr s'"
    by (auto simp: bindr_eq_Inr on_table_def split: if_splits option.splits)
  from Cons.IH[OF this] show ?case by simp
qed simp

lemma undo_creation:
  assumes ok: "schema_ok s" and run: "run_ops (creation m) s = Inr s'"
    and own: "list_all (\<lambda>i. ix_table i = tb_name (fst m)) (snd m)"
  shows "apply_op (Drop_Table (tb_name (fst m))) s' = Inr s"
proof -
  let ?n = "tb_name (fst m)"
  have new: "?n \<notin> tb_name ` set (sc_tables s)" and "run_ops (map Create_Index (snd m)) (add_table (fst m) s) = Inr s'"
    using run by (auto simp: creation_def find_table_None bindr_eq_Inr split: if_splits)
  then have s': "s' = \<lparr>sc_tables = sc_tables s @ [fst m], sc_indexes = sc_indexes s @ snd m\<rparr>"
    by (auto dest!: run_create_indexes simp: add_table_def)
  have "\<not> refers_to ?n None c" if "t \<in> set (sc_tables s)" "c \<in> set (tb_columns t)" for t c
  proof -
    have "reference_ok s c" using ok that by (auto simp: schema_ok_def list_all_iff)
    moreover have "find_table ?n s = None" using new by (simp add: find_table_None)
    ultimately show ?thesis by (auto simp: reference_ok_def has_column_def split: option.splits)
  qed
  then have free: "\<not> list_ex (\<lambda>t. tb_name t \<noteq> ?n \<and> list_ex (refers_to ?n None) (tb_columns t)) (sc_tables s')"
    by (auto simp: s' list_ex_iff simp del: refers_to.simps)
  have "filter (\<lambda>t. tb_name t \<noteq> ?n) (sc_tables s') = sc_tables s"
    using new by (auto simp: s' filter_id_conv) (metis imageI)
  moreover have "filter (\<lambda>i. ix_table i \<noteq> ?n) (sc_indexes s') = sc_indexes s"
  proof -
    have "ix_table i \<noteq> ?n" if "i \<in> set (sc_indexes s)" for i
      using ok that new unfolding schema_ok_def list_all_iff find_table_None by metis
    then show ?thesis using own by (auto simp: s' list_all_iff filter_id_conv filter_empty_conv)
  qed
  moreover have "find_table ?n s' \<noteq> None" by (simp add: find_table_None s')
  ultimately show ?thesis using free by (simp del: refers_to.simps)
qed

lemma undo_creations:
  assumes "schema_ok s" and "run_ops (concat (map creation ms)) s = Inr s'"
    and "list_all (\<lambda>m. list_all (\<lambda>i. ix_table i = tb_name (fst m)) (snd m)) ms"
  shows "run_ops (drops ms) s' = Inr s"
  using assms
proof (induction ms arbitrary: s)
  case (Cons m ms)
  obtain s1 where s1: "run_ops (creation m) s = Inr s1" and rest: "run_ops (concat (map creation ms)) s1 = Inr s'"
    using Cons.prems(2) by (auto simp: bindr_eq_Inr)
  have "run_ops (drops ms) s' = Inr s1"
    using Cons.IH[OF ok_run_ops[OF Cons.prems(1) s1] rest] Cons.prems(3) by simp
  moreover have "apply_op (Drop_Table (tb_name (fst m))) s1 = Inr s"
    using undo_creation[OF Cons.prems(1) s1] Cons.prems(3) by simp
  ultimately show ?case by (simp add: drops_def del: apply_op.simps)
qed (simp add: drops_def)

lemma undo_only_creates:
  assumes "only_creates up down" and "schema_ok s" and "run_ops up s = Inr s'"
  shows "run_ops down s' = Inr s"
proof -
  have up: "up = concat (map creation (snd (created_models up)))"
    and own: "list_all (\<lambda>m. list_all (\<lambda>i. ix_table i = tb_name (fst m)) (snd m)) (snd (created_models up))"
    and down: "down = drops (snd (created_models up))"
    using assms(1) by (simp_all only: only_creates_def)
  have "run_ops (concat (map creation (snd (created_models up)))) s = Inr s'"
    using assms(3) up by (simp only: )
  from undo_creations[OF assms(2) this own] show ?thesis using down by (simp only: )
qed

lemma first_only_creates: "only_creates upgrade_0001 downgrade_0001"
  by code_simp

lemma second_only_creates: "only_creates upgrade_0002 downgrade_0002"
  by code_simp

section \<open>The third migration\<close>

lemma change_table_id:
  assumes "\<And>t. t \<in> set (sc_tables s) \<Longrightarrow> tb_name t = n \<Longrightarrow> f t = t"
  shows "change_table n f s = s"
proof -
  have "map (\<lambda>t. if tb_name t = n then f t else t) (sc_tables s) = sc_tables s"
    using assms by (intro map_idI) auto
  then show ?thesis by (simp add: change_table_def)
qed

lemma drop_added_column:
  assumes "list_all (\<lambda>u. set (snd u) \<subseteq> set (column_names t)) (tb_uniques t)" and "cl_name c \<notin> set (column_names t)"
  shows "drop_column (cl_name c) (add_column c t) = t"
proof -
  have "filter (\<lambda>d. cl_name d \<noteq> cl_name c) (tb_columns t) = tb_columns t"
    using assms(2) by (auto simp: column_names_def filter_id_conv) (metis imageI)
  moreover have "filter (\<lambda>u. cl_name c \<notin> set (snd u)) (tb_uniques t) = tb_uniques t"
    using assms by (auto simp: list_all_iff filter_id_conv)
  ultimately show ?thesis by (simp add: drop_column_def add_column_def)
qed

lemma change_table_change_table:
  assumes "\<And>t. tb_name (f t) = tb_name t"
  shows "change_table n g (change_table n f s) = change_table n (\<lambda>t. g (f t)) s"
  by (auto simp: change_table_def assms)

lemma change_table_cong:
  assumes "\<And>t. t \<in> set (sc_tables s) \<Longrightarrow> tb_name t = n \<Longrightarrow> f t = g t"
  shows "change_table n f s = change_table n g s"
  using assms by (auto simp: change_table_def)

lemma undo_add_column:
  assumes ok: "schema_ok s" and add: "apply_op (Add_Column n c) s = Inr s'" and self: "cl_references c = None"
  shows "apply_op (Drop_Column n (cl_name c)) s' = Inr s"
proof -
  let ?cn = "cl_name c"
  obtain t where t: "find_table n s = Some t" and absent: "?cn \<notin> set (column_names t)"
    and s': "s' = change_table n (add_column c) s"
    using add by (auto simp: on_table_def split: option.splits if_splits)
  have new: "?cn \<notin> set (column_names u)" "list_all (\<lambda>v. set (snd v) \<subseteq> set (column_names u)) (tb_uniques u)"
    if "u \<in> set (sc_tables s)" "tb_name u = n" for u
    using find_table_unique[of s u] that ok t absent by (auto simp: schema_ok_def list_all_iff)
  have t': "find_table n s' = Some (add_column c t)"
    using t by (simp add: s' find_change_table)
  have nocol: "\<not> has_column n ?cn s" using t absent by (simp add: has_column_def)
  have unref: "\<not> refers_to n (Some ?cn) d" if u: "u \<in> set (sc_tables s')" and d: "d \<in> set (tb_columns u)" for u d
  proof -
    obtain v where v: "v \<in> set (sc_tables s)" and uv: "u = (if tb_name v = n then add_column c v else v)"
      using u unfolding s' tables_change_table set_map image_iff by blast
    have "d = c \<or> d \<in> set (tb_columns v)" using d by (auto simp: uv add_column_def split: if_splits)
    moreover have "reference_ok s d" if "d \<in> set (tb_columns v)"
      using ok v that by (auto simp: schema_ok_def list_all_iff)
    ultimately have "cl_references d = None \<or> reference_ok s d" using self by auto
    then show ?thesis using nocol by (auto simp: reference_ok_def split: option.splits)
  qed
  have idx: "filter (\<lambda>i. ix_table i \<noteq> n \<or> ?cn \<notin> set (ix_columns i)) (sc_indexes s) = sc_indexes s"
    using ok nocol by (auto simp: schema_ok_def list_all_iff filter_id_conv)
  have "change_table n (drop_column ?cn) s' = change_table n (\<lambda>t. t) s"
    unfolding s' using new by (subst change_table_change_table) (auto intro!: change_table_cong drop_added_column)
  then have undone: "change_table n (drop_column ?cn) s' = s" by (simp add: change_table_id)
  have "sc_indexes s' = sc_indexes s" by (simp add: s')
  then show ?thesis
    using unref t' idx undone by (auto simp: on_table_def list_ex_iff simp del: refers_to.simps)
qed

lemma alter_alter [simp]: "alter_type cn ty (alter_type cn ty' t) = alter_type cn ty t"
  by (auto simp: alter_type_def)

lemma undo_third:
  assumes ok: "schema_ok s" and run: "run_ops upgrade_0003 s = Inr s'"
  shows "run_ops downgrade_0003 s' = apply_op (Alter_Type ''rule_sets'' ''activated_at'' Unbounded_Type) s"
proof -
  obtain m where up: "upgrade_0003 = [Alter_Type ''rule_sets'' ''activated_at'' Timestamp_Type,
      Add_Column ''audit_log'' (null_column ''reason'' Text_Type)] @ creation m"
    and own: "list_all (\<lambda>i. ix_table i = tb_name (fst m)) (snd m)" and name: "tb_name (fst m) = ''incidents''"
  proof
    show "upgrade_0003 = [Alter_Type ''rule_sets'' ''activated_at'' Timestamp_Type,
      Add_Column ''audit_log'' (null_column ''reason'' Text_Type)] @ creation (hd (snd (created_models upgrade_0003)))"
      by code_simp
    show "list_all (\<lambda>i. ix_table i = tb_name (fst (hd (snd (created_models upgrade_0003)))))
       (snd (hd (snd (created_models upgrade_0003))))"
      by code_simp
    show "tb_name (fst (hd (snd (created_models upgrade_0003)))) = ''incidents''"
      by code_simp
  qed
  let ?alter = "Alter_Type ''rule_sets'' ''activated_at'' Timestamp_Type"
  let ?add = "Add_Column ''audit_log'' (null_column ''reason'' Text_Type)"
  obtain s1 s2 where s1: "apply_op ?alter s = Inr s1" and s2: "apply_op ?add s1 = Inr s2"
    and s3: "run_ops (creation m) s2 = Inr s'"
    using run unfolding up by (auto simp: bindr_eq_Inr simp del: apply_op.simps)
  have ok1: "schema_ok s1" and ok2: "schema_ok s2"
    using ok_apply_op s1 s2 ok by blast+
  have "apply_op (Drop_Table ''incidents'') s' = Inr s2"
    using undo_creation[OF ok2 s3 own] name by simp
  moreover have "apply_op (Drop_Column ''audit_log'' ''reason'') s2 = Inr s1"
    using undo_add_column[OF ok1 s2] by (simp add: null_column_def column_def del: apply_op.simps)
  moreover have "apply_op (Alter_Type ''rule_sets'' ''activated_at'' Unbounded_Type) s1
      = apply_op (Alter_Type ''rule_sets'' ''activated_at'' Unbounded_Type) s"
    using s1 by (auto simp: on_table_def find_change_table change_table_change_table split: option.splits if_splits)
  ultimately show ?thesis by (simp add: downgrade_0003_def bindr_def del: apply_op.simps split: sum.splits)
qed

section \<open>The migrated schema and the declared tables\<close>

lemma empty_schema_ok: "schema_ok empty_schema"
  by (simp add: schema_ok_def empty_schema_def)

definition agrees :: "schema \<Rightarrow> bool" where
  \<comment> \<open>the same tables with the same unique constraints, and every declared index\<close>
  "agrees s \<longleftrightarrow> map tb_name (sc_tables s) = map (\<lambda>m. tb_name (fst m)) declared_models
     \<and> list_all (\<lambda>m. map_option tb_uniques (find_table (tb_name (fst m)) s) = Some (tb_uniques (fst m))) declared_models
     \<and> list_all (\<lambda>m. list_all (\<lambda>i. i \<in> set (sc_indexes s)) (snd m)) declared_models"

definition undeclared_indexes :: "schema \<Rightarrow> string list" where
  "undeclared_indexes s = map ix_name (filter (\<lambda>i. list_all (\<lambda>m. i \<notin> set (snd m)) declared_models) (sc_indexes s))"

definition all_drift :: "schema \<Rightarrow> (string \<times> string) list" where
  "all_drift s = concat (map (\<lambda>m. column_drift same_column (fst m) s) declared_models)"

lemma migrated_report:
  "map_option (\<lambda>s. (agrees s, all_drift s, undeclared_indexes s)) (the_res migrated)
   = Some (True, [(''api_keys'', ''owner_user_id'')],
       [''idx_rules_conditions_gin'', ''idx_rules_actions_gin'', ''idx_incidents_status_created''])"
  by code_simp

lemma map_the_res: "map_option f (the_res m) = Some y \<Longrightarrow> \<exists>s. m = Inr s \<and> f s = y"
  by (cases m) (auto simp: the_res_def)

lemmas migrated_facts = map_the_res[OF migrated_report, simplified prod.inject]

text \<open>The three migrations, run in order on an empty database, all succeed. The schema
  they leave is consistent and has exactly the tables the ORM classes declare, with the same unique
  constraints, every declared index, and the same columns (type, nullability, keys and references):
  but for the reference of \<open>api_keys.owner_user_id\<close> to the users, which only the migration has.
  Three indexes exist only in the database.\<close>

theorem migrations_build_the_models:
  "\<exists>s. migrated = Inr s \<and> schema_ok s \<and> agrees s
     \<and> all_drift s = [(''api_keys'', ''owner_user_id'')]
     \<and> undeclared_indexes s = [''idx_rules_conditions_gin'', ''idx_rules_actions_gin'', ''idx_incidents_status_created'']"
proof -
  obtain s where s: "migrated = Inr s" "agrees s" "all_drift s = [(''api_keys'', ''owner_user_id'')]"
    "undeclared_indexes s = [''idx_rules_conditions_gin'', ''idx_rules_actions_gin'', ''idx_incidents_status_created'']"
    using migrated_facts by (auto simp only: prod.inject)
  then have "schema_ok s"
    using ok_run_ops[OF empty_schema_ok] by (simp only: migrated_def)
  with s show ?thesis by blast
qed

text \<open>Property C40: on a consistent schema the downgrades of the first two migrations undo them
  exactly. The downgrade of the third removes the incidents and the reason of the audit log, but
  leaves the activation time of the rule sets as text of any length: from a schema where it was a
  timestamp, as the first migration makes it, the way back ends in a different schema.\<close>

theorem downgrades_undo_upgrades:
  assumes "schema_ok s"
  shows "(run_ops upgrade_0001 s = Inr s' \<longrightarrow> run_ops downgrade_0001 s' = Inr s)
    \<and> (run_ops upgrade_0002 s = Inr s' \<longrightarrow> run_ops downgrade_0002 s' = Inr s)
    \<and> (run_ops upgrade_0003 s = Inr s' \<longrightarrow>
         run_ops downgrade_0003 s' = Inr (change_table ''rule_sets'' (alter_type ''activated_at'' Unbounded_Type) s))"
proof (intro conjI impI)
  show "run_ops downgrade_0001 s' = Inr s" if "run_ops upgrade_0001 s = Inr s'"
    using undo_only_creates[OF first_only_creates assms that] .
  show "run_ops downgrade_0002 s' = Inr s" if "run_ops upgrade_0002 s = Inr s'"
    using undo_only_creates[OF second_only_creates assms that] .
  assume up: "run_ops upgrade_0003 s = Inr s'"
  obtain t where "find_table ''rule_sets'' s = Some t" "''activated_at'' \<in> set (column_names t)"
    using up by (auto simp: upgrade_0003_def bindr_eq_Inr on_table_def simp del: run_ops_simps(3) split: option.splits if_splits)
  then show "run_ops downgrade_0003 s' = Inr (change_table ''rule_sets'' (alter_type ''activated_at'' Unbounded_Type) s)"
    unfolding undo_third[OF assms up] by (simp add: on_table_def)
qed

lemma downgrades_undo_upgrades_witness:
  "\<exists>s1 s2 s3. run_ops upgrade_0001 empty_schema = Inr s1 \<and> run_ops upgrade_0002 s1 = Inr s2 \<and> run_ops upgrade_0003 s2 = Inr s3
     \<and> run_ops downgrade_0001 s1 = Inr empty_schema \<and> run_ops downgrade_0002 s2 = Inr s1
     \<and> run_ops downgrade_0003 s3 = Inr (change_table ''rule_sets'' (alter_type ''activated_at'' Unbounded_Type) s2)
     \<and> run_ops downgrade_0003 s3 \<noteq> Inr s2"
proof -
  obtain s1 s2 s3 where s: "run_ops upgrade_0001 empty_schema = Inr s1" "run_ops upgrade_0002 s1 = Inr s2" "run_ops upgrade_0003 s2 = Inr s3"
  proof -
    obtain s where "migrated = Inr s" using migrated_facts by blast
    then show thesis using that by (auto simp: migrated_def bindr_eq_Inr)
  qed
  note ok1 = ok_run_ops[OF empty_schema_ok s(1)]
  note ok2 = ok_run_ops[OF ok1 s(2)]
  have "map_option (\<lambda>z. change_table ''rule_sets'' (alter_type ''activated_at'' Unbounded_Type) z \<noteq> z)
      (the_res (run_ops (upgrade_0001 @ upgrade_0002) empty_schema)) = Some True"
    by code_simp
  then have "change_table ''rule_sets'' (alter_type ''activated_at'' Unbounded_Type) s2 \<noteq> s2"
    using s by (simp add: the_res_def)
  then show ?thesis
    using s downgrades_undo_upgrades[OF empty_schema_ok, of s1] downgrades_undo_upgrades[OF ok1, of s2]
      downgrades_undo_upgrades[OF ok2, of s3] by auto
qed

end
