(* ===== verification/Api_Responses.thy ===== *)
theory Api_Responses
  imports Api_Agreement
begin

text \<open>
  The response classes of \<open>schemas.py\<close>. The framework checks the dictionary an endpoint
  returns against the class of the route and answers with an internal error when it does not
  fit. A class is modelled as the check of a value: its fields with their types and whether
  they are required; a text, a list and a dictionary are taken only as such. Then which
  decisions can be answered at all.
\<close>

section \<open>Fields\<close>

definition text_field :: "val \<Rightarrow> bool" where
  "text_field v = (case v of PStr _ \<Rightarrow> True | _ \<Rightarrow> False)"

definition int_field :: "val \<Rightarrow> bool" where
  "int_field v = (case v of PInt _ \<Rightarrow> True | _ \<Rightarrow> False)"

definition float_field :: "val \<Rightarrow> bool" where
  "float_field v = (case v of PFloat _ \<Rightarrow> True | PInt _ \<Rightarrow> True | _ \<Rightarrow> False)"

definition bool_field :: "val \<Rightarrow> bool" where
  "bool_field v = (case v of PBool _ \<Rightarrow> True | _ \<Rightarrow> False)"

definition dict_field :: "val \<Rightarrow> bool" where
  "dict_field v = (case v of PDict _ \<Rightarrow> True | _ \<Rightarrow> False)"

definition optional :: "(val \<Rightarrow> bool) \<Rightarrow> val \<Rightarrow> bool" where
  "optional p v = (v = PNone \<or> p v)"

definition list_field :: "(val \<Rightarrow> bool) \<Rightarrow> val \<Rightarrow> bool" where
  "list_field p v = (case v of PList xs \<Rightarrow> list_all p xs | _ \<Rightarrow> False)"

text \<open>A class: its required fields and those with a default; other keys are dropped.\<close>

definition model_field :: "(string \<times> (val \<Rightarrow> bool)) list \<Rightarrow> (string \<times> (val \<Rightarrow> bool)) list \<Rightarrow> val \<Rightarrow> bool" where
  "model_field required defaulted v =
     (case v of
        PDict d \<Rightarrow>
          list_all (\<lambda>(k, p). case map_of d k of None \<Rightarrow> False | Some x \<Rightarrow> p x) required \<and>
          list_all (\<lambda>(k, p). case map_of d k of None \<Rightarrow> True | Some x \<Rightarrow> p x) defaulted
      | _ \<Rightarrow> False)"

lemmas field_defs = text_field_def int_field_def float_field_def bool_field_def dict_field_def optional_def list_field_def
  model_field_def

section \<open>The classes\<close>

definition matched_rule_model :: "val \<Rightarrow> bool" where
  "matched_rule_model = model_field
     [(''rule_code'', text_field), (''name'', text_field), (''family'', text_field), (''priority_weight'', int_field)]
     [(''severity_band'', optional text_field), (''contribution_score'', optional int_field)]"

definition rejected_rule_model :: "val \<Rightarrow> bool" where
  "rejected_rule_model = model_field [(''rule_code'', text_field), (''name'', text_field), (''reason'', text_field)] []"

definition execution_plan_step_model :: "val \<Rightarrow> bool" where
  "execution_plan_step_model = model_field
     [(''order'', int_field), (''action'', text_field), (''type'', text_field)]
     [(''condition'', optional text_field), (''source'', optional text_field)]"

definition decision_response :: "val \<Rightarrow> bool" where
  "decision_response = model_field
     [(''incidentId'', text_field), (''riskScore'', int_field), (''riskBand'', text_field), (''decision'', dict_field),
      (''mitigations'', dict_field), (''executionPlan'', list_field execution_plan_step_model),
      (''matchedRules'', list_field matched_rule_model), (''rejectedRules'', list_field rejected_rule_model),
      (''suppressedRules'', list_field dict_field), (''complianceConstraints'', list_field dict_field),
      (''confidenceScore'', float_field), (''degradedContext'', bool_field), (''explanation'', text_field)]
     [(''priority'', optional text_field), (''aiExplanation'', optional text_field)]"

definition rule_response_model :: "val \<Rightarrow> bool" where
  "rule_response_model = model_field
     [(''id'', optional text_field), (''ruleCode'', text_field), (''name'', text_field), (''description'', text_field),
      (''family'', text_field), (''familyOrder'', int_field), (''priorityWeight'', int_field),
      (''severityBand'', optional text_field), (''contributionScore'', optional int_field), (''conditions'', dict_field),
      (''exceptions'', optional dict_field), (''conflictGroup'', optional text_field),
      (''conflictsWith'', list_field text_field), (''isSuppressor'', bool_field), (''nonSuppressible'', bool_field),
      (''cooldownMinutes'', int_field), (''actions'', dict_field), (''mitigations'', dict_field),
      (''sequencing'', optional dict_field), (''slaTarget'', optional text_field), (''ruleStatus'', text_field),
      (''enabled'', bool_field)] []"

definition rule_pack_response :: "val \<Rightarrow> bool" where
  "rule_pack_response = model_field
     [(''id'', optional text_field), (''name'', text_field), (''version'', int_field), (''status'', text_field),
      (''region'', optional text_field), (''tenantId'', optional text_field), (''parentVersion'', optional int_field),
      (''createdBy'', text_field), (''ruleCount'', int_field), (''activatedAt'', optional text_field)]
     [(''lockVersion'', int_field)]"

definition incident_response :: "val \<Rightarrow> bool" where
  "incident_response = model_field
     [(''incidentId'', text_field), (''status'', text_field), (''region'', optional text_field),
      (''tenantId'', optional text_field), (''payload'', dict_field), (''createdAt'', optional text_field)]
     [(''decision'', optional decision_response)]"

definition rule_pack_ref_response :: "val \<Rightarrow> bool" where
  "rule_pack_ref_response = model_field
     [(''source'', text_field), (''id'', optional text_field), (''name'', text_field), (''version'', int_field),
      (''status'', text_field), (''region'', optional text_field)] []"

definition simulate_response :: "val \<Rightarrow> bool" where
  "simulate_response = model_field [(''decision'', decision_response), (''rulePackUsed'', rule_pack_ref_response)]
     [(''persisted'', bool_field)]"

definition replay_simulation_response :: "val \<Rightarrow> bool" where
  "replay_simulation_response = model_field
     [(''incidentId'', text_field), (''replayedDecision'', decision_response), (''rulePackUsed'', rule_pack_ref_response),
      (''differs'', bool_field), (''differences'', list_field text_field)]
     [(''originalDecision'', optional decision_response)]"

definition rule_pack_diff_entry_response :: "val \<Rightarrow> bool" where
  "rule_pack_diff_entry_response = model_field
     [(''incidentId'', text_field), (''baselinePriority'', optional text_field), (''candidatePriority'', optional text_field),
      (''baselineDecision'', dict_field), (''candidateDecision'', dict_field), (''differs'', bool_field)] []"

definition compare_rule_packs_response :: "val \<Rightarrow> bool" where
  "compare_rule_packs_response = model_field
     [(''baseline'', rule_pack_ref_response), (''candidate'', rule_pack_ref_response), (''totalIncidents'', int_field),
      (''differingCount'', int_field), (''diffs'', list_field rule_pack_diff_entry_response)] []"

section \<open>Which answers fit\<close>

definition text_or_none :: "val \<Rightarrow> bool" where
  "text_or_none = optional text_field"

definition textual_decision :: "decision \<Rightarrow> bool" where
  "textual_decision d \<longleftrightarrow> text_or_none (d_priority d) \<and>
     list_all (\<lambda>s. text_field (ps_action s) \<and> text_field (ps_type s)) (d_execution_plan d)"

lemma list_field_dicts: "list_field p (dicts f xs) = list_all (\<lambda>x. p (PDict (f x))) xs"
  by (simp add: list_field_def dicts_def list_all_length)

lemma opt_val_optional [simp]:
  "optional text_field (opt_val PStr x)" "optional int_field (opt_val PInt y)" "optional dict_field (opt_val PDict z)"
  "optional text_field (opt_val (\<lambda>t. PStr (g t)) u)"
  by (auto simp: optional_def opt_val_def text_field_def int_field_def dict_field_def split: option.splits)

lemma step_fits: "execution_plan_step_model (PDict (plan_step_dict s)) \<longleftrightarrow> text_field (ps_action s) \<and> text_field (ps_type s)"
  by (auto simp: execution_plan_step_model_def plan_step_dict_def optional_field_def model_field_def optional_def int_field_def
      text_field_def split: option.splits val.splits)

lemma decision_fits: "decision_response (PDict (decision_to_dict d x)) \<longleftrightarrow> textual_decision d"
proof -
  have "matched_rule_model (PDict (trace_dict t))" for t
    by (simp add: matched_rule_model_def trace_dict_def model_field_def text_field_def int_field_def)
  moreover have "rejected_rule_model (PDict (rejected_dict r))" for r
    by (simp add: rejected_rule_model_def rejected_dict_def model_field_def text_field_def)
  ultimately show ?thesis
    unfolding decision_response_def decision_to_dict_def textual_decision_def text_or_none_def
    by (simp add: model_field_def list_field_dicts step_fits list_all_iff)
      (auto simp: text_field_def int_field_def dict_field_def bool_field_def float_field_def)
qed

section \<open>Rules whose priorities and sequencing are texts\<close>

definition textual_rule :: "rule \<Rightarrow> bool" where
  "textual_rule r \<longleftrightarrow>
     list_all (\<lambda>(k, v). k = ''priority'' \<longrightarrow> text_or_none v) (actions r) \<and>
     (case sequencing r of None \<Rightarrow> True
      | Some s \<Rightarrow> list_all (\<lambda>(k, v). k = ''tryFirst'' \<or> k = ''fallbackTo'' \<longrightarrow> text_field v) s)"

definition textual_priority :: "dict \<Rightarrow> bool" where
  "textual_priority acts = text_or_none (get_none acts ''priority'')"

lemma text_or_none_simps [simp]: "text_or_none PNone" "text_or_none (PStr s)"
  by (simp_all add: text_or_none_def optional_def text_field_def)

lemma textual_value: "textual_rule r \<Longrightarrow> text_or_none (field_value ''priority'' r)"
  by (auto simp: textual_rule_def field_value_def get_none_def dict_get_def list_all_iff dest: map_of_SomeD split: option.splits)

definition writers_in :: "rule set \<Rightarrow> (string \<times> rule list) list \<Rightarrow> bool" where
  "writers_in S fw = list_all (\<lambda>(f, ws). set ws \<subseteq> S) fw"

lemma writers_in_append: "writers_in S fw \<Longrightarrow> r \<in> S \<Longrightarrow> writers_in S (dict_append f r fw)"
proof -
  assume fw: "writers_in S fw" and r: "r \<in> S"
  have "set (dict_get fw f []) \<subseteq> S"
  proof (cases "map_of fw f")
    case (Some ws)
    then have "(f, ws) \<in> set fw" by (rule map_of_SomeD)
    then show ?thesis using fw Some by (auto simp: writers_in_def list_all_iff dict_get_def)
  qed (simp add: dict_get_def)
  then have ws: "set (dict_get fw f [] @ [r]) \<subseteq> S" using r by simp
  have "writers_in S (dict_set f ws fw)" if "set ws \<subseteq> S" for ws
    using fw that by (induction fw) (auto simp: writers_in_def split: if_splits)
  from this [OF ws] show ?thesis by (simp add: dict_append_def)
qed

lemma writers_in_add: "writers_in S fw \<Longrightarrow> r \<in> S \<Longrightarrow> writers_in S (add_writer r fw)"
proof -
  assume r: "r \<in> S"
  have "writers_in S fw \<Longrightarrow>
      writers_in S (foldl (\<lambda>fw f. if f \<in> set modifier_fields then fw else dict_append f r fw) fw ks)" for ks
    by (induction ks arbitrary: fw) (simp_all add: writers_in_append r)
  then show "writers_in S fw \<Longrightarrow> writers_in S (add_writer r fw)" by (simp add: add_writer_def)
qed

lemma writers_matched: "(f, ws) \<in> set (field_writers matched) \<Longrightarrow> set ws \<subseteq> set matched"
proof -
  have "writers_in S fw \<Longrightarrow> set rs \<subseteq> S \<Longrightarrow> writers_in S (foldl (\<lambda>fw r. add_writer r fw) fw rs)" for S fw rs
    by (induction rs arbitrary: fw) (simp_all add: writers_in_add)
  from this [of "set matched" "[]" matched] show "(f, ws) \<in> set (field_writers matched) \<Longrightarrow> set ws \<subseteq> set matched"
    by (auto simp: field_writers_def writers_in_def list_all_iff)
qed

lemma resolved_textual:
  assumes "resolve_fields fws (acts, supp) = Inr (acts', supp')" and "textual_priority acts"
    and "\<And>f ws. (f, ws) \<in> set fws \<Longrightarrow> \<forall>r \<in> set ws. textual_rule r"
  shows "textual_priority acts'"
  using assms
proof (induction fws arbitrary: acts supp)
  case (Cons fw fws)
  obtain g ws where fw: "fw = (g, ws)" by (cases fw)
  obtain v logged where rf: "resolve_field g ws = Inr (v, logged)"
    and rest: "resolve_fields fws (case v of None \<Rightarrow> acts | Some x \<Rightarrow> dict_set g x acts, supp @ logged) = Inr (acts', supp')"
    using Cons.prems(1) by (auto simp: fw bindr_eq_Inr)
  have "text_or_none x" if "v = Some x" "g = ''priority''" for x
  proof -
    have "x \<in> field_value ''priority'' ` set ws"
      using resolve_field_provenance [OF rf] apply_suppression_subset [of g ws] that by auto
    then show ?thesis using Cons.prems(3) [of g ws] fw textual_value by auto
  qed
  then have "textual_priority (case v of None \<Rightarrow> acts | Some x \<Rightarrow> dict_set g x acts)"
    using Cons.prems(2) by (auto simp: textual_priority_def get_none_def dict_get_set split: option.splits)
  from Cons.IH [OF rest this] Cons.prems(3) show ?case by auto
qed simp

lemma post_textual:
  assumes "apply_priority_postprocessing acts matched = Inr acts'" and "textual_priority acts"
  shows "textual_priority acts'"
proof -
  have floor: "raise_to_floor fs c = Inr x \<Longrightarrow> text_or_none c \<Longrightarrow> text_or_none x" for fs c x
    by (auto simp: raise_to_floor_def bindr_eq_Inr Let_def split: if_splits list.splits)
  have bumped: "bump_priority n c = Inr x \<Longrightarrow> text_or_none c \<Longrightarrow> text_or_none x" for n c x
    by (auto simp: bump_priority_def bindr_eq_Inr split: if_splits)
  show ?thesis
    using assms by (auto simp: apply_priority_postprocessing_def Let_def bindr_eq_Inr textual_priority_def get_none_def
        dict_get_set dest!: floor bumped split: if_splits)
qed

lemma update_textual:
  assumes "textual_priority acts" and "list_all (\<lambda>(k, v). k = ''priority'' \<longrightarrow> text_or_none v) e"
  shows "textual_priority (dict_update acts e)"
  using assms
  by (induction acts e rule: dict_update.induct) (auto simp: textual_priority_def get_none_def dict_get_set)

lemma compliance_textual:
  assumes "compliance_apply pack inc acts = Inr (acts', cs)" and "textual_priority acts" and "list_all textual_rule (rules pack)"
  shows "textual_priority acts'"
proof -
  have "\<forall>r \<in> set (active_rules pack (Some ''COMPLIANCE'')). textual_rule r"
    using assms(3) by (auto simp: set_active_rules list_all_iff)
  moreover have "textual_priority (fst (acts', cs))" if all: "\<forall>r \<in> set rs. textual_rule r"
    and run: "foldr_res (compliance_step data) rs (acts, []) = Inr (acts', cs)" for rs data
    using run
    by (rule foldr_res_invariant [where P = "\<lambda>st. textual_priority (fst st)"])
      (use all assms(2) in \<open>auto simp: compliance_step_def bindr_eq_Inr textual_rule_def intro!: update_textual split: if_splits prod.splits\<close>)
  ultimately show ?thesis using assms(1) by (auto simp: compliance_apply_def)
qed

lemma sla_textual: "fill_sla matrix inc acts = Inr acts' \<Longrightarrow> textual_priority acts \<Longrightarrow> textual_priority acts'"
  by (auto simp: fill_sla_def bindr_eq_Inr textual_priority_def get_none_def dict_get_set split: option.splits if_splits)

definition textual_plan :: "plan_step list \<Rightarrow> bool" where
  "textual_plan plan = list_all (\<lambda>s. text_field (ps_action s) \<and> text_field (ps_type s)) plan"

lemma sequencing_item:
  assumes "textual_rule r" and "sequencing r = Some s" and "get_item s k = Inr v" and "k = ''tryFirst'' \<or> k = ''fallbackTo''"
  shows "text_field v"
  using assms by (auto simp: textual_rule_def get_item_def list_all_iff dest!: map_of_SomeD split: option.splits)

lemma sequencing_step_textual:
  assumes "has_sequencing r" and "textual_rule r" and "textual_plan (fst st)" and "sequencing_step r st = Inr st'"
  shows "textual_plan (fst st')"
proof -
  obtain s where s: "sequencing r = Some s" using assms(1) by (auto simp: has_sequencing_def split: option.splits)
  show ?thesis
    using assms(3,4) sequencing_item [OF assms(2) s]
    by (auto simp: sequencing_step_def s Let_def bindr_eq_Inr textual_plan_def split: if_splits prod.splits)
qed

lemma plan_textual:
  assumes "build_plan acts matched = Inr plan" and "\<forall>r \<in> set matched. textual_rule r"
  shows "textual_plan plan"
proof -
  obtain p ins where p: "foldr_res sequencing_step (filter has_sequencing matched) ([], []) = Inr (p, ins)"
    and plan: "plan = foldl (precedence_step acts ins) p base_precedence"
    using assms(1) by (auto simp: build_plan_def bindr_eq_Inr)
  have "textual_plan (fst (p, ins))"
    using p by (rule foldr_res_invariant [where P = "\<lambda>st. textual_plan (fst st)"])
      (use assms(2) sequencing_step_textual in \<open>auto simp: textual_plan_def\<close>)
  moreover have "textual_plan q \<Longrightarrow> textual_plan (foldl (precedence_step acts ins) q fs)" for q fs
    by (induction fs arbitrary: q) (auto simp: precedence_step_def text_field_def textual_plan_def)
  ultimately show ?thesis by (simp add: plan)
qed

lemma run_textual:
  assumes "run matrix t0 inc pack = Inr d" and "list_all textual_rule (rules pack)"
  shows "textual_decision d"
proof -
  obtain matched rejected acts0 mits supp acts1 cs acts plan conf where
    m: "policy_evaluate pack inc = Inr (matched, rejected)" and r: "resolve matched = Inr (acts0, mits, supp)"
    and c: "compliance_apply pack inc acts0 = Inr (acts1, cs)" and f: "fill_sla matrix inc acts1 = Inr acts"
    and p: "build_plan acts matched = Inr plan" and d: "d_priority d = get_none acts ''priority''" "d_execution_plan d = plan"
    using assms(1) by (cases "risk_score matched (map s_rule_code supp)") (auto simp: run_def bindr_eq_Inr Let_def split_def)
  have all: "\<forall>r \<in> set matched. textual_rule r"
    using assms(2) policy_evaluate_eq(1) [OF m] by (auto simp: set_active_rules list_all_iff)
  obtain acts' where rf: "resolve_fields (field_writers matched) ([], []) = Inr (acts', supp)"
    and post: "apply_priority_postprocessing acts' matched = Inr acts0"
    using r by (auto simp: resolve_def bindr_eq_Inr)
  have "textual_priority acts'"
  proof (rule resolved_textual [OF rf])
    show "\<forall>r \<in> set ws. textual_rule r" if "(f, ws) \<in> set (field_writers matched)" for f ws
      using all writers_matched [OF that] by blast
  qed (simp add: textual_priority_def get_none_def dict_get_def)
  then have "textual_priority acts"
    using sla_textual [OF f] compliance_textual [OF c _ assms(2)] post_textual [OF post] by blast
  then show ?thesis
    using plan_textual [OF p all] by (simp add: textual_decision_def textual_plan_def d textual_priority_def)
qed

section \<open>The endpoints\<close>

lemma incident_fits:
  "incident_response (PDict (incident_to_dict isof inc od x)) \<longleftrightarrow> (case od of None \<Rightarrow> True | Some d \<Rightarrow> textual_decision d)"
proof -
  have "optional decision_response (opt_val (\<lambda>d. PDict (decision_to_dict d x)) od) \<longleftrightarrow>
      (case od of None \<Rightarrow> True | Some d \<Rightarrow> textual_decision d)"
    by (simp add: optional_def opt_val_def decision_fits split: option.splits)
  then show ?thesis
    unfolding incident_response_def incident_to_dict_def
    by (simp add: model_field_def) (auto simp: text_field_def dict_field_def)
qed

lemma pack_ref_fits: "rule_pack_ref_response (PDict (rule_pack_ref_dict p src))"
  unfolding rule_pack_ref_response_def rule_pack_ref_dict_def
  by (simp add: model_field_def) (auto simp: text_field_def int_field_def)

lemma what_if_fits: "simulate_response (PDict (what_if_result_to_dict (d, rule_pack_ref_dict p src))) \<longleftrightarrow> textual_decision d"
  unfolding simulate_response_def what_if_result_to_dict_def
  by (simp add: model_field_def pack_ref_fits decision_fits bool_field_def)

lemma rule_fits:
  "rule_response_model (PDict (rule_to_dict r)) \<longleftrightarrow> dict_field (conditions r) \<and> (case exceptions r of None \<Rightarrow> True | Some e \<Rightarrow> optional dict_field e)"
proof -
  have "optional dict_field (opt_val (\<lambda>t. t) (exceptions r)) \<longleftrightarrow> (case exceptions r of None \<Rightarrow> True | Some e \<Rightarrow> optional dict_field e)"
    by (auto simp: optional_def opt_val_def split: option.splits)
  moreover have "list_field text_field (PList (map PStr xs))" for xs
    by (simp add: list_field_def text_field_def list_all_length)
  ultimately show ?thesis
    unfolding rule_response_model_def rule_to_dict_def
    by (simp add: model_field_def) (auto simp: text_field_def int_field_def bool_field_def dict_field_def)
qed

lemma rule_pack_fits: "rule_pack_response (PDict (rule_pack_to_dict isof p))"
  unfolding rule_pack_response_def rule_pack_to_dict_def
  by (simp add: model_field_def) (auto simp: text_field_def int_field_def)

text \<open>
  Property C15: where every rule of the policy writes texts or nothing as priority and names
  texts in its sequencing, the answer of the evaluation endpoint and that of the creation of an
  incident fit the classes of their routes, whatever the incident, the context and the AI
  provider, so that no decision that was taken and stored is lost on its way out. In general a
  decision can be answered exactly when its priority and the steps of its plan are texts.
\<close>
theorem textual_policies_are_answered:
  assumes policy: "\<forall>reg ten p. ev_source (sv_evaluator sv) reg ten = Inr p \<longrightarrow> list_all textual_rule (rules p)"
  shows "(\<forall>b ds'. evaluate_incident_endpoint env sv ri q explain ds = (Inr b, ds') \<longrightarrow> decision_response (PDict b)) \<and>
    (\<forall>b is' ds'. create_incident_endpoint env sv ri c is ds = (Inr b, is', ds') \<longrightarrow> incident_response (PDict b)) \<and>
    (\<forall>d x. decision_response (PDict (decision_to_dict d x)) \<longleftrightarrow> textual_decision d)"
proof (intro conjI allI impI)
  have eval: "textual_decision d" if "evaluate_incident (sv_evaluator sv) t0 inc reg ten ods = (Inr d, inc', ods')"
    for t0 inc reg ten ods d inc' ods'
    using that policy run_textual by (fastforce simp: evaluate_incident_def Let_def bindr_eq_Inr split: sum.splits)
  show "decision_response (PDict b)" if ans: "evaluate_incident_endpoint env sv ri q explain ds = (Inr b, ds')" for b ds'
  proof -
    obtain d inc' where "evaluate_incident (sv_evaluator sv) (ri_now ri) (incident_from_request q) None None (Some ds) = (Inr d, inc', ds')"
      and "b = decision_to_dict d (narrate (sv_ai sv) explain d)"
      using ans by (auto simp: evaluate_incident_endpoint_def bindr_eq_Inr split: sum.splits prod.splits)
    then show ?thesis using eval by (simp add: decision_fits)
  qed
  show "incident_response (PDict b)" if ans: "create_incident_endpoint env sv ri c is ds = (Inr b, is', ds')" for b is' ds'
  proof -
    obtain inc od where "fst (create_incident (sv_evaluator sv) (ri_now ri) (ic_incidentId c) (created_payload c)
          (ic_region c) (ic_tenantId c) (ic_context c) (ic_evaluate c) is (Some ds)) = Inr (inc, od)"
      and b: "b = incident_to_dict (ae_isoformat env) inc od None"
      using ans by (auto simp: create_incident_endpoint_def any_error_as_def bindr_eq_Inr split: sum.splits prod.splits)
    then have "case od of None \<Rightarrow> True | Some d \<Rightarrow> textual_decision d"
      using eval by (auto simp: create_incident_def Let_def split: sum.splits prod.splits if_splits option.splits)
    then show ?thesis by (simp add: b incident_fits)
  qed
  show "decision_response (PDict (decision_to_dict d x)) \<longleftrightarrow> textual_decision d" for d x by (rule decision_fits)
qed

lemma textual_policies_are_answered_witness:
  "\<exists>b b'. fst (evaluate_incident_endpoint (w_env [''operator'']) (w_service None) w_request w_evaluate False []) = Inr b \<and>
     decision_response (PDict b) \<and>
     fst (create_incident_endpoint (w_env [''operator'']) (w_service None) w_request w_create [] []) = Inr b' \<and>
     incident_response (PDict b')"
proof -
  let ?e = "evaluate_incident_endpoint (w_env [''operator'']) (w_service None) w_request w_evaluate False []"
  let ?c = "create_incident_endpoint (w_env [''operator'']) (w_service None) w_request w_create [] []"
  have "is_ok (fst ?e)" "is_ok (fst ?c)" by code_simp+
  then obtain b ds b' s ds' where e: "?e = (Inr b, ds)" and c: "?c = (Inr b', s, ds')"
    by (cases ?e; cases ?c) (auto simp: is_ok_iff)
  have "list_all textual_rule (rules w_tests)" by code_simp
  then have src: "\<forall>reg ten p. ev_source (sv_evaluator (w_service None)) reg ten = Inr p \<longrightarrow> list_all textual_rule (rules p)"
    by (simp add: w_service_def)
  show ?thesis using textual_policies_are_answered [OF src] e c by fastforce
qed

text \<open>
  A pack that passes validation and gives a number as priority: the decision is taken and
  stored, but neither the evaluation nor the later reading of the decision can be answered.
\<close>

definition w_numeric :: rule_pack where
  "w_numeric = new_pack ''p'' 1 ACTIVE None [(w_rule ''R1'' 5 [(''priority'', PInt 1)])\<lparr>conditions := PBool True\<rparr>]"

lemma numeric_priority_is_not_answered:
  "is_valid w_numeric \<and>
   (let sv = (w_service None)\<lparr>sv_evaluator := \<lparr>ev_source = \<lambda>_ _. Inr w_numeric, ev_matrix = None, ev_providers = None\<rparr>\<rparr>
    in case evaluate_incident_endpoint (w_env [''operator'']) sv w_request w_evaluate False [] of
         (Inr b, Some ds) \<Rightarrow> \<not> decision_response (PDict b) \<and>
           map d_priority (decision_list_by_incident ds ''I1'') = [PInt 1] \<and>
           (case get_decision_endpoint (w_env [''operator'']) w_request ''I1'' ds of
              Inr c \<Rightarrow> \<not> decision_response (PDict c) | Inl _ \<Rightarrow> False)
       | _ \<Rightarrow> False)"
  by code_simp

end
