(* ===== verification/Spec2Isabelle.thy ===== *)
theory Spec2Isabelle
  imports Sweep_Progress Scripts Usage_Log Db_Migrations Api_Responses
begin

text \<open>
  Pulse Guard, decision automation for network incidents: verification library.

  \<^bold>\<open>The program.\<close> An incident (a JSON payload) is enriched with context, judged by the
  active rules of a rule pack and turned into a decision: which actions, at which priority,
  with which plan and explanation. Rule packs are versioned, edited and activated at run time
  and reach the hot path through two caches. Scheduled jobs raise the priority of overdue
  decisions and escalate unacknowledged ones. An HTTP layer authenticates callers and checks
  permissions. All paths below are relative to \<open>src/app\<close>.

  \<^bold>\<open>Foundations.\<close> \<open>Prelude\<close> has the result type (\<open>Inl\<close> an exception, \<open>Inr\<close> a
  value), the loops that stop at an exception, ordered dictionaries and \<open>min\<close>/\<open>max\<close> by a
  key. \<open>Py_Value\<close> models the Python values a JSON document and a rule can hold: unbounded
  integers, doubles as rationals rounded to 53 bits with infinities and NaN, Python's
  equality, ordering, truth and hashing, and the exceptions the code raises or lets pass.
  \<open>Py_Text\<close> has the text operations and the texts of numbers. Characters are those of HOL,
  so case mapping and white space are those of ASCII.

  \<^bold>\<open>The decision pipeline.\<close>
  \<^item> \<open>Engine\<close>: \<open>engine/\<close> and \<open>rule_condition.py\<close>, the JsonLogic interpreter with its
    operator registry. Conditions read only the variables they name; well-formed ones never
    raise; what a missing field does; a condition that validation accepts and that raises.
  \<^item> \<open>Rule_Model\<close>: the entities \<open>rule.py\<close>, \<open>rule_pack.py\<close>, \<open>incident.py\<close>,
    \<open>decision.py\<close>, the table of status transitions and the order of evaluation.
  \<^item> \<open>Conflict_Resolver\<close>, \<open>Resolver_Properties\<close>: \<open>conflict_resolver.py\<close>. Where each
    resolved value comes from, who wins a conflict group, and that priority floors and bumps
    refine maximum and saturating increment on a four-point scale.
  \<^item> \<open>Decision_Services\<close>: the services around the resolver (\<open>policy_engine.py\<close>,
    \<open>compliance_applier.py\<close>, \<open>risk_scorer.py\<close>, \<open>execution_plan_builder.py\<close>,
    \<open>confidence_calculator.py\<close>, \<open>sla_matrix_lookup.py\<close>,
    \<open>context_aggregation_service.py\<close> and the stub context providers).
  \<^item> \<open>Orchestrator\<close>: \<open>orchestrator.py\<close>, the whole run. Rules that do not apply leave
    the decision alone, and the SLA matrix only fills gaps.

  \<^bold>\<open>State and use cases.\<close>
  \<^item> \<open>Stores\<close>: the other entities and the in-memory repositories, under two contracts
    (locales \<open>history_store\<close> and \<open>keyed_store\<close>) discharged for each repository.
  \<^item> \<open>Evaluation\<close>: \<open>evaluate_incident.py\<close>, \<open>manage_incidents.py\<close>,
    \<open>bulk_evaluate.py\<close>, \<open>decision_distribution.py\<close>.
  \<^item> \<open>Simulation\<close>: \<open>rule_pack_resolution.py\<close>, \<open>simulate_rules.py\<close>,
    \<open>replay_simulation.py\<close>, \<open>compare_rule_packs.py\<close>, \<open>promote_to_shadow.py\<close> and the
    shadow runner. Replaying what was just evaluated reproduces the recorded decision.
  \<^item> \<open>Jobs\<close>, \<open>Sweep_Progress\<close>: \<open>jobs/\<close>, acknowledgement and override. One sweep
    moves a priority by one level; repeated sweeps reach Critical and open every level, and
    then come to rest.

  \<^bold>\<open>Rule packs.\<close>
  \<^item> \<open>Rule_Json\<close>: rules and packs as JSON documents (\<open>rule_snapshot.py\<close> and the
    serialisers of \<open>rule_pack_lifecycle.py\<close>).
  \<^item> \<open>Validation\<close>: \<open>validate_rule_pack.py\<close>.
  \<^item> \<open>Pack_Repository\<close>: \<open>in_memory_rule_pack_repository.py\<close> with a heap of packs,
    because callers keep and mutate the stored objects. \<open>repo_ok\<close> is its invariant and
    \<open>view\<close> the map from name and version to pack that the proofs use.
  \<^item> \<open>Lifecycle\<close>, \<open>Lifecycle_Safety\<close>: every use case of \<open>rule_pack_lifecycle.py\<close>,
    \<open>rollback_rule_pack.py\<close> and \<open>manage_rules.py\<close> with its audit records and events, and
    what holds in every state reachable through them: one active version per name, active
    packs validated as long as no rollback is used, statuses along the table, stale writers
    refused; and the ways a draft does go live.
  \<^item> \<open>Seeding\<close>: \<open>seed_active_policy.py\<close>. \<open>Loaders\<close>: the transpilers of the shipped
    rule documents and the composite repository, with the faithfulness of prefix stripping
    and the isolation of the namespaced packs.

  \<^bold>\<open>Caches and storage.\<close>
  \<^item> \<open>Ttl_Cache\<close>: \<open>core/cache.py\<close>. \<open>Rule_Cache\<close>, \<open>Cache_Properties\<close>:
    \<open>rule_cache.py\<close>, \<open>redis_cache_backend.py\<close> and the notifier. A cached pack decides as
    the original, the pointer swap is atomic, a cache that served keeps serving, and what an
    event does.
  \<^item> \<open>Uuid\<close>, \<open>Db_Rows\<close>, \<open>Db_Mapping\<close>, \<open>Db_Properties\<close>: the tables of
    \<open>db/models.py\<close> as records and the mappers of \<open>db/mappers.py\<close>. The locale
    \<open>row_mapper\<close> is their contract; packs and decisions survive storage, some ids do not.
  \<^item> \<open>Db_Packs\<close>, \<open>Db_Pack_Properties\<close>, \<open>Db_Races\<close>:
    \<open>postgres_rule_pack_repository.py\<close> and \<open>postgres_rule_repository.py\<close>. A write loads
    rows, changes them and commits, and what other sessions commit in between is an argument.
    The repository refines \<open>Pack_Repository\<close> (\<open>represents\<close> relates rows to packs); an
    outdated writer is refused, but two activations that start together leave two versions
    active, rule edits are not guarded, and a deleted version that is activated again leaves
    evaluations without a policy.
  \<^item> \<open>Db_Tables\<close>: the other Postgres repositories over a table. The decision history agrees
    with the in-memory one; saved incidents and roles are found again.
  \<^item> \<open>Db_Schema\<close>, \<open>Db_Migrations\<close>: the migrations (\<open>src/migrations\<close>) as operations
    on a schema and the tables, columns and indexes the ORM classes declare. Every operation
    keeps a schema consistent (\<open>schema_ok\<close>), a migration that only creates tables is undone
    by its downgrade, and the migrated schema is the declared one up to listed differences.
  \<^item> \<open>Scripts\<close>: \<open>src/scripts\<close>, the catalogue of roles and permissions, the escalation
    policies and the base pack. Running the catalogue script again adds nothing.

  \<^bold>\<open>Security.\<close> \<open>Security\<close>: \<open>core/security.py\<close>, \<open>interfaces/api/security.py\<close>,
  \<open>auth_router.py\<close>, registration, login and keys, and the rate limiter.

  \<^bold>\<open>AI assistance and the HTTP interface.\<close>
  \<^item> \<open>Ai_Assist\<close>: \<open>stub_ai_provider.py\<close> and the use cases that call a provider.
    A provider is a record of functions; drafts are proposals with the validator's verdict.
  \<^item> \<open>Api_Schemas\<close>: the request classes of \<open>schemas.py\<close> as records and the response
    dictionaries of \<open>serializers.py\<close>.
  \<^item> \<open>Api_Rules\<close>, \<open>Api_Properties\<close>: every endpoint of \<open>rule_pack_router.py\<close> and
    \<open>rule_router.py\<close> as a function on the platform of \<open>Lifecycle\<close>, with \<open>route\<close> for
    the router and \<open>serve\<close> for the application. Changes are authorised, recorded and
    transitions of \<open>Lifecycle_Safety\<close>; only the permissions to activate and to roll back
    change the policy in force; a posted rule reads back; no request crashes.
  \<^item> \<open>Api_Incidents\<close>, \<open>Api_Agreement\<close>: the endpoints of \<open>incident_router.py\<close>,
    \<open>decision_router.py\<close>, \<open>simulation_router.py\<close> and \<open>ai_router.py\<close>. A narration is
    additive; where a what-if agrees with the evaluation and where endpoints disagree.
  \<^item> \<open>Api_Responses\<close>: the response classes of \<open>schemas.py\<close> as checks, and which
    decisions fit them.
  \<^item> \<open>App_Settings\<close>: \<open>core/settings.py\<close>. \<open>Ai_Providers\<close>, \<open>Ai_Failures\<close>: the
    prompts, the two HTTP providers, \<open>extract_json_object\<close> and the factory; an object is
    found in prose and fences, and what the AI endpoints answer when the model fails.
  \<^item> \<open>Usage_Log\<close>: \<open>usage_logger.py\<close>, its entries, its file and the wrapper around a
    provider. Logging is transparent and numbers the entries; a torn entry and a title with
    a line break spoil the numbers.
  \<^item> \<open>Startup\<close>: what \<open>dependencies.py\<close> selects by the settings, the response
    headers, and \<open>lifespan.py\<close> with the seeding of the database. The first start serves a
    policy; a restart does not repair a deleted one.

  \<^bold>\<open>Parameters.\<close> Code outside the repository is an argument of the definitions that use
  it: the key derivation function, the JWT codec, the Redis client, \<open>datetime.fromisoformat\<close>,
  the HTTP client and the JSON decoder of the AI providers, \<open>json.dumps\<close> and the faults of the
  disk in the usage log.
  The session of SQLAlchemy is one too. Where a theorem relies on them the laws are hypotheses.
  \<open>redis_laws\<close>: a successful \<open>SET\<close> stores its value and touches no other key, and a
  failed one stores nothing. \<open>session_laws\<close>: ids are distinct; a commit updates a row whose
  columns changed only if it still has the lock version that was loaded, and counts it up; rules
  are read back in any order. \<open>available\<close>: a change of status alone is not refused by the
  database. \<open>table_laws\<close>: a commit adds or replaces its row. Each has an instance on lists. Clock readings, fresh UUIDs, salts and elapsed times are arguments. No definition
  uses fuel: every loop of the program is bounded by its data and is a structural or measured
  recursion here. Instants are integers of microseconds.

  \<^bold>\<open>Not modelled.\<close> Threads and locks: each operation is one step. Logging, metrics and
  tracing. What SQL and SQLAlchemy do beyond the laws above: constraints, connections,
  isolation, column coercions (widths of texts and numbers). The DDL of the migrations has the
  documented failures of PostgreSQL for missing, existing and referenced relations; extensions,
  types of other databases and the conversion of stored values are left out. FastAPI and
  Pydantic: routing, the parsing and rejection of bodies, conversions between types in responses,
  documentation pages; the use-case objects of the composition root are the calls of the
  endpoints, and the two responses whose keys are priorities are given as the records they list.
  Reading the environment (\<open>pydantic-settings\<close>), Alembic's \<open>env.py\<close>. JSON and file
  decoding: operations on documents start from decoded values, and a field of
  another type than its declaration is a \<open>TypeError\<close> of that document.
\<close>

end
